(* ===== verification/Prelude.thy ===== *)
theory Prelude
  imports Main "HOL-Library.Finite_Map" "HOL-Library.Char_ord" "HOL-Library.List_Lexorder"
begin

text \<open>
  What every component shares: the collections of lemmas the proofs use, Go's strings
  (byte strings, with the ASCII part of the case and white-space functions of package
  \<open>strings\<close>), Go's 64-bit durations, instants, and finite maps.

  Strings are \<open>char list\<close>, one \<open>char\<close> per byte. \<open>strings.ToLower\<close>, \<open>strings.EqualFold\<close>
  and \<open>strings.TrimSpace\<close> are modelled on ASCII: a byte above 127 has no case and is no
  white space.

  An instant is an \<open>int\<close>, nanoseconds since Go's zero instant, so that the zero value
  \<open>time.Time{}\<close> is \<open>0\<close>. A duration is an \<open>int\<close> in the range of \<open>int64\<close>; where the code
  multiplies or shifts a duration the wrap-around is written out with \<open>wrap64\<close>.
\<close>

named_theorems frame "which part of the state an operation leaves alone"
named_theorems spec_iff "an operation with effects decides the same as its pure specification"

section \<open>Results\<close>

type_synonym time = int
type_synonym duration = int

definition wrap64 :: "int \<Rightarrow> int" where
  "wrap64 x = signed_take_bit 63 x"

abbreviation second :: duration where "second \<equiv> 1000000000"
abbreviation minute :: duration where "minute \<equiv> 60 * 1000000000"
abbreviation hour :: duration where "hour \<equiv> 3600 * 1000000000"

lemma wrap64_id: "- (2 ^ 63) \<le> x \<Longrightarrow> x < 2 ^ 63 \<Longrightarrow> wrap64 x = x"
  by (simp add: wrap64_def signed_take_bit_int_eq_self)

lemma wrap64_range: "- (2 ^ 63) \<le> wrap64 x \<and> wrap64 x < 2 ^ 63"
  unfolding wrap64_def
  using signed_take_bit_int_less_exp [of 63 x] signed_take_bit_int_greater_eq_minus_exp [of 63 x]
  by simp

fun is_ok :: "'e + 'a \<Rightarrow> bool" where
  "is_ok (Inl _) = False"
| "is_ok (Inr _) = True"

lemma is_ok_iff: "is_ok r \<longleftrightarrow> (\<exists>x. r = Inr x)"
  by (cases r) auto

section \<open>Strings\<close>

definition lower_char :: "char \<Rightarrow> char" where
  "lower_char c = (if CHR ''A'' \<le> c \<and> c \<le> CHR ''Z'' then char_of (of_char c + (32 :: nat)) else c)"

definition to_lower :: "string \<Rightarrow> string" where
  "to_lower s = map lower_char s"

definition equal_fold :: "string \<Rightarrow> string \<Rightarrow> bool" where
  "equal_fold s t \<longleftrightarrow> to_lower s = to_lower t"

definition is_space :: "char \<Rightarrow> bool" where
  "is_space c \<longleftrightarrow> c = CHR '' '' \<or> (CHR 0x09 \<le> c \<and> c \<le> CHR 0x0D)"

definition trim_left :: "string \<Rightarrow> string" where
  "trim_left s = dropWhile is_space s"

definition trim_space :: "string \<Rightarrow> string" where
  "trim_space s = rev (trim_left (rev (trim_left s)))"

text \<open>\<open>strings.Cut\<close> at a one-byte separator: the text before and after its first occurrence.\<close>

fun cut :: "char \<Rightarrow> string \<Rightarrow> (string \<times> string) option" where
  "cut c [] = None"
| "cut c (x # xs) =
     (if x = c then Some ([], xs)
      else (case cut c xs of None \<Rightarrow> None | Some (a, b) \<Rightarrow> Some (x # a, b)))"

text \<open>\<open>strings.Split\<close> at a one-byte separator; the result is never empty.\<close>

fun split_on :: "char \<Rightarrow> string \<Rightarrow> string list" where
  "split_on c [] = [[]]"
| "split_on c (x # xs) =
     (if x = c then [] # split_on c xs
      else (case split_on c xs of [] \<Rightarrow> [[x]] | w # ws \<Rightarrow> (x # w) # ws))"

text \<open>\<open>strings.FieldsFunc\<close>: the maximal runs of bytes that are no separator.\<close>

definition fields_func :: "(char \<Rightarrow> bool) \<Rightarrow> string \<Rightarrow> string list" where
  "fields_func p s =
     filter (\<lambda>w. w \<noteq> [])
       (foldr (\<lambda>x ws. if p x then [] # ws
                      else (case ws of [] \<Rightarrow> [[x]] | w # ws' \<Rightarrow> (x # w) # ws')) s [[]])"

fun join :: "string \<Rightarrow> string list \<Rightarrow> string" where
  "join sep [] = []"
| "join sep [w] = w"
| "join sep (w # ws) = w @ sep @ join sep ws"

definition has_prefix :: "string \<Rightarrow> string \<Rightarrow> bool" where
  "has_prefix p s \<longleftrightarrow> take (length p) s = p"

definition has_suffix :: "string \<Rightarrow> string \<Rightarrow> bool" where
  "has_suffix q s \<longleftrightarrow> has_prefix (rev q) (rev s)"

definition is_digit :: "char \<Rightarrow> bool" where
  "is_digit c \<longleftrightarrow> CHR ''0'' \<le> c \<and> c \<le> CHR ''9''"

definition digit_val :: "char \<Rightarrow> int" where
  "digit_val c = of_char c - 48"

lemma lower_char_idem [simp]: "lower_char (lower_char c) = lower_char c"
proof (cases "CHR ''A'' \<le> c \<and> c \<le> CHR ''Z''")
  case True
  let ?n = "of_char c :: nat"
  from True have b: "65 \<le> ?n" "?n \<le> 90"
    by (simp_all add: less_eq_char_def)
  have "of_char (char_of (?n + 32) :: char) = ?n + 32"
    using b by simp
  moreover have "\<not> (of_char (char_of (?n + 32) :: char) \<le> (90 :: nat))"
    using b by simp
  ultimately show ?thesis
    using True by (simp add: lower_char_def less_eq_char_def)
next
  case False
  then have "lower_char c = c" unfolding lower_char_def by (rule if_not_P)
  then show ?thesis by simp
qed

lemma to_lower_idem [simp]: "to_lower (to_lower s) = to_lower s"
  by (simp add: to_lower_def)

lemma length_to_lower [simp]: "length (to_lower s) = length s"
  by (simp add: to_lower_def)

lemma equal_fold_refl [simp]: "equal_fold s s"
  by (simp add: equal_fold_def)

lemma equal_fold_sym: "equal_fold s t \<longleftrightarrow> equal_fold t s"
  by (auto simp: equal_fold_def)

lemma set_trim_left: "set (trim_left s) \<subseteq> set s"
  by (auto simp: trim_left_def dest: set_dropWhileD)

lemma set_trim_space: "set (trim_space s) \<subseteq> set s"
  using set_trim_left [of s] set_trim_left [of "rev (trim_left s)"]
  by (auto simp: trim_space_def)

lemma length_trim_space: "length (trim_space s) \<le> length s"
proof -
  have "length (trim_left s) \<le> length s" for s :: string
    by (simp add: trim_left_def length_dropWhile_le)
  from this [of "rev (trim_left s)"] this [of s] show ?thesis
    by (simp add: trim_space_def)
qed

lemma cut_Some: "cut c s = Some (a, b) \<Longrightarrow> s = a @ c # b \<and> c \<notin> set a"
  by (induction s arbitrary: a b) (auto split: if_splits option.splits)

lemma cut_None: "cut c s = None \<longleftrightarrow> c \<notin> set s"
  by (induction s) (auto split: option.splits)

lemma cut_append: "c \<notin> set a \<Longrightarrow> cut c (a @ c # b) = Some (a, b)"
  by (induction a) auto

lemma split_on_nonempty [simp]: "split_on c s \<noteq> []"
  by (induction s) (auto split: list.splits)

lemma split_on_no_sep: "w \<in> set (split_on c s) \<Longrightarrow> c \<notin> set w"
  by (induction s arbitrary: w) (fastforce split: if_splits list.splits)+

text \<open>A text of lines, each ended by the separator, splits into its lines and an empty rest.\<close>

lemma split_on_append: "c \<notin> set w \<Longrightarrow> split_on c (w @ c # s) = w # split_on c s"
  by (induction w) auto

lemma split_line_list:
  "list_all (\<lambda>l. c \<notin> set l) ls \<Longrightarrow> split_on c (concat (map (\<lambda>l. l @ [c]) ls)) = ls @ [[]]"
  by (induction ls) (simp_all add: split_on_append)

section \<open>Finite maps\<close>

text \<open>
  Go's maps are finite maps. Dropping the entries a loop deletes while it iterates over a
  map is \<open>fm_keep\<close>; rewriting each entry and deleting some is \<open>fm_update\<close>. \<open>fm_size\<close> is Go's
  \<open>len\<close>.
\<close>

definition fm_keep :: "('v \<Rightarrow> bool) \<Rightarrow> ('k, 'v) fmap \<Rightarrow> ('k, 'v) fmap" where
  "fm_keep P m = fmfilter (\<lambda>k. case fmlookup m k of None \<Rightarrow> False | Some v \<Rightarrow> P v) m"

definition fm_update :: "('v \<Rightarrow> 'w option) \<Rightarrow> ('k, 'v) fmap \<Rightarrow> ('k, 'w) fmap" where
  "fm_update f m = fmmap (\<lambda>v. the (f v)) (fm_keep (\<lambda>v. f v \<noteq> None) m)"

definition fm_size :: "('k, 'v) fmap \<Rightarrow> nat" where
  "fm_size m = fcard (fmdom m)"

definition fm_get :: "'v \<Rightarrow> ('k, 'v) fmap \<Rightarrow> 'k \<Rightarrow> 'v" where
  "fm_get d m k = (case fmlookup m k of None \<Rightarrow> d | Some v \<Rightarrow> v)"

lemma fmlookup_keep [simp]:
  "fmlookup (fm_keep P m) k =
     (case fmlookup m k of None \<Rightarrow> None | Some v \<Rightarrow> if P v then Some v else None)"
  by (auto simp: fm_keep_def split: option.splits)

lemma fmlookup_update [simp]:
  "fmlookup (fm_update f m) k = (case fmlookup m k of None \<Rightarrow> None | Some v \<Rightarrow> f v)"
  by (auto simp: fm_update_def split: option.splits)

lemma fmdom_keep_subset: "fmdom (fm_keep P m) |\<subseteq>| fmdom m"
  by (auto simp: fm_keep_def)

lemma fmdom_update_subset: "fmdom (fm_update f m) |\<subseteq>| fmdom m"
  by (auto simp: fmlookup_dom_iff split: option.splits)

lemma fm_size_mono: "fmdom m |\<subseteq>| fmdom n \<Longrightarrow> fm_size m \<le> fm_size n"
  by (simp add: fm_size_def fcard_mono)

lemma fm_size_keep_le: "fm_size (fm_keep P m) \<le> fm_size m"
  by (rule fm_size_mono) (rule fmdom_keep_subset)

lemma fm_size_update_le: "fm_size (fm_update f m) \<le> fm_size m"
  by (rule fm_size_mono) (rule fmdom_update_subset)

lemma fm_size_drop_le: "fm_size (fmdrop k m) \<le> fm_size m"
  by (rule fm_size_mono) auto

lemma fm_size_upd:
  "fm_size (fmupd k v m) = (if k |\<in>| fmdom m then fm_size m else Suc (fm_size m))"
  by (simp add: fm_size_def fcard_finsert_if finsert_absorb)

lemma fm_size_empty [simp]: "fm_size fmempty = 0"
  by (simp add: fm_size_def)

lemma fm_size_drop:
  "k |\<in>| fmdom m \<Longrightarrow> Suc (fm_size (fmdrop k m)) = fm_size m"
  by (metis fm_size_def fmdom_drop fcard_Suc_fminus1)

lemma fm_size_0_iff: "fm_size m = 0 \<longleftrightarrow> m = fmempty"
proof
  assume "fm_size m = 0"
  then have "fmdom m = {||}" by (simp add: fm_size_def)
  then have "fmlookup m k = None" for k by (metis fempty_iff fmdom_notD)
  then show "m = fmempty" by (intro fmap_ext) simp
qed simp

lemma fm_get_upd [simp]: "fm_get d (fmupd k v m) j = (if k = j then v else fm_get d m j)"
  by (simp add: fm_get_def)

lemma fm_get_drop [simp]: "fm_get d (fmdrop k m) j = (if j = k then d else fm_get d m j)"
  by (simp add: fm_get_def)

lemma fm_get_empty [simp]: "fm_get d fmempty j = d"
  by (simp add: fm_get_def)

section \<open>Loops that clean up while they test\<close>

text \<open>
  Several loops of the program walk a list and test each element with a function that
  may, on the way, delete entries nobody can observe any more. \<open>scan\<close> is such a loop: it
  threads the state through the test and keeps the elements that pass.
\<close>

fun scan :: "('s \<Rightarrow> 'a \<Rightarrow> bool \<times> 's) \<Rightarrow> 's \<Rightarrow> 'a list \<Rightarrow> 'a list \<times> 's" where
  "scan chk s [] = ([], s)"
| "scan chk s (x # xs) =
     (let (b, s') = chk s x; (ys, s'') = scan chk s' xs
      in (if b then x # ys else ys, s''))"

text \<open>
  The contract of such a test: in the states \<open>ok\<close> it decides the pure predicate \<open>P\<close>, and the
  state it leaves behind is \<open>ok\<close> again.
\<close>

locale quiet_test =
  fixes chk :: "'s \<Rightarrow> 'a \<Rightarrow> bool \<times> 's"
    and P :: "'a \<Rightarrow> bool"
    and ok :: "'s \<Rightarrow> bool"
  assumes decides: "ok s \<Longrightarrow> fst (chk s x) = P x"
    and stays: "ok s \<Longrightarrow> ok (snd (chk s x))"
begin

lemma scan_filter: "ok s \<Longrightarrow> fst (scan chk s xs) = filter P xs"
proof (induction xs arbitrary: s)
  case Nil
  then show ?case by simp
next
  case (Cons x xs)
  then show ?case
    using decides [of s x] stays [of s x] by (simp add: split_beta)
qed

lemma scan_ok: "ok s \<Longrightarrow> ok (snd (scan chk s xs))"
proof (induction xs arbitrary: s)
  case Nil
  then show ?case by simp
next
  case (Cons x xs)
  then show ?case using stays [of s x] by (simp add: split_beta)
qed

end

end
