(* ===== verification/Golib.thy ===== *)
theory Golib
  imports Prelude
begin

text \<open>
  The parts of Go's standard library on numbers and durations that the program uses:
  \<open>strconv.Itoa\<close> and \<open>strconv.Atoi\<close>, \<open>time.ParseDuration\<close> and \<open>time.Duration.String\<close>. The
  fraction of a parsed duration is computed exactly, where the library uses a \<open>float64\<close>.
\<close>

section \<open>Decimal numbers\<close>

definition dec_val :: "string \<Rightarrow> int" where
  "dec_val s = foldl (\<lambda>v c. v * 10 + digit_val c) 0 s"

definition digit_char :: "int \<Rightarrow> char" where
  "digit_char d = char_of (nat (d + 48))"

function show_nat :: "int \<Rightarrow> string" where
  "show_nat n = (if n < 10 then [digit_char n] else show_nat (n div 10) @ [digit_char (n mod 10)])"
  by pat_completeness auto
termination by (relation "measure nat") auto

declare show_nat.simps [simp del]

definition itoa :: "int \<Rightarrow> string" where
  "itoa n = (if n < 0 then CHR ''-'' # show_nat (- n) else show_nat n)"

text \<open>\<open>strconv.Atoi\<close>: an optional sign and at least one digit, in the range of \<open>int64\<close>.\<close>

definition atoi :: "string \<Rightarrow> int option" where
  "atoi s =
     (let neg = (s \<noteq> [] \<and> hd s = CHR ''-'');
          ds = (if s \<noteq> [] \<and> hd s \<in> {CHR ''-'', CHR ''+''} then tl s else s);
          v = (if neg then - dec_val ds else dec_val ds)
      in if ds = [] \<or> \<not> list_all is_digit ds then None
         else if v < - 9223372036854775808 \<or> v > 9223372036854775807 then None
         else Some v)"

lemma dec_val_snoc: "dec_val (s @ [c]) = dec_val s * 10 + digit_val c"
  by (simp add: dec_val_def)

lemma dec_val_single [simp]: "dec_val [c] = digit_val c"
  by (simp add: dec_val_def)

lemma digit_char:
  assumes "0 \<le> d" and "d < 10"
  shows "is_digit (digit_char d) \<and> digit_val (digit_char d) = d \<and>
         (digit_char d = CHR ''0'' \<longleftrightarrow> d = 0)"
proof -
  have "d \<in> set [0..9]" using assms by simp
  moreover have "\<forall>d\<in>set [0..9].
      is_digit (digit_char d) \<and> digit_val (digit_char d) = d \<and> (digit_char d = CHR ''0'' \<longleftrightarrow> d = 0)"
    by code_simp
  ultimately show ?thesis by blast
qed

lemma show_nat_props:
  assumes "0 \<le> n"
  shows "list_all is_digit (show_nat n) \<and> dec_val (show_nat n) = n \<and> show_nat n \<noteq> [] \<and>
         (n \<noteq> 0 \<longrightarrow> hd (show_nat n) \<noteq> CHR ''0'')"
  using assms
proof (induction n rule: show_nat.induct)
  case (1 n)
  show ?case
  proof (cases "n < 10")
    case True
    then show ?thesis using 1 digit_char [of n] by (simp add: show_nat.simps)
  next
    case False
    then have "n div 10 \<noteq> 0" by simp
    moreover note 1(1) [OF False] digit_char [of "n mod 10"] False
    ultimately show ?thesis
      by (subst (1 2 3 4) show_nat.simps) (auto simp: dec_val_snoc)
  qed
qed

lemma dec_val_show_nat [simp]: "0 \<le> n \<Longrightarrow> dec_val (show_nat n) = n"
  using show_nat_props by blast

lemma digits_show_nat [simp]: "0 \<le> n \<Longrightarrow> list_all is_digit (show_nat n)"
  using show_nat_props by blast

lemma show_nat_nonempty [simp]: "show_nat n \<noteq> []"
  by (subst show_nat.simps) simp

lemma length_show_nat: "0 \<le> n \<Longrightarrow> n < 10 ^ k \<Longrightarrow> 0 < k \<Longrightarrow> length (show_nat n) \<le> k"
proof (induction n arbitrary: k rule: show_nat.induct)
  case (1 n)
  show ?case
  proof (cases "n < 10")
    case True
    then show ?thesis using 1 by (simp add: show_nat.simps)
  next
    case False
    have "k \<noteq> Suc 0" using 1(3) False by auto
    then obtain j where k: "k = Suc j" "0 < j"
      using 1(4) by (cases k) auto
    have "m < 10 * p \<Longrightarrow> m div 10 < p" for m p :: int by presburger
    then have "n div 10 < 10 ^ j" using 1(3) k by simp
    then show ?thesis using 1(1) [OF False, of j] 1(2) k False
      by (subst show_nat.simps) simp
  qed
qed

lemma hd_digit: "s \<noteq> [] \<Longrightarrow> list_all is_digit s \<Longrightarrow> hd s \<noteq> CHR ''-'' \<and> hd s \<noteq> CHR ''+''"
  by (cases s) (auto simp: is_digit_def less_eq_char_def)

lemma atoi_itoa:
  assumes "- 9223372036854775808 \<le> n" and "n \<le> 9223372036854775807"
  shows "atoi (itoa n) = Some n"
proof (cases "n < 0")
  case True
  then show ?thesis using assms by (simp add: itoa_def atoi_def)
next
  case False
  then show ?thesis
    using assms hd_digit [of "show_nat n"] by (simp add: itoa_def atoi_def)
qed

section \<open>Durations\<close>

text \<open>The table of units; the micro sign has two spellings, both of two bytes.\<close>

definition unit_of :: "string \<Rightarrow> int option" where
  "unit_of u =
     map_of [(''ns'', 1), (''us'', 1000), ([CHR 0xC2, CHR 0xB5, CHR ''s''], 1000),
             ([CHR 0xCE, CHR 0xBC, CHR ''s''], 1000), (''ms'', 1000000), (''s'', second),
             (''m'', minute), (''h'', hour)] u"

text \<open>The loop of \<open>time.ParseDuration\<close> over the number-unit pairs; \<open>d\<close> is the sum so far.\<close>

function duration_loop :: "string \<Rightarrow> int \<Rightarrow> int option" where
  "duration_loop s d =
     (if s = [] then Some d
      else
        (let ip = takeWhile is_digit s;
             s1 = drop (length ip) s;
             dot = (s1 \<noteq> [] \<and> hd s1 = CHR ''.'');
             fp = (if dot then takeWhile is_digit (tl s1) else []);
             s2 = (if dot then drop (length fp) (tl s1) else s1);
             u = takeWhile (\<lambda>c. c \<noteq> CHR ''.'' \<and> \<not> is_digit c) s2;
             s3 = drop (length u) s2
         in if ip = [] \<and> fp = [] then None
            else if u = [] then None
            else (case unit_of u of
                    None \<Rightarrow> None
                  | Some k \<Rightarrow>
                      let v = dec_val ip * k + (dec_val fp * k) div 10 ^ length fp;
                          d' = d + v
                      in if v > 9223372036854775808 \<or> d' > 9223372036854775808 then None
                         else duration_loop s3 d')))"
  by pat_completeness auto
termination
proof (relation "measure (\<lambda>(s, d). length s)", goal_cases)
  case (2 s d ip s1 dot fp s2 u s3 k v d')
  have "length s1 \<le> length s" unfolding 2(3) by simp
  moreover have "length s2 \<le> length s1" unfolding 2(6) by (cases s1) auto
  moreover have "length u \<le> length s2" unfolding 2(7) by (rule length_takeWhile_le)
  moreover have "length s3 = length s2 - length u" unfolding 2(8) by simp
  moreover have "0 < length u" using 2(10) by simp
  ultimately have "length s3 < length s" by linarith
  then show ?case by simp
qed simp

declare duration_loop.simps [simp del]

definition parse_duration :: "string \<Rightarrow> duration option" where
  "parse_duration s =
     (let neg = (s \<noteq> [] \<and> hd s = CHR ''-'');
          r = (if s \<noteq> [] \<and> hd s \<in> {CHR ''-'', CHR ''+''} then tl s else s)
      in if r = ''0'' then Some 0
         else if r = [] then None
         else (case duration_loop r 0 of
                 None \<Rightarrow> None
               | Some d \<Rightarrow>
                   if neg then Some (- d)
                   else if d > 9223372036854775807 then None
                   else Some d))"

text \<open>\<open>fmtFrac\<close>: the \<open>k\<close> decimals of a number without their trailing zeros.\<close>

fun frac_digits :: "nat \<Rightarrow> int \<Rightarrow> string" where
  "frac_digits 0 v = []"
| "frac_digits (Suc k) v = frac_digits k (v div 10) @ [digit_char (v mod 10)]"

definition fmt_frac :: "nat \<Rightarrow> int \<Rightarrow> string" where
  "fmt_frac k v =
     (let ds = rev (dropWhile (\<lambda>c. c = CHR ''0'') (rev (frac_digits k v)))
      in if ds = [] then [] else CHR ''.'' # ds)"

definition duration_string :: "duration \<Rightarrow> string" where
  "duration_string d =
     (let u = \<bar>d\<bar>;
          body =
            (if u = 0 then ''0s''
             else if u < 1000 then show_nat u @ ''ns''
             else if u < 1000000 then
               show_nat (u div 1000) @ fmt_frac 3 (u mod 1000) @ [CHR 0xC2, CHR 0xB5, CHR ''s'']
             else if u < second then show_nat (u div 1000000) @ fmt_frac 6 (u mod 1000000) @ ''ms''
             else
               let f = fmt_frac 9 (u mod second); secs = u div second; mins = secs div 60
               in (if mins > 0 then
                     (if mins div 60 > 0 then show_nat (mins div 60) @ ''h'' else []) @
                     show_nat (mins mod 60) @ ''m''
                   else []) @ show_nat (secs mod 60) @ f @ ''s'')
      in if d < 0 then CHR ''-'' # body else body)"

end
