(* ===== verification/Netip.thy ===== *)
theory Netip
  imports Golib "HOL-Library.Word"
begin

unbundle bit_operations_syntax

text \<open>
  Package \<open>net/netip\<close> of Go's standard library, as far as the program uses it: parsing of
  IPv4 and IPv6 literals (with \<open>::\<close>, an embedded IPv4 tail and a zone), parsing, masking
  and membership of CIDR prefixes, and the classification of addresses.

  The invalid address \<open>netip.Addr{}\<close> is \<open>None\<close> of an \<open>addr option\<close>. An IPv6 address carries
  its zone, the empty string when it has none. A prefix with a zone does not exist:
  \<open>ParsePrefix\<close> rejects it.
\<close>

section \<open>Addresses\<close>

datatype addr = V4 "32 word" | V6 "128 word" string

definition v4_bytes :: "int \<Rightarrow> int \<Rightarrow> int \<Rightarrow> int \<Rightarrow> 32 word" where
  "v4_bytes a b c d = word_of_int (((a * 256 + b) * 256 + c) * 256 + d)"

fun is_4 :: "addr \<Rightarrow> bool" where
  "is_4 (V4 _) = True"
| "is_4 (V6 _ _) = False"

fun is_4in6 :: "addr \<Rightarrow> bool" where
  "is_4in6 (V4 _) = False"
| "is_4in6 (V6 w _) = (drop_bit 32 w = 0xFFFF)"

fun unmap :: "addr \<Rightarrow> addr" where
  "unmap (V4 w) = V4 w"
| "unmap (V6 w z) = (if drop_bit 32 w = 0xFFFF then V4 (ucast w) else V6 w z)"

fun has_zone :: "addr \<Rightarrow> bool" where
  "has_zone (V4 _) = False"
| "has_zone (V6 _ z) = (z \<noteq> [])"

definition map_4in6 :: "32 word \<Rightarrow> string \<Rightarrow> addr" where
  "map_4in6 w z = V6 (push_bit 32 0xFFFF OR ucast w) z"

fun is_loopback :: "addr \<Rightarrow> bool" where
  "is_loopback a = (case unmap a of V4 w \<Rightarrow> drop_bit 24 w = 127 | V6 w _ \<Rightarrow> w = 1)"

section \<open>Prefixes\<close>

datatype prefix = Prefix (pfx_addr: addr) (pfx_bits: nat)

fun masked :: "prefix \<Rightarrow> prefix" where
  "masked (Prefix (V4 w) n) = Prefix (V4 (push_bit (32 - n) (drop_bit (32 - n) w))) n"
| "masked (Prefix (V6 w z) n) = Prefix (V6 (push_bit (128 - n) (drop_bit (128 - n) w)) []) n"

fun contains :: "prefix \<Rightarrow> addr \<Rightarrow> bool" where
  "contains (Prefix (V4 p) n) (V4 a) = (drop_bit (32 - n) (a XOR p) = 0)"
| "contains (Prefix (V6 p z) n) (V6 a z') = (z' = [] \<and> (a XOR p) AND NOT (mask (128 - n)) = 0)"
| "contains _ _ = False"

section \<open>Parsing\<close>

text \<open>\<open>parseIPv4Fields\<close>: four dot-separated decimal fields, none empty, none with a leading
  zero, each at most 255.\<close>

definition v4_field :: "string \<Rightarrow> int option" where
  "v4_field s =
     (if s \<noteq> [] \<and> length s \<le> 3 \<and> list_all is_digit s \<and> (length s = 1 \<or> hd s \<noteq> CHR ''0'')
         \<and> dec_val s \<le> 255
      then Some (dec_val s) else None)"

definition parse_v4 :: "string \<Rightarrow> (32 word) option" where
  "parse_v4 s =
     (case map v4_field (split_on CHR ''.'' s) of
        [Some a, Some b, Some c, Some d] \<Rightarrow> Some (v4_bytes a b c d)
      | _ \<Rightarrow> None)"

definition hex_val :: "char \<Rightarrow> int option" where
  "hex_val c =
     (if CHR ''0'' \<le> c \<and> c \<le> CHR ''9'' then Some (of_char c - 48)
      else if CHR ''a'' \<le> c \<and> c \<le> CHR ''f'' then Some (of_char c - 87)
      else if CHR ''A'' \<le> c \<and> c \<le> CHR ''F'' then Some (of_char c - 55)
      else None)"

definition hex_group :: "string \<Rightarrow> int" where
  "hex_group s = foldl (\<lambda>v c. v * 16 + the (hex_val c)) 0 s"

text \<open>
  The loop of \<open>parseIPv6\<close>. \<open>gs\<close> are the 16-bit groups read so far (the code's \<open>i\<close> is twice
  their number), \<open>el\<close> is the number of groups before the ellipsis. The result is the text
  left over with \<open>gs\<close> and \<open>el\<close>; \<open>None\<close> is a parse error.
\<close>

function v6_loop :: "string \<Rightarrow> int list \<Rightarrow> nat option \<Rightarrow> (string \<times> int list \<times> nat option) option"
where
  "v6_loop s gs el =
     (if length gs \<ge> 8 then Some (s, gs, el)
      else
        (let g = takeWhile (\<lambda>c. hex_val c \<noteq> None) s;
             rest = drop (length g) s
         in if g = [] \<or> length g > 4 then None
            else if rest \<noteq> [] \<and> hd rest = CHR ''.'' then
              (if (el = None \<and> length gs \<noteq> 6) \<or> length gs + 2 > 8 then None
               else (case parse_v4 s of
                       None \<Rightarrow> None
                     | Some w \<Rightarrow>
                         Some ([], gs @ [uint w div 65536, uint w mod 65536], el)))
            else
              (let gs' = gs @ [hex_group g]
               in case rest of
                    [] \<Rightarrow> Some ([], gs', el)
                  | c # s' \<Rightarrow>
                      if c \<noteq> CHR '':'' \<or> s' = [] then None
                      else if hd s' = CHR '':'' then
                        (if el \<noteq> None then None
                         else if tl s' = [] then Some ([], gs', Some (length gs'))
                         else v6_loop (tl s') gs' (Some (length gs')))
                      else v6_loop s' gs' el)))"
  by pat_completeness auto
termination
  by (relation "measure (\<lambda>(s, gs, el). 8 - length gs)") (auto)

definition groups_word :: "int list \<Rightarrow> 128 word" where
  "groups_word gs = word_of_int (foldl (\<lambda>v g. v * 65536 + g) 0 gs)"

definition parse_v6 :: "string \<Rightarrow> addr option" where
  "parse_v6 inp =
     (case (case cut CHR ''%'' inp of None \<Rightarrow> Some (inp, []) | Some (s, z) \<Rightarrow>
              (if z = [] then None else Some (s, z))) of
        None \<Rightarrow> None
      | Some (s, z) \<Rightarrow>
          let lead = has_prefix ''::'' s;
              s' = (if lead then drop 2 s else s)
          in if lead \<and> s' = [] then Some (V6 0 z)
             else (case v6_loop s' [] (if lead then Some 0 else None) of
                     Some ([], gs, None) \<Rightarrow>
                       (if length gs < 8 then None else Some (V6 (groups_word gs) z))
                   | Some ([], gs, Some e) \<Rightarrow>
                       (if length gs < 8
                        then Some (V6 (groups_word (take e gs @ replicate (8 - length gs) 0
                                                     @ drop e gs)) z)
                        else None)
                   | _ \<Rightarrow> None))"

text \<open>\<open>ParseAddr\<close>: the first of the bytes \<open>.\<close>, \<open>:\<close> and \<open>%\<close> decides the family.\<close>

definition parse_addr :: "string \<Rightarrow> addr option" where
  "parse_addr s =
     (case dropWhile (\<lambda>c. c \<notin> {CHR ''.'', CHR '':'', CHR ''%''}) s of
        [] \<Rightarrow> None
      | c # _ \<Rightarrow>
          if c = CHR ''.'' then map_option V4 (parse_v4 s)
          else if c = CHR '':'' then parse_v6 s
          else None)"

definition parse_prefix :: "string \<Rightarrow> prefix option" where
  "parse_prefix s =
     (case cut CHR ''/'' (rev s) of
        None \<Rightarrow> None
      | Some (rb, ra) \<Rightarrow>
          let bits = rev rb
          in (case parse_addr (rev ra) of
                None \<Rightarrow> None
              | Some a \<Rightarrow>
                  if has_zone a then None
                  else if bits = [] \<or> \<not> list_all is_digit bits
                          \<or> (length bits > 1 \<and> hd bits = CHR ''0'') then None
                  else if dec_val bits > (if is_4 a then 32 else 128) then None
                  else Some (Prefix a (nat (dec_val bits)))))"

section \<open>Printing\<close>

definition v4_string :: "32 word \<Rightarrow> string" where
  "v4_string w =
     (let n = uint w
      in show_nat (n div 16777216) @ ''.'' @ show_nat (n div 65536 mod 256) @ ''.'' @
         show_nat (n div 256 mod 256) @ ''.'' @ show_nat (n mod 256))"

definition hex_char :: "int \<Rightarrow> char" where
  "hex_char d = char_of (nat (if d < 10 then d + 48 else d + 87))"

definition show_hex :: "int \<Rightarrow> string" where
  "show_hex g =
     (if g < 16 then [hex_char g]
      else if g < 256 then [hex_char (g div 16), hex_char (g mod 16)]
      else if g < 4096 then [hex_char (g div 256), hex_char (g div 16 mod 16), hex_char (g mod 16)]
      else [hex_char (g div 4096), hex_char (g div 256 mod 16), hex_char (g div 16 mod 16),
            hex_char (g mod 16)])"

definition v6_groups :: "128 word \<Rightarrow> int list" where
  "v6_groups w = map (\<lambda>i. uint w div 65536 ^ (7 - i) mod 65536) [0, 1, 2, 3, 4, 5, 6, 7]"

text \<open>The first longest run of at least two zero groups: its start and its length.\<close>

fun best_run :: "nat \<Rightarrow> int list \<Rightarrow> nat \<times> nat \<Rightarrow> nat \<times> nat" where
  "best_run i [] b = b"
| "best_run i (g # gs) b =
     (let l = length (takeWhile (\<lambda>x. x = 0) (g # gs))
      in best_run (Suc i) gs (if l \<ge> 2 \<and> l > snd b then (i, l) else b))"

definition v6_string :: "128 word \<Rightarrow> string" where
  "v6_string w =
     (let gs = v6_groups w; (s, l) = best_run 0 gs (0, 0)
      in if l = 0 then join '':'' (map show_hex gs)
         else join '':'' (map show_hex (take s gs)) @ ''::'' @
              join '':'' (map show_hex (drop (s + l) gs)))"

fun addr_string :: "addr option \<Rightarrow> string" where
  "addr_string None = ''invalid IP''"
| "addr_string (Some (V4 w)) = v4_string w"
| "addr_string (Some (V6 w z)) =
     (if drop_bit 32 w = 0xFFFF then ''::ffff:'' @ v4_string (ucast w) else v6_string w) @
     (if z = [] then [] else CHR ''%'' # z)"

text \<open>
  \<open>net.SplitHostPort\<close>: the host and the port of \<open>host:port\<close> or \<open>[host]:port\<close>; \<open>None\<close> is its
  error. \<open>net.JoinHostPort\<close> brackets a host that holds a colon.
\<close>

definition split_host_port :: "string \<Rightarrow> (string \<times> string) option" where
  "split_host_port hp =
     (case cut CHR '':'' (rev hp) of
        None \<Rightarrow> None
      | Some (rport, rhost) \<Rightarrow>
          let port = rev rport; front = rev rhost
          in if hp \<noteq> [] \<and> hd hp = CHR ''['' then
               (case cut CHR '']'' hp of
                  None \<Rightarrow> None
                | Some (inner, after) \<Rightarrow>
                    if front @ CHR '':'' # port = inner @ CHR '']'' # after
                        \<and> length front = Suc (length inner)
                    then if CHR ''['' \<in> set (tl hp) \<or> CHR '']'' \<in> set after then None
                         else Some (tl inner, port)
                    else None)
             else if CHR '':'' \<in> set front then None
             else if CHR ''['' \<in> set hp \<or> CHR '']'' \<in> set hp then None
             else Some (front, port))"

definition join_host_port :: "string \<Rightarrow> string \<Rightarrow> string" where
  "join_host_port h p = (if CHR '':'' \<in> set h then ''['' @ h @ '']:'' @ p else h @ '':'' @ p)"

section \<open>Facts the components use\<close>

lemma split_join_host_port:
  assumes "CHR '':'' \<notin> set p" and "CHR ''['' \<notin> set h \<union> set p" and "CHR '']'' \<notin> set h \<union> set p"
  shows "split_host_port (join_host_port h p) = Some (h, p)"
proof (cases "CHR '':'' \<in> set h")
  case True
  have "cut CHR '':'' (rev p @ CHR '':'' # CHR '']'' # rev h @ ''['') =
          Some (rev p, CHR '']'' # rev h @ ''['')"
    using assms by (intro cut_append) auto
  moreover have "cut CHR '']'' ((CHR ''['' # h) @ CHR '']'' # CHR '':'' # p) =
          Some (CHR ''['' # h, CHR '':'' # p)"
    using assms by (intro cut_append) auto
  ultimately show ?thesis
    using True assms by (simp add: split_host_port_def join_host_port_def)
next
  case False
  have "cut CHR '':'' (rev p @ CHR '':'' # rev h) = Some (rev p, rev h)"
    using assms by (intro cut_append) auto
  moreover have "h @ CHR '':'' # p \<noteq> [] \<and> hd (h @ CHR '':'' # p) \<noteq> CHR ''[''"
    using assms by (cases h) auto
  ultimately show ?thesis
    using False assms by (simp add: split_host_port_def join_host_port_def)
qed


lemma xor_0_iff: "(a XOR b :: 'a :: len word) = 0 \<longleftrightarrow> a = b"
proof
  assume "a XOR b = 0"
  then have "(a XOR b) XOR b = 0 XOR b" by simp
  then show "a = b" by (simp add: xor.assoc)
qed simp

lemma drop_bit_xor_0_iff:
  "drop_bit n (a XOR b :: 'a :: len word) = 0 \<longleftrightarrow> drop_bit n a = drop_bit n b"
  by (simp only: drop_bit_xor xor_0_iff)

lemma and_not_mask_0_iff:
  "(a :: 'a :: len word) AND NOT (mask n) = 0 \<longleftrightarrow> drop_bit n a = 0"
proof -
  have "a AND NOT (mask n) = push_bit n (drop_bit n a)"
    by (rule bit_eqI) (auto simp: bit_simps)
  moreover have "push_bit n (drop_bit n a) = 0 \<longleftrightarrow> drop_bit n a = 0"
  proof
    assume "push_bit n (drop_bit n a) = 0"
    then have "drop_bit n (push_bit n (drop_bit n a)) = 0" by simp
    moreover have "drop_bit n (push_bit n (drop_bit n a)) = drop_bit n a"
      by (rule bit_eqI) (auto simp: bit_simps dest: bit_imp_le_length)
    ultimately show "drop_bit n a = 0" by simp
  qed simp
  ultimately show ?thesis by simp
qed

lemma drop_bit_eq_unat:
  "drop_bit n a = drop_bit n b \<longleftrightarrow> unat (a :: 'a :: len word) div 2 ^ n = unat b div 2 ^ n"
proof -
  have u: "unat (drop_bit n w) = unat w div 2 ^ n" for w :: "'a word"
    by (metis unat_drop_bit_eq drop_bit_eq_div)
  show ?thesis
    by (metis u word_unat_eq_iff)
qed

lemma contains_V4 [simp]:
  "contains (Prefix (V4 p) n) (V4 a) \<longleftrightarrow> unat a div 2 ^ (32 - n) = unat p div 2 ^ (32 - n)"
  by (simp only: contains.simps drop_bit_xor_0_iff drop_bit_eq_unat)

lemma contains_V6 [simp]:
  "contains (Prefix (V6 p z) n) (V6 a z') \<longleftrightarrow>
     z' = [] \<and> unat a div 2 ^ (128 - n) = unat p div 2 ^ (128 - n)"
  by (simp only: contains.simps and_not_mask_0_iff drop_bit_xor_0_iff drop_bit_eq_unat)

lemmas [simp del] = contains.simps(1,2) v6_loop.simps

lemma contains_masked [simp]: "contains (masked p) a = contains p a"
proof -
  have shift: "drop_bit k (push_bit k (drop_bit k w)) = drop_bit k w" for w :: "'a :: len word" and k
    by (rule bit_eqI) (auto simp: bit_simps dest: bit_imp_le_length)
  show ?thesis
    by (cases p rule: masked.cases; cases a)
      (simp_all del: drop_bit_xor contains_V4 contains_V6 add: contains.simps and_not_mask_0_iff drop_bit_xor_0_iff shift)
qed

lemma unmap_idem [simp]: "unmap (unmap a) = unmap a"
  by (cases a) auto

lemma has_zone_unmap: "has_zone (unmap a) \<Longrightarrow> has_zone a"
  by (cases a) (auto split: if_splits)

lemma unmap_map_4in6 [simp]: "unmap (map_4in6 w z) = V4 w"
proof -
  have "drop_bit 32 (push_bit 32 0xFFFF OR ucast w :: 128 word) = 0xFFFF"
    by (rule bit_eqI) (auto simp: bit_simps dest: bit_imp_le_length)
  moreover have "ucast (push_bit 32 x OR ucast w :: 128 word) = w" for x
    by (rule bit_eqI) (auto simp: bit_simps dest: bit_imp_le_length)
  ultimately show ?thesis by (simp only: map_4in6_def unmap.simps refl if_True)
qed

end
