(* ===== verification/Netguard.thy ===== *)
theory Netguard
  imports Netip
begin

text \<open>
  \<open>internal/netguard/netguard.go\<close>: the guard that decides which destinations the proxy
  reaches. A Go \<open>error\<close> result is an \<open>option\<close> (\<open>None\<close> is \<open>nil\<close>); the slice argument that may
  be \<open>nil\<close> and the map that may be \<open>nil\<close> are options.
\<close>

datatype guard_error =
    InvalidCIDR string
  | InvalidPort int
  | PortNotAllowed int
  | InvalidAddress
  | DeniedRange addr prefix
  | EmptyHost
  | HostNotAllowed string

record guard =
  g_denied :: "prefix list"
  g_allowed_port :: "(int, bool) fmap option"

definition DefaultDeniedCIDRs :: "string list" where
  "DefaultDeniedCIDRs =
     [''0.0.0.0/8'', ''10.0.0.0/8'', ''100.64.0.0/10'', ''127.0.0.0/8'', ''169.254.0.0/16'',
      ''172.16.0.0/12'', ''192.0.0.0/24'', ''192.168.0.0/16'', ''198.18.0.0/15'',
      ''224.0.0.0/4'', ''240.0.0.0/4'', ''255.255.255.255/32'',
      ''::1/128'', ''fc00::/7'', ''fe80::/10'', ''ff00::/8'']"

fun parse_denied :: "string list \<Rightarrow> guard_error + prefix list" where
  "parse_denied [] = Inr []"
| "parse_denied (raw # raws) =
     (case parse_prefix (trim_space raw) of
        None \<Rightarrow> Inl (InvalidCIDR raw)
      | Some p \<Rightarrow>
          (case parse_denied raws of
             Inl e \<Rightarrow> Inl e
           | Inr ps \<Rightarrow> Inr (masked p # ps)))"

fun add_ports :: "int list \<Rightarrow> (int, bool) fmap \<Rightarrow> guard_error + (int, bool) fmap" where
  "add_ports [] m = Inr m"
| "add_ports (port # ports) m =
     (if port < 1 \<or> port > 65535 then Inl (InvalidPort port)
      else add_ports ports (fmupd port True m))"

definition new_guard :: "string list option \<Rightarrow> int list \<Rightarrow> guard_error + guard" where
  "new_guard cidrs ports =
     (case parse_denied (case cidrs of None \<Rightarrow> DefaultDeniedCIDRs | Some cs \<Rightarrow> cs) of
        Inl e \<Rightarrow> Inl e
      | Inr ps \<Rightarrow>
          if ports = [] then Inr \<lparr>g_denied = ps, g_allowed_port = None\<rparr>
          else (case add_ports ports fmempty of
                  Inl e \<Rightarrow> Inl e
                | Inr m \<Rightarrow> Inr \<lparr>g_denied = ps, g_allowed_port = Some m\<rparr>))"

definition CheckPort :: "guard \<Rightarrow> int \<Rightarrow> guard_error option" where
  "CheckPort g port =
     (if port < 1 \<or> port > 65535 then Some (InvalidPort port)
      else case g_allowed_port g of
             None \<Rightarrow> None
           | Some m \<Rightarrow> if fm_get False m port then None else Some (PortNotAllowed port))"

fun denied_by :: "prefix list \<Rightarrow> addr \<Rightarrow> prefix option" where
  "denied_by [] c = None"
| "denied_by (p # ps) c =
     (if is_4 (pfx_addr p) \<noteq> is_4 c then denied_by ps c
      else if contains p c then Some p
      else denied_by ps c)"

definition CheckAddr :: "guard \<Rightarrow> addr option \<Rightarrow> guard_error option" where
  "CheckAddr g a =
     (case a of
        None \<Rightarrow> Some InvalidAddress
      | Some a \<Rightarrow> map_option (DeniedRange (unmap a)) (denied_by (g_denied g) (unmap a)))"

definition CheckHost :: "guard \<Rightarrow> string \<Rightarrow> guard_error option" where
  "CheckHost g host =
     (case parse_addr host of
        Some a \<Rightarrow> CheckAddr g (Some a)
      | None \<Rightarrow>
          if host = [] then Some EmptyHost
          else if equal_fold host ''localhost'' \<or> has_suffix ''.localhost'' (to_lower host)
          then Some (HostNotAllowed host)
          else None)"

text \<open>The argument is the text of the peer address of the dial, \<open>None\<close> for a \<open>nil\<close> address.\<close>

definition CheckResolved :: "guard \<Rightarrow> string option \<Rightarrow> guard_error option" where
  "CheckResolved g peer =
     (case peer of
        None \<Rightarrow> None
      | Some s \<Rightarrow>
          let host = (case split_host_port s of Some (h, _) \<Rightarrow> h | None \<Rightarrow> s)
          in (case parse_addr host of
                None \<Rightarrow> None
              | Some a \<Rightarrow> CheckAddr g (Some a)))"

section \<open>What the guard decides\<close>

lemma contains_same_family: "contains p a \<Longrightarrow> is_4 (pfx_addr p) = is_4 a"
  by (cases "(p, a)" rule: contains.cases) (auto simp: contains.simps)

lemma denied_by_None_iff: "denied_by ps c = None \<longleftrightarrow> (\<forall>p\<in>set ps. \<not> contains p c)"
  by (induction ps) (auto dest: contains_same_family)

lemma denied_by_Some: "denied_by ps c = Some p \<Longrightarrow> p \<in> set ps \<and> contains p c"
  by (induction ps) (auto split: if_splits)

lemma CheckAddr_None_iff:
  "CheckAddr g a = None \<longleftrightarrow> (\<exists>b. a = Some b \<and> (\<forall>p\<in>set (g_denied g). \<not> contains p (unmap b)))"
  by (cases a) (auto simp: CheckAddr_def denied_by_None_iff)

lemma parse_denied_Inr:
  "parse_denied raws = Inr ps \<Longrightarrow> ps = map (\<lambda>r. masked (the (parse_prefix (trim_space r)))) raws"
  by (induction raws arbitrary: ps) (auto split: option.splits sum.splits)

lemma add_ports_Inr:
  "add_ports ports m = Inr m' \<Longrightarrow>
     (\<forall>p\<in>set ports. 1 \<le> p \<and> p \<le> 65535) \<and>
     (\<forall>p. fm_get False m' p \<longleftrightarrow> p \<in> set ports \<or> fm_get False m p)"
  by (induction ports arbitrary: m) (auto split: if_splits)

lemma contains_zone: "has_zone a \<Longrightarrow> \<not> contains p a"
  by (cases "(p, a)" rule: contains.cases) (auto simp: contains.simps)

text \<open>The sixteen default ranges, parsed and masked.\<close>

definition default_prefixes :: "prefix list" where
  "default_prefixes =
     [Prefix (V4 0x00000000) 8, Prefix (V4 0x0A000000) 8, Prefix (V4 0x64400000) 10,
      Prefix (V4 0x7F000000) 8, Prefix (V4 0xA9FE0000) 16, Prefix (V4 0xAC100000) 12,
      Prefix (V4 0xC0000000) 24, Prefix (V4 0xC0A80000) 16, Prefix (V4 0xC6120000) 15,
      Prefix (V4 0xE0000000) 4, Prefix (V4 0xF0000000) 4, Prefix (V4 0xFFFFFFFF) 32,
      Prefix (V6 1 []) 128, Prefix (V6 (push_bit 120 0xFC) []) 7,
      Prefix (V6 (push_bit 112 0xFE80) []) 10, Prefix (V6 (push_bit 120 0xFF) []) 8]"

lemma parse_default: "parse_denied DefaultDeniedCIDRs = Inr default_prefixes"
  by code_simp

lemma new_guard_default:
  "new_guard None [] = Inr \<lparr>g_denied = default_prefixes, g_allowed_port = None\<rparr>"
  by (simp add: new_guard_def parse_default)

lemma unat_div_range:
  fixes a p :: "'a :: len word"
  assumes "k > 0" and "unat p mod k = 0"
  shows "unat a div k = unat p div k \<longleftrightarrow> unat p \<le> unat a \<and> unat a < unat p + k"
proof -
  have p: "unat p = k * (unat p div k)" using assms by auto
  define q where "q = unat p div k"
  have "unat a div k = q \<longleftrightarrow> k * q \<le> unat a \<and> unat a < k * q + k"
    using assms(1) by (metis Suc_le_eq add.commute div_nat_eqI dividend_less_times_div
        mult.commute mult_Suc times_div_less_eq_dividend mult_Suc_right)
  then show ?thesis using p q_def by simp
qed

section \<open>Properties\<close>

text \<open>The addresses \<open>a.b.c.d\<close> as numbers, and the blocks the default list denies.\<close>

definition ip4 :: "nat \<Rightarrow> nat \<Rightarrow> nat \<Rightarrow> nat \<Rightarrow> nat" where
  "ip4 a b c d = ((a * 256 + b) * 256 + c) * 256 + d"

definition internal_v4 :: "(nat \<times> nat) list" where
  "internal_v4 =
     [(ip4 0 0 0 0, ip4 0 255 255 255), (ip4 10 0 0 0, ip4 10 255 255 255),
      (ip4 100 64 0 0, ip4 100 127 255 255), (ip4 127 0 0 0, ip4 127 255 255 255),
      (ip4 169 254 0 0, ip4 169 254 255 255), (ip4 172 16 0 0, ip4 172 31 255 255),
      (ip4 192 0 0 0, ip4 192 0 0 255), (ip4 192 168 0 0, ip4 192 168 255 255),
      (ip4 198 18 0 0, ip4 198 19 255 255), (ip4 224 0 0 0, ip4 255 255 255 255)]"

definition in_blocks :: "(nat \<times> nat) list \<Rightarrow> nat \<Rightarrow> bool" where
  "in_blocks bs n \<longleftrightarrow> list_ex (\<lambda>(lo, hi). lo \<le> n \<and> n \<le> hi) bs"

lemma default_denies_v4:
  "(\<exists>p\<in>set default_prefixes. contains p (V4 w)) \<longleftrightarrow> in_blocks internal_v4 (unat w)"
proof -
  have w: "unat w < 4294967296" using unsigned_less [of w, where ?'a = nat] by simp
  have r: "contains (Prefix (V4 q) n) (V4 w) \<longleftrightarrow>
           unat q \<le> unat w \<and> unat w \<le> unat q + (2 ^ (32 - n) - 1)"
    if "unat q mod 2 ^ (32 - n) = 0" for q :: "32 word" and n
  proof -
    have "x < y + k \<longleftrightarrow> x \<le> y + (k - 1)" if "k > 0" for x y k :: nat using that by arith
    from this [of "2 ^ (32 - n)" "unat w" "unat q"] show ?thesis
      using unat_div_range [of "2 ^ (32 - n)" q w] that by (simp only: contains_V4) simp
  qed
  have c6: "\<not> contains (Prefix (V6 q z) n) (V4 w)" for q z n
    by (simp add: contains.simps)
  have "(\<exists>p\<in>set default_prefixes. contains p (V4 w)) \<longleftrightarrow>
          in_blocks
            [(0, 0x00FFFFFF), (0x0A000000, 0x0AFFFFFF), (0x64400000, 0x647FFFFF),
             (0x7F000000, 0x7FFFFFFF), (0xA9FE0000, 0xA9FEFFFF), (0xAC100000, 0xAC1FFFFF),
             (0xC0000000, 0xC00000FF), (0xC0A80000, 0xC0A8FFFF), (0xC6120000, 0xC613FFFF),
             (0xE0000000, 0xEFFFFFFF), (0xF0000000, 0xFFFFFFFF), (0xFFFFFFFF, 0xFFFFFFFF)]
            (unat w)"
    by (simp add: default_prefixes_def in_blocks_def c6 r del: contains_V4)
  moreover have "(0xE0000000 \<le> n \<and> n \<le> 0xEFFFFFFF) \<or> (0xF0000000 \<le> n \<and> n \<le> 0xFFFFFFFF) \<or>
      (0xFFFFFFFF \<le> n \<and> n \<le> 0xFFFFFFFF) \<longleftrightarrow> 0xE0000000 \<le> n \<and> n \<le> 0xFFFFFFFF" for n :: nat
    by arith
  ultimately show ?thesis
    by (simp add: in_blocks_def internal_v4_def ip4_def)
qed

text \<open>
  C22: the guard built from the default list refuses an IPv4 destination exactly when it lies in
  one of the private, loopback, link-local, carrier-grade NAT, benchmarking, multicast or
  reserved blocks, and the IPv4-mapped IPv6 form of the address, with or without a zone, gets
  the same verdict.
\<close>

theorem guard_default_v4:
  assumes "new_guard None [] = Inr g"
  shows "(CheckAddr g (Some (V4 w)) \<noteq> None \<longleftrightarrow> in_blocks internal_v4 (unat w)) \<and>
         CheckAddr g (Some (map_4in6 w z)) = CheckAddr g (Some (V4 w))"
proof -
  have "g_denied g = default_prefixes" using assms new_guard_default by auto
  then show ?thesis
    using default_denies_v4 [of w] CheckAddr_None_iff [of g "Some (V4 w)"]
    by (auto simp: CheckAddr_def)
qed

theorem guard_default_v4_witness:
  "\<exists>g. new_guard None [] = Inr g \<and> CheckAddr g (Some (map_4in6 0xA9FEA9FE [])) \<noteq> None \<and>
       CheckAddr g (Some (V4 0x08080808)) = None"
proof -
  have g: "new_guard None [] = Inr \<lparr>g_denied = default_prefixes, g_allowed_port = None\<rparr>"
    by (rule new_guard_default)
  show ?thesis
    using guard_default_v4 [OF g, of "0xA9FEA9FE" "[]"] guard_default_v4 [OF g, of "0x08080808"] g
    by (auto simp: in_blocks_def internal_v4_def ip4_def)
qed

text \<open>
  For every guard, a destination address passes exactly when it is valid and no denied
  prefix contains its unmapped form; a refusal names a denied prefix that contains it. A
  literal in \<open>host:port\<close> form, as the dial reports its peer, is judged exactly as the same
  literal given as a host before the dial.
\<close>

theorem guard_denies_exactly:
  assumes "CHR '':'' \<notin> set p" and "set h \<inter> {CHR ''['', CHR '']''} = {}"
    and "set p \<inter> {CHR ''['', CHR '']''} = {}" and "parse_addr h = Some a"
  shows "(CheckAddr g (Some a) = None \<longleftrightarrow> \<not> list_ex (\<lambda>p. contains p (unmap a)) (g_denied g)) \<and>
         (CheckAddr g (Some a) = None \<or>
          list_ex (\<lambda>p. contains p (unmap a) \<and> CheckAddr g (Some a) = Some (DeniedRange (unmap a) p))
            (g_denied g)) \<and>
         CheckHost g h = CheckAddr g (Some a) \<and>
         CheckResolved g (Some (join_host_port h p)) = CheckHost g h"
proof -
  have "split_host_port (join_host_port h p) = Some (h, p)"
    using assms by (intro split_join_host_port) auto
  moreover have "CheckAddr g (Some a) = None \<longleftrightarrow> \<not> list_ex (\<lambda>p. contains p (unmap a)) (g_denied g)"
    by (auto simp: CheckAddr_None_iff list_ex_iff)
  moreover have "CheckAddr g (Some a) = None \<or>
      list_ex (\<lambda>p. contains p (unmap a) \<and> CheckAddr g (Some a) = Some (DeniedRange (unmap a) p))
        (g_denied g)"
    by (cases "denied_by (g_denied g) (unmap a)")
      (auto simp: CheckAddr_def list_ex_iff dest: denied_by_Some)
  ultimately show ?thesis
    using assms(4) by (simp add: CheckHost_def CheckResolved_def)
qed

theorem guard_denies_exactly_witness:
  "CheckResolved \<lparr>g_denied = default_prefixes, g_allowed_port = None\<rparr>
     (Some (join_host_port ''::1'' ''443'')) = Some (DeniedRange (V6 1 []) (Prefix (V6 1 []) 128))"
proof -
  have p: "parse_addr ''::1'' = Some (V6 1 [])" by code_simp
  have d: "CheckHost \<lparr>g_denied = default_prefixes, g_allowed_port = None\<rparr> ''::1'' =
             Some (DeniedRange (V6 1 []) (Prefix (V6 1 []) 128))"
    by code_simp
  show ?thesis
    using guard_denies_exactly [of "''443''" "''::1''" "V6 1 []"
        "\<lparr>g_denied = default_prefixes, g_allowed_port = None\<rparr>"] p d
    by simp
qed

text \<open>
  The port filter of a guard that was built without an error. A port passes exactly when
  it is a real port number and either no port was configured or it was.
\<close>

theorem guard_ports:
  assumes "new_guard cidrs ports = Inr g"
  shows "CheckPort g port = None \<longleftrightarrow>
           1 \<le> port \<and> port \<le> 65535 \<and> (ports = [] \<or> port \<in> set ports)"
  using assms by (auto simp: new_guard_def CheckPort_def split: sum.splits if_splits
      dest: add_ports_Inr)

theorem guard_ports_witness:
  "\<exists>g. new_guard (Some []) [80, 443] = Inr g \<and> CheckPort g 443 = None \<and> CheckPort g 25 \<noteq> None"
proof -
  obtain g where g: "new_guard (Some []) [80, 443] = Inr g"
    by (simp add: new_guard_def)
  then show ?thesis using guard_ports [OF g, of 443] guard_ports [OF g, of 25] by auto
qed

text \<open>
  The guard does not see through an IPv6 zone. Whatever ranges are denied, an IPv6 address
  that carries a zone (and is no IPv4-mapped one) passes; with the default list the loopback
  literal \<open>::1\<close> is refused, and the same literal with a zone is accepted, by the check before
  the dial.
\<close>

theorem guard_zone_bypass:
  "(\<not> has_zone (unmap a) \<or> CheckAddr g (Some a) = None) \<and>
   CheckHost \<lparr>g_denied = default_prefixes, g_allowed_port = None\<rparr> ''::1'' \<noteq> None \<and>
   CheckHost \<lparr>g_denied = default_prefixes, g_allowed_port = None\<rparr> ''::1%lo'' = None"
proof -
  have "CheckHost \<lparr>g_denied = default_prefixes, g_allowed_port = None\<rparr> ''::1'' \<noteq> None"
    by code_simp
  moreover have "CheckHost \<lparr>g_denied = default_prefixes, g_allowed_port = None\<rparr> ''::1%lo'' = None"
    by code_simp
  moreover have "CheckAddr g (Some a) = None" if "has_zone (unmap a)"
    using that by (auto simp: CheckAddr_None_iff dest: contains_zone)
  ultimately show ?thesis by (cases "has_zone (unmap a)") simp_all
qed

theorem guard_zone_bypass_witness:
  "has_zone (unmap (V6 1 ''lo'')) \<and>
   CheckAddr \<lparr>g_denied = default_prefixes, g_allowed_port = None\<rparr> (Some (V6 1 ''lo'')) = None"
proof -
  have "has_zone (unmap (V6 1 ''lo''))" by code_simp
  then show ?thesis
    using guard_zone_bypass [of "V6 1 ''lo''" "\<lparr>g_denied = default_prefixes, g_allowed_port = None\<rparr>"]
    by blast
qed

end
