(* ===== verification/Georoute.thy ===== *)
theory Georoute
  imports Prelude
begin

text \<open>
  \<open>internal/georoute/georoute.go\<close>: the coarse geographic prior that ranks an entry tunnel
  for an exit country before there are measurements. The two Go maps are association lists
  read with \<open>map_of\<close>.
\<close>

datatype region =
    Unknown | EastAsia | SouthAsia | Oceania | Europe | MiddleEast | Africa
  | NorthAmerica | SouthAmerica

definition countryRegion :: "(string \<times> region) list" where
  "countryRegion =
     map (\<lambda>c. (c, EastAsia)) [''jp'', ''hk'', ''tw'', ''kr''] @
     map (\<lambda>c. (c, SouthAsia)) [''sg'', ''my'', ''th'', ''id'', ''ph'', ''vn'', ''in''] @
     map (\<lambda>c. (c, Oceania)) [''au'', ''nz''] @
     map (\<lambda>c. (c, Europe))
       [''al'', ''at'', ''be'', ''bg'', ''ch'', ''cy'', ''cz'', ''de'', ''dk'', ''ee'',
        ''es'', ''fi'', ''fr'', ''gb'', ''gr'', ''hr'', ''hu'', ''ie'', ''it'', ''lt'',
        ''lu'', ''lv'', ''md'', ''nl'', ''no'', ''pl'', ''pt'', ''ro'', ''rs'', ''se'',
        ''si'', ''sk'', ''ua''] @
     map (\<lambda>c. (c, MiddleEast)) [''il'', ''tr'', ''ae''] @
     map (\<lambda>c. (c, Africa)) [''za'', ''ng'', ''ke''] @
     map (\<lambda>c. (c, NorthAmerica)) [''us'', ''ca'', ''mx''] @
     map (\<lambda>c. (c, SouthAmerica)) [''ar'', ''br'', ''cl'', ''co'', ''pe'']"

definition RegionOf :: "string \<Rightarrow> region" where
  "RegionOf country =
     (case map_of countryRegion (to_lower (trim_space country)) of
        None \<Rightarrow> Unknown | Some r \<Rightarrow> r)"

fun distance :: "region \<Rightarrow> (region \<times> int) list option" where
  "distance EastAsia = Some [(EastAsia, 0), (SouthAsia, 1), (Oceania, 2), (NorthAmerica, 3),
     (MiddleEast, 4), (Europe, 5), (SouthAmerica, 6), (Africa, 6)]"
| "distance SouthAsia = Some [(SouthAsia, 0), (EastAsia, 1), (Oceania, 2), (MiddleEast, 3),
     (Europe, 4), (NorthAmerica, 4), (Africa, 5), (SouthAmerica, 7)]"
| "distance Oceania = Some [(Oceania, 0), (EastAsia, 2), (SouthAsia, 2), (NorthAmerica, 4),
     (Europe, 6), (MiddleEast, 6), (SouthAmerica, 6), (Africa, 7)]"
| "distance Europe = Some [(Europe, 0), (MiddleEast, 1), (Africa, 2), (NorthAmerica, 3),
     (SouthAsia, 4), (EastAsia, 5), (SouthAmerica, 5), (Oceania, 6)]"
| "distance MiddleEast = Some [(MiddleEast, 0), (Europe, 1), (Africa, 2), (SouthAsia, 3),
     (EastAsia, 4), (NorthAmerica, 4), (SouthAmerica, 6), (Oceania, 6)]"
| "distance Africa = Some [(Africa, 0), (Europe, 2), (MiddleEast, 2), (SouthAsia, 5),
     (NorthAmerica, 5), (SouthAmerica, 5), (EastAsia, 6), (Oceania, 7)]"
| "distance NorthAmerica = Some [(NorthAmerica, 0), (SouthAmerica, 2), (Europe, 3),
     (EastAsia, 3), (SouthAsia, 4), (Oceania, 4), (MiddleEast, 4), (Africa, 5)]"
| "distance SouthAmerica = Some [(SouthAmerica, 0), (NorthAmerica, 2), (Europe, 5), (Africa, 5),
     (MiddleEast, 6), (EastAsia, 6), (SouthAsia, 7), (Oceania, 6)]"
| "distance Unknown = None"

definition unknownCost :: int where
  "unknownCost = 4"

definition Cost :: "string \<Rightarrow> string \<Rightarrow> int" where
  "Cost entryCountry exitCountry =
     (let from = RegionOf entryCountry; dest = RegionOf exitCountry
      in if from = Unknown \<or> dest = Unknown then unknownCost
         else case distance from of
                Some row \<Rightarrow> (case map_of row dest of Some cost \<Rightarrow> cost | None \<Rightarrow> unknownCost)
              | None \<Rightarrow> unknownCost)"

definition region_cost :: "region \<Rightarrow> region \<Rightarrow> int" where
  "region_cost r s =
     (if r = Unknown \<or> s = Unknown then unknownCost
      else case distance r of
             Some row \<Rightarrow> (case map_of row s of Some c \<Rightarrow> c | None \<Rightarrow> unknownCost)
           | None \<Rightarrow> unknownCost)"

lemma Cost_regions: "Cost a b = region_cost (RegionOf a) (RegionOf b)"
  by (simp add: Cost_def region_cost_def Let_def)

lemma region_cost_sym: "region_cost r s = region_cost s r"
  by (cases r; cases s) (simp_all add: region_cost_def)

lemma region_cost_bounds: "0 \<le> region_cost r s \<and> region_cost r s \<le> 7"
  by (cases r; cases s) (simp_all add: region_cost_def unknownCost_def)

lemma region_cost_0_iff: "region_cost r s = 0 \<longleftrightarrow> r = s \<and> r \<noteq> Unknown"
  by (cases r; cases s) (simp_all add: region_cost_def unknownCost_def)

lemma RegionOf_normal:
  "to_lower (trim_space a) = to_lower (trim_space b) \<Longrightarrow> RegionOf a = RegionOf b"
  by (simp add: RegionOf_def)

text \<open>
  The prior is a symmetric cost between 0 and 7; it is 0 exactly when both countries are
  classified and lie in the same region, and an unclassified country always costs the middle
  of the scale.
\<close>

theorem cost_laws:
  "Cost a b = Cost b a \<and> 0 \<le> Cost a b \<and> Cost a b \<le> 7 \<and>
   (Cost a b = 0 \<longleftrightarrow> RegionOf a = RegionOf b \<and> RegionOf a \<noteq> Unknown) \<and>
   (RegionOf a = Unknown \<or> RegionOf b = Unknown \<longrightarrow> Cost a b = 4)"
  using region_cost_sym [of "RegionOf a" "RegionOf b"]
    region_cost_bounds [of "RegionOf a" "RegionOf b"]
    region_cost_0_iff [of "RegionOf a" "RegionOf b"]
  by (auto simp: Cost_regions region_cost_def unknownCost_def)

theorem cost_laws_witness:
  "Cost '' KR '' ''jp'' = 0 \<and> Cost ''xx'' ''kr'' = 4"
proof -
  have r: "RegionOf '' KR '' = EastAsia" "RegionOf ''jp'' = EastAsia" "RegionOf ''xx'' = Unknown"
    by code_simp+
  show ?thesis
    using cost_laws [of "'' KR ''" "''jp''"] cost_laws [of "''xx''" "''kr''"] r by simp
qed

end
