(* ===== verification/Policy.thy ===== *)
theory Policy
  imports Netip
begin

text \<open>
  \<open>internal/policy/policy.go\<close>: the egress policy a client writes into the proxy user name.
  \<open>Parse\<close> is the loop over the directives (\<open>directive\<close> is the body of its \<open>switch\<close>) followed
  by \<open>validate\<close>. \<open>String\<close> and \<open>LogString\<close> render a policy.
\<close>

record policy =
  pol_AnyExit :: bool
  pol_Countries :: "string list"
  pol_Cities :: "string list"
  pol_Slot :: string
  pol_Provider :: string
  pol_Session :: string
  pol_TTL :: duration
  pol_UniqueBatch :: string
  pol_BatchTTL :: duration
  pol_RecycleBatch :: bool
  pol_HealthScope :: string
  pol_ExcludeIPs :: "addr option list"

definition no_policy :: policy where
  "no_policy = \<lparr>pol_AnyExit = False, pol_Countries = [], pol_Cities = [], pol_Slot = [],
     pol_Provider = [], pol_Session = [], pol_TTL = 0, pol_UniqueBatch = [], pol_BatchTTL = 0,
     pol_RecycleBatch = False, pol_HealthScope = [], pol_ExcludeIPs = []\<rparr>"

datatype policy_error =
    UsernameTooLong nat
  | NotKeyValue string
  | EmptyValue string
  | NotBoolean string
  | NegativeTTL string string
  | BadTTL string string
  | BttlZero
  | BadIP string
  | UnknownDirective string
  | UnsafeToken string
  | BadCountry string
  | UnsafeCity
  | BadCity string
  | TTLNegative
  | BttlNegative
  | BttlWithoutUniq
  | AnyConflict "string list"

definition IsZero :: "policy \<Rightarrow> bool" where
  "IsZero p \<longleftrightarrow>
     \<not> pol_AnyExit p \<and> pol_Countries p = [] \<and> pol_Cities p = [] \<and> pol_Slot p = [] \<and>
     pol_Provider p = [] \<and> pol_Session p = [] \<and> pol_TTL p = 0 \<and> pol_UniqueBatch p = [] \<and>
     pol_BatchTTL p = 0 \<and> pol_HealthScope p = [] \<and> pol_ExcludeIPs p = []"

section \<open>Lifetimes\<close>

definition parseTTL :: "string \<Rightarrow> string \<Rightarrow> policy_error + duration" where
  "parseTTL name value =
     (case atoi value of
        Some secs \<Rightarrow>
          if secs < 0 then Inl (NegativeTTL name value) else Inr (wrap64 (secs * second))
      | None \<Rightarrow>
          (case parse_duration value of
             None \<Rightarrow> Inl (BadTTL name value)
           | Some d \<Rightarrow> if d < 0 then Inl (NegativeTTL name value) else Inr d))"

section \<open>Parsing\<close>

definition MaxUsernameLen :: nat where "MaxUsernameLen = 512"
definition maxOpaqueTokenLen :: nat where "maxOpaqueTokenLen = 128"

definition parseBool :: "string \<Rightarrow> policy_error + bool" where
  "parseBool value =
     (let v = to_lower value
      in if v \<in> {''1'', ''true'', ''yes'', ''y''} then Inr True
         else if v \<in> {''0'', ''false'', ''no'', ''n''} then Inr False
         else Inl (NotBoolean value))"

definition safe_char :: "char \<Rightarrow> bool" where
  "safe_char c \<longleftrightarrow>
     (CHR ''a'' \<le> c \<and> c \<le> CHR ''z'') \<or> (CHR ''A'' \<le> c \<and> c \<le> CHR ''Z'') \<or>
     (CHR ''0'' \<le> c \<and> c \<le> CHR ''9'') \<or> c = CHR ''-'' \<or> c = CHR ''_'' \<or> c = CHR ''.''"

definition isSafeOpaqueToken :: "string \<Rightarrow> bool" where
  "isSafeOpaqueToken value \<longleftrightarrow> length value \<le> maxOpaqueTokenLen \<and> list_all safe_char value"

definition isASCIICountryCode :: "string \<Rightarrow> bool" where
  "isASCIICountryCode value \<longleftrightarrow>
     length value = 2 \<and> list_all (\<lambda>c. CHR ''a'' \<le> c \<and> c \<le> CHR ''z'') value"

definition appendLower :: "string list \<Rightarrow> string \<Rightarrow> string list" where
  "appendLower dst value =
     dst @ filter (\<lambda>w. w \<noteq> []) (map (\<lambda>item. to_lower (trim_space item)) (split_on CHR ''|'' value))"

fun parse_ips :: "string list \<Rightarrow> policy_error + addr option list" where
  "parse_ips [] = Inr []"
| "parse_ips (item # items) =
     (case parse_addr (trim_space item) of
        None \<Rightarrow> Inl (BadIP item)
      | Some a \<Rightarrow> (case parse_ips items of Inl e \<Rightarrow> Inl e | Inr as \<Rightarrow> Inr (Some a # as)))"

definition directive :: "policy \<Rightarrow> string \<Rightarrow> string \<Rightarrow> policy_error + policy" where
  "directive p key value =
     (if key = ''any'' then
        (case parseBool value of Inl e \<Rightarrow> Inl e | Inr b \<Rightarrow> Inr (p\<lparr>pol_AnyExit := b\<rparr>))
      else if key \<in> {''cc'', ''country''} then
        Inr (p\<lparr>pol_Countries := appendLower (pol_Countries p) value\<rparr>)
      else if key = ''city'' then Inr (p\<lparr>pol_Cities := appendLower (pol_Cities p) value\<rparr>)
      else if key = ''slot'' then Inr (p\<lparr>pol_Slot := value\<rparr>)
      else if key = ''provider'' then Inr (p\<lparr>pol_Provider := value\<rparr>)
      else if key \<in> {''sess'', ''session''} then Inr (p\<lparr>pol_Session := value\<rparr>)
      else if key = ''ttl'' then
        (case parseTTL ''ttl'' value of Inl e \<Rightarrow> Inl e | Inr d \<Rightarrow> Inr (p\<lparr>pol_TTL := d\<rparr>))
      else if key \<in> {''uniq'', ''unique''} then Inr (p\<lparr>pol_UniqueBatch := value\<rparr>)
      else if key = ''brecycle'' then
        (case parseBool value of Inl e \<Rightarrow> Inl e | Inr b \<Rightarrow> Inr (p\<lparr>pol_RecycleBatch := b\<rparr>))
      else if key = ''bttl'' then
        (case parseTTL ''bttl'' value of
           Inl e \<Rightarrow> Inl e
         | Inr d \<Rightarrow> if d = 0 then Inl BttlZero else Inr (p\<lparr>pol_BatchTTL := d\<rparr>))
      else if key = ''health'' then Inr (p\<lparr>pol_HealthScope := value\<rparr>)
      else if key \<in> {''not'', ''exclude''} then
        (case parse_ips (split_on CHR ''|'' value) of
           Inl e \<Rightarrow> Inl e
         | Inr as \<Rightarrow> Inr (p\<lparr>pol_ExcludeIPs := pol_ExcludeIPs p @ as\<rparr>))
      else Inl (UnknownDirective key))"

fun parse_fields :: "policy \<Rightarrow> string list \<Rightarrow> policy_error + policy" where
  "parse_fields p [] = Inr p"
| "parse_fields p (f # fs) =
     (let field = trim_space f
      in if field = [] then parse_fields p fs
         else (case cut CHR ''='' field of
                 None \<Rightarrow> Inl (NotKeyValue field)
               | Some (k, v) \<Rightarrow>
                   let key = to_lower (trim_space k); value = trim_space v
                   in if value = [] then Inl (EmptyValue key)
                      else (case directive p key value of
                              Inl e \<Rightarrow> Inl e
                            | Inr p' \<Rightarrow> parse_fields p' fs)))"

text \<open>
  The code ranges over a Go map of the five tokens, so which of several unsafe tokens the
  error names is not determined; the model names the first in source order.
\<close>

definition validate :: "policy \<Rightarrow> policy_error + policy" where
  "validate p =
     (case filter (\<lambda>(name, value). value \<noteq> [] \<and> \<not> isSafeOpaqueToken value)
             [(''session'', pol_Session p), (''slot'', pol_Slot p), (''provider'', pol_Provider p),
              (''unique batch'', pol_UniqueBatch p), (''health scope'', pol_HealthScope p)] of
        (name, _) # _ \<Rightarrow> Inl (UnsafeToken name)
      | [] \<Rightarrow>
          (case filter (\<lambda>cc. \<not> isASCIICountryCode cc) (pol_Countries p) of
             cc # _ \<Rightarrow> Inl (BadCountry cc)
           | [] \<Rightarrow>
               (case filter (\<lambda>c. \<not> isSafeOpaqueToken c \<or> CHR ''-'' \<notin> set c) (pol_Cities p) of
                  c # _ \<Rightarrow> Inl (if isSafeOpaqueToken c then BadCity c else UnsafeCity)
                | [] \<Rightarrow>
                    if pol_TTL p < 0 then Inl TTLNegative
                    else if pol_BatchTTL p < 0 then Inl BttlNegative
                    else if pol_BatchTTL p > 0 \<and> pol_UniqueBatch p = [] then Inl BttlWithoutUniq
                    else
                      let conflicts = (if pol_Countries p \<noteq> [] then [''cc''] else []) @
                                      (if pol_Cities p \<noteq> [] then [''city''] else []) @
                                      (if pol_Slot p \<noteq> [] then [''slot''] else [])
                      in if pol_AnyExit p \<and> conflicts \<noteq> [] then Inl (AnyConflict conflicts)
                         else Inr (p\<lparr>pol_Countries := sort (pol_Countries p),
                                     pol_Cities := sort (pol_Cities p)\<rparr>))))"

definition Parse :: "string \<Rightarrow> policy_error + policy" where
  "Parse username0 =
     (let username = trim_space username0
      in if username = [] then Inr no_policy
         else if length username > MaxUsernameLen then Inl (UsernameTooLong (length username))
         else if CHR ''='' \<notin> set username then Inr no_policy
         else (case parse_fields no_policy
                      (fields_func (\<lambda>c. c = CHR '';'' \<or> c = CHR '','') username) of
                 Inl e \<Rightarrow> Inl e
               | Inr p \<Rightarrow> validate p))"

section \<open>Rendering\<close>

definition policy_string :: "policy \<Rightarrow> string" where
  "policy_string p =
     (let parts =
        (if pol_AnyExit p then [''any=1''] else []) @
        (if pol_Countries p \<noteq> [] then [''cc='' @ join ''|'' (pol_Countries p)] else []) @
        (if pol_Cities p \<noteq> [] then [''city='' @ join ''|'' (pol_Cities p)] else []) @
        (if pol_Slot p \<noteq> [] then [''slot='' @ pol_Slot p] else []) @
        (if pol_Provider p \<noteq> [] then [''provider='' @ pol_Provider p] else []) @
        (if pol_Session p \<noteq> [] then [''sess='' @ pol_Session p] else []) @
        (if pol_TTL p > 0 then [''ttl='' @ duration_string (pol_TTL p)] else []) @
        (if pol_UniqueBatch p \<noteq> [] then [''uniq='' @ pol_UniqueBatch p] else []) @
        (if pol_BatchTTL p > 0 then [''bttl='' @ duration_string (pol_BatchTTL p)] else []) @
        (if pol_HealthScope p \<noteq> [] then [''health='' @ pol_HealthScope p] else []) @
        map (\<lambda>ip. ''not='' @ addr_string ip) (pol_ExcludeIPs p)
      in if parts = [] then ''(none)'' else join '';'' parts)"

definition LogString :: "policy \<Rightarrow> string" where
  "LogString p =
     (let excluded = length (pol_ExcludeIPs p);
          rendered = policy_string (p\<lparr>pol_ExcludeIPs := [], pol_HealthScope := []\<rparr>);
          suffixes = (if pol_HealthScope p \<noteq> [] then [''health=present''] else []) @
                     (if excluded > 0 then [''not_count='' @ itoa (int excluded)] else [])
      in if suffixes = [] then rendered
         else if rendered = ''(none)'' then join '';'' suffixes
         else rendered @ '';'' @ join '';'' suffixes)"

section \<open>What a parsed policy satisfies\<close>

definition valid_policy :: "policy \<Rightarrow> bool" where
  "valid_policy p \<longleftrightarrow>
     list_all isSafeOpaqueToken
       [pol_Session p, pol_Slot p, pol_Provider p, pol_UniqueBatch p, pol_HealthScope p] \<and>
     list_all isASCIICountryCode (pol_Countries p) \<and> sorted (pol_Countries p) \<and>
     list_all (\<lambda>c. isSafeOpaqueToken c \<and> CHR ''-'' \<in> set c) (pol_Cities p) \<and>
     sorted (pol_Cities p) \<and>
     0 \<le> pol_TTL p \<and> 0 \<le> pol_BatchTTL p \<and>
     (pol_BatchTTL p = 0 \<or> pol_UniqueBatch p \<noteq> []) \<and>
     (pol_AnyExit p \<longrightarrow> pol_Countries p = [] \<and> pol_Cities p = [] \<and> pol_Slot p = []) \<and>
     None \<notin> set (pol_ExcludeIPs p)"

lemma safe_empty [simp]: "isSafeOpaqueToken []"
  by (simp add: isSafeOpaqueToken_def)

text \<open>What the loop keeps: the excluded addresses are valid.\<close>

definition loop_ok :: "policy \<Rightarrow> bool" where
  "loop_ok p \<longleftrightarrow> None \<notin> set (pol_ExcludeIPs p)"

lemma parse_ips_valid: "parse_ips items = Inr as \<Longrightarrow> None \<notin> set as"
  by (induction items arbitrary: as) (auto split: option.splits sum.splits)

lemma if_resultE: "(if b then x else y) = r \<Longrightarrow> (x = r \<Longrightarrow> P) \<Longrightarrow> (y = r \<Longrightarrow> P) \<Longrightarrow> P"
  by (cases b) auto

lemma directive_ok:
  assumes "directive p k v = Inr p'" and "loop_ok p"
  shows "loop_ok p'"
  using assms(1) unfolding directive_def
  by (elim if_resultE)
    (use assms(2) parse_ips_valid [of "split_on CHR ''|'' v"]
     in \<open>auto simp: loop_ok_def split: if_split_asm sum.split_asm\<close>)

lemma parse_fields_ok: "parse_fields p fs = Inr p' \<Longrightarrow> loop_ok p \<Longrightarrow> loop_ok p'"
proof (induction fs arbitrary: p)
  case (Cons f fs)
  then show ?case
    by (simp add: Let_def split: if_split_asm option.split_asm sum.split_asm prod.split_asm)
      (metis directive_ok)
qed simp

text \<open>The checks of \<open>validate\<close> that must have passed, in their order.\<close>

lemma validate_Inr:
  assumes "validate p = Inr q"
  shows "filter (\<lambda>(name, value). value \<noteq> [] \<and> \<not> isSafeOpaqueToken value)
             [(''session'', pol_Session p), (''slot'', pol_Slot p), (''provider'', pol_Provider p),
              (''unique batch'', pol_UniqueBatch p), (''health scope'', pol_HealthScope p)] = []"
    and "filter (\<lambda>cc. \<not> isASCIICountryCode cc) (pol_Countries p) = []"
    and "filter (\<lambda>c. \<not> isSafeOpaqueToken c \<or> CHR ''-'' \<notin> set c) (pol_Cities p) = []"
    and "\<not> pol_TTL p < 0" and "\<not> pol_BatchTTL p < 0"
    and "\<not> (pol_BatchTTL p > 0 \<and> pol_UniqueBatch p = [])"
    and "\<not> (pol_AnyExit p \<and>
           (if pol_Countries p \<noteq> [] then [''cc''] else []) @
           (if pol_Cities p \<noteq> [] then [''city''] else []) @
           (if pol_Slot p \<noteq> [] then [''slot''] else []) \<noteq> [])"
    and "q = p\<lparr>pol_Countries := sort (pol_Countries p), pol_Cities := sort (pol_Cities p)\<rparr>"
  using assms unfolding validate_def Let_def
  by (simp_all only: sum.distinct sum.inject simp_thms
      split: list.split_asm prod.split_asm if_split_asm)

lemma validate_valid:
  assumes "validate p = Inr q" and "loop_ok p"
  shows "valid_policy q"
proof -
  have tok: "isSafeOpaqueToken t"
    if "t \<in> {pol_Session p, pol_Slot p, pol_Provider p, pol_UniqueBatch p, pol_HealthScope p}" for t
    using validate_Inr(1) [OF assms(1), unfolded filter_empty_conv] that by (cases "t = []") auto
  show ?thesis
    using tok validate_Inr(2-8) [OF assms(1)] assms(2)
    by (auto simp: valid_policy_def loop_ok_def list_all_iff filter_empty_conv
        split: if_split_asm)
qed

lemma valid_no_policy: "valid_policy no_policy"
  by (simp add: valid_policy_def no_policy_def)

text \<open>
  C40: whatever a client writes into the user name, a policy that parses is well formed: its
  tokens are safe and bounded, its countries are sorted two-letter codes, its cities sorted
  labels, its lifetimes are not negative, a batch lifetime comes with a batch, and \<open>any=1\<close> is
  not combined with a location.
\<close>

theorem parse_valid:
  assumes "Parse u = Inr p"
  shows "valid_policy p"
proof -
  have "loop_ok no_policy" by (simp add: loop_ok_def no_policy_def)
  then show ?thesis
    using assms parse_fields_ok validate_valid valid_no_policy
    by (auto simp: Parse_def Let_def split: if_splits sum.splits)
qed

theorem parse_valid_witness:
  "\<exists>p. Parse '' CC=us|JP; sess=job-1;ttl=10m '' = Inr p \<and> valid_policy p \<and>
       pol_Countries p = [''jp'', ''us''] \<and> pol_TTL p = 600 * second"
proof -
  let ?p = "no_policy\<lparr>pol_Countries := [''jp'', ''us''], pol_Session := ''job-1'',
              pol_TTL := 600000000000\<rparr>"
  have r: "Parse '' CC=us|JP; sess=job-1;ttl=10m '' = Inr ?p" by code_simp
  show ?thesis by (rule exI [of _ ?p]) (use parse_valid [OF r] r in simp)
qed

text \<open>
  A bare number of seconds is read exactly up to 9223372036 seconds (292 years). Above it
  the multiplication by a second wraps around in 64 bits: \<open>ttl=18446744074\<close> is accepted as a
  lifetime of less than a third of a second.
\<close>

theorem parse_ttl_seconds:
  "(atoi v = Some secs \<and> 0 \<le> secs \<and> secs \<le> 9223372036 \<longrightarrow> parseTTL n v = Inr (secs * second)) \<and>
   Parse ''ttl=18446744074'' = Inr (no_policy\<lparr>pol_TTL := 290448384\<rparr>)"
proof -
  have "Parse ''ttl=18446744074'' = Inr (no_policy\<lparr>pol_TTL := 290448384\<rparr>)" by code_simp
  moreover have "atoi v = Some secs \<Longrightarrow> 0 \<le> secs \<Longrightarrow> secs \<le> 9223372036 \<Longrightarrow>
      parseTTL n v = Inr (secs * second)"
    by (simp add: parseTTL_def wrap64_id)
  ultimately show ?thesis by blast
qed

theorem parse_ttl_seconds_witness:
  "parseTTL ''ttl'' ''600'' = Inr (600 * second)"
proof -
  have "atoi ''600'' = Some 600" by code_simp
  then show ?thesis using parse_ttl_seconds [of "''600''" 600 "''ttl''"] by simp
qed

text \<open>
  The text of a policy does not carry its \<open>brecycle\<close> directive, and \<open>IsZero\<close> does not look
  at it: a user name of \<open>brecycle=1\<close> alone parses to a policy that counts as nothing expressed,
  prints as \<open>(none)\<close>, and is lost when its text is parsed again.
\<close>

theorem brecycle_lost:
  "policy_string (p\<lparr>pol_RecycleBatch := b\<rparr>) = policy_string p \<and>
   IsZero (p\<lparr>pol_RecycleBatch := b\<rparr>) = IsZero p \<and>
   Parse ''brecycle=1'' = Inr (no_policy\<lparr>pol_RecycleBatch := True\<rparr>) \<and>
   Parse (policy_string (no_policy\<lparr>pol_RecycleBatch := True\<rparr>)) = Inr no_policy"
proof -
  have "Parse ''brecycle=1'' = Inr (no_policy\<lparr>pol_RecycleBatch := True\<rparr>)" by code_simp
  moreover have "Parse (policy_string (no_policy\<lparr>pol_RecycleBatch := True\<rparr>)) = Inr no_policy"
    by code_simp
  ultimately show ?thesis by (simp add: policy_string_def IsZero_def)
qed

end
