(* ===== verification/PoolState.thy ===== *)
theory PoolState
  imports Netip Policy
begin

text \<open>
  The data of \<open>internal/pool\<close>: errors, slot specifications (\<open>spec.go\<close>), options, the state of a
  slot, of an entry (\<open>entry.go\<close>), of a unique-IP batch and of the pool (\<open>pool.go\<close>), and the
  constructors.

  A \<open>*slotState\<close> is a reference into the heap \<open>p_heap\<close>: leases and reservations keep pointing to
  a slot state that a reconciliation has detached from \<open>p_slots\<close>. A \<open>*batch\<close> is compared by
  address in one place, so each batch carries the number of its allocation. A tunnel is a
  number (\<open>None\<close> is the \<open>nil\<close> pointer), the channel \<open>opening\<close> is a flag, and an
  address is an \<open>addr option\<close> (\<open>None\<close> is \<open>netip.Addr{}\<close>). The logger, contexts, wait groups and
  semaphores of the Go structs carry no data the operations read, and are left out. The
  connection counters are natural numbers: the code decrements none below zero.
\<close>

section \<open>Errors\<close>

type_synonym netaddr = "addr option"
type_synonym ref = nat

datatype pool_error =
    ErrNoCandidate | ErrExhausted | ErrCapacity | ErrTunnelBudget | ErrBusy | ErrBatchFull
  | ErrPolicy | ErrSessionFull | ErrIdentityMismatch
  | ErrDestination
  | DeadlineExceeded | Canceled
  | Errorf string
  | Foreign string
  | Wrapped pool_error
  | Joined pool_error pool_error

text \<open>\<open>errors.Is\<close>: the error itself or one it wraps.\<close>

fun errors_is :: "pool_error \<Rightarrow> pool_error \<Rightarrow> bool" where
  "errors_is (Wrapped e) t = (Wrapped e = t \<or> errors_is e t)"
| "errors_is (Joined e f) t = (Joined e f = t \<or> errors_is e t \<or> errors_is f t)"
| "errors_is e t = (e = t)"

text \<open>\<open>redactedError\<close>: the Go type of the error, which is all that is kept of its text.\<close>

fun redactedError :: "pool_error \<Rightarrow> string" where
  "redactedError (Foreign ty) = ty"
| "redactedError DeadlineExceeded = ''context.deadlineExceededError''"
| "redactedError (Wrapped _) = ''*fmt.wrapError''"
| "redactedError (Joined _ _) = ''*fmt.wrapErrors''"
| "redactedError _ = ''*errors.errorString''"

section \<open>Specifications\<close>

datatype kind = KindWireGuard | KindRelaySocks | KindDirectSocks

fun kind_string :: "kind \<Rightarrow> string" where
  "kind_string KindWireGuard = ''wireguard''"
| "kind_string KindRelaySocks = ''relay-socks''"
| "kind_string KindDirectSocks = ''direct-socks''"

text \<open>\<open>catalog.Slot\<close>: one WireGuard peer.\<close>

record wg_slot =
  c_ID :: string
  c_Country :: string
  c_City :: string
  c_Device :: string
  c_PrivateKey :: string
  c_Addresses :: "netaddr list"
  c_DNS :: "netaddr list"
  c_MTU :: int
  c_PeerPublicKey :: string
  c_PeerPresharedKey :: string
  c_Endpoint :: string
  c_AllowedIPs :: "prefix list"
  c_Source :: string

definition no_wg :: wg_slot where
  "no_wg = \<lparr>c_ID = [], c_Country = [], c_City = [], c_Device = [], c_PrivateKey = [],
     c_Addresses = [], c_DNS = [], c_MTU = 0, c_PeerPublicKey = [], c_PeerPresharedKey = [],
     c_Endpoint = [], c_AllowedIPs = [], c_Source = []\<rparr>"

record spec =
  sp_ID :: string
  sp_Country :: string
  sp_City :: string
  sp_Provider :: string
  sp_Rotating :: bool
  sp_Kind :: kind
  sp_WG :: wg_slot
  sp_SocksAddr :: string
  sp_socksUsername :: string
  sp_socksPassword :: string

definition spec_Target :: "spec \<Rightarrow> string" where
  "spec_Target s =
     (if sp_Kind s = KindRelaySocks \<or> sp_Kind s = KindDirectSocks then sp_SocksAddr s
      else c_Endpoint (sp_WG s))"

definition SpecsFromBundle :: "wg_slot list \<Rightarrow> spec list" where
  "SpecsFromBundle slots =
     map (\<lambda>slot. \<lparr>sp_ID = c_ID slot, sp_Country = c_Country slot, sp_City = c_City slot,
            sp_Provider = ''mullvad'', sp_Rotating = False, sp_Kind = KindWireGuard,
            sp_WG = slot, sp_SocksAddr = [], sp_socksUsername = [], sp_socksPassword = []\<rparr>) slots"

record exit_spec =
  x_ID :: string
  x_Country :: string
  x_City :: string
  x_Provider :: string
  x_SocksAddr :: string

definition SpecsFromExits :: "exit_spec list \<Rightarrow> spec list" where
  "SpecsFromExits exits =
     map (\<lambda>x. \<lparr>sp_ID = x_ID x, sp_Country = x_Country x, sp_City = x_City x,
            sp_Provider = (if x_Provider x = [] then ''mullvad'' else x_Provider x),
            sp_Rotating = False, sp_Kind = KindRelaySocks, sp_WG = no_wg,
            sp_SocksAddr = x_SocksAddr x, sp_socksUsername = [], sp_socksPassword = []\<rparr>) exits"

text \<open>The parts of a \<open>*url.URL\<close> that a direct SOCKS slot reads: the user, the password (which may
  be missing) and the host.\<close>

record direct_options =
  d_ID :: string
  d_Provider :: string
  d_Country :: string
  d_City :: string
  d_Session :: string
  d_Rotating :: bool
  d_URL :: "((string \<times> string option) option \<times> string) option"

definition NewDirectSocksSpec :: "direct_options \<Rightarrow> pool_error + spec" where
  "NewDirectSocksSpec d =
     (case d_URL d of
        Some (Some (username, password), host) \<Rightarrow>
          if d_ID d = [] then Inl (Errorf ''pool: direct SOCKS provider is incomplete'')
          else if username = [] \<or> password = None \<or> password = Some [] then
            Inl (Errorf ''pool: direct SOCKS provider needs credentials'')
          else (case split_host_port host of
                  Some (h, p) \<Rightarrow>
                    if h = [] \<or> p = [] then
                      Inl (Errorf ''pool: direct SOCKS provider needs a host and port'')
                    else
                      Inr \<lparr>sp_ID = d_ID d, sp_Country = d_Country d, sp_City = d_City d,
                           sp_Provider = (if d_Provider d = [] then d_ID d else d_Provider d),
                           sp_Rotating = d_Rotating d, sp_Kind = KindDirectSocks, sp_WG = no_wg,
                           sp_SocksAddr = host,
                           sp_socksUsername =
                             (if d_Session d = [] then username
                              else username @ ''-session-'' @ d_Session d),
                           sp_socksPassword = the password\<rparr>
                | None \<Rightarrow> Inl (Errorf ''pool: direct SOCKS provider needs a host and port''))
      | _ \<Rightarrow> Inl (Errorf ''pool: direct SOCKS provider is incomplete''))"

section \<open>Options\<close>

record options =
  MaxActive :: int
  MaxConnsPerExit :: int
  MaxConcurrentConns :: int
  SessionTTL :: duration
  MaxSessionTTL :: duration
  MaxSessions :: int
  BatchTTL :: duration
  MaxBatchTTL :: duration
  MaxUniqueBatches :: int
  Cooldown :: duration
  PreferredTTL :: duration
  PreferredMax :: int
  IdleTimeout :: duration
  HandshakeTimeout :: duration
  DialAttempts :: int
  FailureBackoff :: duration
  NewTunnelBudget :: int
  NewTunnelWindow :: duration
  EntryExploreRate :: rat
  DisableEntryExploration :: bool
  IPCheckURL :: string
  IPCheckTimeout :: duration
  IPRefreshInterval :: duration
  IPCheckConcurrency :: int

definition default_to :: "int \<Rightarrow> int \<Rightarrow> int" where
  "default_to d x = (if x \<le> 0 then d else x)"

definition applyDefaults :: "options \<Rightarrow> options" where
  "applyDefaults o' =
     (let batchTTL = default_to (15 * minute) (BatchTTL o')
      in o'\<lparr>SessionTTL := default_to (10 * minute) (SessionTTL o'),
            MaxSessionTTL := default_to (24 * hour) (MaxSessionTTL o'),
            MaxSessions := default_to 10000 (MaxSessions o'),
            BatchTTL := batchTTL,
            MaxBatchTTL := default_to batchTTL (MaxBatchTTL o'),
            MaxUniqueBatches := default_to 10000 (MaxUniqueBatches o'),
            Cooldown := default_to (15 * minute) (Cooldown o'),
            PreferredTTL := default_to (30 * minute) (PreferredTTL o'),
            PreferredMax := default_to 8 (PreferredMax o'),
            HandshakeTimeout := default_to (12 * second) (HandshakeTimeout o'),
            DialAttempts := default_to 3 (DialAttempts o'),
            FailureBackoff := default_to (30 * second) (FailureBackoff o'),
            NewTunnelWindow := default_to (10 * minute) (NewTunnelWindow o'),
            MaxConnsPerExit := max 0 (MaxConnsPerExit o'),
            MaxConcurrentConns := max 0 (MaxConcurrentConns o'),
            EntryExploreRate :=
              (if DisableEntryExploration o' then 0
               else if EntryExploreRate o' \<le> 0 then 1 / 10 else EntryExploreRate o'),
            IPCheckTimeout := default_to (15 * second) (IPCheckTimeout o'),
            IPRefreshInterval := default_to (6 * hour) (IPRefreshInterval o'),
            IPCheckConcurrency := default_to 4 (IPCheckConcurrency o')\<rparr>)"

section \<open>The state of a slot, an entry and the pool\<close>

record slot_state =
  s_spec :: spec
  s_tunnel :: "nat option"
  s_opening :: bool
  s_openedAt :: time
  s_lastUsed :: time
  s_leases :: nat
  s_pendingLeases :: nat
  s_publicIP :: netaddr
  s_ipCheckedAt :: time
  s_ipChecking :: bool
  s_failures :: nat
  s_lastError :: string
  s_disabledUntil :: time
  s_cooldowns :: "(string, time) fmap"
  s_bytesSent :: "64 word"
  s_bytesReceived :: "64 word"

definition new_slot_state :: "spec \<Rightarrow> slot_state" where
  "new_slot_state sp = \<lparr>s_spec = sp, s_tunnel = None, s_opening = False, s_openedAt = 0,
     s_lastUsed = 0, s_leases = 0, s_pendingLeases = 0, s_publicIP = None, s_ipCheckedAt = 0,
     s_ipChecking = False, s_failures = 0, s_lastError = [], s_disabledUntil = 0,
     s_cooldowns = fmempty, s_bytesSent = 0, s_bytesReceived = 0\<rparr>"

definition slot_ID :: "slot_state \<Rightarrow> string" where
  "slot_ID s = sp_ID (s_spec s)"

definition isOpen :: "slot_state \<Rightarrow> bool" where
  "isOpen s \<longleftrightarrow> s_tunnel s \<noteq> None"

definition ready :: "slot_state \<Rightarrow> bool" where
  "ready s \<longleftrightarrow>
     sp_Kind (s_spec s) = KindRelaySocks \<or> sp_Kind (s_spec s) = KindDirectSocks \<or> isOpen s"

definition coolingDown :: "slot_state \<Rightarrow> string \<Rightarrow> time \<Rightarrow> bool" where
  "coolingDown s target now \<longleftrightarrow>
     target \<noteq> [] \<and>
     (case fmlookup (s_cooldowns s) target of None \<Rightarrow> False | Some until \<Rightarrow> now < until)"

record session =
  se_slotID :: string
  se_expiresAt :: time

record preferredExit =
  pe_slotID :: string
  pe_publicIP :: netaddr
  pe_expiresAt :: time

record batch =
  b_alloc :: nat
  b_usedIPs :: "(netaddr, time) fmap"
  b_burnSeq :: "(netaddr, nat) fmap"
  b_nextBurn :: nat
  b_usedSlots :: "string fset"
  b_slotIPs :: "(string, netaddr fset) fmap"
  b_expiresAt :: time

record batchReservation =
  br_name :: string
  br_batch :: nat
  br_slotID :: string

record acquisitionReservation =
  ar_batch :: "batchReservation option"
  ar_session :: string
  ar_state :: ref
  ar_active :: bool

record entryState =
  e_spec :: wg_slot
  e_tunnel :: "nat option"
  e_opening :: bool
  e_failures :: nat
  e_lastError :: string
  e_disabledUntil :: time
  e_openedAt :: time
  e_bytesSent :: "64 word"
  e_bytesReceived :: "64 word"
  e_latency :: "(string, duration) fmap"
  e_samples :: "(string, nat) fmap"

definition new_entry :: "wg_slot \<Rightarrow> entryState" where
  "new_entry sp = \<lparr>e_spec = sp, e_tunnel = None, e_opening = False, e_failures = 0,
     e_lastError = [], e_disabledUntil = 0, e_openedAt = 0, e_bytesSent = 0, e_bytesReceived = 0,
     e_latency = fmempty, e_samples = fmempty\<rparr>"

definition entry_isOpen :: "entryState \<Rightarrow> bool" where
  "entry_isOpen e \<longleftrightarrow> e_tunnel e \<noteq> None"

text \<open>\<open>metrics.go\<close>: the labels are strings, as in the code; a histogram has one bucket per bound
  and the last one for infinity (an empty list is the \<open>nil\<close> slice). Its float sum is exact.\<close>

record histogramMetric =
  h_buckets :: "64 word list"
  h_sum :: rat
  h_count :: "64 word"

type_synonym requestKey = "string \<times> string \<times> string"

record metricsState =
  mt_requests :: "(requestKey, 64 word) fmap"
  mt_requestDurations :: "(requestKey, histogramMetric) fmap"
  mt_requestTimeouts :: "(requestKey, 64 word) fmap"
  mt_requestedCountries :: "(string, 64 word) fmap"
  mt_selectedCountries :: "(string, 64 word) fmap"
  mt_fallbacks :: "(string \<times> string, 64 word) fmap"
  mt_payloads :: "(string \<times> string, 64 word \<times> 64 word) fmap"
  mt_tunnelOpens :: "(string \<times> string, 64 word) fmap"
  mt_tunnelDurations :: "(string \<times> string, histogramMetric) fmap"
  mt_entryFailures :: "(string, 64 word) fmap"

definition new_metrics :: metricsState where
  "new_metrics = \<lparr>mt_requests = fmempty, mt_requestDurations = fmempty,
     mt_requestTimeouts = fmempty, mt_requestedCountries = fmempty,
     mt_selectedCountries = fmempty, mt_fallbacks = fmempty, mt_payloads = fmempty,
     mt_tunnelOpens = fmempty, mt_tunnelDurations = fmempty, mt_entryFailures = fmempty\<rparr>"

record pool =
  p_opts :: options
  p_heap :: "ref \<Rightarrow> slot_state"
  p_nextRef :: ref
  p_slots :: "(string, ref) fmap"
  p_order :: "string list"
  p_sessions :: "(string, session) fmap"
  p_pendingSessions :: "(string, nat) fmap"
  p_batches :: "(string, batch) fmap"
  p_nextBatch :: nat
  p_preferred :: "(string, preferredExit list) fmap"
  p_ipCooldowns :: "(string, (netaddr, time) fmap) fmap"
  p_entries :: "entryState list"
  p_opens :: "time list"
  p_pendingTunnelOpens :: nat
  p_probeTunnels :: nat
  p_closing :: bool
  p_leased :: nat
  p_pendingLeases :: nat
  p_statAcquired :: "64 word"
  p_statBusy :: "64 word"
  p_statSent :: "64 word"
  p_statReceived :: "64 word"
  p_statRotated :: "64 word"
  p_statReports :: "64 word"
  p_statFailures :: "64 word"
  p_statAcquiredByCountry :: "(string, 64 word) fmap"
  p_metrics :: metricsState

record lease =
  l_state :: ref
  l_Slot :: spec
  l_Entry :: string
  l_Chained :: bool
  l_PublicIP :: netaddr
  l_Session :: string
  l_released :: bool

text \<open>Writing through a slot pointer.\<close>

definition upd_slot :: "ref \<Rightarrow> (slot_state \<Rightarrow> slot_state) \<Rightarrow> pool \<Rightarrow> pool" where
  "upd_slot r f p = p\<lparr>p_heap := (p_heap p)(r := f (p_heap p r))\<rparr>"

section \<open>Construction\<close>

definition empty_pool :: "options \<Rightarrow> wg_slot list \<Rightarrow> pool" where
  "empty_pool opts entries =
     \<lparr>p_opts = opts, p_heap = (\<lambda>_. new_slot_state
        \<lparr>sp_ID = [], sp_Country = [], sp_City = [], sp_Provider = [], sp_Rotating = False,
         sp_Kind = KindWireGuard, sp_WG = no_wg, sp_SocksAddr = [], sp_socksUsername = [],
         sp_socksPassword = []\<rparr>),
      p_nextRef = 0, p_slots = fmempty, p_order = [], p_sessions = fmempty,
      p_pendingSessions = fmempty, p_batches = fmempty, p_nextBatch = 0, p_preferred = fmempty,
      p_ipCooldowns = fmempty, p_entries = map new_entry entries, p_opens = [],
      p_pendingTunnelOpens = 0, p_probeTunnels = 0, p_closing = False, p_leased = 0,
      p_pendingLeases = 0, p_statAcquired = 0, p_statBusy = 0, p_statSent = 0,
      p_statReceived = 0, p_statRotated = 0, p_statReports = 0, p_statFailures = 0,
      p_statAcquiredByCountry = fmempty, p_metrics = new_metrics\<rparr>"

definition alloc_slot :: "spec \<Rightarrow> pool \<Rightarrow> pool" where
  "alloc_slot sp p =
     p\<lparr>p_heap := (p_heap p)(p_nextRef p := new_slot_state sp),
       p_nextRef := Suc (p_nextRef p)\<rparr>"

fun add_specs :: "spec list \<Rightarrow> pool \<Rightarrow> pool_error + pool" where
  "add_specs [] p = Inr p"
| "add_specs (sp # sps) p =
     (if sp_ID sp |\<in>| fmdom (p_slots p) then Inl (Errorf ''pool: duplicate slot id'')
      else add_specs sps
             ((alloc_slot sp p)\<lparr>p_slots := fmupd (sp_ID sp) (p_nextRef p) (p_slots p),
                                p_order := p_order p @ [sp_ID sp]\<rparr>))"

definition NewWithSpecs :: "spec list \<Rightarrow> wg_slot list \<Rightarrow> options \<Rightarrow> pool_error + pool" where
  "NewWithSpecs specs entries opts =
     (if specs = [] then Inl (Errorf ''pool: no slots'')
      else if list_ex (\<lambda>sp. sp_Kind sp = KindRelaySocks) specs \<and> entries = []
      then Inl (Errorf ''pool: relay-socks slots require at least one entry tunnel'')
      else (case add_specs specs (empty_pool (applyDefaults opts) entries) of
              Inl e \<Rightarrow> Inl e
            | Inr p \<Rightarrow> Inr (p\<lparr>p_order := sort (p_order p)\<rparr>)))"

definition New :: "wg_slot list option \<Rightarrow> options \<Rightarrow> pool_error + pool" where
  "New bundle opts =
     (case bundle of
        None \<Rightarrow> Inl (Errorf ''pool: bundle contains no slots'')
      | Some slots \<Rightarrow>
          if slots = [] then Inl (Errorf ''pool: bundle contains no slots'')
          else NewWithSpecs (SpecsFromBundle slots) [] opts)"

definition Len :: "pool \<Rightarrow> nat" where
  "Len p = fm_size (p_slots p)"

end
