(* ===== verification/Batch.thy ===== *)
theory Batch
  imports PoolState
begin

text \<open>
  The unique-IP batch of \<open>internal/pool/pool.go\<close>: which slots and addresses a batch has used,
  and in which order the addresses were burned. \<open>batch_ok\<close> is its representation invariant;
  \<open>burned\<close>, \<open>taken\<close> and \<open>burn_age\<close> are the abstract view the selection rests on.
\<close>

definition newBatch :: "nat \<Rightarrow> time \<Rightarrow> batch" where
  "newBatch alloc expiresAt = \<lparr>b_alloc = alloc, b_usedIPs = fmempty, b_burnSeq = fmempty,
     b_nextBurn = 0, b_usedSlots = {||}, b_slotIPs = fmempty, b_expiresAt = expiresAt\<rparr>"

definition stampLocked :: "netaddr \<Rightarrow> time \<Rightarrow> batch \<Rightarrow> batch" where
  "stampLocked ip at b =
     b\<lparr>b_usedIPs := fmupd ip at (b_usedIPs b),
       b_nextBurn := Suc (b_nextBurn b),
       b_burnSeq := fmupd ip (Suc (b_nextBurn b)) (b_burnSeq b)\<rparr>"

definition addIP :: "string \<Rightarrow> netaddr \<Rightarrow> time \<Rightarrow> batch \<Rightarrow> batch" where
  "addIP slotID ip at b =
     (if ip = None then b
      else
        let ips = fm_get {||} (b_slotIPs b) slotID
        in if ip |\<in>| ips then b
           else stampLocked ip at (b\<lparr>b_slotIPs := fmupd slotID (finsert ip ips) (b_slotIPs b)\<rparr>))"

definition batch_reserve :: "string \<Rightarrow> netaddr \<Rightarrow> time \<Rightarrow> batch \<Rightarrow> batch" where
  "batch_reserve slotID ip at b =
     addIP slotID ip at (b\<lparr>b_usedSlots := finsert slotID (b_usedSlots b)\<rparr>)"

definition batch_release :: "string \<Rightarrow> batch \<Rightarrow> batch" where
  "batch_release slotID b =
     (let ips = fm_get {||} (b_slotIPs b) slotID;
          others = fmdrop slotID (b_slotIPs b);
          stillUsed = (\<lambda>ip. fBex (fmran others) (\<lambda>s. ip |\<in>| s))
      in b\<lparr>b_slotIPs := others,
           b_usedSlots := b_usedSlots b |-| {|slotID|},
           b_usedIPs := fmfilter (\<lambda>ip. ip |\<in>| ips \<longrightarrow> stillUsed ip) (b_usedIPs b)\<rparr>)"

section \<open>The abstract view\<close>

definition burned :: "batch \<Rightarrow> netaddr \<Rightarrow> bool" where
  "burned b ip \<longleftrightarrow> ip |\<in>| fmdom (b_usedIPs b)"

definition taken :: "batch \<Rightarrow> string \<Rightarrow> bool" where
  "taken b sid \<longleftrightarrow> sid |\<in>| b_usedSlots b"

definition attributed :: "batch \<Rightarrow> string \<Rightarrow> netaddr \<Rightarrow> bool" where
  "attributed b sid ip \<longleftrightarrow> ip |\<in>| fm_get {||} (b_slotIPs b) sid"

definition burn_age :: "batch \<Rightarrow> netaddr \<Rightarrow> nat" where
  "burn_age b ip = fm_get 0 (b_burnSeq b) ip"

text \<open>
  The invariant: exactly the attributed addresses are burned, only slots in use have
  addresses, the invalid address is never burned, and the burn numbers of the burned
  addresses are distinct and at most the counter.
\<close>

definition batch_ok :: "batch \<Rightarrow> bool" where
  "batch_ok b \<longleftrightarrow>
     (\<forall>ip. burned b ip \<longleftrightarrow> (\<exists>sid. attributed b sid ip)) \<and>
     (\<forall>sid ip. attributed b sid ip \<longrightarrow> taken b sid) \<and>
     \<not> burned b None \<and>
     (\<forall>ip. burn_age b ip \<le> b_nextBurn b) \<and>
     (\<forall>ip. burned b ip \<longrightarrow> 0 < burn_age b ip) \<and>
     (\<forall>ip jp. 0 < burn_age b ip \<and> burn_age b ip = burn_age b jp \<longrightarrow> ip = jp)"

lemma batch_okD:
  assumes "batch_ok b"
  shows "burned b ip \<longleftrightarrow> (\<exists>sid. attributed b sid ip)"
    and "attributed b sid ip \<Longrightarrow> taken b sid"
    and "\<not> burned b None"
    and "burn_age b ip \<le> b_nextBurn b"
    and "burned b ip \<Longrightarrow> 0 < burn_age b ip"
    and "0 < burn_age b ip \<Longrightarrow> burn_age b ip = burn_age b jp \<Longrightarrow> ip = jp"
  using assms unfolding batch_ok_def by blast+

lemma newBatch_view [simp]:
  "burned (newBatch n e) ip = False" "taken (newBatch n e) sid = False"
  "attributed (newBatch n e) sid ip = False" "burn_age (newBatch n e) ip = 0"
  "b_alloc (newBatch n e) = n" "b_expiresAt (newBatch n e) = e" "b_nextBurn (newBatch n e) = 0"
  "b_usedSlots (newBatch n e) = {||}"
  by (simp_all add: newBatch_def burned_def taken_def attributed_def burn_age_def)

lemma newBatch_ok: "batch_ok (newBatch n e)"
  by (simp add: batch_ok_def)

lemma stamp_view [simp]:
  "burned (stampLocked ip at b) jp \<longleftrightarrow> jp = ip \<or> burned b jp"
  "taken (stampLocked ip at b) sid = taken b sid"
  "attributed (stampLocked ip at b) sid jp = attributed b sid jp"
  "burn_age (stampLocked ip at b) jp = (if jp = ip then Suc (b_nextBurn b) else burn_age b jp)"
  "b_nextBurn (stampLocked ip at b) = Suc (b_nextBurn b)"
  "b_alloc (stampLocked ip at b) = b_alloc b"
  "b_expiresAt (stampLocked ip at b) = b_expiresAt b"
  "b_usedSlots (stampLocked ip at b) = b_usedSlots b"
  "b_slotIPs (stampLocked ip at b) = b_slotIPs b"
  by (simp_all add: stampLocked_def burned_def taken_def attributed_def burn_age_def)

lemma addIP_view [simp]:
  "burned (addIP s ip at b) jp \<longleftrightarrow> burned b jp \<or> (jp = ip \<and> ip \<noteq> None \<and> \<not> attributed b s ip)"
  "taken (addIP s ip at b) sid = taken b sid"
  "attributed (addIP s ip at b) sid jp \<longleftrightarrow> attributed b sid jp \<or> (sid = s \<and> jp = ip \<and> ip \<noteq> None)"
  "b_alloc (addIP s ip at b) = b_alloc b"
  "b_expiresAt (addIP s ip at b) = b_expiresAt b"
  "b_usedSlots (addIP s ip at b) = b_usedSlots b"
  by (auto simp: addIP_def Let_def burned_def taken_def attributed_def stampLocked_def)

lemma usedSlots_view [simp]:
  "burned (b\<lparr>b_usedSlots := S\<rparr>) = burned b"
  "attributed (b\<lparr>b_usedSlots := S\<rparr>) = attributed b"
  "taken (b\<lparr>b_usedSlots := S\<rparr>) sid \<longleftrightarrow> sid |\<in>| S"
  "burn_age (b\<lparr>b_usedSlots := S\<rparr>) = burn_age b"
  by (auto simp: burned_def attributed_def taken_def burn_age_def fun_eq_iff)

lemma in_usedSlots: "sid |\<in>| b_usedSlots b \<longleftrightarrow> taken b sid"
  by (simp add: taken_def)

lemma batch_reserve_view [simp]:
  "burned (batch_reserve s ip at b) jp \<longleftrightarrow>
     burned b jp \<or> (jp = ip \<and> ip \<noteq> None \<and> \<not> attributed b s ip)"
  "taken (batch_reserve s ip at b) sid \<longleftrightarrow> sid = s \<or> taken b sid"
  "attributed (batch_reserve s ip at b) sid jp \<longleftrightarrow>
     attributed b sid jp \<or> (sid = s \<and> jp = ip \<and> ip \<noteq> None)"
  "b_alloc (batch_reserve s ip at b) = b_alloc b"
  "b_expiresAt (batch_reserve s ip at b) = b_expiresAt b"
  "b_usedSlots (batch_reserve s ip at b) = finsert s (b_usedSlots b)"
  unfolding batch_reserve_def by (simp_all add: in_usedSlots)

lemma stillUsed_iff:
  "fBex (fmran (fmdrop s (b_slotIPs b))) (\<lambda>t. ip |\<in>| t) \<longleftrightarrow>
     (\<exists>sid. sid \<noteq> s \<and> attributed b sid ip)"
proof -
  have "fBex (fmran m) P \<longleftrightarrow> (\<exists>k t. fmlookup m k = Some t \<and> P t)"
    for m :: "(string, netaddr fset) fmap" and P
    by (metis fBexE fBexI fmlookup_ran_iff)
  moreover have "attributed b sid ip \<longleftrightarrow> (\<exists>t. fmlookup (b_slotIPs b) sid = Some t \<and> ip |\<in>| t)" for sid
    by (simp add: attributed_def fm_get_def split: option.splits)
  ultimately show ?thesis by (simp only: fmlookup_drop) (metis option.distinct(1))
qed

lemma batch_release_view [simp]:
  "burned (batch_release s b) ip \<longleftrightarrow>
     burned b ip \<and> (attributed b s ip \<longrightarrow> (\<exists>sid. sid \<noteq> s \<and> attributed b sid ip))"
  "taken (batch_release s b) sid \<longleftrightarrow> sid \<noteq> s \<and> taken b sid"
  "attributed (batch_release s b) sid ip \<longleftrightarrow> sid \<noteq> s \<and> attributed b sid ip"
  "burn_age (batch_release s b) ip = burn_age b ip"
  "b_nextBurn (batch_release s b) = b_nextBurn b"
  "b_alloc (batch_release s b) = b_alloc b"
  "b_expiresAt (batch_release s b) = b_expiresAt b"
  "b_usedSlots (batch_release s b) = b_usedSlots b |-| {|s|}"
proof -
  show "burned (batch_release s b) ip \<longleftrightarrow>
     burned b ip \<and> (attributed b s ip \<longrightarrow> (\<exists>sid. sid \<noteq> s \<and> attributed b sid ip))"
    unfolding batch_release_def Let_def stillUsed_iff
    by (simp add: burned_def attributed_def) blast
  show "attributed (batch_release s b) sid ip \<longleftrightarrow> sid \<noteq> s \<and> attributed b sid ip"
    by (simp add: batch_release_def Let_def attributed_def)
qed (auto simp: batch_release_def Let_def taken_def burn_age_def)

section \<open>Every operation keeps the invariant\<close>

lemma stamp_ok:
  assumes "batch_ok b" and "burned b ip"
  shows "batch_ok (stampLocked ip at b)"
  using batch_okD [OF assms(1)] assms(2) unfolding batch_ok_def
  by (auto simp: le_Suc_eq dest: Suc_le_lessD) (metis Suc_n_not_le_n)+

lemma addIP_ok:
  assumes "batch_ok b" and "taken b s"
  shows "batch_ok (addIP s ip at b)"
proof (cases "ip = None \<or> attributed b s ip")
  case True
  then have "addIP s ip at b = b" by (auto simp: addIP_def attributed_def)
  then show ?thesis using assms by simp
next
  case False
  then have age: "burn_age (addIP s ip at b) jp = (if jp = ip then Suc (b_nextBurn b) else burn_age b jp)"
    and nb: "b_nextBurn (addIP s ip at b) = Suc (b_nextBurn b)" for jp
    by (auto simp: addIP_def attributed_def burn_age_def stampLocked_def Let_def)
  show ?thesis
    using batch_okD [OF assms(1)] assms(2) False unfolding batch_ok_def age nb
    by (auto simp: le_Suc_eq) (metis Suc_n_not_le_n)+
qed

lemma batch_reserve_ok:
  assumes "batch_ok b"
  shows "batch_ok (batch_reserve s ip at b)"
proof -
  let ?c = "b\<lparr>b_usedSlots := finsert s (b_usedSlots b)\<rparr>"
  have v: "burned ?c ip = burned b ip" "attributed ?c sid ip = attributed b sid ip"
    "taken ?c sid \<longleftrightarrow> sid = s \<or> taken b sid" "burn_age ?c ip = burn_age b ip" for ip sid
    by (auto simp: burned_def attributed_def taken_def burn_age_def)
  have "batch_ok ?c" using assms unfolding batch_ok_def v by auto
  then show ?thesis unfolding batch_reserve_def by (rule addIP_ok) (simp add: v)
qed

lemma batch_release_ok:
  assumes "batch_ok b"
  shows "batch_ok (batch_release s b)"
  unfolding batch_ok_def
proof (intro conjI allI)
  fix ip
  show "burned (batch_release s b) ip \<longleftrightarrow> (\<exists>sid. attributed (batch_release s b) sid ip)"
    unfolding batch_release_view batch_okD(1) [OF assms, of ip] by metis
  show "attributed (batch_release s b) sid ip \<longrightarrow> taken (batch_release s b) sid" for sid
    using batch_okD(2) [OF assms, of sid ip] by simp
  show "burned (batch_release s b) ip \<longrightarrow> 0 < burn_age (batch_release s b) ip"
    using batch_okD(5) [OF assms, of ip] by simp
  show "0 < burn_age (batch_release s b) ip \<and>
      burn_age (batch_release s b) ip = burn_age (batch_release s b) jp \<longrightarrow> ip = jp" for jp
    using batch_okD(6) [OF assms, of ip jp] by simp
  show "burn_age (batch_release s b) ip \<le> b_nextBurn (batch_release s b)"
    using batch_okD(4) [OF assms, of ip] by simp
  have "\<not> burned b None" by (rule batch_okD(3) [OF assms])
  then show "\<not> burned (batch_release s b) None" unfolding batch_release_view by blast
qed

lemma batch_expiry_ok [simp]: "batch_ok (b\<lparr>b_expiresAt := e\<rparr>) = batch_ok b"
  by (simp add: batch_ok_def burned_def taken_def attributed_def burn_age_def)

lemma batch_expiry_view [simp]:
  "burned (b\<lparr>b_expiresAt := e\<rparr>) = burned b" "taken (b\<lparr>b_expiresAt := e\<rparr>) = taken b"
  "attributed (b\<lparr>b_expiresAt := e\<rparr>) = attributed b"
  by (auto simp: burned_def taken_def attributed_def fun_eq_iff)

text \<open>Releasing what was just reserved gives the addresses of the batch back.\<close>

lemma release_reserve:
  assumes "batch_ok b" and "\<not> taken b s" and "\<not> burned b ip"
  shows "burned (batch_release s (batch_reserve s ip at b)) jp = burned b jp"
    and "taken (batch_release s (batch_reserve s ip at b)) sid = taken b sid"
  using assms batch_okD [OF assms(1)] by auto

end
