(* ===== verification/Preferred.thy ===== *)
theory Preferred
  imports PoolState "HOL-Library.Multiset"
begin

text \<open>
  The ring of last-good exits of one destination (\<open>preferredSet\<close> in \<open>internal/pool/pool.go\<close>).
  Each operation of the ring keeps the contract stated in the locale \<open>exit_ring\<close>: the addresses
  in the ring stay distinct, no address appears that was not there or is being remembered, and
  the ring grows by remembering only.
\<close>

type_synonym ring = "preferredExit list"

definition ring_ips :: "ring \<Rightarrow> netaddr list" where
  "ring_ips r = map pe_publicIP r"

fun replace_exit :: "netaddr \<Rightarrow> string \<Rightarrow> time \<Rightarrow> ring \<Rightarrow> ring option" where
  "replace_exit ip slotID until [] = None"
| "replace_exit ip slotID until (x # xs) =
     (if pe_publicIP x = ip then Some (x\<lparr>pe_slotID := slotID, pe_expiresAt := until\<rparr> # xs)
      else map_option (\<lambda>ys. x # ys) (replace_exit ip slotID until xs))"

definition remember :: "string \<Rightarrow> netaddr \<Rightarrow> time \<Rightarrow> int \<Rightarrow> ring \<Rightarrow> ring" where
  "remember slotID ip until mx r =
     (let mx' = (if mx \<le> 0 then 8 else mx)
      in case replace_exit ip slotID until r of
           Some r' \<Rightarrow> r'
         | None \<Rightarrow>
             let r' = r @ [\<lparr>pe_slotID = slotID, pe_publicIP = ip, pe_expiresAt = until\<rparr>]
             in if int (length r') > mx' then drop (length r' - nat mx') r' else r')"

definition removeIP :: "netaddr \<Rightarrow> ring \<Rightarrow> ring" where
  "removeIP ip r = filter (\<lambda>x. pe_publicIP x \<noteq> ip) r"

text \<open>The first exit of the slot that is not the last element moves to the tail.\<close>

fun rotateToTail :: "string \<Rightarrow> ring \<Rightarrow> ring" where
  "rotateToTail slotID [] = []"
| "rotateToTail slotID [x] = [x]"
| "rotateToTail slotID (x # y # xs) =
     (if pe_slotID x = slotID then (y # xs) @ [x] else x # rotateToTail slotID (y # xs))"

definition prune :: "time \<Rightarrow> ring \<Rightarrow> ring" where
  "prune now r = filter (\<lambda>x. now < pe_expiresAt x) r"

section \<open>The contract of the ring\<close>

locale exit_ring =
  fixes ok :: "int \<Rightarrow> 'r \<Rightarrow> bool"
    and ips :: "'r \<Rightarrow> netaddr set"
    and add :: "string \<Rightarrow> netaddr \<Rightarrow> time \<Rightarrow> int \<Rightarrow> 'r \<Rightarrow> 'r"
    and drop_ip :: "netaddr \<Rightarrow> 'r \<Rightarrow> 'r"
    and keep :: "(preferredExit \<Rightarrow> bool) \<Rightarrow> 'r \<Rightarrow> 'r"
    and rotate :: "string \<Rightarrow> 'r \<Rightarrow> 'r"
  assumes add_ok: "0 < mx \<Longrightarrow> ok mx r \<Longrightarrow> ok mx (add s ip e mx r)"
    and add_ips: "0 < mx \<Longrightarrow> ok mx r \<Longrightarrow> ip \<in> ips (add s ip e mx r)"
    and add_new: "ips (add s ip e mx r) \<subseteq> insert ip (ips r)"
    and drop_ok: "ok mx r \<Longrightarrow> ok mx (drop_ip ip r)"
    and drop_ips: "ips (drop_ip ip r) = ips r - {ip}"
    and keep_ok: "ok mx r \<Longrightarrow> ok mx (keep P r)"
    and keep_ips: "ips (keep P r) \<subseteq> ips r"
    and rotate_ok: "ok mx r \<Longrightarrow> ok mx (rotate s r)"
    and rotate_ips: "ips (rotate s r) = ips r"
begin

text \<open>What a report does to a ring it has fed before: the reported address is gone, and stays
  gone through every later step that does not remember it again.\<close>

lemma reported_stays_out:
  assumes "ip \<notin> ips r" and "ip \<noteq> jp"
  shows "ip \<notin> ips (rotate s (keep P (add t jp e mx r)))"
  using assms add_new [of t jp e mx r] keep_ips [of P "add t jp e mx r"]
  by (auto simp: rotate_ips)

lemma selection_ok:
  assumes "ok mx r"
  shows "ok mx (rotate s (keep P (keep Q r)))"
  using assms by (intro rotate_ok keep_ok)

end

definition ring_ok :: "int \<Rightarrow> ring \<Rightarrow> bool" where
  "ring_ok mx r \<longleftrightarrow> int (length r) \<le> mx \<and> distinct (ring_ips r)"

lemma replace_exit_None: "replace_exit ip s e r = None \<longleftrightarrow> ip \<notin> set (ring_ips r)"
  by (induction r) (auto simp: ring_ips_def)

lemma replace_exit_Some: "replace_exit ip s e r = Some r' \<Longrightarrow> ring_ips r' = ring_ips r"
  by (induction r arbitrary: r') (auto simp: ring_ips_def split: if_splits)

lemma length_rotate [simp]: "length (rotateToTail s r) = length r"
  by (induction s r rule: rotateToTail.induct) auto

lemma mset_rotate [simp]: "mset (rotateToTail s r) = mset r"
  by (induction s r rule: rotateToTail.induct) auto

lemma set_rotate [simp]: "set (rotateToTail s r) = set r"
  by (metis mset_rotate set_mset_mset)

lemma distinct_rotate: "distinct (ring_ips (rotateToTail s r)) = distinct (ring_ips r)"
  unfolding ring_ips_def by (rule mset_eq_imp_distinct_iff) simp

lemma rotate_Nil_iff [simp]: "rotateToTail s r = [] \<longleftrightarrow> r = []"
  by (metis length_0_conv length_rotate)

lemma distinct_ring_filter: "distinct (ring_ips r) \<Longrightarrow> distinct (ring_ips (filter P r))"
  by (simp add: ring_ips_def distinct_map_filter)

lemma remember_ips_subset: "set (ring_ips (remember s ip e mx r)) \<subseteq> insert ip (set (ring_ips r))"
proof (cases "replace_exit ip s e r")
  case None
  then show ?thesis
    by (auto simp: remember_def Let_def ring_ips_def dest!: in_set_dropD split: if_splits)
next
  case (Some r')
  then show ?thesis by (auto simp: remember_def replace_exit_Some [OF Some])
qed

lemma remember_ok:
  assumes "0 < mx" and "ring_ok mx r"
  shows "ring_ok mx (remember s ip e mx r) \<and> ip \<in> set (ring_ips (remember s ip e mx r))"
proof (cases "replace_exit ip s e r")
  case None
  let ?r' = "r @ [\<lparr>pe_slotID = s, pe_publicIP = ip, pe_expiresAt = e\<rparr>]"
  have d: "distinct (ring_ips ?r')"
    using assms(2) None by (simp add: ring_ok_def replace_exit_None) (simp add: ring_ips_def)
  have "distinct (ring_ips (drop n ?r'))" for n
    using d by (simp add: ring_ips_def drop_map [symmetric] distinct_drop del: drop_append)
  moreover have "last ?r' \<in> set (drop (length ?r' - nat mx) ?r')" if "int (length ?r') > mx"
  proof -
    have "length ?r' - nat mx < length ?r'" using assms(1) that by simp
    then show ?thesis by (metis drop_eq_Nil last_drop last_in_set linorder_not_le)
  qed
  ultimately show ?thesis
    using None assms d
    by (auto simp: remember_def ring_ok_def Let_def nat_le_iff ring_ips_def rev_image_eqI
        simp del: drop_append)
next
  case (Some r')
  have "ip \<in> set (ring_ips r)" using Some replace_exit_None [of ip s e r] by auto
  then show ?thesis
    using Some assms replace_exit_Some [OF Some]
    by (auto simp: remember_def ring_ok_def ring_ips_def dest: map_eq_imp_length_eq)
qed

interpretation ring: exit_ring ring_ok "\<lambda>r. set (ring_ips r)" remember removeIP filter rotateToTail
proof
  fix mx r s ip e P
  show "0 < mx \<Longrightarrow> ring_ok mx r \<Longrightarrow> ring_ok mx (remember s ip e mx r)"
    using remember_ok by blast
  show "0 < mx \<Longrightarrow> ring_ok mx r \<Longrightarrow> ip \<in> set (ring_ips (remember s ip e mx r))"
    using remember_ok by blast
  show "set (ring_ips (remember s ip e mx r)) \<subseteq> insert ip (set (ring_ips r))"
    by (rule remember_ips_subset)
  show "ring_ok mx r \<Longrightarrow> ring_ok mx (removeIP ip r)"
    by (auto simp: ring_ok_def removeIP_def distinct_ring_filter
        intro: order_trans [OF length_filter_le [THEN of_nat_mono]])
  show "set (ring_ips (removeIP ip r)) = set (ring_ips r) - {ip}"
    by (auto simp: removeIP_def ring_ips_def)
  show "ring_ok mx r \<Longrightarrow> ring_ok mx (filter P r)"
    by (auto simp: ring_ok_def distinct_ring_filter
        intro: order_trans [OF length_filter_le [THEN of_nat_mono]])
  show "set (ring_ips (filter P r)) \<subseteq> set (ring_ips r)"
    by (auto simp: ring_ips_def)
  show "ring_ok mx r \<Longrightarrow> ring_ok mx (rotateToTail s r)"
    by (simp add: ring_ok_def distinct_rotate)
  show "set (ring_ips (rotateToTail s r)) = set (ring_ips r)"
    by (simp add: ring_ips_def)
qed

text \<open>Rotating moves a chosen exit behind all others, so the next selection with equal loads
  takes another one.\<close>

lemma rotate_last:
  assumes "x \<in> set r" and "distinct (map pe_slotID r)"
  shows "pe_slotID (last (rotateToTail (pe_slotID x) r)) = pe_slotID x"
  using assms
  by (induction "pe_slotID x" r rule: rotateToTail.induct) (auto simp: neq_Nil_conv)

end
