(* ===== verification/Eligibility.thy ===== *)
theory Eligibility
  imports Batch Preferred
begin

text \<open>
  The filters of \<open>internal/pool/pool.go\<close> that decide whether a slot may serve a request, and
  the expiry of sessions, batches, rings and cooldowns.

  \<open>eligibleLocked\<close> deletes the address cooldowns it finds expired, so it threads the pool.
  \<open>eligible\<close> is its specification, a predicate on one pool; the interpretation of \<open>quiet_test\<close>
  shows that every loop of the selection that calls it filters by this predicate.
\<close>

definition containsFold :: "string list \<Rightarrow> string \<Rightarrow> bool" where
  "containsFold xs value \<longleftrightarrow> value \<noteq> [] \<and> list_ex (\<lambda>item. equal_fold item value) xs"

definition ipCoolingDownLocked :: "string \<Rightarrow> netaddr \<Rightarrow> time \<Rightarrow> pool \<Rightarrow> bool \<times> pool" where
  "ipCoolingDownLocked target ip now p =
     (if target = [] \<or> ip = None then (False, p)
      else
        case fmlookup (p_ipCooldowns p) target of
          None \<Rightarrow> (False, p)
        | Some byIP \<Rightarrow>
            (case fmlookup byIP ip of
               None \<Rightarrow> (False, p)
             | Some until \<Rightarrow>
                 if now < until then (True, p)
                 else
                   let byIP' = fmdrop ip byIP
                   in (False, p\<lparr>p_ipCooldowns :=
                        (if fm_size byIP' = 0 then fmdrop target (p_ipCooldowns p)
                         else fmupd target byIP' (p_ipCooldowns p))\<rparr>)))"

definition setIPCooldownLocked :: "string \<Rightarrow> netaddr \<Rightarrow> time \<Rightarrow> pool \<Rightarrow> pool" where
  "setIPCooldownLocked target ip until p =
     (if target = [] \<or> ip = None then p
      else
        let byIP = fm_get fmempty (p_ipCooldowns p) target;
            byIP' = (if fm_get 0 byIP ip < until then fmupd ip until byIP else byIP)
        in p\<lparr>p_ipCooldowns := fmupd target byIP' (p_ipCooldowns p)\<rparr>)"

definition at_conn_limit :: "pool \<Rightarrow> slot_state \<Rightarrow> bool" where
  "at_conn_limit p s \<longleftrightarrow>
     MaxConnsPerExit (p_opts p) > 0 \<and>
     int (s_leases s + s_pendingLeases s) \<ge> MaxConnsPerExit (p_opts p)"

definition ip_fresh :: "pool \<Rightarrow> slot_state \<Rightarrow> time \<Rightarrow> bool" where
  "ip_fresh p s now \<longleftrightarrow>
     s_publicIP s \<noteq> None \<and> s_ipCheckedAt s \<noteq> 0 \<and>
     now < s_ipCheckedAt s + IPRefreshInterval (p_opts p)"

definition batch_excludes :: "pool \<Rightarrow> policy \<Rightarrow> slot_state \<Rightarrow> time \<Rightarrow> bool" where
  "batch_excludes p pol s now \<longleftrightarrow>
     pol_UniqueBatch pol \<noteq> [] \<and>
     (case fmlookup (p_batches p) (pol_UniqueBatch pol) of
        None \<Rightarrow> False
      | Some b \<Rightarrow>
          now < b_expiresAt b \<and>
          (slot_ID s |\<in>| b_usedSlots b \<or> s_publicIP s |\<in>| fmdom (b_usedIPs b)))"

definition eligibleLocked :: "policy \<Rightarrow> string \<Rightarrow> time \<Rightarrow> pool \<Rightarrow> ref option \<Rightarrow> bool \<times> pool" where
  "eligibleLocked pol target now p r =
     (case r of
        None \<Rightarrow> (False, p)
      | Some r \<Rightarrow>
          let s = p_heap p r; sp = s_spec s
          in if now < s_disabledUntil s then (False, p)
             else if pol_Slot pol \<noteq> [] \<and> sp_ID sp \<noteq> pol_Slot pol then (False, p)
             else if pol_Provider pol \<noteq> [] \<and> sp_Provider sp \<noteq> pol_Provider pol then (False, p)
             else if pol_Countries pol \<noteq> [] \<and> \<not> containsFold (pol_Countries pol) (sp_Country sp)
             then (False, p)
             else if pol_Cities pol \<noteq> [] \<and> \<not> containsFold (pol_Cities pol) (sp_City sp)
             then (False, p)
             else if coolingDown s target now then (False, p)
             else
               let (cooling, p') = ipCoolingDownLocked target (s_publicIP s) now p
               in if cooling then (False, p')
                  else if at_conn_limit p' s then (False, p')
                  else
                    let requiresFreshIP = pol_UniqueBatch pol \<noteq> [] \<or> pol_ExcludeIPs pol \<noteq> []
                    in if sp_Rotating sp \<and> requiresFreshIP then (False, p')
                       else if requiresFreshIP \<and> \<not> ip_fresh p' s now then (False, p')
                       else if s_publicIP s \<in> set (pol_ExcludeIPs pol) then (False, p')
                       else if batch_excludes p' pol s now then (False, p')
                       else (True, p'))"

definition eligibleIgnoringBatchLocked ::
  "policy \<Rightarrow> string \<Rightarrow> time \<Rightarrow> pool \<Rightarrow> ref option \<Rightarrow> bool \<times> pool" where
  "eligibleIgnoringBatchLocked pol target now p r =
     eligibleLocked (pol\<lparr>pol_UniqueBatch := []\<rparr>) target now p r"

definition eligiblePreferredLocked ::
  "policy \<Rightarrow> string \<Rightarrow> time \<Rightarrow> pool \<Rightarrow> ref option \<Rightarrow> bool \<times> pool" where
  "eligiblePreferredLocked pol target now p r =
     (if r = None then (False, p)
      else eligibleLocked (pol\<lparr>pol_UniqueBatch := []\<rparr>) target now p r)"

definition expireLocked :: "time \<Rightarrow> pool \<Rightarrow> pool" where
  "expireLocked now p =
     p\<lparr>p_sessions := fm_keep (\<lambda>se. \<not> se_expiresAt se < now) (p_sessions p),
       p_batches := fm_keep (\<lambda>b. \<not> b_expiresAt b < now) (p_batches p),
       p_preferred :=
         fm_update (\<lambda>r. let r' = prune now r in if r' = [] then None else Some r') (p_preferred p),
       p_heap := (\<lambda>r. if r |\<in>| fmran (p_slots p)
                      then (p_heap p r)\<lparr>s_cooldowns :=
                             fm_keep (\<lambda>until. \<not> until < now) (s_cooldowns (p_heap p r))\<rparr>
                      else p_heap p r),
       p_ipCooldowns :=
         fm_update (\<lambda>byIP. let byIP' = fm_keep (\<lambda>until. \<not> until < now) byIP
                           in if fm_size byIP' = 0 then None else Some byIP') (p_ipCooldowns p)\<rparr>"

section \<open>The specification of eligibility\<close>

definition ip_cooling :: "pool \<Rightarrow> string \<Rightarrow> netaddr \<Rightarrow> time \<Rightarrow> bool" where
  "ip_cooling p target ip now \<longleftrightarrow>
     target \<noteq> [] \<and> ip \<noteq> None \<and>
     (case fmlookup (p_ipCooldowns p) target of
        None \<Rightarrow> False
      | Some byIP \<Rightarrow> (case fmlookup byIP ip of None \<Rightarrow> False | Some until \<Rightarrow> now < until))"

text \<open>The constraints of a policy that do not depend on the state of the pool.\<close>

definition matches :: "policy \<Rightarrow> spec \<Rightarrow> bool" where
  "matches pol sp \<longleftrightarrow>
     (pol_Slot pol = [] \<or> sp_ID sp = pol_Slot pol) \<and>
     (pol_Provider pol = [] \<or> sp_Provider sp = pol_Provider pol) \<and>
     (pol_Countries pol = [] \<or> containsFold (pol_Countries pol) (sp_Country sp)) \<and>
     (pol_Cities pol = [] \<or> containsFold (pol_Cities pol) (sp_City sp)) \<and>
     (sp_Rotating sp \<longrightarrow> pol_UniqueBatch pol = [] \<and> pol_ExcludeIPs pol = [])"

definition eligible :: "pool \<Rightarrow> policy \<Rightarrow> string \<Rightarrow> time \<Rightarrow> ref \<Rightarrow> bool" where
  "eligible p pol target now r \<longleftrightarrow>
     (let s = p_heap p r
      in matches pol (s_spec s) \<and> s_disabledUntil s \<le> now \<and>
         \<not> coolingDown s target now \<and> \<not> ip_cooling p target (s_publicIP s) now \<and>
         \<not> at_conn_limit p s \<and>
         (pol_UniqueBatch pol = [] \<and> pol_ExcludeIPs pol = [] \<or> ip_fresh p s now) \<and>
         s_publicIP s \<notin> set (pol_ExcludeIPs pol) \<and> \<not> batch_excludes p pol s now)"

definition eligible_ref :: "pool \<Rightarrow> policy \<Rightarrow> string \<Rightarrow> time \<Rightarrow> ref option \<Rightarrow> bool" where
  "eligible_ref p pol target now r = (case r of None \<Rightarrow> False | Some r \<Rightarrow> eligible p pol target now r)"

text \<open>
  What a test of eligibility may leave behind: the same pool, except that expired address
  cooldowns may be gone.
\<close>

definition cleaned :: "time \<Rightarrow> pool \<Rightarrow> pool \<Rightarrow> bool" where
  "cleaned now p q \<longleftrightarrow>
     q = p\<lparr>p_ipCooldowns := p_ipCooldowns q\<rparr> \<and>
     (\<forall>target ip. ip_cooling q target ip now = ip_cooling p target ip now)"

lemma cleaned_refl [simp]: "cleaned now p p"
  by (simp add: cleaned_def)

lemma cleaned_trans: "cleaned now p q \<Longrightarrow> cleaned now q r \<Longrightarrow> cleaned now p r"
proof -
  assume pq: "cleaned now p q" and qr: "cleaned now q r"
  have "r = q\<lparr>p_ipCooldowns := p_ipCooldowns r\<rparr>" using qr by (simp add: cleaned_def)
  also have "\<dots> = p\<lparr>p_ipCooldowns := p_ipCooldowns r\<rparr>"
    by (subst (1) conjunct1 [OF pq [unfolded cleaned_def]]) simp
  finally show ?thesis using pq qr by (simp add: cleaned_def)
qed

lemma cleaned_frame [frame]:
  assumes "cleaned now p q"
  shows "p_opts q = p_opts p" "p_heap q = p_heap p" "p_nextRef q = p_nextRef p"
    "p_slots q = p_slots p" "p_order q = p_order p" "p_sessions q = p_sessions p"
    "p_pendingSessions q = p_pendingSessions p" "p_batches q = p_batches p"
    "p_nextBatch q = p_nextBatch p" "p_preferred q = p_preferred p" "p_entries q = p_entries p"
    "p_opens q = p_opens p" "p_pendingTunnelOpens q = p_pendingTunnelOpens p"
    "p_probeTunnels q = p_probeTunnels p" "p_closing q = p_closing p" "p_leased q = p_leased p"
    "p_pendingLeases q = p_pendingLeases p"
proof -
  obtain m where "q = p\<lparr>p_ipCooldowns := m\<rparr>" using assms unfolding cleaned_def by blast
  then show "p_opts q = p_opts p" "p_heap q = p_heap p" "p_nextRef q = p_nextRef p"
    "p_slots q = p_slots p" "p_order q = p_order p" "p_sessions q = p_sessions p"
    "p_pendingSessions q = p_pendingSessions p" "p_batches q = p_batches p"
    "p_nextBatch q = p_nextBatch p" "p_preferred q = p_preferred p" "p_entries q = p_entries p"
    "p_opens q = p_opens p" "p_pendingTunnelOpens q = p_pendingTunnelOpens p"
    "p_probeTunnels q = p_probeTunnels p" "p_closing q = p_closing p" "p_leased q = p_leased p"
    "p_pendingLeases q = p_pendingLeases p"
    by simp_all
qed

lemma fmdrop_empty: "fmdrop k m = fmempty \<Longrightarrow> fmlookup m j = Some v \<Longrightarrow> j = k"
  by (metis fmlookup_drop fmempty_lookup option.distinct(1))

lemma ipCoolingDownLocked_spec:
  "fst (ipCoolingDownLocked target ip now p) = ip_cooling p target ip now"
  "cleaned now p (snd (ipCoolingDownLocked target ip now p))"
  by (auto simp: ipCoolingDownLocked_def ip_cooling_def cleaned_def Let_def fm_size_0_iff
      dest: fmdrop_empty split: option.splits)

lemma eligible_cleaned:
  assumes "cleaned now p q"
  shows "eligible q pol target now r = eligible p pol target now r"
  using assms
  by (simp add: eligible_def cleaned_frame [OF assms] at_conn_limit_def ip_fresh_def
      batch_excludes_def cleaned_def Let_def)

lemma eligibleLocked_spec [spec_iff]:
  "fst (eligibleLocked pol target now p r) = eligible_ref p pol target now r"
  "cleaned now p (snd (eligibleLocked pol target now p r))"
proof -
  note c = ipCoolingDownLocked_spec
    [where target = target and ip = "s_publicIP (p_heap p (the r))" and now = now and p = p]
  note f = cleaned_frame [OF c(2)]
  show "cleaned now p (snd (eligibleLocked pol target now p r))"
    using c(2) by (auto simp: eligibleLocked_def Let_def split_beta split: option.splits)
  show "fst (eligibleLocked pol target now p r) = eligible_ref p pol target now r"
  proof (cases r)
    case (Some r')
    have g: "at_conn_limit (snd (ipCoolingDownLocked target (s_publicIP (p_heap p r')) now p)) s =
        at_conn_limit p s"
      "ip_fresh (snd (ipCoolingDownLocked target (s_publicIP (p_heap p r')) now p)) s now =
        ip_fresh p s now"
      "batch_excludes (snd (ipCoolingDownLocked target (s_publicIP (p_heap p r')) now p)) pol s now =
        batch_excludes p pol s now" for s
      using f Some by (simp_all add: at_conn_limit_def ip_fresh_def batch_excludes_def)
    show ?thesis
      unfolding eligibleLocked_def eligible_ref_def eligible_def matches_def
      using c(1) Some by (simp add: Let_def split_beta g not_less) blast
  qed (simp add: eligibleLocked_def eligible_ref_def)
qed

text \<open>Every loop that tests slots with \<open>eligibleLocked\<close> filters them by \<open>eligible\<close>.\<close>

interpretation elig: quiet_test "\<lambda>p r. eligibleLocked pol target now p r"
  "eligible_ref p0 pol target now" "cleaned now p0" for pol target now p0
proof
  fix q r
  assume q: "cleaned now p0 q"
  show "fst (eligibleLocked pol target now q r) = eligible_ref p0 pol target now r"
    using eligible_cleaned [OF q] by (simp add: eligibleLocked_spec eligible_ref_def split: option.split)
  show "cleaned now p0 (snd (eligibleLocked pol target now q r))"
    using q eligibleLocked_spec(2) by (rule cleaned_trans)
qed

end
