(* ===== verification/Reserve.thy ===== *)
theory Reserve
  imports Eligibility
begin

text \<open>
  The reservations of \<open>internal/pool/pool.go\<close>: sticky-session names, unique batches and
  connection capacity are reserved together under the lock when a slot is picked, and
  committed or rolled back when the dialer is there or has failed.
\<close>

definition sessionTTL :: "pool \<Rightarrow> policy \<Rightarrow> duration" where
  "sessionTTL p pol = (if pol_TTL pol > 0 then pol_TTL pol else SessionTTL (p_opts p))"

definition batchTTL :: "pool \<Rightarrow> policy \<Rightarrow> duration" where
  "batchTTL p pol = (if pol_BatchTTL pol > 0 then pol_BatchTTL pol else BatchTTL (p_opts p))"

definition bindSession :: "policy \<Rightarrow> string \<Rightarrow> time \<Rightarrow> pool \<Rightarrow> pool" where
  "bindSession pol slotID now p =
     (if pol_Session pol = [] then p
      else p\<lparr>p_sessions := fmupd (pol_Session pol)
               \<lparr>se_slotID = slotID, se_expiresAt = now + sessionTTL p pol\<rparr> (p_sessions p)\<rparr>)"

definition reserveSessionLocked :: "policy \<Rightarrow> pool \<Rightarrow> (pool_error + string) \<times> pool" where
  "reserveSessionLocked pol p =
     (if pol_Session pol = [] then (Inr [], p)
      else if pol_Session pol |\<in>| fmdom (p_sessions p) then (Inr [], p)
      else
        let pending = fm_get 0 (p_pendingSessions p) (pol_Session pol)
        in if pending > 0 then
             (Inr (pol_Session pol),
              p\<lparr>p_pendingSessions := fmupd (pol_Session pol) (pending + 1) (p_pendingSessions p)\<rparr>)
           else if int (fm_size (p_sessions p) + fm_size (p_pendingSessions p))
                     \<ge> MaxSessions (p_opts p) then (Inl ErrSessionFull, p)
           else
             (Inr (pol_Session pol),
              p\<lparr>p_pendingSessions := fmupd (pol_Session pol) 1 (p_pendingSessions p)\<rparr>))"

definition releasePendingSessionLocked :: "string \<Rightarrow> pool \<Rightarrow> pool" where
  "releasePendingSessionLocked name p =
     (if name = [] then p
      else
        let pending = fm_get 0 (p_pendingSessions p) name
        in if pending > 1 then
             p\<lparr>p_pendingSessions := fmupd name (pending - 1) (p_pendingSessions p)\<rparr>
           else p\<lparr>p_pendingSessions := fmdrop name (p_pendingSessions p)\<rparr>)"

definition reserveBatchLocked ::
  "policy \<Rightarrow> ref \<Rightarrow> time \<Rightarrow> pool \<Rightarrow> (pool_error + batchReservation option) \<times> pool" where
  "reserveBatchLocked pol r now p =
     (if pol_UniqueBatch pol = [] then (Inr None, p)
      else
        let s = p_heap p r;
            name = pol_UniqueBatch pol;
            use = (\<lambda>b p. let b' = batch_reserve (slot_ID s) (s_publicIP s) now
                                    (b\<lparr>b_expiresAt := now + batchTTL p pol\<rparr>)
                         in (Inr (Some \<lparr>br_name = name, br_batch = b_alloc b, br_slotID = slot_ID s\<rparr>),
                             p\<lparr>p_batches := fmupd name b' (p_batches p)\<rparr>));
            fresh = (\<lambda>p. if int (fm_size (p_batches p)) \<ge> MaxUniqueBatches (p_opts p)
                         then (Inl ErrBatchFull, p)
                         else use (newBatch (p_nextBatch p) (now + batchTTL p pol))
                                  (p\<lparr>p_nextBatch := Suc (p_nextBatch p)\<rparr>))
        in case fmlookup (p_batches p) name of
             Some b \<Rightarrow>
               if b_expiresAt b < now then fresh (p\<lparr>p_batches := fmdrop name (p_batches p)\<rparr>)
               else use b p
           | None \<Rightarrow> fresh p)"

definition reserveAcquisitionLocked ::
  "policy \<Rightarrow> ref \<Rightarrow> time \<Rightarrow> pool \<Rightarrow> (pool_error + acquisitionReservation) \<times> pool" where
  "reserveAcquisitionLocked pol r now p =
     (case reserveSessionLocked pol p of
        (Inl e, p) \<Rightarrow> (Inl e, p)
      | (Inr session, p) \<Rightarrow>
          (case reserveBatchLocked pol r now p of
             (Inl e, p) \<Rightarrow> (Inl e, releasePendingSessionLocked session p)
           | (Inr batch, p) \<Rightarrow>
               (Inr \<lparr>ar_batch = batch, ar_session = session, ar_state = r, ar_active = True\<rparr>,
                (upd_slot r (\<lambda>s. s\<lparr>s_pendingLeases := Suc (s_pendingLeases s)\<rparr>) p)
                  \<lparr>p_pendingLeases := Suc (p_pendingLeases p)\<rparr>)))"

text \<open>A reservation that is \<open>nil\<close> or no longer active is left alone.\<close>

definition commitAcquisitionLocked ::
  "acquisitionReservation \<Rightarrow> pool \<Rightarrow> acquisitionReservation \<times> pool" where
  "commitAcquisitionLocked ar p =
     (if \<not> ar_active ar then (ar, p)
      else
        let p = releasePendingSessionLocked (ar_session ar) p;
            p = upd_slot (ar_state ar) (\<lambda>s. s\<lparr>s_pendingLeases := s_pendingLeases s - 1\<rparr>) p
        in (ar\<lparr>ar_active := False\<rparr>, p\<lparr>p_pendingLeases := p_pendingLeases p - 1\<rparr>))"

definition rollbackBatchLocked :: "batchReservation option \<Rightarrow> pool \<Rightarrow> pool" where
  "rollbackBatchLocked br p =
     (case br of
        None \<Rightarrow> p
      | Some br \<Rightarrow>
          (case fmlookup (p_batches p) (br_name br) of
             None \<Rightarrow> p
           | Some b \<Rightarrow>
               if b_alloc b \<noteq> br_batch br then p
               else
                 let b' = batch_release (br_slotID br) b
                 in p\<lparr>p_batches :=
                      (if fcard (b_usedSlots b') = 0 then fmdrop (br_name br) (p_batches p)
                       else fmupd (br_name br) b' (p_batches p))\<rparr>))"

definition rollbackAcquisition :: "acquisitionReservation option \<Rightarrow> pool \<Rightarrow> pool" where
  "rollbackAcquisition ar p =
     (case ar of
        None \<Rightarrow> p
      | Some ar \<Rightarrow> rollbackBatchLocked (ar_batch ar) (snd (commitAcquisitionLocked ar p)))"

definition dropSession :: "string \<Rightarrow> pool \<Rightarrow> pool" where
  "dropSession name p = p\<lparr>p_sessions := fmdrop name (p_sessions p)\<rparr>"

definition releaseSlotFromBatchesLocked :: "string \<Rightarrow> pool \<Rightarrow> pool" where
  "releaseSlotFromBatchesLocked slotID p =
     p\<lparr>p_batches := fm_update
         (\<lambda>b. if slotID |\<notin>| b_usedSlots b then Some b
              else let b' = batch_release slotID b
                   in if fcard (b_usedSlots b') = 0 then None else Some b') (p_batches p)\<rparr>"

definition recordAcquisitionLocked :: "ref \<Rightarrow> pool \<Rightarrow> pool" where
  "recordAcquisitionLocked r p =
     (let c = to_lower (sp_Country (s_spec (p_heap p r)));
          country = (if c = [] then ''unknown'' else c)
      in p\<lparr>p_statAcquired := p_statAcquired p + 1,
           p_statAcquiredByCountry :=
             fmupd country (fm_get 0 (p_statAcquiredByCountry p) country + 1)
               (p_statAcquiredByCountry p)\<rparr>)"

end
