(* ===== verification/Tunnels.thy ===== *)
theory Tunnels
  imports Reserve
begin

text \<open>
  Tunnel capacity, the new-tunnel rate budget and failure backoff of \<open>internal/pool/pool.go\<close>.

  Opening a tunnel is three critical sections with the handshake between them:
  \<open>ensureOpen_enter\<close>, then \<open>ensureOpen_abort\<close> (the context ended) or \<open>commitTunnelOpen\<close> before
  the handshake and \<open>ensureOpen_finish\<close> after it. \<open>ord\<close> is the order in which Go ranges over
  the slot map. What the handshake returns is an argument.
\<close>

definition closeLocked :: "ref \<Rightarrow> pool \<Rightarrow> pool" where
  "closeLocked r p =
     (if s_tunnel (p_heap p r) = None then p
      else upd_slot r (\<lambda>s. s\<lparr>s_tunnel := None, s_openedAt := 0\<rparr>) p)"

definition slot_occupies :: "slot_state \<Rightarrow> bool" where
  "slot_occupies s \<longleftrightarrow> isOpen s \<or> s_opening s"

definition entry_occupies :: "entryState \<Rightarrow> bool" where
  "entry_occupies e \<longleftrightarrow> entry_isOpen e \<or> e_opening e"

definition openCount :: "string list \<Rightarrow> pool \<Rightarrow> nat" where
  "openCount ord p =
     length (filter (\<lambda>i. slot_occupies (p_heap p (the (fmlookup (p_slots p) i)))) ord) +
     length (filter entry_occupies (p_entries p)) + p_probeTunnels p"

definition idle :: "slot_state \<Rightarrow> bool" where
  "idle s \<longleftrightarrow> isOpen s \<and> s_leases s + s_pendingLeases s = 0"

text \<open>The least recently used idle tunnel; of several the first in the order of the map.\<close>

fun find_victim :: "pool \<Rightarrow> ref option \<Rightarrow> string list \<Rightarrow> ref option" where
  "find_victim p v [] = v"
| "find_victim p v (i # ord) =
     (let r = the (fmlookup (p_slots p) i); s = p_heap p r
      in if \<not> idle s then find_victim p v ord
         else find_victim p
                (case v of
                   None \<Rightarrow> Some r
                 | Some w \<Rightarrow> if s_lastUsed s < s_lastUsed (p_heap p w) then Some r else Some w) ord)"

definition reserveCapacityLocked :: "string list \<Rightarrow> pool \<Rightarrow> pool_error option \<times> pool" where
  "reserveCapacityLocked ord p =
     (if MaxActive (p_opts p) \<le> 0 then (None, p)
      else if int (openCount ord p) < MaxActive (p_opts p) then (None, p)
      else
        case find_victim p None ord of
          None \<Rightarrow> (Some ErrCapacity, p)
        | Some v \<Rightarrow> (None, closeLocked v p))"

section \<open>The rate budget\<close>

definition pruneOpensLocked :: "time \<Rightarrow> pool \<Rightarrow> pool" where
  "pruneOpensLocked now p =
     p\<lparr>p_opens := dropWhile (\<lambda>at. \<not> at > now - NewTunnelWindow (p_opts p)) (p_opens p)\<rparr>"

definition tunnelBudgetAvailableLocked :: "time \<Rightarrow> pool \<Rightarrow> bool \<times> pool" where
  "tunnelBudgetAvailableLocked now p =
     (if NewTunnelBudget (p_opts p) \<le> 0 then (True, p)
      else
        let p = pruneOpensLocked now p
        in (int (length (p_opens p) + p_pendingTunnelOpens p) < NewTunnelBudget (p_opts p), p))"

definition reserveTunnelOpenLocked :: "time \<Rightarrow> pool \<Rightarrow> pool_error option \<times> pool" where
  "reserveTunnelOpenLocked now p =
     (case tunnelBudgetAvailableLocked now p of
        (False, p) \<Rightarrow> (Some ErrTunnelBudget, p)
      | (True, p) \<Rightarrow> (None, p\<lparr>p_pendingTunnelOpens := Suc (p_pendingTunnelOpens p)\<rparr>))"

definition commitTunnelOpen :: "time \<Rightarrow> pool \<Rightarrow> pool" where
  "commitTunnelOpen now p =
     (let p = pruneOpensLocked now (p\<lparr>p_pendingTunnelOpens := p_pendingTunnelOpens p - 1\<rparr>)
      in p\<lparr>p_opens := p_opens p @ [now]\<rparr>)"

definition rollbackTunnelOpen :: "pool \<Rightarrow> pool" where
  "rollbackTunnelOpen p = p\<lparr>p_pendingTunnelOpens := p_pendingTunnelOpens p - 1\<rparr>"

definition noteTunnelOpen :: "time \<Rightarrow> pool \<Rightarrow> pool" where
  "noteTunnelOpen now p =
     (let p = pruneOpensLocked now p in p\<lparr>p_opens := p_opens p @ [now]\<rparr>)"

section \<open>Opening the tunnel of a slot\<close>

datatype enter =
    EnterOpen nat
  | EnterWait
  | EnterError pool_error
  | EnterOpening

text \<open>
  The first critical section of \<open>ensureOpen\<close>: a live tunnel is returned, an opening in flight is
  waited for, an ended context fails, and otherwise capacity and budget are reserved.
\<close>

definition ensureOpen_enter ::
  "pool_error option \<Rightarrow> string list \<Rightarrow> time \<Rightarrow> ref \<Rightarrow> pool \<Rightarrow> enter \<times> pool" where
  "ensureOpen_enter ctxErr ord now r p =
     (case s_tunnel (p_heap p r) of
        Some t \<Rightarrow> (EnterOpen t, p)
      | None \<Rightarrow>
          if s_opening (p_heap p r) then (EnterWait, p)
          else
            case ctxErr of
              Some e \<Rightarrow> (EnterError e, p)
            | None \<Rightarrow>
                (case reserveCapacityLocked ord p of
                   (Some e, p) \<Rightarrow> (EnterError e, p)
                 | (None, p) \<Rightarrow>
                     (case reserveTunnelOpenLocked now p of
                        (Some e, p) \<Rightarrow> (EnterError e, p)
                      | (None, p) \<Rightarrow>
                          (EnterOpening, upd_slot r (\<lambda>s. s\<lparr>s_opening := True\<rparr>) p))))"

definition ensureOpen_abort :: "ref \<Rightarrow> pool \<Rightarrow> pool" where
  "ensureOpen_abort r p = upd_slot r (\<lambda>s. s\<lparr>s_opening := False\<rparr>) (rollbackTunnelOpen p)"

definition ensureOpen_finish :: "(pool_error + nat) \<Rightarrow> time \<Rightarrow> ref \<Rightarrow> pool \<Rightarrow> pool" where
  "ensureOpen_finish res now r p =
     upd_slot r (\<lambda>s. case res of
        Inl _ \<Rightarrow> s\<lparr>s_opening := False\<rparr>
      | Inr t \<Rightarrow> s\<lparr>s_opening := False, s_tunnel := Some t, s_openedAt := now\<rparr>) p"

text \<open>The tunnel of a slot without another goroutine in between: \<open>None\<close> is the wait for one.\<close>

definition ensureOpen ::
  "pool_error option \<Rightarrow> pool_error option \<Rightarrow> (pool_error + nat) \<Rightarrow> string list \<Rightarrow> time \<Rightarrow> ref \<Rightarrow> pool
     \<Rightarrow> (pool_error + nat) option \<times> pool" where
  "ensureOpen ctxErr ctxErr' res ord now r p =
     (case ensureOpen_enter ctxErr ord now r p of
        (EnterOpen t, p) \<Rightarrow> (Some (Inr t), p)
      | (EnterWait, p) \<Rightarrow> (None, p)
      | (EnterError e, p) \<Rightarrow> (Some (Inl e), p)
      | (EnterOpening, p) \<Rightarrow>
          (case ctxErr' of
             Some e \<Rightarrow> (Some (Inl e), ensureOpen_abort r p)
           | None \<Rightarrow> (Some res, ensureOpen_finish res now r (commitTunnelOpen now p))))"

section \<open>Failures\<close>

definition backoff_after :: "duration \<Rightarrow> nat \<Rightarrow> duration \<Rightarrow> duration" where
  "backoff_after base steps cap =
     (let b = wrap64 (base * 2 ^ min steps 5) in if b > cap then cap else b)"

definition noteFailure :: "pool_error \<Rightarrow> time \<Rightarrow> ref \<Rightarrow> pool \<Rightarrow> pool" where
  "noteFailure e now r p =
     (let p = upd_slot r (\<lambda>s. s\<lparr>s_failures := Suc (s_failures s),
                                s_lastError := redactedError e\<rparr>) p;
          p = p\<lparr>p_statFailures := p_statFailures p + 1\<rparr>;
          backoff = backoff_after (FailureBackoff (p_opts p)) (s_failures (p_heap p r) - 1)
                      (30 * minute);
          p = upd_slot r (\<lambda>s. s\<lparr>s_disabledUntil := now + backoff\<rparr>) p
      in if s_tunnel (p_heap p r) \<noteq> None then closeLocked r p else p)"

end
