(* ===== verification/Select.thy ===== *)
theory Select
  imports Tunnels
begin

text \<open>
  \<open>pick\<close> of \<open>internal/pool/pool.go\<close>: which slot the next request tries. A sticky session wins,
  then the ring of last-good exits of the destination, then a random slot among those that are
  ready, then a random slot whose tunnel has to be opened; an exhausted unique batch may
  recycle the exit it burned first.

  \<open>rnd n\<close> is what \<open>rng.IntN\<close> returns for \<open>n\<close>, \<open>ord\<close> the order in which Go ranges over the slot
  map. The nested returns of the code are the \<open>sum\<close> results.
\<close>

type_synonym rng = "nat \<Rightarrow> nat"

definition slot_ref :: "pool \<Rightarrow> string \<Rightarrow> ref option" where
  "slot_ref p i = fmlookup (p_slots p) i"

definition pickReady :: "rng \<Rightarrow> 'a list \<Rightarrow> 'a" where
  "pickReady rnd rs = (if length rs = 1 then rs ! 0 else rs ! rnd (length rs))"

text \<open>The loop of the recycling: \<open>best\<close> is the oldest burn found so far and its number.\<close>

fun recycle_loop ::
  "policy \<Rightarrow> string \<Rightarrow> time \<Rightarrow> batch \<Rightarrow> (ref \<times> nat) option \<Rightarrow> pool \<Rightarrow> string list
     \<Rightarrow> (ref \<times> nat) option \<times> pool" where
  "recycle_loop pol target now b best p [] = (best, p)"
| "recycle_loop pol target now b best p (i # ids) =
     (let r = slot_ref p i;
          (ok, p') = eligibleIgnoringBatchLocked pol target now p r;
          ip = s_publicIP (p_heap p' (the r))
      in if \<not> ok then recycle_loop pol target now b best p' ids
         else if ip |\<notin>| fmdom (b_usedIPs b) then recycle_loop pol target now b best p' ids
         else
           let seq = fm_get 0 (b_burnSeq b) ip
           in recycle_loop pol target now b
                (case best of
                   None \<Rightarrow> Some (the r, seq)
                 | Some (w, oldest) \<Rightarrow> if seq < oldest then Some (the r, seq) else Some (w, oldest))
                p' ids)"

definition recycleOldestBatchExitLocked ::
  "policy \<Rightarrow> string \<Rightarrow> time \<Rightarrow> pool \<Rightarrow> ref option \<times> pool" where
  "recycleOldestBatchExitLocked pol target now p =
     (if \<not> pol_RecycleBatch pol \<or> pol_UniqueBatch pol = [] then (None, p)
      else
        case fmlookup (p_batches p) (pol_UniqueBatch pol) of
          None \<Rightarrow> (None, p)
        | Some b \<Rightarrow>
            if \<not> now < b_expiresAt b then (None, p)
            else
              (case recycle_loop pol target now b None p (p_order p) of
                 (None, p) \<Rightarrow> (None, p)
               | (Some (r, _), p) \<Rightarrow>
                   (Some r, p\<lparr>p_batches :=
                      fmupd (pol_UniqueBatch pol) (stampLocked (s_publicIP (p_heap p r)) now b)
                        (p_batches p)\<rparr>)))"

text \<open>
  The loop over the ring: \<open>kept\<close> are the exits that stay in it, \<open>best\<close> is the least loaded exit
  the unique batch allows. The code starts from the largest \<open>int\<close> as load, and takes the first
  exit whatever its load.
\<close>

fun preferred_loop ::
  "policy \<Rightarrow> string \<Rightarrow> time \<Rightarrow> ref option \<Rightarrow> pool \<Rightarrow> ring \<Rightarrow> (ring \<times> ref option) \<times> pool" where
  "preferred_loop pol target now best p [] = (([], best), p)"
| "preferred_loop pol target now best p (x # xs) =
     (case slot_ref p (pe_slotID x) of
        None \<Rightarrow> preferred_loop pol target now best p xs
      | Some r \<Rightarrow>
          if pe_publicIP x = None \<or> s_publicIP (p_heap p r) \<noteq> pe_publicIP x
          then preferred_loop pol target now best p xs
          else
            let (ok, p) = eligiblePreferredLocked pol target now p (Some r)
            in if \<not> ok then preferred_loop pol target now best p xs
               else
                 let (allowed, p) = eligibleLocked pol target now p (Some r);
                     load = (\<lambda>r. s_leases (p_heap p r) + s_pendingLeases (p_heap p r));
                     best' = (if \<not> allowed then best
                              else case best of
                                     None \<Rightarrow> Some r
                                   | Some w \<Rightarrow> if load r < load w then Some r else Some w);
                     ((kept, res), p) = preferred_loop pol target now best' p xs
                 in ((x # kept, res), p))"

definition pickPreferredLocked ::
  "policy \<Rightarrow> string \<Rightarrow> time \<Rightarrow> pool \<Rightarrow> (pool_error + (ref \<times> acquisitionReservation) option) \<times> pool"
where
  "pickPreferredLocked pol target now p =
     (case fmlookup (p_preferred p) target of
        None \<Rightarrow> (Inr None, p)
      | Some r \<Rightarrow>
          (case preferred_loop pol target now None p (prune now r) of
             ((kept, best), p) \<Rightarrow>
               if kept = [] then (Inr None, p\<lparr>p_preferred := fmdrop target (p_preferred p)\<rparr>)
               else
                 (case best of
                    None \<Rightarrow> (Inr None, p\<lparr>p_preferred := fmupd target kept (p_preferred p)\<rparr>)
                  | Some w \<Rightarrow>
                      (case reserveAcquisitionLocked pol w now
                              (p\<lparr>p_preferred :=
                                 fmupd target (rotateToTail (slot_ID (p_heap p w)) kept)
                                   (p_preferred p)\<rparr>) of
                         (Inl e, p) \<Rightarrow> (Inl e, p)
                       | (Inr ar, p) \<Rightarrow> (Inr (Some (w, ar)), p)))))"

datatype picked = Picked (pk_state: ref) (pk_sticky: bool) (pk_reservation: acquisitionReservation)

definition reserve_pick :: "policy \<Rightarrow> ref \<Rightarrow> bool \<Rightarrow> time \<Rightarrow> pool \<Rightarrow> (pool_error + picked) \<times> pool" where
  "reserve_pick pol r sticky now p =
     (case reserveAcquisitionLocked pol r now p of
        (Inl e, p) \<Rightarrow> (Inl e, p)
      | (Inr ar, p) \<Rightarrow> (Inr (Picked r sticky ar), p))"

text \<open>The sticky session: the slot it is bound to, or \<open>None\<close> with a dead binding dropped.\<close>

definition sticky_slot :: "policy \<Rightarrow> string \<Rightarrow> time \<Rightarrow> pool \<Rightarrow> ref option \<times> pool" where
  "sticky_slot pol target now p =
     (if pol_Session pol = [] then (None, p)
      else
        case fmlookup (p_sessions p) (pol_Session pol) of
          None \<Rightarrow> (None, p)
        | Some se \<Rightarrow>
            if \<not> now < se_expiresAt se then (None, p)
            else
              (case eligibleLocked pol target now p (slot_ref p (se_slotID se)) of
                 (True, p) \<Rightarrow>
                   (slot_ref p (se_slotID se),
                    p\<lparr>p_sessions := fmupd (pol_Session pol)
                         (se\<lparr>se_expiresAt := now + sessionTTL p pol\<rparr>) (p_sessions p)\<rparr>)
               | (False, p) \<Rightarrow> (None, dropSession (pol_Session pol) p)))"

text \<open>The random selection over all slots, with the recycling when there is none.\<close>

definition pick_any ::
  "rng \<Rightarrow> string list \<Rightarrow> policy \<Rightarrow> string \<Rightarrow> time \<Rightarrow> pool \<Rightarrow> (pool_error + picked) \<times> pool" where
  "pick_any rnd ord pol target now p =
     (let (candidates, p) =
            scan (\<lambda>p r. eligibleLocked pol target now p r) p (map (slot_ref p) (p_order p));
          candidates = map the candidates
      in if candidates = [] then
           (case recycleOldestBatchExitLocked pol target now p of
              (Some r, p) \<Rightarrow> reserve_pick pol r False now p
            | (None, p) \<Rightarrow> (Inl ErrNoCandidate, p))
         else
           let rdy = filter (\<lambda>r. ready (p_heap p r)) candidates
           in if rdy \<noteq> [] then reserve_pick pol (pickReady rnd rdy) False now p
              else
                (case tunnelBudgetAvailableLocked now p of
                   (False, p) \<Rightarrow> (Inl ErrTunnelBudget, p)
                 | (True, p) \<Rightarrow>
                     (case reserveCapacityLocked ord p of
                        (Some e, p) \<Rightarrow> (Inl e, p)
                      | (None, p) \<Rightarrow> reserve_pick pol (pickReady rnd candidates) False now p)))"

text \<open>The selection behind the limits: sticky session, ring, any slot.\<close>

definition pick_slot ::
  "rng \<Rightarrow> string list \<Rightarrow> policy \<Rightarrow> string \<Rightarrow> time \<Rightarrow> pool \<Rightarrow> (pool_error + picked) \<times> pool" where
  "pick_slot rnd ord pol target now p =
     (case sticky_slot pol target now p of
        (Some r, p) \<Rightarrow> reserve_pick pol r True now p
      | (None, p) \<Rightarrow>
          (case (if target \<noteq> [] then pickPreferredLocked pol target now p else (Inr None, p)) of
             (Inl e, p) \<Rightarrow> (Inl e, p)
           | (Inr (Some (r, ar)), p) \<Rightarrow> (Inr (Picked r False ar), p)
           | (Inr None, p) \<Rightarrow> pick_any rnd ord pol target now p))"

definition pick ::
  "rng \<Rightarrow> string list \<Rightarrow> policy \<Rightarrow> string \<Rightarrow> time \<Rightarrow> pool \<Rightarrow> (pool_error + picked) \<times> pool" where
  "pick rnd ord pol target now p0 =
     (let p = expireLocked now p0
      in if pol_TTL pol > MaxSessionTTL (p_opts p) then (Inl (Wrapped ErrPolicy), p)
         else if pol_BatchTTL pol > MaxBatchTTL (p_opts p) then (Inl (Wrapped ErrPolicy), p)
         else if MaxConcurrentConns (p_opts p) > 0 \<and>
                 int (p_leased p + p_pendingLeases p) \<ge> MaxConcurrentConns (p_opts p)
         then (Inl ErrBusy, p\<lparr>p_statBusy := p_statBusy p + 1\<rparr>)
         else pick_slot rnd ord pol
                (if pol_HealthScope pol \<noteq> [] then pol_HealthScope pol else target) now p)"

end
