(* ===== verification/Selection.thy ===== *)
theory Selection
  imports Select
begin

text \<open>
  What \<open>pick\<close> selects. \<open>sel_eq\<close> relates pools that any test of eligibility judges alike; every
  stage of the selection moves along it until a slot is reserved, so each stage is characterised
  by \<open>eligible\<close> on the pool the selection started from.
\<close>

definition sel_eq :: "time \<Rightarrow> pool \<Rightarrow> pool \<Rightarrow> bool" where
  "sel_eq now p q \<longleftrightarrow>
     p_opts q = p_opts p \<and> p_heap q = p_heap p \<and> p_slots q = p_slots p \<and>
     p_order q = p_order p \<and> p_batches q = p_batches p \<and> p_nextBatch q = p_nextBatch p \<and>
     p_pendingSessions q = p_pendingSessions p \<and> fmdom (p_sessions q) |\<subseteq>| fmdom (p_sessions p) \<and>
     p_leased q = p_leased p \<and> p_pendingLeases q = p_pendingLeases p \<and>
     p_entries q = p_entries p \<and> p_probeTunnels q = p_probeTunnels p \<and>
     p_opens q = p_opens p \<and> p_pendingTunnelOpens q = p_pendingTunnelOpens p \<and>
     p_nextRef q = p_nextRef p \<and> p_closing q = p_closing p \<and>
     (\<forall>target ip. ip_cooling q target ip now = ip_cooling p target ip now)"

lemma sel_eq_refl [simp]: "sel_eq now p p"
  by (simp add: sel_eq_def)

lemma sel_eq_trans [trans]: "sel_eq now p q \<Longrightarrow> sel_eq now q r \<Longrightarrow> sel_eq now p r"
  by (auto simp: sel_eq_def)

lemma cleaned_sel_eq: "cleaned now p q \<Longrightarrow> sel_eq now p q"
  by (simp add: sel_eq_def frame) (simp add: cleaned_def)

lemma sel_eq_sessions:
  "sel_eq now p q \<Longrightarrow> fmdom m |\<subseteq>| fmdom (p_sessions p) \<Longrightarrow> sel_eq now p (q\<lparr>p_sessions := m\<rparr>)"
  by (simp add: sel_eq_def ip_cooling_def)

lemma sel_eq_dom: "sel_eq now p q \<Longrightarrow> fmdom (p_sessions q) |\<subseteq>| fmdom (p_sessions p)"
  by (simp add: sel_eq_def)

lemma sel_eq_preferred [simp]: "sel_eq now p (q\<lparr>p_preferred := m\<rparr>) = sel_eq now p q"
  by (simp add: sel_eq_def ip_cooling_def)

lemma sel_eq_fields:
  assumes "sel_eq now p q"
  shows "p_opts q = p_opts p" "p_heap q = p_heap p" "p_slots q = p_slots p"
    "p_order q = p_order p" "p_batches q = p_batches p"
    "slot_ref q = slot_ref p" "ip_cooling q target ip now = ip_cooling p target ip now"
  using assms by (auto simp: sel_eq_def slot_ref_def fun_eq_iff)

lemma eligible_sel_eq:
  assumes "sel_eq now p q"
  shows "eligible q pol target now r = eligible p pol target now r"
  by (simp add: eligible_def sel_eq_fields [OF assms] at_conn_limit_def ip_fresh_def
      batch_excludes_def Let_def)

lemma eligible_ref_sel_eq:
  assumes "sel_eq now p q"
  shows "eligible_ref q pol target now r = eligible_ref p pol target now r"
  using eligible_sel_eq [OF assms] by (simp add: eligible_ref_def split: option.split)

lemma eligibleLocked_sel_eq:
  "eligibleLocked pol target now p r = (ok, q) \<Longrightarrow>
     ok = eligible_ref p pol target now r \<and> sel_eq now p q"
  by (metis eligibleLocked_spec fst_conv snd_conv cleaned_sel_eq)

lemma eligibleIgnoring_sel_eq:
  "eligibleIgnoringBatchLocked pol target now p r = (ok, q) \<Longrightarrow>
     ok = eligible_ref p (pol\<lparr>pol_UniqueBatch := []\<rparr>) target now r \<and> sel_eq now p q"
  by (simp add: eligibleIgnoringBatchLocked_def eligibleLocked_sel_eq)

lemma eligiblePreferred_sel_eq:
  "eligiblePreferredLocked pol target now p r = (ok, q) \<Longrightarrow>
     ok = eligible_ref p (pol\<lparr>pol_UniqueBatch := []\<rparr>) target now r \<and> sel_eq now p q"
  by (cases r) (auto simp: eligiblePreferredLocked_def eligible_ref_def
      dest: eligibleLocked_sel_eq split: if_splits)

section \<open>The sticky session\<close>

lemma sticky_slot_spec:
  assumes "sticky_slot pol target now p = (res, q)"
  shows "sel_eq now p q"
    and "res = Some r \<Longrightarrow> eligible p pol target now r \<and> pol_Session pol \<noteq> [] \<and>
           (\<exists>se. fmlookup (p_sessions p) (pol_Session pol) = Some se \<and> now < se_expiresAt se \<and>
                 slot_ref p (se_slotID se) = Some r)"
proof -
  have "sel_eq now p q \<and> (res = Some r \<longrightarrow> eligible p pol target now r \<and> pol_Session pol \<noteq> [] \<and>
           (\<exists>se. fmlookup (p_sessions p) (pol_Session pol) = Some se \<and> now < se_expiresAt se \<and>
                 slot_ref p (se_slotID se) = Some r))"
  proof (cases "pol_Session pol = [] \<or> fmlookup (p_sessions p) (pol_Session pol) = None \<or>
      \<not> now < se_expiresAt (the (fmlookup (p_sessions p) (pol_Session pol)))")
    case True
    then show ?thesis using assms by (auto simp: sticky_slot_def split: option.splits if_splits)
  next
    case False
    then obtain se where se: "pol_Session pol \<noteq> []" "fmlookup (p_sessions p) (pol_Session pol) = Some se"
      "now < se_expiresAt se" by auto
    obtain ok p1 where e: "eligibleLocked pol target now p (slot_ref p (se_slotID se)) = (ok, p1)" by fastforce
    note s1 = conjunct2 [OF eligibleLocked_sel_eq [OF e]]
    have ok: "ok = eligible_ref p pol target now (slot_ref p (se_slotID se))"
      using eligibleLocked_sel_eq [OF e] by simp
    have d: "pol_Session pol |\<in>| fmdom (p_sessions p)" using se(2) by (rule fmdomI)
    have "q = p1\<lparr>p_sessions := p_sessions q\<rparr> \<and> fmdom (p_sessions q) |\<subseteq>| fmdom (p_sessions p)"
      using assms se e sel_eq_dom [OF s1] d
      by (cases ok) (auto simp: sticky_slot_def dropSession_def)
    then have "sel_eq now p q" using sel_eq_sessions [OF s1] by metis
    then show ?thesis
      using assms se e ok sel_eq_fields(6) [OF s1]
      by (cases ok) (auto simp: sticky_slot_def eligible_ref_def split: option.splits)
  qed
  then show "sel_eq now p q"
    and "res = Some r \<Longrightarrow> eligible p pol target now r \<and> pol_Session pol \<noteq> [] \<and>
           (\<exists>se. fmlookup (p_sessions p) (pol_Session pol) = Some se \<and> now < se_expiresAt se \<and>
                 slot_ref p (se_slotID se) = Some r)" by blast+
qed

section \<open>The ring of last-good exits\<close>

text \<open>The exits the loop keeps, the slots it may choose among, and what it chooses.\<close>

definition keeps_exit :: "pool \<Rightarrow> policy \<Rightarrow> string \<Rightarrow> time \<Rightarrow> preferredExit \<Rightarrow> bool" where
  "keeps_exit p pol target now x \<longleftrightarrow>
     (case slot_ref p (pe_slotID x) of
        None \<Rightarrow> False
      | Some r \<Rightarrow> pe_publicIP x \<noteq> None \<and> s_publicIP (p_heap p r) = pe_publicIP x \<and>
          eligible p (pol\<lparr>pol_UniqueBatch := []\<rparr>) target now r)"

definition offers :: "pool \<Rightarrow> policy \<Rightarrow> string \<Rightarrow> time \<Rightarrow> ring \<Rightarrow> ref list" where
  "offers p pol target now xs =
     filter (eligible p pol target now)
       (map (\<lambda>x. the (slot_ref p (pe_slotID x))) (filter (keeps_exit p pol target now) xs))"

definition load_of :: "pool \<Rightarrow> ref \<Rightarrow> nat" where
  "load_of p r = s_leases (p_heap p r) + s_pendingLeases (p_heap p r)"

definition lighter :: "pool \<Rightarrow> ref option \<Rightarrow> ref \<Rightarrow> ref option" where
  "lighter p best r =
     (case best of None \<Rightarrow> Some r | Some w \<Rightarrow> if load_of p r < load_of p w then Some r else Some w)"

lemma ring_cong:
  assumes "sel_eq now p q"
  shows "keeps_exit q pol target now = keeps_exit p pol target now"
    and "offers q pol target now = offers p pol target now"
    and "lighter q = lighter p"
proof -
  have e: "eligible q pol target now = eligible p pol target now" for pol
    by (intro ext eligible_sel_eq [OF assms])
  show k: "keeps_exit q pol target now = keeps_exit p pol target now"
    by (simp add: keeps_exit_def fun_eq_iff sel_eq_fields [OF assms] eligible_sel_eq [OF assms]
        split: option.split)
  show "offers q pol target now = offers p pol target now"
    by (intro ext) (simp only: offers_def sel_eq_fields [OF assms] e k)
  show "lighter q = lighter p"
    by (simp add: lighter_def load_of_def fun_eq_iff sel_eq_fields [OF assms]
        split: option.split)
qed

lemma preferred_loop_spec:
  "preferred_loop pol target now best p xs = ((kept, res), q) \<Longrightarrow>
     sel_eq now p q \<and> kept = filter (keeps_exit p pol target now) xs \<and>
     res = foldl (lighter p) best (offers p pol target now xs)"
proof (induction xs arbitrary: best p kept res q)
  case Nil
  then show ?case by (simp add: offers_def)
next
  case (Cons x xs)
  show ?case
  proof (cases "slot_ref p (pe_slotID x)")
    case None
    then show ?thesis
      using Cons.IH [of best p kept res q] Cons.prems
      by (simp add: offers_def keeps_exit_def [of _ _ _ _ x])
  next
    case (Some r)
    show ?thesis
    proof (cases "pe_publicIP x = None \<or> s_publicIP (p_heap p r) \<noteq> pe_publicIP x")
      case True
      then have "\<not> keeps_exit p pol target now x" using Some by (auto simp: keeps_exit_def)
      then show ?thesis
        using Cons.IH [of best p kept res q] Cons.prems Some True by (simp add: offers_def)
    next
      case False
      obtain ok p1 where e1: "eligiblePreferredLocked pol target now p (Some r) = (ok, p1)"
        by fastforce
      note s1 = eligiblePreferred_sel_eq [OF e1]
      have k: "keeps_exit p pol target now x = ok"
        using False Some s1 by (auto simp: keeps_exit_def eligible_ref_def)
      note c1 = ring_cong [OF conjunct2 [OF s1]]
      show ?thesis
      proof (cases ok)
        case False': False
        then have "preferred_loop pol target now best p1 xs = ((kept, res), q)"
          using Cons.prems Some False e1 by simp
        from Cons.IH [OF this] show ?thesis
          using s1 k False' by (auto simp: c1 offers_def intro: sel_eq_trans)
      next
        case True
        obtain al p2 where e2: "eligibleLocked pol target now p1 (Some r) = (al, p2)"
          by fastforce
        note s2 = eligibleLocked_sel_eq [OF e2]
        have s12: "sel_eq now p p2" using s1 s2 sel_eq_trans by blast
        note c2 = ring_cong [OF s12]
        have al: "al = eligible p pol target now r"
          using s1 s2 eligible_sel_eq by (auto simp: eligible_ref_def)
        let ?b = "if al then lighter p best r else best"
        obtain kept' where l: "preferred_loop pol target now ?b p2 xs = ((kept', res), q)"
          and kept: "kept = x # kept'"
          using Cons.prems Some False e1 e2 True sel_eq_fields(2) [OF s12]
          by (auto simp: Let_def lighter_def load_of_def split: prod.splits if_splits option.splits)
        from Cons.IH [OF l] show ?thesis
          using s12 k True kept al Some by (auto simp: c2 offers_def intro: sel_eq_trans)
      qed
    qed
  qed
qed

lemma lighter_simps:
  "lighter p None r = Some r"
  "lighter p (Some w) r = (if load_of p r < load_of p w then Some r else Some w)"
  by (simp_all add: lighter_def)

lemma lightest:
  assumes "rs \<noteq> []"
  shows "\<exists>w. foldl (lighter p) None rs = Some w \<and> w \<in> set rs \<and>
             (\<forall>r\<in>set rs. load_of p w \<le> load_of p r)"
  using assms
proof (induction rs rule: rev_induct)
  case (snoc r rs)
  show ?case
  proof (cases "rs = []")
    case True
    then show ?thesis by (simp add: lighter_simps)
  next
    case False
    then obtain w where "foldl (lighter p) None rs = Some w" "w \<in> set rs"
      "\<forall>r\<in>set rs. load_of p w \<le> load_of p r"
      using snoc by blast
    then show ?thesis by (auto simp: lighter_simps)
  qed
qed simp

text \<open>
  What the ring offers, before anything is reserved: the lightest of the kept exits that the
  unique batch allows as well.
\<close>

definition ring_choice :: "pool \<Rightarrow> policy \<Rightarrow> string \<Rightarrow> time \<Rightarrow> ref option" where
  "ring_choice p pol target now =
     (case fmlookup (p_preferred p) target of
        None \<Rightarrow> None
      | Some r \<Rightarrow> foldl (lighter p) None (offers p pol target now (prune now r)))"

lemma ring_choice_spec:
  assumes "ring_choice p pol target now = Some w"
  shows "eligible p pol target now w \<and>
         (\<exists>r x. fmlookup (p_preferred p) target = Some r \<and> x \<in> set r \<and> now < pe_expiresAt x \<and>
                slot_ref p (pe_slotID x) = Some w \<and> pe_publicIP x = s_publicIP (p_heap p w))"
proof -
  obtain r where r: "fmlookup (p_preferred p) target = Some r"
    and f: "foldl (lighter p) None (offers p pol target now (prune now r)) = Some w"
    using assms by (auto simp: ring_choice_def split: option.splits)
  then have "offers p pol target now (prune now r) \<noteq> []" by auto
  from lightest [OF this, of p] f have w: "w \<in> set (offers p pol target now (prune now r))" by auto
  then obtain x where x: "x \<in> set r" "now < pe_expiresAt x" "keeps_exit p pol target now x"
    "w = the (slot_ref p (pe_slotID x))" "eligible p pol target now w"
    by (auto simp: offers_def prune_def)
  then have "slot_ref p (pe_slotID x) = Some w \<and> pe_publicIP x = s_publicIP (p_heap p w)"
    by (auto simp: keeps_exit_def split: option.splits)
  then show ?thesis using r x by blast
qed

lemma pickPreferredLocked_spec:
  assumes "pickPreferredLocked pol target now p = (res, q)"
  shows "(case ring_choice p pol target now of
            None \<Rightarrow> res = Inr None \<and> sel_eq now p q
          | Some w \<Rightarrow> \<exists>p1. sel_eq now p p1 \<and>
              (case reserveAcquisitionLocked pol w now p1 of
                 (Inl e, p2) \<Rightarrow> res = Inl e \<and> q = p2
               | (Inr ar, p2) \<Rightarrow> res = Inr (Some (w, ar)) \<and> q = p2))"
proof (cases "fmlookup (p_preferred p) target")
  case None
  then show ?thesis using assms by (simp add: pickPreferredLocked_def ring_choice_def)
next
  case (Some r)
  obtain kept best p1 where l: "preferred_loop pol target now None p (prune now r) = ((kept, best), p1)"
    by (metis surj_pair)
  note spec = preferred_loop_spec [OF l]
  have best: "ring_choice p pol target now = best"
    using Some spec by (simp add: ring_choice_def)
  show ?thesis
  proof (cases best)
    case None
    then show ?thesis
      using assms Some l best spec by (auto simp: pickPreferredLocked_def split: if_splits)
  next
    case w: (Some w)
    have ne: "kept \<noteq> []" using spec w by (auto simp: offers_def)
    let ?p2 = "p1\<lparr>p_preferred :=
        fmupd target (rotateToTail (slot_ID (p_heap p1 w)) kept) (p_preferred p1)\<rparr>"
    obtain rr p3 where r: "reserveAcquisitionLocked pol w now ?p2 = (rr, p3)" by fastforce
    have "sel_eq now p ?p2" using spec by simp
    moreover have "(res, q) = (case rr of Inl e \<Rightarrow> Inl e | Inr ar \<Rightarrow> Inr (Some (w, ar)), p3)"
      using assms Some l ne w r by (simp add: pickPreferredLocked_def split: sum.splits)
    ultimately show ?thesis
      using r by (simp only: best w option.case) (intro exI [of _ ?p2], simp split: sum.splits)
  qed
qed

section \<open>Recycling\<close>

definition recyclable :: "pool \<Rightarrow> policy \<Rightarrow> string \<Rightarrow> time \<Rightarrow> batch \<Rightarrow> string \<Rightarrow> bool" where
  "recyclable p pol target now b i \<longleftrightarrow>
     (case slot_ref p i of
        None \<Rightarrow> False
      | Some r \<Rightarrow> eligible p (pol\<lparr>pol_UniqueBatch := []\<rparr>) target now r \<and>
          burned b (s_publicIP (p_heap p r)))"

definition older :: "pool \<Rightarrow> batch \<Rightarrow> (ref \<times> nat) option \<Rightarrow> string \<Rightarrow> (ref \<times> nat) option" where
  "older p b best i =
     (let r = the (slot_ref p i); seq = burn_age b (s_publicIP (p_heap p r))
      in case best of
           None \<Rightarrow> Some (r, seq)
         | Some (w, oldest) \<Rightarrow> if seq < oldest then Some (r, seq) else Some (w, oldest))"

lemma recycle_loop_spec:
  "recycle_loop pol target now b best p ids = (res, q) \<Longrightarrow>
     sel_eq now p q \<and> res = foldl (older p b) best (filter (recyclable p pol target now b) ids)"
proof (induction ids arbitrary: best p res q)
  case (Cons i ids)
  obtain ok p1 where e: "eligibleIgnoringBatchLocked pol target now p (slot_ref p i) = (ok, p1)"
    by fastforce
  note s1 = eligibleIgnoring_sel_eq [OF e]
  note f = sel_eq_fields [OF conjunct2 [OF s1]]
  have cong: "recyclable p1 pol target now b = recyclable p pol target now b" "older p1 b = older p b"
    by (auto simp: recyclable_def older_def fun_eq_iff f eligible_sel_eq [OF conjunct2 [OF s1]]
        split: option.splits)
  let ?ip = "s_publicIP (p_heap p (the (slot_ref p i)))"
  have rec: "recyclable p pol target now b i \<longleftrightarrow> ok \<and> burned b ?ip"
    using s1 by (auto simp: recyclable_def eligible_ref_def split: option.splits)
  obtain best' where l: "recycle_loop pol target now b best' p1 ids = (res, q)"
    and b: "best' = (if ok \<and> burned b ?ip then older p b best i else best)"
    using Cons.prems e
    by (auto simp: Let_def f burned_def older_def burn_age_def split: if_splits)
  from Cons.IH [OF l] s1 show ?case
    by (auto simp: cong b rec intro: sel_eq_trans)
qed simp

lemma older_Some:
  "older p b (Some (w, n)) i =
     (if burn_age b (s_publicIP (p_heap p (the (slot_ref p i)))) < n
      then Some (the (slot_ref p i), burn_age b (s_publicIP (p_heap p (the (slot_ref p i)))))
      else Some (w, n))"
  by (simp add: older_def Let_def)

lemma oldest:
  fixes p b
  defines "age \<equiv> \<lambda>i. burn_age b (s_publicIP (p_heap p (the (slot_ref p i))))"
  assumes "ids \<noteq> []"
  shows "\<exists>i\<in>set ids. foldl (older p b) None ids = Some (the (slot_ref p i), age i) \<and>
           (\<forall>j\<in>set ids. age i \<le> age j)"
  using assms(2)
proof (induction ids rule: rev_induct)
  case (snoc j ids)
  show ?case
  proof (cases "ids = []")
    case True
    then show ?thesis by (simp add: older_def Let_def age_def)
  next
    case False
    then obtain i where i: "i \<in> set ids" "foldl (older p b) None ids = Some (the (slot_ref p i), age i)"
      "\<forall>k\<in>set ids. age i \<le> age k"
      using snoc by (auto simp: age_def)
    show ?thesis
    proof (cases "age j < age i")
      case True
      then show ?thesis using i by (intro bexI [of _ j]) (auto simp: older_Some age_def)
    next
      case False
      then show ?thesis using i by (intro bexI [of _ i]) (auto simp: older_Some age_def)
    qed
  qed
qed simp

end
