(* ===== verification/PickSpec.thy ===== *)
theory PickSpec
  imports Selection
begin

text \<open>
  What the selection as a whole guarantees. Each small operation is summarised by the fields it
  can change (the lemmas named \<open>..._shape\<close>); \<open>conn\<close> is the view of the connection counters, and
  \<open>near\<close> relates the pool a slot was chosen in to the pool it is reserved in.
\<close>

section \<open>The connection counters\<close>

record conn =
  cn_leased :: nat
  cn_pending :: nat
  cn_l :: "ref \<Rightarrow> nat"
  cn_p :: "ref \<Rightarrow> nat"

definition conn :: "pool \<Rightarrow> conn" where
  "conn p = \<lparr>cn_leased = p_leased p, cn_pending = p_pendingLeases p,
     cn_l = (\<lambda>r. s_leases (p_heap p r)), cn_p = (\<lambda>r. s_pendingLeases (p_heap p r))\<rparr>"

definition reserve_conn :: "ref \<Rightarrow> conn \<Rightarrow> conn" where
  "reserve_conn r c = c\<lparr>cn_pending := Suc (cn_pending c), cn_p := (cn_p c)(r := Suc (cn_p c r))\<rparr>"

definition release_conn :: "ref \<Rightarrow> conn \<Rightarrow> conn" where
  "release_conn r c = c\<lparr>cn_pending := cn_pending c - 1, cn_p := (cn_p c)(r := cn_p c r - 1)\<rparr>"

lemma release_reserve_conn [simp]: "release_conn r (reserve_conn r c) = c"
  by (simp add: release_conn_def reserve_conn_def)

lemma conn_simps [simp]:
  "conn (p\<lparr>p_sessions := a\<rparr>) = conn p"
  "conn (p\<lparr>p_pendingSessions := b\<rparr>) = conn p"
  "conn (p\<lparr>p_batches := c\<rparr>) = conn p"
  "conn (p\<lparr>p_nextBatch := d\<rparr>) = conn p"
  "conn (p\<lparr>p_preferred := e\<rparr>) = conn p"
  "conn (p\<lparr>p_ipCooldowns := f\<rparr>) = conn p"
  "conn (p\<lparr>p_entries := g\<rparr>) = conn p"
  "conn (p\<lparr>p_opens := h\<rparr>) = conn p"
  "conn (p\<lparr>p_pendingTunnelOpens := i\<rparr>) = conn p"
  "conn (p\<lparr>p_probeTunnels := i\<rparr>) = conn p"
  "conn (p\<lparr>p_closing := j\<rparr>) = conn p"
  "conn (p\<lparr>p_slots := k\<rparr>) = conn p"
  "conn (p\<lparr>p_order := l\<rparr>) = conn p"
  "conn (p\<lparr>p_nextRef := m\<rparr>) = conn p"
  "conn (p\<lparr>p_metrics := n\<rparr>) = conn p"
  "conn (p\<lparr>p_statAcquired := s\<rparr>) = conn p"
  "conn (p\<lparr>p_statBusy := s\<rparr>) = conn p"
  "conn (p\<lparr>p_statSent := s\<rparr>) = conn p"
  "conn (p\<lparr>p_statReceived := s\<rparr>) = conn p"
  "conn (p\<lparr>p_statRotated := s\<rparr>) = conn p"
  "conn (p\<lparr>p_statReports := s\<rparr>) = conn p"
  "conn (p\<lparr>p_statFailures := s\<rparr>) = conn p"
  "conn (p\<lparr>p_statAcquiredByCountry := t\<rparr>) = conn p"
  by (simp_all add: conn_def)

lemma conn_upd_slot:
  assumes "\<And>s. s_leases (f s) = s_leases s" and "\<And>s. s_pendingLeases (f s) = s_pendingLeases s"
  shows "conn (upd_slot r f p) = conn p"
  using assms by (auto simp: conn_def upd_slot_def fun_eq_iff)

lemma sel_eq_conn: "sel_eq now p q \<Longrightarrow> conn q = conn p"
  by (simp add: sel_eq_def conn_def)

lemma expireLocked_conn [frame]: "conn (expireLocked now p) = conn p"
  by (auto simp: expireLocked_def conn_def fun_eq_iff)

lemma expireLocked_fields [simp]:
  "p_opts (expireLocked now p) = p_opts p" "p_slots (expireLocked now p) = p_slots p"
  "p_order (expireLocked now p) = p_order p" "p_nextRef (expireLocked now p) = p_nextRef p"
  "p_opens (expireLocked now p) = p_opens p"
  "p_pendingTunnelOpens (expireLocked now p) = p_pendingTunnelOpens p"
  "p_entries (expireLocked now p) = p_entries p"
  "p_probeTunnels (expireLocked now p) = p_probeTunnels p"
  "p_pendingSessions (expireLocked now p) = p_pendingSessions p"
  "s_spec (p_heap (expireLocked now p) r) = s_spec (p_heap p r)"
  "s_tunnel (p_heap (expireLocked now p) r) = s_tunnel (p_heap p r)"
  "s_opening (p_heap (expireLocked now p) r) = s_opening (p_heap p r)"
  "s_publicIP (p_heap (expireLocked now p) r) = s_publicIP (p_heap p r)"
  "s_leases (p_heap (expireLocked now p) r) = s_leases (p_heap p r)"
  "s_pendingLeases (p_heap (expireLocked now p) r) = s_pendingLeases (p_heap p r)"
  "p_leased (expireLocked now p) = p_leased p"
  "p_pendingLeases (expireLocked now p) = p_pendingLeases p"
  by (auto simp: expireLocked_def)

section \<open>Shapes of the reservations\<close>

lemma reserveSession_shape:
  "reserveSessionLocked pol p = (res, q) \<Longrightarrow> \<exists>m. q = p\<lparr>p_pendingSessions := m\<rparr>"
  by (auto simp: reserveSessionLocked_def Let_def split: if_splits
      intro: exI [of _ "p_pendingSessions p"])

lemma releasePending_shape: "\<exists>m. releasePendingSessionLocked n p = p\<lparr>p_pendingSessions := m\<rparr>"
  by (auto simp: releasePendingSessionLocked_def Let_def intro: exI [of _ "p_pendingSessions p"])

lemma reserveBatch_shape:
  "reserveBatchLocked pol r now p = (res, q) \<Longrightarrow>
     \<exists>m n. q = p\<lparr>p_batches := m, p_nextBatch := n\<rparr>"
  by (intro exI [of _ "p_batches q"] exI [of _ "p_nextBatch q"])
    (auto simp: reserveBatchLocked_def Let_def split: if_splits option.splits
      intro!: pool.equality)

definition reserve_heap :: "ref \<Rightarrow> pool \<Rightarrow> pool" where
  "reserve_heap r p = upd_slot r (\<lambda>s. s\<lparr>s_pendingLeases := Suc (s_pendingLeases s)\<rparr>) p"

lemma reserveAcquisition_Inr:
  assumes "reserveAcquisitionLocked pol r now p = (Inr ar, q)"
  shows "ar_state ar = r \<and> ar_active ar \<and>
         (\<exists>a b c. q = p\<lparr>p_heap := (p_heap p)(r := (p_heap p r)
                          \<lparr>s_pendingLeases := Suc (s_pendingLeases (p_heap p r))\<rparr>),
                       p_pendingSessions := a, p_batches := b, p_nextBatch := c,
                       p_pendingLeases := Suc (p_pendingLeases p)\<rparr>)"
proof -
  obtain ses p1 where s: "reserveSessionLocked pol p = (Inr ses, p1)"
    using assms by (auto simp: reserveAcquisitionLocked_def split: prod.splits sum.splits)
  obtain bat p2 where b: "reserveBatchLocked pol r now p1 = (Inr bat, p2)"
    using assms s by (auto simp: reserveAcquisitionLocked_def split: prod.splits sum.splits)
  obtain a where p1: "p1 = p\<lparr>p_pendingSessions := a\<rparr>" using reserveSession_shape [OF s] by blast
  obtain m n where p2: "p2 = p1\<lparr>p_batches := m, p_nextBatch := n\<rparr>"
    using reserveBatch_shape [OF b] by blast
  show ?thesis
    using assms s b p1 p2
    by (intro conjI exI [of _ a] exI [of _ m] exI [of _ n] pool.equality)
      (auto simp: reserveAcquisitionLocked_def upd_slot_def)
qed

lemma reserveAcquisition_Inl:
  assumes "reserveAcquisitionLocked pol r now p = (Inl e, q)"
  shows "\<exists>a b c. q = p\<lparr>p_pendingSessions := a, p_batches := b, p_nextBatch := c\<rparr>"
proof -
  obtain rs p1 where s: "reserveSessionLocked pol p = (rs, p1)" by fastforce
  obtain a where p1: "p1 = p\<lparr>p_pendingSessions := a\<rparr>" using reserveSession_shape [OF s] by blast
  show ?thesis
  proof (cases rs)
    case (Inl e')
    then have "q = p\<lparr>p_pendingSessions := a, p_batches := p_batches p, p_nextBatch := p_nextBatch p\<rparr>"
      using assms s p1 Inl by (auto simp: reserveAcquisitionLocked_def intro!: pool.equality)
    then show ?thesis by blast
  next
    case (Inr ses)
    obtain rb p2 where b: "reserveBatchLocked pol r now p1 = (rb, p2)" by fastforce
    obtain m n where p2: "p2 = p1\<lparr>p_batches := m, p_nextBatch := n\<rparr>"
      using reserveBatch_shape [OF b] by blast
    have "q = releasePendingSessionLocked ses p2"
      using assms s Inr b by (cases rb) (auto simp: reserveAcquisitionLocked_def)
    then obtain a' where q: "q = p2\<lparr>p_pendingSessions := a'\<rparr>"
      using releasePending_shape by metis
    have "q = p\<lparr>p_pendingSessions := a', p_batches := m, p_nextBatch := n\<rparr>"
      unfolding q p2 p1 by simp
    then show ?thesis by blast
  qed
qed

lemma reserveAcquisition_conn:
  "reserveAcquisitionLocked pol r now p = (Inr ar, q) \<Longrightarrow> conn q = reserve_conn r (conn p)"
  "reserveAcquisitionLocked pol r now p = (Inl e, q) \<Longrightarrow> conn q = conn p"
  by (auto dest!: reserveAcquisition_Inr reserveAcquisition_Inl
      simp: conn_def reserve_conn_def fun_eq_iff)

section \<open>From the choice to the reservation\<close>

definition same_use :: "batch \<Rightarrow> batch \<Rightarrow> bool" where
  "same_use b c \<longleftrightarrow>
     b_alloc c = b_alloc b \<and> b_expiresAt c = b_expiresAt b \<and> burned c = burned b \<and>
     taken c = taken b \<and> attributed c = attributed b"

text \<open>
  Between the choice and the reservation the selection may drop a dead session, prune a ring,
  restamp a recycled address, forget old tunnel openings and close an idle tunnel, and
  nothing else.
\<close>

definition near :: "pool \<Rightarrow> pool \<Rightarrow> bool" where
  "near p q \<longleftrightarrow>
     p_opts q = p_opts p \<and> p_slots q = p_slots p \<and> p_order q = p_order p \<and>
     p_nextRef q = p_nextRef p \<and> p_nextBatch q = p_nextBatch p \<and>
     p_pendingSessions q = p_pendingSessions p \<and> fmdom (p_sessions q) |\<subseteq>| fmdom (p_sessions p) \<and>
     p_entries q = p_entries p \<and> p_probeTunnels q = p_probeTunnels p \<and>
     p_pendingTunnelOpens q = p_pendingTunnelOpens p \<and> p_closing q = p_closing p \<and>
     p_leased q = p_leased p \<and> p_pendingLeases q = p_pendingLeases p \<and>
     (\<forall>r. p_heap q r = p_heap p r \<or>
          p_heap q r = (p_heap p r)\<lparr>s_tunnel := None, s_openedAt := 0\<rparr>) \<and>
     (\<forall>n. rel_option same_use (fmlookup (p_batches p) n) (fmlookup (p_batches q) n))"

lemma same_use_refl [simp]: "same_use b b"
  by (simp add: same_use_def)

lemma near_refl [simp]: "near p p"
  by (simp add: near_def option.rel_refl)

lemma near_trans [trans]: "near p q \<Longrightarrow> near q r \<Longrightarrow> near p r"
proof -
  assume a: "near p q" and b: "near q r"
  have "rel_option same_use (fmlookup (p_batches p) n) (fmlookup (p_batches r) n)" for n
  proof -
    have "rel_option same_use (fmlookup (p_batches p) n) (fmlookup (p_batches q) n)"
      "rel_option same_use (fmlookup (p_batches q) n) (fmlookup (p_batches r) n)"
      using a b by (simp_all add: near_def)
    then show ?thesis
      by (auto simp: same_use_def elim!: option.rel_cases)
  qed
  moreover have "p_heap r x = p_heap p x \<or>
      p_heap r x = (p_heap p x)\<lparr>s_tunnel := None, s_openedAt := 0\<rparr>" for x
  proof -
    have "p_heap q x = p_heap p x \<or> p_heap q x = (p_heap p x)\<lparr>s_tunnel := None, s_openedAt := 0\<rparr>"
      "p_heap r x = p_heap q x \<or> p_heap r x = (p_heap q x)\<lparr>s_tunnel := None, s_openedAt := 0\<rparr>"
      using a b unfolding near_def by blast+
    then show ?thesis by auto
  qed
  moreover have "fmdom (p_sessions r) |\<subseteq>| fmdom (p_sessions p)"
    using a b unfolding near_def by blast
  ultimately show ?thesis using a b by (simp add: near_def)
qed

lemma near_slot:
  assumes "near p q"
  shows "s_spec (p_heap q r) = s_spec (p_heap p r)" "s_publicIP (p_heap q r) = s_publicIP (p_heap p r)"
    "s_leases (p_heap q r) = s_leases (p_heap p r)"
    "s_pendingLeases (p_heap q r) = s_pendingLeases (p_heap p r)"
    "s_opening (p_heap q r) = s_opening (p_heap p r)"
    "s_tunnel (p_heap p r) = None \<Longrightarrow> s_tunnel (p_heap q r) = None"
proof -
  have "p_heap q r = p_heap p r \<or> p_heap q r = (p_heap p r)\<lparr>s_tunnel := None, s_openedAt := 0\<rparr>"
    using assms unfolding near_def by blast
  then show "s_spec (p_heap q r) = s_spec (p_heap p r)"
    "s_publicIP (p_heap q r) = s_publicIP (p_heap p r)"
    "s_leases (p_heap q r) = s_leases (p_heap p r)"
    "s_pendingLeases (p_heap q r) = s_pendingLeases (p_heap p r)"
    "s_opening (p_heap q r) = s_opening (p_heap p r)"
    "s_tunnel (p_heap p r) = None \<Longrightarrow> s_tunnel (p_heap q r) = None"
    by auto
qed

lemma near_conn: "near p q \<Longrightarrow> conn q = conn p"
proof -
  assume a: "near p q"
  have "p_leased q = p_leased p" "p_pendingLeases q = p_pendingLeases p"
    using a unfolding near_def by blast+
  then show ?thesis by (simp only: conn_def near_slot [OF a])
qed

lemma sel_eq_near: "sel_eq now p q \<Longrightarrow> near p q"
  by (auto simp: sel_eq_def near_def option.rel_refl)

lemma near_opens [simp]: "near p (q\<lparr>p_opens := a\<rparr>) = near p q"
  by (simp add: near_def)

lemma budget_shape:
  "tunnelBudgetAvailableLocked now p = (ok, q) \<Longrightarrow> \<exists>m. q = p\<lparr>p_opens := m\<rparr>"
  by (auto simp: tunnelBudgetAvailableLocked_def pruneOpensLocked_def Let_def
      intro: exI [of _ "p_opens p"] split: if_splits)

lemma budget_near: "tunnelBudgetAvailableLocked now p = (ok, q) \<Longrightarrow> near p q"
  by (auto dest!: budget_shape)

lemma closeLocked_near: "near p (closeLocked r p)"
  by (auto simp: closeLocked_def upd_slot_def near_def option.rel_refl)

lemma capacity_near: "reserveCapacityLocked ord p = (res, q) \<Longrightarrow> near p q"
  by (auto simp: reserveCapacityLocked_def closeLocked_near split: if_splits option.splits)

lemma stamp_near:
  assumes "fmlookup (p_batches p) n = Some b" and "burned b ip"
  shows "near p (p\<lparr>p_batches := fmupd n (stampLocked ip at b) (p_batches p)\<rparr>)"
proof -
  have "same_use b (stampLocked ip at b)"
    using assms(2) by (auto simp: same_use_def fun_eq_iff)
  then show ?thesis
    using assms by (auto simp: near_def option.rel_refl)
qed

section \<open>The choice\<close>

text \<open>
  The recycling applies: the caller opted in, its batch is live, no slot is eligible, and the
  slot is eligible but for the batch with an address that no other such slot burned earlier.
\<close>

definition recycles :: "pool \<Rightarrow> policy \<Rightarrow> string \<Rightarrow> time \<Rightarrow> ref \<Rightarrow> bool" where
  "recycles p pol target now r \<longleftrightarrow>
     pol_RecycleBatch pol \<and> pol_UniqueBatch pol \<noteq> [] \<and>
     (\<forall>i\<in>set (p_order p). \<not> eligible_ref p pol target now (slot_ref p i)) \<and>
     (\<exists>b. fmlookup (p_batches p) (pol_UniqueBatch pol) = Some b \<and> now < b_expiresAt b \<and>
          (\<exists>i\<in>set (p_order p). slot_ref p i = Some r \<and> recyclable p pol target now b i \<and>
             (\<forall>j\<in>set (p_order p). recyclable p pol target now b j \<longrightarrow>
                burn_age b (s_publicIP (p_heap p r))
                  \<le> burn_age b (s_publicIP (p_heap p (the (slot_ref p j)))))))"

lemma recycle_spec:
  assumes "recycleOldestBatchExitLocked pol target now p = (Some r, q)"
    and "\<forall>i\<in>set (p_order p). \<not> eligible_ref p pol target now (slot_ref p i)"
  shows "recycles p pol target now r \<and> near p q"
proof -
  obtain b where b: "pol_RecycleBatch pol" "pol_UniqueBatch pol \<noteq> []"
    "fmlookup (p_batches p) (pol_UniqueBatch pol) = Some b" "now < b_expiresAt b"
    using assms(1) by (auto simp: recycleOldestBatchExitLocked_def split: if_splits option.splits)
  obtain n p1 where l: "recycle_loop pol target now b None p (p_order p) = (Some (r, n), p1)"
    and q: "q = p1\<lparr>p_batches := fmupd (pol_UniqueBatch pol)
                 (stampLocked (s_publicIP (p_heap p1 r)) now b) (p_batches p1)\<rparr>"
    using assms(1) b
    by (auto simp: recycleOldestBatchExitLocked_def split: option.splits prod.splits)
  note spec = recycle_loop_spec [OF l]
  let ?ids = "filter (recyclable p pol target now b) (p_order p)"
  have "?ids \<noteq> []" using spec by auto
  from oldest [OF this, of p b] obtain i where i: "i \<in> set ?ids"
    "foldl (older p b) None ?ids = Some (the (slot_ref p i),
        burn_age b (s_publicIP (p_heap p (the (slot_ref p i)))))"
    "\<forall>j\<in>set ?ids. burn_age b (s_publicIP (p_heap p (the (slot_ref p i))))
        \<le> burn_age b (s_publicIP (p_heap p (the (slot_ref p j))))"
    by blast
  have r: "r = the (slot_ref p i)" using spec i by auto
  have sr: "slot_ref p i = Some r \<and> burned b (s_publicIP (p_heap p r))"
    using i(1) r by (auto simp: recyclable_def split: option.splits)
  have "near p p1" using spec by (blast intro: sel_eq_near)
  also have "near p1 q"
    unfolding q using b(3) sr spec by (intro stamp_near) (auto simp: sel_eq_def)
  finally have "near p q" .
  moreover have "recycles p pol target now r"
    unfolding recycles_def
  proof (intro conjI exI [of _ b] bexI [of _ i])
    show "\<forall>j\<in>set (p_order p). recyclable p pol target now b j \<longrightarrow>
        burn_age b (s_publicIP (p_heap p r)) \<le> burn_age b (s_publicIP (p_heap p (the (slot_ref p j))))"
      using i(3) r by simp
  qed (use b assms(2) i(1) sr in simp_all)
  ultimately show ?thesis by simp
qed

lemma recycle_none:
  assumes "recycleOldestBatchExitLocked pol target now p = (None, q)"
  shows "near p q" and "\<not> recycles p pol target now r"
proof -
  show "near p q"
    using assms by (auto simp: recycleOldestBatchExitLocked_def split: if_splits option.splits prod.splits
        dest!: recycle_loop_spec intro: sel_eq_near)
  show "\<not> recycles p pol target now r"
  proof
    assume "recycles p pol target now r"
    then obtain b i where b: "pol_RecycleBatch pol" "pol_UniqueBatch pol \<noteq> []"
      "fmlookup (p_batches p) (pol_UniqueBatch pol) = Some b" "now < b_expiresAt b"
      and i: "i \<in> set (p_order p)" "recyclable p pol target now b i"
      unfolding recycles_def by blast
    obtain res p1 where l: "recycle_loop pol target now b None p (p_order p) = (res, p1)" by fastforce
    let ?ids = "filter (recyclable p pol target now b) (p_order p)"
    have "?ids \<noteq> []" using i by (auto simp: filter_empty_conv)
    then have "res \<noteq> None" using recycle_loop_spec [OF l] oldest [of ?ids p b] by fastforce
    then show False
      using assms b l by (auto simp: recycleOldestBatchExitLocked_def)
  qed
qed

lemma recycles_sel_eq:
  assumes "sel_eq now p p1"
  shows "recycles p1 pol target now r = recycles p pol target now r"
proof -
  have "recyclable p1 pol target now = recyclable p pol target now"
    by (simp add: recyclable_def fun_eq_iff sel_eq_fields [OF assms] eligible_sel_eq [OF assms]
        split: option.split)
  then show ?thesis
    by (simp add: recycles_def sel_eq_fields [OF assms] eligible_ref_sel_eq [OF assms])
qed

text \<open>A slot the selection may return.\<close>

definition chosen :: "pool \<Rightarrow> policy \<Rightarrow> string \<Rightarrow> time \<Rightarrow> ref \<Rightarrow> bool" where
  "chosen p pol target now r \<longleftrightarrow>
     (\<exists>i. slot_ref p i = Some r) \<and>
     (eligible p pol target now r \<or> recycles p pol target now r)"

lemma pickReady_in: "(\<And>n. 0 < n \<Longrightarrow> rnd n < n) \<Longrightarrow> rs \<noteq> [] \<Longrightarrow> pickReady rnd rs \<in> set rs"
  by (auto simp: pickReady_def)

text \<open>The results of reserving a slot on \<open>p1\<close>.\<close>

definition reserved_at ::
  "policy \<Rightarrow> time \<Rightarrow> pool \<Rightarrow> ref \<Rightarrow> bool \<Rightarrow> (pool_error + picked) \<Rightarrow> pool \<Rightarrow> bool" where
  "reserved_at pol now p1 r sticky res q \<longleftrightarrow>
     (case res of
        Inl e \<Rightarrow> reserveAcquisitionLocked pol r now p1 = (Inl e, q)
      | Inr pk \<Rightarrow> \<exists>ar. pk = Picked r sticky ar \<and> reserveAcquisitionLocked pol r now p1 = (Inr ar, q))"

lemma reserve_pick_at: "reserve_pick pol r sticky now p1 = (res, q) \<Longrightarrow> reserved_at pol now p1 r sticky res q"
  by (auto simp: reserve_pick_def reserved_at_def split: prod.splits sum.splits)

text \<open>The window already holds as many openings as the rate budget allows, those in flight included.\<close>

definition budget_spent :: "time \<Rightarrow> pool \<Rightarrow> bool" where
  "budget_spent now p \<longleftrightarrow>
     0 < NewTunnelBudget (p_opts p) \<and>
     NewTunnelBudget (p_opts p)
       \<le> int (length (dropWhile (\<lambda>at. at \<le> now - NewTunnelWindow (p_opts p)) (p_opens p)) + p_pendingTunnelOpens p)"

text \<open>As many tunnels are open or opening as may be, and none of the slots has an idle one to close.\<close>

definition tunnels_full :: "string list \<Rightarrow> pool \<Rightarrow> bool" where
  "tunnels_full ord p \<longleftrightarrow>
     0 < MaxActive (p_opts p) \<and> MaxActive (p_opts p) \<le> int (openCount ord p) \<and>
     (\<forall>i\<in>set ord. \<not> idle (p_heap p (the (slot_ref p i))))"

text \<open>
  Why a selection offers nothing: there is no candidate and none to recycle, or every candidate needs a tunnel
  that may not be opened now, because the rate budget is spent or, with budget left, because no
  tunnel may be added.
\<close>

definition refuses :: "string list \<Rightarrow> pool \<Rightarrow> policy \<Rightarrow> string \<Rightarrow> time \<Rightarrow> pool_error \<Rightarrow> bool" where
  "refuses ord p pol target now e \<longleftrightarrow>
     e = ErrNoCandidate \<and> (\<forall>i\<in>set (p_order p). \<not> eligible_ref p pol target now (slot_ref p i)) \<and>
       (\<forall>r. \<not> recycles p pol target now r) \<or>
     (e = ErrTunnelBudget \<and> budget_spent now p \<or>
      e = ErrCapacity \<and> \<not> budget_spent now p \<and> tunnels_full ord p) \<and>
       (\<exists>i\<in>set (p_order p). eligible_ref p pol target now (slot_ref p i)) \<and>
       (\<forall>i\<in>set (p_order p). eligible_ref p pol target now (slot_ref p i) \<longrightarrow>
          \<not> ready (p_heap p (the (slot_ref p i))))"

definition pick_result ::
  "string list \<Rightarrow> policy \<Rightarrow> string \<Rightarrow> time \<Rightarrow> pool \<Rightarrow> (pool_error + picked) \<Rightarrow> pool \<Rightarrow> bool" where
  "pick_result ord pol target now p res q \<longleftrightarrow>
     (\<exists>r sticky p1. near p p1 \<and> chosen p pol target now r \<and> reserved_at pol now p1 r sticky res q) \<or>
     (\<exists>e. res = Inl e \<and> refuses ord p pol target now e \<and> near p q)"

lemma find_victim_Some: "find_victim p (Some u) ord \<noteq> None"
  by (induction ord arbitrary: u) (simp_all add: Let_def)

lemma find_victim_none:
  "find_victim p None ord = None \<Longrightarrow> i \<in> set ord \<Longrightarrow>
     \<not> idle (p_heap p (the (fmlookup (p_slots p) i)))"
proof (induction ord)
  case (Cons j ord)
  have j: "\<not> idle (p_heap p (the (fmlookup (p_slots p) j)))"
  proof
    assume "idle (p_heap p (the (fmlookup (p_slots p) j)))"
    then show False using Cons.prems(1) find_victim_Some by (simp add: Let_def)
  qed
  then have "find_victim p None ord = None" using Cons.prems(1) by (simp add: Let_def)
  then show ?case using Cons.IH Cons.prems(2) j by (cases "i = j") simp_all
qed simp

lemma capacity_error: "reserveCapacityLocked ord p = (Some e, q) \<Longrightarrow> e = ErrCapacity \<and> tunnels_full ord p"
  by (auto simp: reserveCapacityLocked_def tunnels_full_def slot_ref_def
      dest: find_victim_none split: if_splits option.splits)

lemma tunnels_full_opens [simp]: "tunnels_full ord (p\<lparr>p_opens := m\<rparr>) = tunnels_full ord p"
  by (simp add: tunnels_full_def openCount_def slot_ref_def)

lemma budget_error: "tunnelBudgetAvailableLocked now p = (ok, q) \<Longrightarrow> ok \<longleftrightarrow> \<not> budget_spent now p"
  by (auto simp: tunnelBudgetAvailableLocked_def budget_spent_def pruneOpensLocked_def Let_def not_less)

lemma limits_sel_eq:
  assumes "sel_eq now p q"
  shows "budget_spent now q = budget_spent now p" and "tunnels_full ord q = tunnels_full ord p"
  using assms
  by (simp_all add: sel_eq_def budget_spent_def tunnels_full_def openCount_def slot_ref_def)

lemma pick_any_spec:
  assumes "pick_any rnd ord pol target now p = (res, q)" and rnd: "\<And>n. 0 < n \<Longrightarrow> rnd n < n"
  shows "pick_result ord pol target now p res q"
proof -
  let ?P = "eligible_ref p pol target now"
  obtain cs p1 where sc:
    "scan (\<lambda>p r. eligibleLocked pol target now p r) p (map (slot_ref p) (p_order p)) = (cs, p1)"
    by fastforce
  have cs: "cs = filter ?P (map (slot_ref p) (p_order p))"
    using elig.scan_filter [of now p p pol target "map (slot_ref p) (p_order p)"] sc by simp
  have cl: "cleaned now p p1"
    using elig.scan_ok [of now p p pol target "map (slot_ref p) (p_order p)"] sc by simp
  have n1: "near p p1" and s1: "sel_eq now p p1"
    using cl cleaned_sel_eq sel_eq_near by blast+
  have el1: "eligible_ref p1 pol target now = ?P"
    by (rule ext) (rule eligible_ref_sel_eq [OF s1])
  have memb: "x \<in> set (map the cs) \<Longrightarrow> \<exists>i. slot_ref p i = Some x \<and> eligible p pol target now x" for x
    by (auto simp: cs eligible_ref_def split: option.splits) blast
  show ?thesis
  proof (cases "cs = []")
    case True
    then have none: "\<forall>i\<in>set (p_order p). \<not> ?P (slot_ref p i)"
      by (auto simp: cs filter_empty_conv)
    obtain ro p2 where rc: "recycleOldestBatchExitLocked pol target now p1 = (ro, p2)" by fastforce
    show ?thesis
    proof (cases ro)
      case None
      have "near p p2" using n1 recycle_none(1) rc None near_trans by blast
      moreover have "res = Inl ErrNoCandidate" "q = p2"
        using assms(1) sc True rc None by (simp_all add: pick_any_def)
      moreover have "\<not> recycles p pol target now r" for r
        using recycle_none(2) [OF rc [unfolded None]] by (simp add: recycles_sel_eq [OF s1])
      ultimately show ?thesis using none by (auto simp: pick_result_def refuses_def)
    next
      case (Some r)
      have none1: "\<forall>i\<in>set (p_order p1). \<not> eligible_ref p1 pol target now (slot_ref p1 i)"
        using none by (simp add: el1 sel_eq_fields [OF s1])
      from recycle_spec [OF rc [unfolded Some] none1]
      have rs: "recycles p1 pol target now r" and n2: "near p1 p2" by auto
      from rs have rs': "recycles p pol target now r" by (simp add: recycles_sel_eq [OF s1])
      then have "chosen p pol target now r" by (auto simp: chosen_def recycles_def)
      moreover have "reserve_pick pol r False now p2 = (res, q)"
        using assms(1) sc True rc Some by (simp add: pick_any_def)
      ultimately show ?thesis
        using near_trans [OF n1 n2] reserve_pick_at unfolding pick_result_def by blast
    qed
  next
    case False
    have cands: "map the cs \<noteq> []" using False by simp
    let ?rdy = "filter (\<lambda>r. ready (p_heap p1 r)) (map the cs)"
    show ?thesis
    proof (cases "?rdy = []")
      case False
      have "pickReady rnd ?rdy \<in> set (map the cs)"
        using pickReady_in [OF rnd False] by (auto simp only: set_filter)
      then have "chosen p pol target now (pickReady rnd ?rdy)"
        using memb unfolding chosen_def by blast
      moreover have "reserve_pick pol (pickReady rnd ?rdy) False now p1 = (res, q)"
        using assms(1) sc cands False by (simp add: pick_any_def Let_def)
      ultimately show ?thesis using n1 reserve_pick_at unfolding pick_result_def by blast
    next
      case True
      have hp: "p_heap p1 = p_heap p" using sel_eq_fields(2) [OF s1] .
      have none: "\<not> ready (p_heap p (the (slot_ref p i)))"
        if "i \<in> set (p_order p)" "?P (slot_ref p i)" for i
        using True that unfolding hp by (auto simp: cs filter_empty_conv)
      have "\<exists>i\<in>set (p_order p). ?P (slot_ref p i)"
        using False by (auto simp: cs filter_empty_conv)
      then have why: "e = ErrTunnelBudget \<and> budget_spent now p \<or>
          e = ErrCapacity \<and> \<not> budget_spent now p \<and> tunnels_full ord p \<Longrightarrow> refuses ord p pol target now e" for e
        using none unfolding refuses_def by blast
      obtain ok p2 where bu: "tunnelBudgetAvailableLocked now p1 = (ok, p2)" by fastforce
      have n2: "near p p2" using n1 budget_near [OF bu] near_trans by blast
      have sp: "ok \<longleftrightarrow> \<not> budget_spent now p" using budget_error [OF bu] limits_sel_eq(1) [OF s1] by simp
      have fu: "tunnels_full ord p2 = tunnels_full ord p"
        using budget_shape [OF bu] limits_sel_eq(2) [OF s1] by auto
      obtain ce p3 where ca: "reserveCapacityLocked ord p2 = (ce, p3)" by fastforce
      have n3: "near p p3" using n2 capacity_near [OF ca] near_trans by blast
      have res: "(res, q) = (if \<not> ok then (Inl ErrTunnelBudget, p2)
          else case ce of Some e \<Rightarrow> (Inl e, p3)
               | None \<Rightarrow> reserve_pick pol (pickReady rnd (map the cs)) False now p3)"
        using assms(1) sc cands True bu ca
        by (cases ok) (auto simp: pick_any_def Let_def split: option.splits)
      consider "\<not> ok" | e where "ok" "ce = Some e" | "ok" "ce = None" by (cases ce) auto
      then show ?thesis
      proof cases
        case 1
        then show ?thesis using res n2 why [of ErrTunnelBudget] sp unfolding pick_result_def by auto
      next
        case 2
        then show ?thesis
          using res n3 why [of ErrCapacity] sp fu capacity_error [OF ca [unfolded 2(2)]]
          unfolding pick_result_def by auto
      next
        case 3
        have "chosen p pol target now (pickReady rnd (map the cs))"
          using memb pickReady_in [OF rnd cands] unfolding chosen_def by blast
        moreover have "reserve_pick pol (pickReady rnd (map the cs)) False now p3 = (res, q)"
          using res 3 by simp
        ultimately show ?thesis using n3 reserve_pick_at unfolding pick_result_def by blast
      qed
    qed
  qed
qed

section \<open>The whole selection\<close>

definition scope_of :: "policy \<Rightarrow> string \<Rightarrow> string" where
  "scope_of pol target = (if pol_HealthScope pol \<noteq> [] then pol_HealthScope pol else target)"

definition at_global_limit :: "pool \<Rightarrow> bool" where
  "at_global_limit p \<longleftrightarrow>
     MaxConcurrentConns (p_opts p) > 0 \<and>
     int (p_leased p + p_pendingLeases p) \<ge> MaxConcurrentConns (p_opts p)"

definition over_policy_limits :: "pool \<Rightarrow> policy \<Rightarrow> bool" where
  "over_policy_limits p pol \<longleftrightarrow>
     pol_TTL pol > MaxSessionTTL (p_opts p) \<or> pol_BatchTTL pol > MaxBatchTTL (p_opts p)"

lemma pick_result_sel_eq:
  assumes "sel_eq now p p1" and "pick_result ord pol target now p1 res q"
  shows "pick_result ord pol target now p res q"
proof -
  note f = sel_eq_fields [OF assms(1)]
  have el: "eligible_ref p1 pol target now = eligible_ref p pol target now" for pol
    by (rule ext) (rule eligible_ref_sel_eq [OF assms(1)])
  have "chosen p1 pol target now r = chosen p pol target now r" for r
    by (simp add: chosen_def f eligible_sel_eq [OF assms(1)] recycles_sel_eq [OF assms(1)])
  moreover have "refuses ord p1 pol target now e = refuses ord p pol target now e" for e
    by (simp add: refuses_def el f recycles_sel_eq [OF assms(1)] limits_sel_eq [OF assms(1)])
  moreover have "near p1 x \<Longrightarrow> near p x" for x
    using sel_eq_near [OF assms(1)] near_trans by blast
  ultimately show ?thesis using assms(2) unfolding pick_result_def by metis
qed

lemma pick_slot_spec:
  assumes "pick_slot rnd ord pol target now p = (res, q)" and rnd: "\<And>n. 0 < n \<Longrightarrow> rnd n < n"
  shows "pick_result ord pol target now p res q"
proof -
  obtain so p1 where st: "sticky_slot pol target now p = (so, p1)" by fastforce
  note ss = sticky_slot_spec [OF st]
  show ?thesis
  proof (cases so)
    case (Some r)
    then have "chosen p pol target now r" using ss(2) [OF Some] by (auto simp: chosen_def)
    moreover have "reserve_pick pol r True now p1 = (res, q)"
      using assms(1) st Some by (simp add: pick_slot_def)
    ultimately show ?thesis
      using sel_eq_near [OF ss(1)] reserve_pick_at unfolding pick_result_def by blast
  next
    case None
    obtain pr p2 where pp: "(if target \<noteq> [] then pickPreferredLocked pol target now p1
        else (Inr None, p1)) = (pr, p2)" by fastforce
    have rest: "(case (pr, p2) of
             (Inl e, p) \<Rightarrow> (Inl e, p)
           | (Inr (Some (r, ar)), p) \<Rightarrow> (Inr (Picked r False ar), p)
           | (Inr None, p) \<Rightarrow> pick_any rnd ord pol target now p) = (res, q)"
      using assms(1) st None pp by (simp only: pick_slot_def prod.case option.case)
    show ?thesis
    proof (cases "target \<noteq> [] \<and> ring_choice p1 pol target now \<noteq> None")
      case True
      then obtain w where w: "ring_choice p1 pol target now = Some w" by auto
      have pl: "pickPreferredLocked pol target now p1 = (pr, p2)" using pp True by simp
      obtain p3 where p3: "sel_eq now p1 p3"
        "case reserveAcquisitionLocked pol w now p3 of
           (Inl e, p4) \<Rightarrow> pr = Inl e \<and> p2 = p4
         | (Inr ar, p4) \<Rightarrow> pr = Inr (Some (w, ar)) \<and> p2 = p4"
        using pickPreferredLocked_spec [OF pl] w by auto
      have "chosen p1 pol target now w"
        using ring_choice_spec [OF w] unfolding chosen_def by blast
      moreover have "reserved_at pol now p3 w False res q"
        using p3(2) rest by (auto simp: reserved_at_def split: prod.splits sum.splits)
      ultimately have "pick_result ord pol target now p1 res q"
        using sel_eq_near [OF p3(1)] unfolding pick_result_def by blast
      then show ?thesis by (rule pick_result_sel_eq [OF ss(1)])
    next
      case False
      then have "pr = Inr None \<and> sel_eq now p1 p2"
        using pp pickPreferredLocked_spec [of pol target now p1 pr p2]
        by (auto split: if_splits)
      then have "sel_eq now p p2" "pick_any rnd ord pol target now p2 = (res, q)"
        using rest sel_eq_trans [OF ss(1)] by auto
      then show ?thesis
        using pick_any_spec rnd by (blast intro: pick_result_sel_eq)
    qed
  qed
qed

lemma pick_spec:
  assumes "pick rnd ord pol t now p = (res, q)" and rnd: "\<And>n. 0 < n \<Longrightarrow> rnd n < n"
  shows "if over_policy_limits (expireLocked now p) pol then
           res = Inl (Wrapped ErrPolicy) \<and> q = expireLocked now p
         else if at_global_limit (expireLocked now p) then
           res = Inl ErrBusy \<and>
           q = (expireLocked now p)\<lparr>p_statBusy := p_statBusy (expireLocked now p) + 1\<rparr>
         else pick_result ord pol (scope_of pol t) now (expireLocked now p) res q"
  using assms(1) pick_slot_spec [of rnd ord pol "scope_of pol t" now "expireLocked now p" res q] rnd
  by (auto simp: pick_def over_policy_limits_def at_global_limit_def scope_of_def Let_def
      split: if_splits)

end
