(* ===== verification/Acquire.thy ===== *)
theory Acquire
  imports PickSpec
begin

text \<open>
  \<open>Acquire\<close> and \<open>Lease.Release\<close> of \<open>internal/pool/pool.go\<close>. An acquisition is a small machine: it
  picks under the lock, waits for a dialer without the lock, and then either commits the
  reservation or rolls it back, notes the failure, drops the session and tries again.
  \<open>acq_step\<close> is one critical section of it, so that acquisitions interleave; \<open>Acquire\<close> runs
  one alone, with the results of \<open>ensureDialerForAcquire\<close> and the clock as arguments.
\<close>

text \<open>The answer of the dialer: the entry used (empty without one), or an error.\<close>

type_synonym dial_result = "pool_error + string"

datatype acquiring =
    Picking (aq_attempt: nat) (aq_last: "pool_error option")
  | Dialing nat "pool_error option" ref bool acquisitionReservation
  | Failing nat pool_error ref bool
  | Dropping nat pool_error
  | Acquired lease
  | NotAcquired pool_error

definition acquire_commit ::
  "policy \<Rightarrow> time \<Rightarrow> string \<Rightarrow> ref \<Rightarrow> acquisitionReservation \<Rightarrow> pool \<Rightarrow> lease \<times> pool" where
  "acquire_commit pol now entryID r ar p =
     (let p = snd (commitAcquisitionLocked ar p);
          p = upd_slot r (\<lambda>s. s\<lparr>s_leases := Suc (s_leases s)\<rparr>) p;
          p = p\<lparr>p_leased := Suc (p_leased p)\<rparr>;
          p = upd_slot r (\<lambda>s. s\<lparr>s_lastUsed := now, s_failures := 0, s_lastError := []\<rparr>) p;
          publicIP = s_publicIP (p_heap p r);
          p = bindSession pol (slot_ID (p_heap p r)) now p;
          p = recordAcquisitionLocked r p;
          k = sp_Kind (s_spec (p_heap p r))
      in (\<lparr>l_state = r, l_Slot = s_spec (p_heap p r), l_Entry = entryID,
           l_Chained = (k = KindRelaySocks \<or> k = KindDirectSocks), l_PublicIP = publicIP,
           l_Session = pol_Session pol, l_released = False\<rparr>, p))"

text \<open>
  One critical section of an acquisition. After the last attempt the error is
  \<open>ErrExhausted\<close>, joined with the last failure when there was one.
\<close>

definition next_attempt :: "pool \<Rightarrow> nat \<Rightarrow> pool_error option \<Rightarrow> acquiring" where
  "next_attempt p n lastErr =
     (if int n < DialAttempts (p_opts p) then Picking n lastErr
      else NotAcquired (case lastErr of Some e \<Rightarrow> Joined ErrExhausted e | None \<Rightarrow> ErrExhausted))"

definition acquire_start :: "pool \<Rightarrow> acquiring" where
  "acquire_start p = next_attempt p 0 None"

fun acq_step ::
  "rng \<Rightarrow> string list \<Rightarrow> dial_result \<Rightarrow> time \<Rightarrow> policy \<Rightarrow> string \<Rightarrow> acquiring \<Rightarrow> pool
     \<Rightarrow> acquiring \<times> pool" where
  "acq_step rnd ord dr now pol target (Picking n lastErr) p =
     (case pick rnd ord pol target now p of
        (Inl e, p) \<Rightarrow> (NotAcquired (case lastErr of Some le \<Rightarrow> le | None \<Rightarrow> e), p)
      | (Inr (Picked r sticky ar), p) \<Rightarrow> (Dialing n lastErr r sticky ar, p))"
| "acq_step rnd ord dr now pol target (Dialing n lastErr r sticky ar) p =
     (case dr of
        Inl e \<Rightarrow> (Failing n e r sticky, rollbackAcquisition (Some ar) p)
      | Inr entryID \<Rightarrow> (let (l, p) = acquire_commit pol now entryID r ar p in (Acquired l, p)))"
| "acq_step rnd ord dr now pol target (Failing n e r sticky) p =
     (let p = noteFailure e now r p
      in (if sticky \<and> pol_Session pol \<noteq> [] then Dropping n e else next_attempt p (Suc n) (Some e), p))"
| "acq_step rnd ord dr now pol target (Dropping n e) p =
     (let p = dropSession (pol_Session pol) p in (next_attempt p (Suc n) (Some e), p))"
| "acq_step rnd ord dr now pol target a p = (a, p)"

definition finished :: "acquiring \<Rightarrow> bool" where
  "finished a \<longleftrightarrow> (case a of Acquired _ \<Rightarrow> True | NotAcquired _ \<Rightarrow> True | _ \<Rightarrow> False)"

text \<open>How many critical sections an acquisition has left at most.\<close>

fun acq_budget :: "int \<Rightarrow> acquiring \<Rightarrow> nat" where
  "acq_budget k (Picking n _) = 4 * nat (k - int n)"
| "acq_budget k (Dialing n _ _ _ _) = 4 * nat (k - int n) - 1"
| "acq_budget k (Failing n _ _ _) = 4 * nat (k - int n) - 2"
| "acq_budget k (Dropping n _) = 4 * nat (k - int n) - 3"
| "acq_budget k _ = 0"

text \<open>An acquisition alone: \<open>inp n\<close> are the oracles of its \<open>n\<close>th critical section.\<close>

record acq_input =
  in_rnd :: rng
  in_ord :: "string list"
  in_dial :: dial_result
  in_now :: time

fun acq_run ::
  "(nat \<Rightarrow> acq_input) \<Rightarrow> policy \<Rightarrow> string \<Rightarrow> nat \<Rightarrow> nat \<Rightarrow> acquiring \<Rightarrow> pool \<Rightarrow> acquiring \<times> pool" where
  "acq_run inp pol target i 0 a p = (a, p)"
| "acq_run inp pol target i (Suc n) a p =
     (if finished a then (a, p)
      else
        let (a, p) = acq_step (in_rnd (inp i)) (in_ord (inp i)) (in_dial (inp i)) (in_now (inp i))
                       pol target a p
        in acq_run inp pol target (Suc i) n a p)"

definition Acquire ::
  "(nat \<Rightarrow> acq_input) \<Rightarrow> policy \<Rightarrow> string \<Rightarrow> pool \<Rightarrow> (pool_error + lease) option \<times> pool" where
  "Acquire inp pol target p =
     (let a0 = acquire_start p
      in case acq_run inp pol target 0 (acq_budget (DialAttempts (p_opts p)) a0) a0 p of
           (Acquired l, p) \<Rightarrow> (Some (Inr l), p)
         | (NotAcquired e, p) \<Rightarrow> (Some (Inl e), p)
         | (_, p) \<Rightarrow> (None, p))"

text \<open>\<open>Release\<close>: a lease that was released before is left alone.\<close>

definition Release :: "time \<Rightarrow> lease \<Rightarrow> pool \<Rightarrow> lease \<times> pool" where
  "Release now l p =
     (if l_released l then (l, p)
      else
        let p = upd_slot (l_state l) (\<lambda>s. s\<lparr>s_leases := s_leases s - 1\<rparr>) p;
            p = p\<lparr>p_leased := p_leased p - 1\<rparr>;
            p = upd_slot (l_state l) (\<lambda>s. s\<lparr>s_lastUsed := now\<rparr>) p
        in (l\<lparr>l_released := True\<rparr>, p))"

end
