(* ===== verification/Metrics.thy ===== *)
theory Metrics
  imports Acquire "HOL-Library.Product_Lexorder"
begin

text \<open>
  \<open>internal/pool/metrics.go\<close> and \<open>metrics_snapshot.go\<close>: the request, tunnel and payload counters
  and the snapshot a scrape reads. Counters are 64-bit and wrap; a duration in seconds and the
  sum of a histogram are exact rationals, where the code has \<open>float64\<close>. \<open>ensure\<close>, which makes
  the maps on first use, has no counterpart: the model starts with empty maps.
\<close>

definition requestDurationBuckets :: "rat list" where
  "requestDurationBuckets = [1/100, 25/1000, 5/100, 1/10, 25/100, 5/10, 1, 25/10, 5, 10]"

definition tunnelDurationBuckets :: "rat list" where
  "tunnelDurationBuckets = [1/10, 25/100, 5/10, 1, 2, 3, 5, 8, 12, 20, 30]"

definition seconds_of :: "duration \<Rightarrow> rat" where
  "seconds_of d = of_int d / 1000000000"

definition no_histogram :: histogramMetric where
  "no_histogram = \<lparr>h_buckets = [], h_sum = 0, h_count = 0\<rparr>"

definition observe :: "rat list \<Rightarrow> rat \<Rightarrow> histogramMetric \<Rightarrow> histogramMetric" where
  "observe bounds value h =
     (let bs = (if h_buckets h = [] then replicate (Suc (length bounds)) 0 else h_buckets h)
      in h\<lparr>h_buckets :=
             map (\<lambda>(bound, n). if value \<le> bound then n + 1 else n) (zip bounds bs) @
             map (\<lambda>n. n + 1) (take 1 (drop (length bounds) bs)),
           h_sum := h_sum h + value,
           h_count := h_count h + 1\<rparr>)"

definition bump :: "'k \<Rightarrow> ('k, 64 word) fmap \<Rightarrow> ('k, 64 word) fmap" where
  "bump k m = fmupd k (fm_get 0 m k + 1) m"

definition normalizeMetricLabel :: "string \<Rightarrow> string \<Rightarrow> string" where
  "normalizeMetricLabel value fallback =
     (let v = to_lower (trim_space value) in if v = [] then fallback else v)"

definition leaseMetricLabels :: "lease option \<Rightarrow> string \<times> string" where
  "leaseMetricLabels l =
     (case l of
        None \<Rightarrow> (''unknown'', ''none'')
      | Some l \<Rightarrow> (normalizeMetricLabel (sp_Country (l_Slot l)) ''unknown'',
                    normalizeMetricLabel (l_Entry l) ''direct''))"

definition isCountryCode :: "string \<Rightarrow> bool" where
  "isCountryCode value \<longleftrightarrow>
     length value = 2 \<and> list_all (\<lambda>c. CHR ''a'' \<le> c \<and> c \<le> CHR ''z'') value"

record requestObservation =
  ro_Result :: string
  ro_RequestedCountry :: string
  ro_Lease :: "lease option"
  ro_Duration :: duration
  ro_TimeoutPhase :: string

definition ObserveRequest :: "requestObservation \<Rightarrow> pool \<Rightarrow> pool" where
  "ObserveRequest ob p =
     (let m = p_metrics p;
          requested = normalizeMetricLabel (ro_RequestedCountry ob) ''any'';
          (country, entry) = leaseMetricLabels (ro_Lease ob);
          key = (ro_Result ob, country, entry);
          phase = (if ro_TimeoutPhase ob \<in> {''acquire'', ''upstream'', ''unknown''}
                   then ro_TimeoutPhase ob else ''unknown'')
      in p\<lparr>p_metrics := m\<lparr>
             mt_requests := bump key (mt_requests m),
             mt_requestDurations :=
               fmupd key (observe requestDurationBuckets (seconds_of (ro_Duration ob))
                            (fm_get no_histogram (mt_requestDurations m) key))
                 (mt_requestDurations m),
             mt_requestTimeouts :=
               (if ro_Result ob = ''timeout''
                then bump (phase, country, entry) (mt_requestTimeouts m)
                else mt_requestTimeouts m),
             mt_requestedCountries := bump requested (mt_requestedCountries m),
             mt_selectedCountries :=
               (if ro_Lease ob \<noteq> None then bump country (mt_selectedCountries m)
                else mt_selectedCountries m),
             mt_fallbacks :=
               (if ro_Lease ob \<noteq> None \<and> isCountryCode requested \<and> requested \<noteq> country
                then bump (requested, country) (mt_fallbacks m) else mt_fallbacks m)\<rparr>\<rparr>)"

definition observeTunnelOpen :: "string \<Rightarrow> string \<Rightarrow> duration \<Rightarrow> pool \<Rightarrow> pool" where
  "observeTunnelOpen role result d p =
     (let m = p_metrics p; key = (role, result)
      in p\<lparr>p_metrics := m\<lparr>
             mt_tunnelOpens := bump key (mt_tunnelOpens m),
             mt_tunnelDurations :=
               fmupd key (observe tunnelDurationBuckets (seconds_of d)
                            (fm_get no_histogram (mt_tunnelDurations m) key))
                 (mt_tunnelDurations m)\<rparr>\<rparr>)"

definition observeEntryOpenFailureLocked :: "pool \<Rightarrow> pool" where
  "observeEntryOpenFailureLocked p =
     p\<lparr>p_metrics := (p_metrics p)\<lparr>mt_entryFailures :=
         bump ''open'' (mt_entryFailures (p_metrics p))\<rparr>\<rparr>"

definition observeEntryDialFailureLocked :: "pool \<Rightarrow> pool" where
  "observeEntryDialFailureLocked p =
     p\<lparr>p_metrics := (p_metrics p)\<lparr>mt_entryFailures :=
         bump ''dial'' (mt_entryFailures (p_metrics p))\<rparr>\<rparr>"

definition recordPayloadLocked :: "lease option \<Rightarrow> int \<Rightarrow> int \<Rightarrow> pool \<Rightarrow> pool" where
  "recordPayloadLocked l sent received p =
     (let m = p_metrics p;
          key = leaseMetricLabels l;
          (s, r) = fm_get (0, 0) (mt_payloads m) key;
          s' = (if sent > 0 then s + word_of_int sent else s);
          r' = (if received > 0 then r + word_of_int received else r)
      in p\<lparr>p_metrics := m\<lparr>mt_payloads := fmupd key (s', r') (mt_payloads m)\<rparr>\<rparr>)"

text \<open>\<open>openTunnel\<close>: the outcome of the open and of the wait for the handshake, recorded.\<close>

definition openTunnel ::
  "string \<Rightarrow> (pool_error + nat) \<Rightarrow> pool_error option \<Rightarrow> duration \<Rightarrow> pool
     \<Rightarrow> (pool_error + nat) \<times> pool" where
  "openTunnel role opened handshake took p =
     (case opened of
        Inl e \<Rightarrow> (Inl e, observeTunnelOpen role ''failure'' took p)
      | Inr t \<Rightarrow>
          (case handshake of
             Some e \<Rightarrow> (Inl e, observeTunnelOpen role ''failure'' took p)
           | None \<Rightarrow> (Inr t, observeTunnelOpen role ''success'' took p)))"

section \<open>The snapshot\<close>

record metricsSnapshot =
  sn_Requests :: "((string \<times> string \<times> string) \<times> 64 word) list"
  sn_RequestDurations :: "((string \<times> string \<times> string) \<times> histogramMetric) list"
  sn_RequestTimeouts :: "((string \<times> string \<times> string) \<times> 64 word) list"
  sn_RequestedCountries :: "(string \<times> 64 word) list"
  sn_SelectedCountries :: "(string \<times> 64 word) list"
  sn_CountryFallbacks :: "((string \<times> string) \<times> 64 word) list"
  sn_Payloads :: "((string \<times> string) \<times> 64 word \<times> 64 word) list"
  sn_TunnelOpens :: "((string \<times> string) \<times> 64 word) list"
  sn_TunnelDurations :: "((string \<times> string) \<times> histogramMetric) list"
  sn_EntryStates :: "(string \<times> nat) list"
  sn_EntryFailures :: "(string \<times> 64 word) list"
  sn_UniqueBatches :: nat
  sn_BatchBurnedExits :: nat
  sn_BatchSelectableExits :: nat

definition entryHealthLocked :: "time \<Rightarrow> entryState \<Rightarrow> string" where
  "entryHealthLocked now e =
     (if now < e_disabledUntil e then ''disabled'' else if entry_isOpen e then ''open'' else ''idle'')"

text \<open>A map as a list in ascending order of its keys (tuples compare component by component).\<close>

definition sorted_entries :: "('k :: linorder, 'v) fmap \<Rightarrow> ('k \<times> 'v) list" where
  "sorted_entries m = map (\<lambda>k. (k, the (fmlookup m k))) (sorted_list_of_fset (fmdom m))"

definition snapshotBuckets :: "rat list \<Rightarrow> histogramMetric \<Rightarrow> (rat option \<times> 64 word) list" where
  "snapshotBuckets bounds h =
     map (\<lambda>(i, n). (if i < length bounds then Some (bounds ! i) else None, n))
       (zip [0..<length (h_buckets h)] (h_buckets h))"

definition fmaxl :: "nat list \<Rightarrow> nat" where
  "fmaxl xs = foldl max 0 xs"

definition Metrics_snapshot :: "time \<Rightarrow> pool \<Rightarrow> metricsSnapshot" where
  "Metrics_snapshot now p =
     (let m = p_metrics p;
          healths = map (entryHealthLocked now) (p_entries p);
          burned = fmaxl (map (\<lambda>n. fm_size (b_usedIPs (the (fmlookup (p_batches p) n))))
                            (sorted_list_of_fset (fmdom (p_batches p))));
          measured = length (filter (\<lambda>i. s_publicIP (p_heap p (the (fmlookup (p_slots p) i))) \<noteq> None)
                              (sorted_list_of_fset (fmdom (p_slots p))))
      in \<lparr>sn_Requests = sorted_entries (mt_requests m),
          sn_RequestDurations = sorted_entries (mt_requestDurations m),
          sn_RequestTimeouts = sorted_entries (mt_requestTimeouts m),
          sn_RequestedCountries = sorted_entries (mt_requestedCountries m),
          sn_SelectedCountries = sorted_entries (mt_selectedCountries m),
          sn_CountryFallbacks = sorted_entries (mt_fallbacks m),
          sn_Payloads = sorted_entries (mt_payloads m),
          sn_TunnelOpens = sorted_entries (mt_tunnelOpens m),
          sn_TunnelDurations = sorted_entries (mt_tunnelDurations m),
          sn_EntryStates = map (\<lambda>h. (h, length (filter (\<lambda>x. x = h) healths)))
                             [''open'', ''idle'', ''disabled''],
          sn_EntryFailures = sorted_entries (mt_entryFailures m),
          sn_UniqueBatches = fm_size (p_batches p),
          sn_BatchBurnedExits = burned,
          sn_BatchSelectableExits = measured - burned\<rparr>)"

section \<open>Histograms and counters\<close>

text \<open>
  The invariant of a histogram: untouched, or with one cumulative bucket per bound and a last
  one that counts every observation.
\<close>

definition histogram_ok :: "rat list \<Rightarrow> histogramMetric \<Rightarrow> bool" where
  "histogram_ok bounds h \<longleftrightarrow>
     (h_buckets h = [] \<and> h_count h = 0) \<or>
     (length (h_buckets h) = Suc (length bounds) \<and> last (h_buckets h) = h_count h)"

lemma observe_buckets:
  assumes "histogram_ok bounds h"
  shows "length (h_buckets (observe bounds v h)) = Suc (length bounds)"
    and "i < length bounds \<Longrightarrow> h_buckets (observe bounds v h) ! i =
           (if h_buckets h = [] then 0 else h_buckets h ! i) + (if v \<le> bounds ! i then 1 else 0)"
    and "last (h_buckets (observe bounds v h)) = h_count h + 1"
proof -
  define bs where "bs = (if h_buckets h = [] then replicate (Suc (length bounds)) 0 else h_buckets h)"
  have l: "length bs = Suc (length bounds)" and la: "last bs = h_count h"
    using assms by (auto simp: histogram_ok_def bs_def last_replicate simp del: replicate.simps)
  define xs where "xs = butlast bs"
  have ne: "bs \<noteq> []" using l by auto
  have bs: "bs = xs @ [h_count h]"
    unfolding xs_def la [symmetric] using ne by simp
  have lx: "length xs = length bounds" using l by (simp add: xs_def)
  have o: "h_buckets (observe bounds v h) =
      map (\<lambda>(bound, n). if v \<le> bound then n + 1 else n) (zip bounds bs) @
      map (\<lambda>n. n + 1) (take 1 (drop (length bounds) bs))"
    unfolding observe_def Let_def bs_def by simp
  have z: "zip bounds bs = zip bounds xs" unfolding bs using lx by (simp add: zip_append2)
  have o': "h_buckets (observe bounds v h) =
      map (\<lambda>(bound, n). if v \<le> bound then n + 1 else n) (zip bounds xs) @ [h_count h + 1]"
    unfolding o z unfolding bs using lx by simp
  show "length (h_buckets (observe bounds v h)) = Suc (length bounds)"
    "last (h_buckets (observe bounds v h)) = h_count h + 1"
    using lx by (simp_all add: o')
  show "h_buckets (observe bounds v h) ! i =
      (if h_buckets h = [] then 0 else h_buckets h ! i) + (if v \<le> bounds ! i then 1 else 0)"
    if i: "i < length bounds"
  proof -
    have "bs ! i = xs ! i" using lx i by (simp add: bs nth_append)
    moreover have "bs ! i = (if h_buckets h = [] then 0 else h_buckets h ! i)"
      using i by (simp add: bs_def del: replicate.simps)
    ultimately show ?thesis using lx i by (simp add: o' nth_append)
  qed
qed

lemma observe_ok: "histogram_ok bounds h \<Longrightarrow> histogram_ok bounds (observe bounds v h)"
  using observe_buckets(1,3) [of bounds h v] by (simp add: histogram_ok_def) (simp add: observe_def Let_def)

lemma bump_get [simp]: "fm_get 0 (bump k m) j = (if j = k then fm_get 0 m j + 1 else fm_get 0 m j)"
  by (auto simp: bump_def)

end
