(* ===== verification/Entries.thy ===== *)
theory Entries
  imports Metrics Georoute
begin

text \<open>
  \<open>internal/pool/entry.go\<close>: the shared entry tunnels that relay-socks slots ride on. An entry is
  named by its position in \<open>p_entries\<close>, which never changes. \<open>ewma\<close> is the floating-point
  average of the code, a parameter; the draw of the exploration and the results of the
  handshakes are arguments.
\<close>

definition entryFailureThreshold :: nat where
  "entryFailureThreshold = 3"

definition priorLatencyPerHop :: duration where
  "priorLatencyPerHop = 250 * 1000000"

definition score :: "entryState \<Rightarrow> string \<Rightarrow> duration" where
  "score e exitCountry =
     (case fmlookup (e_latency e) exitCountry of
        Some measured \<Rightarrow> measured
      | None \<Rightarrow> (Cost (c_Country (e_spec e)) exitCountry + 1) * priorLatencyPerHop)"

definition upd_entry :: "nat \<Rightarrow> (entryState \<Rightarrow> entryState) \<Rightarrow> pool \<Rightarrow> pool" where
  "upd_entry i f p =
     (if i < length (p_entries p) then p\<lparr>p_entries := (p_entries p)[i := f (p_entries p ! i)]\<rparr> else p)"

section \<open>The order of the entries\<close>

text \<open>
  The comparison of \<open>sort.SliceStable\<close> is lexicographic: score, then open before closed, then
  the ID. The sort is stable.
\<close>

definition entry_key :: "string \<Rightarrow> pool \<Rightarrow> nat \<Rightarrow> int \<times> nat \<times> string" where
  "entry_key exitCountry p i =
     (let e = p_entries p ! i
      in (score e exitCountry, if entry_isOpen e then 0 else 1, c_ID (e_spec e)))"

definition healthy :: "time \<Rightarrow> pool \<Rightarrow> nat list" where
  "healthy now p = filter (\<lambda>i. \<not> now < e_disabledUntil (p_entries p ! i)) [0..<length (p_entries p)]"

definition orderedEntriesLocked :: "rat \<Rightarrow> string \<Rightarrow> time \<Rightarrow> pool \<Rightarrow> nat list" where
  "orderedEntriesLocked draw exitCountry now p =
     (case sort_key (entry_key exitCountry p) (healthy now p) of
        i # j # is \<Rightarrow> if draw < EntryExploreRate (p_opts p) then j # i # is else i # j # is
      | is \<Rightarrow> is)"

section \<open>Latency and failures\<close>

definition recordEntryLatency ::
  "(duration \<Rightarrow> duration \<Rightarrow> duration) \<Rightarrow> nat \<Rightarrow> string \<Rightarrow> duration \<Rightarrow> pool \<Rightarrow> pool" where
  "recordEntryLatency ewma i exitCountry observed p =
     (if exitCountry = [] \<or> observed \<le> 0 then p
      else upd_entry i (\<lambda>e. e\<lparr>
             e_latency := fmupd exitCountry
               (case fmlookup (e_latency e) exitCountry of
                  None \<Rightarrow> observed | Some previous \<Rightarrow> ewma observed previous) (e_latency e),
             e_samples := fmupd exitCountry (Suc (fm_get 0 (e_samples e) exitCountry)) (e_samples e),
             e_failures := 0, e_lastError := []\<rparr>) p)"

fun find_entry :: "string \<Rightarrow> entryState list \<Rightarrow> nat option" where
  "find_entry entryID [] = None"
| "find_entry entryID (e # es) =
     (if c_ID (e_spec e) = entryID then Some 0 else map_option Suc (find_entry entryID es))"

definition noteEntryFailure :: "string \<Rightarrow> pool_error \<Rightarrow> time \<Rightarrow> pool \<Rightarrow> bool \<times> pool" where
  "noteEntryFailure entryID err now p =
     (case find_entry entryID (p_entries p) of
        None \<Rightarrow> (False, p)
      | Some i \<Rightarrow>
          let p = upd_entry i (\<lambda>e. e\<lparr>e_failures := Suc (e_failures e),
                                     e_lastError := redactedError err\<rparr>) p;
              p = observeEntryDialFailureLocked p;
              failures = e_failures (p_entries p ! i)
          in if failures < entryFailureThreshold then (False, p)
             else
               let backoff = backoff_after (FailureBackoff (p_opts p))
                               (failures - entryFailureThreshold) (10 * minute)
               in (True, upd_entry i (\<lambda>e. e\<lparr>e_disabledUntil := now + backoff, e_tunnel := None\<rparr>) p))"

section \<open>Opening an entry\<close>

definition ensureEntryOpen_enter ::
  "pool_error option \<Rightarrow> string list \<Rightarrow> time \<Rightarrow> nat \<Rightarrow> pool \<Rightarrow> enter \<times> pool" where
  "ensureEntryOpen_enter ctxErr ord now i p =
     (case e_tunnel (p_entries p ! i) of
        Some t \<Rightarrow> (EnterOpen t, p)
      | None \<Rightarrow>
          if e_opening (p_entries p ! i) then (EnterWait, p)
          else
            case ctxErr of
              Some e \<Rightarrow> (EnterError e, p)
            | None \<Rightarrow>
                (case reserveCapacityLocked ord p of
                   (Some e, p) \<Rightarrow> (EnterError e, p)
                 | (None, p) \<Rightarrow>
                     (case reserveTunnelOpenLocked now p of
                        (Some e, p) \<Rightarrow> (EnterError e, p)
                      | (None, p) \<Rightarrow>
                          (EnterOpening, upd_entry i (\<lambda>e. e\<lparr>e_opening := True\<rparr>) p))))"

definition ensureEntryOpen_abort :: "nat \<Rightarrow> pool \<Rightarrow> pool" where
  "ensureEntryOpen_abort i p = upd_entry i (\<lambda>e. e\<lparr>e_opening := False\<rparr>) (rollbackTunnelOpen p)"

definition ensureEntryOpen_finish :: "(pool_error + nat) \<Rightarrow> time \<Rightarrow> nat \<Rightarrow> pool \<Rightarrow> pool" where
  "ensureEntryOpen_finish res now i p =
     (case res of
        Inr t \<Rightarrow>
          upd_entry i (\<lambda>e. e\<lparr>e_opening := False, e_tunnel := Some t, e_openedAt := now,
                             e_failures := 0, e_lastError := []\<rparr>) p
      | Inl err \<Rightarrow>
          let p = upd_entry i (\<lambda>e. e\<lparr>e_opening := False, e_failures := Suc (e_failures e),
                                     e_lastError := redactedError err\<rparr>) p;
              p = observeEntryOpenFailureLocked p;
              backoff = backoff_after (FailureBackoff (p_opts p))
                          (e_failures (p_entries p ! i) - 1) (10 * minute)
          in upd_entry i (\<lambda>e. e\<lparr>e_disabledUntil := now + backoff\<rparr>) p)"

text \<open>The tunnel of an entry without another goroutine in between: \<open>None\<close> is the wait for one.\<close>

definition ensureEntryOpen ::
  "pool_error option \<Rightarrow> pool_error option \<Rightarrow> (pool_error + nat) \<Rightarrow> string list \<Rightarrow> time \<Rightarrow> nat \<Rightarrow> pool
     \<Rightarrow> (pool_error + nat) option \<times> pool" where
  "ensureEntryOpen ctxErr ctxErr' res ord now i p =
     (case ensureEntryOpen_enter ctxErr ord now i p of
        (EnterOpen t, p) \<Rightarrow> (Some (Inr t), p)
      | (EnterWait, p) \<Rightarrow> (None, p)
      | (EnterError e, p) \<Rightarrow> (Some (Inl e), p)
      | (EnterOpening, p) \<Rightarrow>
          (case ctxErr' of
             Some e \<Rightarrow> (Some (Inl e), ensureEntryOpen_abort i p)
           | None \<Rightarrow> (Some res, ensureEntryOpen_finish res now i (commitTunnelOpen now p))))"

text \<open>
  \<open>dialerForSocksSlot\<close>: the first entry of the order that opens. \<open>opens i\<close> is the result of
  \<open>ensureEntryOpen\<close> for the entry \<open>i\<close> and the pool it leaves.
\<close>

fun try_entries ::
  "(nat \<Rightarrow> pool \<Rightarrow> (pool_error + nat) \<times> pool) \<Rightarrow> pool_error option \<Rightarrow> nat list \<Rightarrow> pool
     \<Rightarrow> (pool_error + nat \<times> nat) \<times> pool" where
  "try_entries opens lastErr [] p =
     (Inl (case lastErr of Some e \<Rightarrow> Joined ErrExhausted e | None \<Rightarrow> ErrExhausted), p)"
| "try_entries opens lastErr (i # is) p =
     (case opens i p of
        (Inl e, p) \<Rightarrow> try_entries opens (Some e) is p
      | (Inr t, p) \<Rightarrow> (Inr (i, t), p))"

definition dialerForSocksSlot ::
  "(nat \<Rightarrow> pool \<Rightarrow> (pool_error + nat) \<times> pool) \<Rightarrow> rat \<Rightarrow> time \<Rightarrow> ref \<Rightarrow> pool
     \<Rightarrow> (pool_error + nat \<times> nat \<times> string) \<times> pool" where
  "dialerForSocksSlot opens draw now r p =
     (let candidates = orderedEntriesLocked draw (sp_Country (s_spec (p_heap p r))) now p
      in if candidates = [] then (Inl (Wrapped ErrExhausted), p)
         else case try_entries opens None candidates p of
                (Inl e, p) \<Rightarrow> (Inl e, p)
              | (Inr (i, t), p) \<Rightarrow> (Inr (i, t, c_ID (e_spec (p_entries p ! i))), p))"

definition closeEntriesLocked :: "pool \<Rightarrow> pool" where
  "closeEntriesLocked p = p\<lparr>p_entries := map (\<lambda>e. e\<lparr>e_tunnel := None\<rparr>) (p_entries p)\<rparr>"

record entryInfo =
  ei_ID :: string
  ei_Country :: string
  ei_City :: string
  ei_Endpoint :: string
  ei_Region :: region
  ei_Open :: bool
  ei_OpenedAt :: "time option"
  ei_Failures :: nat
  ei_LastError :: string
  ei_Latency :: "(string, int) fmap"
  ei_Samples :: "(string, nat) fmap"
  ei_BytesSent :: "64 word"
  ei_BytesReceived :: "64 word"

definition entry_info :: "entryState \<Rightarrow> entryInfo" where
  "entry_info e =
     \<lparr>ei_ID = c_ID (e_spec e), ei_Country = c_Country (e_spec e), ei_City = c_City (e_spec e),
      ei_Endpoint = c_Endpoint (e_spec e), ei_Region = RegionOf (c_Country (e_spec e)),
      ei_Open = entry_isOpen e,
      ei_OpenedAt = (if e_openedAt e = 0 then None else Some (e_openedAt e)),
      ei_Failures = e_failures e, ei_LastError = e_lastError e,
      ei_Latency = fmmap (\<lambda>d. d div 1000000) (e_latency e),
      ei_Samples = fmmap_keys (\<lambda>c _. fm_get 0 (e_samples e) c) (e_latency e),
      ei_BytesSent = e_bytesSent e, ei_BytesReceived = e_bytesReceived e\<rparr>"

definition Entries_list :: "pool \<Rightarrow> entryInfo list" where
  "Entries_list p = sort_key ei_ID (map entry_info (p_entries p))"

end
