(* ===== verification/Feedback.thy ===== *)
theory Feedback
  imports Entries
begin

text \<open>
  What clients and the proxy tell the pool (\<open>internal/pool/pool.go\<close>): traffic, dial failures,
  rotations, reports and preferences, and the life cycle of the pool: warm-up and close.
\<close>

section \<open>Traffic and dial failures\<close>

definition RecordTraffic :: "lease option \<Rightarrow> int \<Rightarrow> int \<Rightarrow> pool \<Rightarrow> pool" where
  "RecordTraffic lo sent received p =
     (case lo of
        None \<Rightarrow> p
      | Some l \<Rightarrow>
          if sent \<le> 0 \<and> received \<le> 0 then p
          else
            let w = (\<lambda>n. if n > 0 then word_of_int n else 0 :: 64 word);
                p = p\<lparr>p_statSent := p_statSent p + w sent,
                      p_statReceived := p_statReceived p + w received\<rparr>;
                p = upd_slot (l_state l) (\<lambda>s. s\<lparr>s_bytesSent := s_bytesSent s + w sent,
                      s_bytesReceived := s_bytesReceived s + w received\<rparr>) p;
                p = recordPayloadLocked (Some l) sent received p
            in if l_Entry l = [] then p
               else case find_entry (l_Entry l) (p_entries p) of
                      None \<Rightarrow> p
                    | Some i \<Rightarrow> upd_entry i (\<lambda>e. e\<lparr>e_bytesSent := e_bytesSent e + w sent,
                        e_bytesReceived := e_bytesReceived e + w received\<rparr>) p)"

definition NoteDialFailure :: "lease option \<Rightarrow> pool_error option \<Rightarrow> time \<Rightarrow> pool \<Rightarrow> pool" where
  "NoteDialFailure lo eo now p =
     (case (lo, eo) of
        (Some l, Some e) \<Rightarrow>
          if l_Entry l \<noteq> [] \<and> \<not> errors_is e ErrDestination
          then snd (noteEntryFailure (l_Entry l) e now p)
          else noteFailure e now (l_state l) p
      | _ \<Rightarrow> p)"

section \<open>Rotate, report, prefer\<close>

definition Rotate :: "string \<Rightarrow> pool \<Rightarrow> bool \<times> pool" where
  "Rotate name p =
     (let existed = (name |\<in>| fmdom (p_sessions p));
          p = dropSession name p
      in (existed, if existed then p\<lparr>p_statRotated := p_statRotated p + 1\<rparr> else p))"

record reportInput =
  ri_Session :: string
  ri_Slot :: string
  ri_PublicIP :: netaddr
  ri_Target :: string
  ri_Cooldown :: duration

record reportResult =
  rr_Slot :: string
  rr_Target :: string
  rr_Until :: time
  rr_Cooldown :: duration
  rr_Rotated :: bool

definition forget_preferred :: "string \<Rightarrow> netaddr \<Rightarrow> pool \<Rightarrow> pool" where
  "forget_preferred target ip p =
     (case fmlookup (p_preferred p) target of
        None \<Rightarrow> p
      | Some r \<Rightarrow>
          let r' = removeIP ip r
          in p\<lparr>p_preferred := (if r' = [] then fmdrop target (p_preferred p)
                               else fmupd target r' (p_preferred p))\<rparr>)"

text \<open>The part of \<open>Report\<close> behind its checks: the slot is known and its identity matches.\<close>

definition apply_report :: "reportInput \<Rightarrow> string \<Rightarrow> ref \<Rightarrow> time \<Rightarrow> pool \<Rightarrow> reportResult \<times> pool" where
  "apply_report inp slotID r now p =
     (let cooldown = (if ri_Cooldown inp \<le> 0 then Cooldown (p_opts p) else ri_Cooldown inp);
          until = now + cooldown;
          target = ri_Target inp;
          p = (if target = [] then upd_slot r (\<lambda>s. s\<lparr>s_disabledUntil := until\<rparr>) p
               else
                 let p = upd_slot r (\<lambda>s. s\<lparr>s_cooldowns := fmupd target until (s_cooldowns s)\<rparr>) p;
                     ip = s_publicIP (p_heap p r)
                 in forget_preferred target ip (setIPCooldownLocked target ip until p));
          p = releaseSlotFromBatchesLocked slotID p;
          (rotated, p) = (if ri_Session inp = [] then (False, p) else Rotate (ri_Session inp) p)
      in (\<lparr>rr_Slot = slotID, rr_Target = target, rr_Until = until, rr_Cooldown = cooldown,
           rr_Rotated = rotated\<rparr>, p\<lparr>p_statReports := p_statReports p + 1\<rparr>))"

definition Report :: "reportInput \<Rightarrow> time \<Rightarrow> pool \<Rightarrow> (pool_error + reportResult) \<times> pool" where
  "Report inp now p =
     (case (if ri_Slot inp = [] \<and> ri_Session inp \<noteq> []
            then map_option se_slotID (fmlookup (p_sessions p) (ri_Session inp))
            else Some (ri_Slot inp)) of
        None \<Rightarrow> (Inl (Errorf ''pool: unknown session''), p)
      | Some slotID \<Rightarrow>
          (case fmlookup (p_slots p) slotID of
             None \<Rightarrow> (Inl (Errorf ''pool: unknown slot''), p)
           | Some r \<Rightarrow>
               if ri_PublicIP inp \<noteq> None \<and> s_publicIP (p_heap p r) \<noteq> ri_PublicIP inp
               then (Inl (Wrapped ErrIdentityMismatch), p)
               else let (res, p) = apply_report inp slotID r now p in (Inr res, p)))"

record preferInput =
  pi_Slot :: string
  pi_PublicIP :: netaddr
  pi_Target :: string
  pi_TTL :: duration

record preferResult =
  pr_Slot :: string
  pr_Target :: string
  pr_Until :: time
  pr_TTL :: duration

definition Prefer :: "preferInput \<Rightarrow> time \<Rightarrow> pool \<Rightarrow> (pool_error + preferResult) \<times> pool" where
  "Prefer inp now p =
     (if pi_Target inp = [] then (Inl (Errorf ''pool: prefer requires a target''), p)
      else
        case fmlookup (p_slots p) (pi_Slot inp) of
          None \<Rightarrow> (Inl (Errorf ''pool: unknown slot''), p)
        | Some r \<Rightarrow>
            let s = p_heap p r
            in if sp_Rotating (s_spec s) then
                 (Inl (Errorf ''pool: rotating slot has no stable public IP''), p)
               else if s_publicIP s = None then
                 (Inl (Errorf ''pool: slot has no measured public IP''), p)
               else if pi_PublicIP inp \<noteq> None \<and> s_publicIP s \<noteq> pi_PublicIP inp then
                 (Inl (Wrapped ErrIdentityMismatch), p)
               else
                 let ttl = (if pi_TTL inp \<le> 0 then PreferredTTL (p_opts p) else pi_TTL inp);
                     until = now + ttl;
                     ring = fm_get [] (p_preferred p) (pi_Target inp)
                 in (Inr \<lparr>pr_Slot = pi_Slot inp, pr_Target = pi_Target inp, pr_Until = until,
                          pr_TTL = ttl\<rparr>,
                     p\<lparr>p_preferred := fmupd (pi_Target inp)
                         (remember (pi_Slot inp) (s_publicIP s) until (PreferredMax (p_opts p)) ring)
                         (p_preferred p)\<rparr>))"

record sessionInfo =
  si_Session :: string
  si_Slot :: string
  si_Country :: string
  si_City :: string
  si_PublicIP :: string
  si_ExpiresAt :: time
  si_CheckedAt :: "time option"

definition Session :: "string \<Rightarrow> time \<Rightarrow> pool \<Rightarrow> sessionInfo option" where
  "Session name now p =
     (case fmlookup (p_sessions p) name of
        None \<Rightarrow> None
      | Some se \<Rightarrow>
          if se_expiresAt se < now then None
          else
            (case fmlookup (p_slots p) (se_slotID se) of
               None \<Rightarrow> None
             | Some r \<Rightarrow>
                 let s = p_heap p r
                 in Some \<lparr>si_Session = name, si_Slot = slot_ID s, si_Country = sp_Country (s_spec s),
                      si_City = sp_City (s_spec s),
                      si_PublicIP = (if s_publicIP s = None then [] else addr_string (s_publicIP s)),
                      si_ExpiresAt = se_expiresAt se,
                      si_CheckedAt = (if s_ipCheckedAt s = 0 then None else Some (s_ipCheckedAt s))\<rparr>))"

section \<open>Warm-up and close\<close>

text \<open>
  \<open>Warmup\<close> without entries chooses its slots under the lock; \<open>shuffle\<close> is the permutation of the
  generator. Each slot is then opened by \<open>ensureOpen\<close>, and a failure is noted against it.
\<close>

definition warmup_count :: "int \<Rightarrow> time \<Rightarrow> pool \<Rightarrow> int \<times> pool" where
  "warmup_count want now p =
     (let want = (if MaxActive (p_opts p) > 0 \<and> want > MaxActive (p_opts p)
                   then MaxActive (p_opts p) else want)
      in if NewTunnelBudget (p_opts p) > 0 then
           let p = pruneOpensLocked now p;
               remaining = NewTunnelBudget (p_opts p) - int (length (p_opens p))
                             - int (p_pendingTunnelOpens p)
           in (if remaining < want then remaining else want, p)
         else (want, p))"

definition warmup_targets :: "(ref list \<Rightarrow> ref list) \<Rightarrow> int \<Rightarrow> time \<Rightarrow> pool \<Rightarrow> ref list" where
  "warmup_targets shuffle want now p =
     (let ts = filter (\<lambda>r. \<not> (isOpen (p_heap p r) \<or> s_opening (p_heap p r) \<or>
                              now < s_disabledUntil (p_heap p r)))
                 (map (\<lambda>i. the (slot_ref p i)) (p_order p));
          ts = shuffle ts
      in if int (length ts) > want then take (nat want) ts else ts)"

text \<open>One of the goroutines, alone: \<open>inp r\<close> are the oracles of its \<open>ensureOpen\<close>.\<close>

record open_input =
  oi_ctxErr :: "pool_error option"
  oi_ctxErr' :: "pool_error option"
  oi_result :: "pool_error + nat"
  oi_ord :: "string list"
  oi_now :: time

fun warmup_open :: "(ref \<Rightarrow> open_input) \<Rightarrow> ref list \<Rightarrow> nat \<Rightarrow> pool \<Rightarrow> nat \<times> pool" where
  "warmup_open inp [] opened p = (opened, p)"
| "warmup_open inp (r # rs) opened p =
     (let i = inp r
      in case ensureOpen (oi_ctxErr i) (oi_ctxErr' i) (oi_result i) (oi_ord i) (oi_now i) r p of
           (Some (Inl e), p) \<Rightarrow> warmup_open inp rs opened (noteFailure e (oi_now i) r p)
         | (Some (Inr _), p) \<Rightarrow> warmup_open inp rs (Suc opened) p
         | (None, p) \<Rightarrow> warmup_open inp rs opened p)"

fun warmupEntries :: "(nat \<Rightarrow> open_input) \<Rightarrow> nat list \<Rightarrow> nat \<Rightarrow> pool \<Rightarrow> nat \<times> pool" where
  "warmupEntries inp [] opened p = (opened, p)"
| "warmupEntries inp (k # ks) opened p =
     (let i = inp k
      in case ensureEntryOpen (oi_ctxErr i) (oi_ctxErr' i) (oi_result i) (oi_ord i) (oi_now i) k p of
           (Some (Inr _), p) \<Rightarrow> warmupEntries inp ks (Suc opened) p
         | (_, p) \<Rightarrow> warmupEntries inp ks opened p)"

definition Warmup ::
  "(ref list \<Rightarrow> ref list) \<Rightarrow> (nat \<Rightarrow> open_input) \<Rightarrow> int \<Rightarrow> time \<Rightarrow> pool \<Rightarrow> nat \<times> pool" where
  "Warmup shuffle inp want now p =
     (if want \<le> 0 then (0, p)
      else if p_entries p \<noteq> [] then warmupEntries inp [0..<length (p_entries p)] 0 p
      else
        let (want, p) = warmup_count want now p
        in if want \<le> 0 then (0, p)
           else warmup_open inp (warmup_targets shuffle want now p) 0 p)"

fun close_slots :: "ref list \<Rightarrow> pool \<Rightarrow> pool" where
  "close_slots [] p = p"
| "close_slots (r # rs) p = close_slots rs (closeLocked r p)"

definition Close :: "pool \<Rightarrow> pool" where
  "Close p =
     (if p_closing p then p
      else closeEntriesLocked
             (close_slots (map (\<lambda>i. the (slot_ref p i)) (p_order p)) (p\<lparr>p_closing := True\<rparr>)))"

text \<open>\<open>background\<close> starts work unless the pool is closing.\<close>

definition background :: "pool \<Rightarrow> bool" where
  "background p \<longleftrightarrow> \<not> p_closing p"

end
