(* ===== verification/Reconcile.thy ===== *)
theory Reconcile
  imports Feedback
begin

text \<open>
  \<open>internal/pool/relay_reconcile.go\<close>: a refreshed relay list replaces the relay-socks slots, and
  only those. Go ranges over the map of the new specifications; \<open>ord\<close> is that order.
\<close>

record reconcileResult =
  rc_Added :: int
  rc_Removed :: int
  rc_Retained :: int

fun check_specs :: "spec list \<Rightarrow> (string, spec) fmap \<Rightarrow> pool_error + (string, spec) fmap" where
  "check_specs [] m = Inr m"
| "check_specs (sp # sps) m =
     (if sp_Kind sp \<noteq> KindRelaySocks then Inl (Errorf ''pool: relay refresh contains a non-relay slot'')
      else if sp_ID sp = [] then Inl (Errorf ''pool: relay refresh contains an empty slot ID'')
      else if sp_ID sp |\<in>| fmdom m then Inl (Errorf ''pool: duplicate slot'')
      else check_specs sps (fmupd (sp_ID sp) sp m))"

text \<open>
  The loop over the new specifications. It writes the specification of a retained slot in
  place, so an error leaves what was written before it.
\<close>

fun merge_specs ::
  "(string, spec) fmap \<Rightarrow> string list \<Rightarrow> reconcileResult \<Rightarrow> (string, ref) fmap \<Rightarrow> pool
     \<Rightarrow> (pool_error + reconcileResult \<times> (string, ref) fmap) \<times> pool" where
  "merge_specs m [] res nxt p = (Inr (res, nxt), p)"
| "merge_specs m (i # is) res nxt p =
     (let sp = the (fmlookup m i)
      in case fmlookup (p_slots p) i of
           Some r \<Rightarrow>
             if sp_Kind (s_spec (p_heap p r)) \<noteq> KindRelaySocks
             then (Inl (Errorf ''pool: relay slot collides with non-relay slot''), p)
             else merge_specs m is (res\<lparr>rc_Retained := rc_Retained res + 1\<rparr>) (fmupd i r nxt)
                    (upd_slot r (\<lambda>s. s\<lparr>s_spec := sp\<rparr>) p)
         | None \<Rightarrow>
             merge_specs m is (res\<lparr>rc_Added := rc_Added res + 1\<rparr>) (fmupd i (p_nextRef p) nxt)
               (alloc_slot sp p))"

definition ReconcileRelaySlots ::
  "string list \<Rightarrow> spec list \<Rightarrow> pool \<Rightarrow> (pool_error + reconcileResult) \<times> pool" where
  "ReconcileRelaySlots ord specs p =
     (if specs = [] then (Inl (Errorf ''pool: relay refresh contains no slots''), p)
      else
        case check_specs specs fmempty of
          Inl e \<Rightarrow> (Inl e, p)
        | Inr m \<Rightarrow>
            if p_closing p then (Inl (Errorf ''pool: closed''), p)
            else
              let relay = (\<lambda>i. sp_Kind (s_spec (p_heap p (the (fmlookup (p_slots p) i)))) = KindRelaySocks);
                  oldRelays = int (fcard (ffilter relay (fmdom (p_slots p))))
              in case merge_specs m ord \<lparr>rc_Added = 0, rc_Removed = 0, rc_Retained = 0\<rparr>
                        (fmfilter (\<lambda>i. \<not> relay i) (p_slots p)) p of
                   (Inl e, p) \<Rightarrow> (Inl e, p)
                 | (Inr (res, nxt), p) \<Rightarrow>
                     (Inr (res\<lparr>rc_Removed := oldRelays - rc_Retained res\<rparr>),
                      p\<lparr>p_slots := nxt,
                        p_order := sorted_list_of_fset (fmdom nxt),
                        p_sessions := fm_keep (\<lambda>se. se_slotID se |\<in>| fmdom nxt) (p_sessions p)\<rparr>))"

end
