(* ===== verification/Inventory.thy ===== *)
theory Inventory
  imports Reconcile
begin

text \<open>
  \<open>internal/pool/inventory.go\<close>: snapshots of the inventory, measurements of public addresses,
  probes, the inventory file and the housekeeping. The file is the value that is written as
  JSON and read back; the HTTP exchange of a measurement is an argument. \<open>ord\<close> is the order in
  which Go ranges over the slot map.
\<close>

section \<open>Snapshots\<close>

record slotFilter =
  sf_Country :: string
  sf_City :: string
  sf_OpenOnly :: bool
  sf_WithIP :: bool

record slotInfo =
  in_ID :: string
  in_Provider :: string
  in_Country :: string
  in_City :: string
  in_Kind :: string
  in_Target :: string
  in_Open :: bool
  in_Leases :: nat
  in_PublicIP :: string
  in_IPCheckedAt :: "time option"
  in_Failures :: nat
  in_BytesSent :: "64 word"
  in_BytesReceived :: "64 word"
  in_LastError :: string
  in_DisabledUntil :: "time option"
  in_Cooldowns :: nat

definition known_ip :: "slot_state \<Rightarrow> bool" where
  "known_ip s \<longleftrightarrow> s_publicIP s \<noteq> None \<and> \<not> sp_Rotating (s_spec s)"

definition slot_listed :: "slotFilter \<Rightarrow> slot_state \<Rightarrow> bool" where
  "slot_listed f s \<longleftrightarrow>
     \<not> (sf_Country f \<noteq> [] \<and> \<not> equal_fold (sp_Country (s_spec s)) (sf_Country f)) \<and>
     \<not> (sf_City f \<noteq> [] \<and> \<not> equal_fold (sp_City (s_spec s)) (sf_City f)) \<and>
     \<not> (sf_OpenOnly f \<and> \<not> isOpen s) \<and>
     \<not> (sf_WithIP f \<and> (sp_Rotating (s_spec s) \<or> s_publicIP s = None))"

definition slot_info :: "time \<Rightarrow> slot_state \<Rightarrow> slotInfo" where
  "slot_info now s =
     \<lparr>in_ID = slot_ID s, in_Provider = sp_Provider (s_spec s), in_Country = sp_Country (s_spec s),
      in_City = sp_City (s_spec s), in_Kind = kind_string (sp_Kind (s_spec s)),
      in_Target = spec_Target (s_spec s), in_Open = isOpen s, in_Leases = s_leases s,
      in_PublicIP = (if known_ip s then addr_string (s_publicIP s) else []),
      in_IPCheckedAt = (if s_ipCheckedAt s = 0 then None else Some (s_ipCheckedAt s)),
      in_Failures = s_failures s, in_BytesSent = s_bytesSent s,
      in_BytesReceived = s_bytesReceived s, in_LastError = s_lastError s,
      in_DisabledUntil = (if s_disabledUntil s \<noteq> 0 \<and> now < s_disabledUntil s
                          then Some (s_disabledUntil s) else None),
      in_Cooldowns = fm_size (s_cooldowns s)\<rparr>"

definition Slots :: "slotFilter \<Rightarrow> time \<Rightarrow> pool \<Rightarrow> slotInfo list" where
  "Slots f now p =
     map (slot_info now)
       (filter (slot_listed f) (map (\<lambda>i. p_heap p (the (slot_ref p i))) (p_order p)))"

definition slot_states :: "pool \<Rightarrow> slot_state list" where
  "slot_states p =
     map (\<lambda>i. p_heap p (the (fmlookup (p_slots p) i))) (sorted_list_of_fset (fmdom (p_slots p)))"

record stats =
  st_Slots :: nat
  st_Open :: nat
  st_Leased :: nat
  st_Disabled :: nat
  st_KnownIPs :: nat
  st_UniqueIPs :: nat
  st_Countries :: nat
  st_Cities :: nat
  st_Sessions :: nat
  st_Batches :: nat
  st_MaxActive :: int
  st_Entries :: nat
  st_EntriesOpen :: nat
  st_MaxConnsPerExit :: int
  st_MaxConcurrentConns :: int
  st_Busy :: "64 word"
  st_NewTunnelsUsed :: nat
  st_NewTunnelBudget :: int
  st_NewTunnelWindow :: string
  st_Acquisitions :: "64 word"
  st_Rotations :: "64 word"
  st_Reports :: "64 word"
  st_Failures :: "64 word"
  st_BytesSentTotal :: "64 word"
  st_BytesReceivedTotal :: "64 word"

definition Stats :: "time \<Rightarrow> pool \<Rightarrow> stats \<times> pool" where
  "Stats now p0 =
     (let p = pruneOpensLocked now p0; ss = slot_states p; known = filter known_ip ss
      in (\<lparr>st_Slots = fm_size (p_slots p), st_Open = length (filter isOpen ss),
           st_Leased = sum_list (map s_leases ss),
           st_Disabled = length (filter (\<lambda>s. now < s_disabledUntil s) ss),
           st_KnownIPs = length known, st_UniqueIPs = length (remdups (map s_publicIP known)),
           st_Countries = length (remdups (filter (\<lambda>c. c \<noteq> []) (map (\<lambda>s. sp_Country (s_spec s)) ss))),
           st_Cities = length (remdups (filter (\<lambda>c. c \<noteq> []) (map (\<lambda>s. sp_City (s_spec s)) ss))),
           st_Sessions = fm_size (p_sessions p), st_Batches = fm_size (p_batches p),
           st_MaxActive = MaxActive (p_opts p), st_Entries = length (p_entries p),
           st_EntriesOpen = length (filter entry_isOpen (p_entries p)),
           st_MaxConnsPerExit = MaxConnsPerExit (p_opts p),
           st_MaxConcurrentConns = MaxConcurrentConns (p_opts p), st_Busy = p_statBusy p,
           st_NewTunnelsUsed = length (p_opens p), st_NewTunnelBudget = NewTunnelBudget (p_opts p),
           st_NewTunnelWindow = duration_string (NewTunnelWindow (p_opts p)),
           st_Acquisitions = p_statAcquired p, st_Rotations = p_statRotated p,
           st_Reports = p_statReports p, st_Failures = p_statFailures p,
           st_BytesSentTotal = p_statSent p, st_BytesReceivedTotal = p_statReceived p\<rparr>, p))"

definition CountryAcquisitions :: "pool \<Rightarrow> (string \<times> 64 word) list" where
  "CountryAcquisitions p = sorted_entries (p_statAcquiredByCountry p)"

definition UniquePublicIPs :: "pool \<Rightarrow> string list" where
  "UniquePublicIPs p =
     sorted_list_of_set (set (map (\<lambda>s. addr_string (s_publicIP s)) (filter known_ip (slot_states p))))"

section \<open>Measurements\<close>

definition setPublicIPLocked :: "ref \<Rightarrow> netaddr \<Rightarrow> time \<Rightarrow> time \<Rightarrow> pool \<Rightarrow> bool \<times> pool" where
  "setPublicIPLocked r ip checkedAt now p =
     (let changed = (s_publicIP (p_heap p r) \<noteq> ip);
          p = upd_slot r (\<lambda>s. s\<lparr>s_publicIP := ip, s_ipCheckedAt := checkedAt\<rparr>) p;
          slotID = slot_ID (p_heap p r)
      in (changed, p\<lparr>p_batches := fm_update
            (\<lambda>b. if b_expiresAt b < now then None
                 else if slotID |\<in>| b_usedSlots b then Some (addIP slotID ip now b)
                 else Some b) (p_batches p)\<rparr>))"

text \<open>
  \<open>maybeCheckIP\<close>: whether a measurement starts, and what a finished one writes. \<open>res\<close> is \<open>None\<close>
  when the measurement gave up before it had an answer.
\<close>

definition maybeCheckIP_start :: "time \<Rightarrow> ref \<Rightarrow> pool \<Rightarrow> bool \<times> pool" where
  "maybeCheckIP_start now r p =
     (if IPCheckURL (p_opts p) = [] then (False, p)
      else
        let s = p_heap p r;
            fresh = (s_publicIP s \<noteq> None \<and> now - s_ipCheckedAt s < IPRefreshInterval (p_opts p))
        in if fresh \<or> s_ipChecking s \<or> (sp_Kind (s_spec s) = KindWireGuard \<and> s_tunnel s = None)
           then (False, p)
           else if background p then (True, upd_slot r (\<lambda>s. s\<lparr>s_ipChecking := True\<rparr>) p)
           else (False, upd_slot r (\<lambda>s. s\<lparr>s_ipChecking := False\<rparr>) p))"

definition maybeCheckIP_finish :: "addr option option \<Rightarrow> time \<Rightarrow> ref \<Rightarrow> pool \<Rightarrow> pool" where
  "maybeCheckIP_finish res now r p =
     (let p = (case res of None \<Rightarrow> p | Some ip \<Rightarrow> snd (setPublicIPLocked r ip now now p))
      in upd_slot r (\<lambda>s. s\<lparr>s_ipChecking := False\<rparr>) p)"

text \<open>
  \<open>FetchPublicIP\<close>: the answer of the echo service is a bare address, or JSON whose field \<open>ip\<close>
  is one. \<open>json_ip\<close> reads that field (\<open>None\<close> when the body is no such object).
\<close>

definition FetchPublicIP ::
  "(string \<Rightarrow> string option) \<Rightarrow> (pool_error + int \<times> string) \<Rightarrow> pool_error + addr option" where
  "FetchPublicIP json_ip response =
     (case response of
        Inl e \<Rightarrow> Inl e
      | Inr (status, body0) \<Rightarrow>
          if status \<noteq> 200 then Inl (Errorf ''ip check: unexpected status'')
          else
            let body = take 65536 body0
            in case parse_addr (trim_space body) of
                 Some a \<Rightarrow> Inr (Some a)
               | None \<Rightarrow>
                   (case json_ip body of
                      None \<Rightarrow> Inl (Errorf ''ip check: cannot parse response'')
                    | Some ip \<Rightarrow>
                        if ip = [] then Inl (Errorf ''ip check: cannot parse response'')
                        else (case parse_addr (trim_space ip) of
                                Some a \<Rightarrow> Inr (Some a)
                              | None \<Rightarrow> Inl (Errorf ''ip check: cannot parse response''))))"

section \<open>Probes\<close>

record probeOptions =
  po_Limit :: int
  po_Country :: string
  po_City :: string
  po_Slots :: "string list"

definition probe_wants :: "probeOptions \<Rightarrow> pool \<Rightarrow> string \<Rightarrow> bool" where
  "probe_wants o' p i \<longleftrightarrow>
     (let sp = s_spec (p_heap p (the (slot_ref p i)))
      in (po_Slots o' = [] \<or> i \<in> set (filter (\<lambda>x. x \<noteq> []) (map trim_space (po_Slots o')))) \<and>
         (po_Country o' = [] \<or> equal_fold (sp_Country sp) (po_Country o')) \<and>
         (po_City o' = [] \<or> equal_fold (sp_City sp) (po_City o')))"

definition probe_targets :: "probeOptions \<Rightarrow> pool \<Rightarrow> ref list" where
  "probe_targets o' p =
     (if IPCheckURL (p_opts p) = [] then []
      else
        let ts = filter (probe_wants o' p) (p_order p);
            ts = (if po_Limit o' > 0 then take (nat (po_Limit o')) ts else ts)
        in map (\<lambda>i. the (slot_ref p i)) ts)"

text \<open>\<open>probeDialer\<close> for a WireGuard slot: capacity and budget for a throw-away tunnel.\<close>

definition probeDialer_enter ::
  "pool_error option \<Rightarrow> string list \<Rightarrow> time \<Rightarrow> pool \<Rightarrow> pool_error option \<times> pool" where
  "probeDialer_enter ctxErr ord now p =
     (case ctxErr of
        Some e \<Rightarrow> (Some e, p)
      | None \<Rightarrow>
          (case reserveCapacityLocked ord p of
             (Some e, p) \<Rightarrow> (Some e, p)
           | (None, p) \<Rightarrow>
               (case reserveTunnelOpenLocked now p of
                  (Some e, p) \<Rightarrow> (Some e, p)
                | (None, p) \<Rightarrow> (None, p\<lparr>p_probeTunnels := Suc (p_probeTunnels p)\<rparr>))))"

definition releaseProbeCapacity :: "pool \<Rightarrow> pool" where
  "releaseProbeCapacity p = p\<lparr>p_probeTunnels := p_probeTunnels p - 1\<rparr>"

definition probeDialer_abort :: "pool \<Rightarrow> pool" where
  "probeDialer_abort p = releaseProbeCapacity (rollbackTunnelOpen p)"

text \<open>What a probe of a slot writes: the measured address, or one more failure.\<close>

definition probe_result :: "(pool_error + addr option) \<Rightarrow> time \<Rightarrow> ref \<Rightarrow> pool \<Rightarrow> pool" where
  "probe_result res now r p =
     (case res of
        Inr ip \<Rightarrow>
          upd_slot r (\<lambda>s. s\<lparr>s_failures := 0, s_lastError := [], s_disabledUntil := 0\<rparr>)
            (snd (setPublicIPLocked r ip now now p))
      | Inl e \<Rightarrow>
          upd_slot r (\<lambda>s. s\<lparr>s_failures := Suc (s_failures s), s_lastError := redactedError e\<rparr>) p)"

section \<open>The inventory file\<close>

record inventoryPreferred =
  ip_Slot :: string
  ip_PublicIP :: string
  ip_ExpiresAt :: time

record inventoryHealth =
  ih_Preferred :: "inventoryPreferred list"
  ih_Cooldowns :: "(string, time) fmap"

record inventoryFile =
  if_Version :: int
  if_SavedAt :: time
  if_IPCheckURL :: string
  if_Slots :: "(string, string \<times> time) fmap"
  if_Health :: "(string, inventoryHealth) fmap"

definition saved_ring :: "ring \<Rightarrow> inventoryPreferred list" where
  "saved_ring r =
     map (\<lambda>x. \<lparr>ip_Slot = pe_slotID x, ip_PublicIP = addr_string (pe_publicIP x),
                ip_ExpiresAt = pe_expiresAt x\<rparr>) r"

text \<open>The cooldowns of a scope, keyed by the text of the address; \<open>ips\<close> is an order of the keys.\<close>

definition saved_cooldowns :: "netaddr list \<Rightarrow> (netaddr, time) fmap \<Rightarrow> (string, time) fmap" where
  "saved_cooldowns ips m =
     foldl (\<lambda>acc ip. fmupd (addr_string ip) (the (fmlookup m ip)) acc) fmempty ips"

text \<open>\<open>ips\<close> lists the addresses of a cooldown map in the order Go ranges over it.\<close>

definition SaveInventory ::
  "((netaddr, time) fmap \<Rightarrow> netaddr list) \<Rightarrow> time \<Rightarrow> pool \<Rightarrow> inventoryFile option \<times> pool" where
  "SaveInventory ips now p0 =
     (let p = expireLocked now p0;
          slots = fmmap_keys (\<lambda>i r. (addr_string (s_publicIP (p_heap p r)), s_ipCheckedAt (p_heap p r)))
                    (fm_keep (\<lambda>r. known_ip (p_heap p r)) (p_slots p));
          scopes = fmdom (p_preferred p) |\<union>| fmdom (p_ipCooldowns p);
          health = fmap_of_list (map (\<lambda>scope.
             (scope, \<lparr>ih_Preferred = saved_ring (fm_get [] (p_preferred p) scope),
                      ih_Cooldowns = (let m = fm_get fmempty (p_ipCooldowns p) scope
                                      in saved_cooldowns (ips m) m)\<rparr>))
             (sorted_list_of_fset scopes))
      in if fm_size slots = 0 \<and> fm_size health = 0 then (None, p)
         else (Some \<lparr>if_Version = 2, if_SavedAt = now, if_IPCheckURL = IPCheckURL (p_opts p),
                     if_Slots = slots, if_Health = health\<rparr>, p))"

definition hasMeasuredIPLocked :: "netaddr \<Rightarrow> pool \<Rightarrow> bool" where
  "hasMeasuredIPLocked ip p \<longleftrightarrow> list_ex (\<lambda>s. s_publicIP s = ip) (slot_states p)"

fun load_slots :: "inventoryFile \<Rightarrow> time \<Rightarrow> string list \<Rightarrow> nat \<Rightarrow> pool \<Rightarrow> nat \<times> pool" where
  "load_slots f now [] n p = (n, p)"
| "load_slots f now (i # is) n p =
     (case (fmlookup (p_slots p) i, fmlookup (if_Slots f) i) of
        (Some r, Some (text, checkedAt)) \<Rightarrow>
          (case parse_addr text of
             None \<Rightarrow> load_slots f now is n p
           | Some a \<Rightarrow> load_slots f now is (Suc n) (snd (setPublicIPLocked r (Some a) checkedAt now p)))
      | _ \<Rightarrow> load_slots f now is n p)"

fun load_preferred :: "string \<Rightarrow> time \<Rightarrow> inventoryPreferred list \<Rightarrow> pool \<Rightarrow> pool" where
  "load_preferred scope now [] p = p"
| "load_preferred scope now (x # xs) p =
     (if \<not> now < ip_ExpiresAt x then load_preferred scope now xs p
      else
        case (parse_addr (ip_PublicIP x), fmlookup (p_slots p) (ip_Slot x)) of
          (Some a, Some r) \<Rightarrow>
            if s_publicIP (p_heap p r) \<noteq> Some a then load_preferred scope now xs p
            else load_preferred scope now xs
                   (p\<lparr>p_preferred := fmupd scope
                       (remember (ip_Slot x) (Some a) (ip_ExpiresAt x) (PreferredMax (p_opts p))
                          (fm_get [] (p_preferred p) scope)) (p_preferred p)\<rparr>)
        | _ \<Rightarrow> load_preferred scope now xs p)"

fun load_cooldowns :: "string \<Rightarrow> time \<Rightarrow> (string, time) fmap \<Rightarrow> string list \<Rightarrow> pool \<Rightarrow> pool" where
  "load_cooldowns scope now m [] p = p"
| "load_cooldowns scope now m (raw # raws) p =
     (let until = fm_get 0 m raw
      in if \<not> now < until then load_cooldowns scope now m raws p
         else case parse_addr raw of
                None \<Rightarrow> load_cooldowns scope now m raws p
              | Some a \<Rightarrow>
                  if \<not> hasMeasuredIPLocked (Some a) p then load_cooldowns scope now m raws p
                  else load_cooldowns scope now m raws (setIPCooldownLocked scope (Some a) until p))"

fun load_health :: "inventoryFile \<Rightarrow> time \<Rightarrow> string list \<Rightarrow> pool \<Rightarrow> pool" where
  "load_health f now [] p = p"
| "load_health f now (scope # scopes) p =
     (case fmlookup (if_Health f) scope of
        None \<Rightarrow> load_health f now scopes p
      | Some h \<Rightarrow>
          load_health f now scopes
            (load_cooldowns scope now (ih_Cooldowns h) (sorted_list_of_fset (fmdom (ih_Cooldowns h)))
               (load_preferred scope now (ih_Preferred h) p)))"

text \<open>\<open>file\<close> is what reading and decoding the file gave: missing, an error, or its contents.\<close>

definition LoadInventory ::
  "(pool_error + inventoryFile) option \<Rightarrow> time \<Rightarrow> pool \<Rightarrow> (pool_error + nat) \<times> pool" where
  "LoadInventory file now p =
     (case file of
        None \<Rightarrow> (Inr 0, p)
      | Some (Inl e) \<Rightarrow> (Inl (Wrapped e), p)
      | Some (Inr f) \<Rightarrow>
          let (n, p) = load_slots f now (sorted_list_of_fset (fmdom (if_Slots f))) 0 p
          in (Inr n, load_health f now (sorted_list_of_fset (fmdom (if_Health f))) p))"

section \<open>Housekeeping\<close>

definition housekeep_idle :: "string list \<Rightarrow> time \<Rightarrow> pool \<Rightarrow> ref list" where
  "housekeep_idle ord now p =
     (if IdleTimeout (p_opts p) > 0 then
        filter (\<lambda>r. let s = p_heap p r
                    in sp_Kind (s_spec s) = KindWireGuard \<and> isOpen s \<and> s_leases s = 0 \<and>
                       s_lastUsed s \<noteq> 0 \<and> now - s_lastUsed s > IdleTimeout (p_opts p))
          (map (\<lambda>i. the (slot_ref p i)) ord)
      else [])"

definition housekeep_refresh :: "string list \<Rightarrow> time \<Rightarrow> pool \<Rightarrow> ref list" where
  "housekeep_refresh ord now p =
     take 2 (filter (\<lambda>r. let s = p_heap p r
                 in \<not> s_ipChecking s \<and> \<not> (sp_Kind (s_spec s) = KindWireGuard \<and> \<not> isOpen s) \<and>
                    (s_publicIP s = None \<or> now - s_ipCheckedAt s > IPRefreshInterval (p_opts p)))
       (map (\<lambda>i. the (slot_ref p i)) ord))"

definition housekeep :: "string list \<Rightarrow> time \<Rightarrow> pool \<Rightarrow> ref list \<times> pool" where
  "housekeep ord now p0 =
     (let p = expireLocked now p0;
          p = close_slots (housekeep_idle ord now p) p
      in (housekeep_refresh ord now p, p))"

end
