(* ===== verification/Invariants.thy ===== *)
theory Invariants
  imports Inventory
begin

text \<open>
  What every operation of the pool keeps, stated over four views of the state: \<open>conn\<close> (the
  connection counters), \<open>ids\<close> (which slots there are and what they are called), the unique
  batches, and the rings of last-good exits. An operation either leaves a view alone (a lemma
  in the collection \<open>frame\<close>) or keeps the invariant on it.
\<close>

section \<open>Views\<close>

record idview =
  iv_slots :: "(string, ref) fmap"
  iv_order :: "string list"
  iv_next :: ref
  iv_name :: "ref \<Rightarrow> string"
  iv_kind :: "ref \<Rightarrow> kind"

definition ids :: "pool \<Rightarrow> idview" where
  "ids p = \<lparr>iv_slots = p_slots p, iv_order = p_order p, iv_next = p_nextRef p,
     iv_name = (\<lambda>r. slot_ID (p_heap p r)), iv_kind = (\<lambda>r. sp_Kind (s_spec (p_heap p r)))\<rparr>"

text \<open>The names in order are the sorted keys of the slot map, and every slot has its own state.\<close>

definition ids_ok :: "idview \<Rightarrow> bool" where
  "ids_ok v \<longleftrightarrow>
     sorted (iv_order v) \<and> distinct (iv_order v) \<and> set (iv_order v) = fset (fmdom (iv_slots v)) \<and>
     (\<forall>i r. fmlookup (iv_slots v) i = Some r \<longrightarrow> iv_name v r = i \<and> r < iv_next v)"

text \<open>There are no more batches than allowed, and each is in order.\<close>

definition batches_ok :: "pool \<Rightarrow> bool" where
  "batches_ok p \<longleftrightarrow>
     int (fm_size (p_batches p)) \<le> MaxUniqueBatches (p_opts p) \<and>
     (\<forall>n b. fmlookup (p_batches p) n = Some b \<longrightarrow> batch_ok b)"

lemma batches_ok_within:
  assumes "batches_ok p" and "fmdom (p_batches q) |\<subseteq>| fmdom (p_batches p)" and "p_opts q = p_opts p"
    and "\<And>n b. fmlookup (p_batches q) n = Some b \<Longrightarrow> batch_ok b"
  shows "batches_ok q"
  using assms fm_size_mono [OF assms(2)] by (auto simp: batches_ok_def)

definition rings_ok :: "pool \<Rightarrow> bool" where
  "rings_ok p \<longleftrightarrow>
     (\<forall>t r. fmlookup (p_preferred p) t = Some r \<longrightarrow> ring_ok (PreferredMax (p_opts p)) r)"

lemma conn_upd [frame]:
  assumes "\<And>s. s_leases (f s) = s_leases s" and "\<And>s. s_pendingLeases (f s) = s_pendingLeases s"
  shows "conn (upd_slot r f p) = conn p"
  using assms by (rule conn_upd_slot)

lemma upd_slot_fields [simp]:
  "p_opts (upd_slot r f p) = p_opts p" "p_slots (upd_slot r f p) = p_slots p"
  "p_order (upd_slot r f p) = p_order p" "p_nextRef (upd_slot r f p) = p_nextRef p"
  "p_sessions (upd_slot r f p) = p_sessions p"
  "p_pendingSessions (upd_slot r f p) = p_pendingSessions p"
  "p_batches (upd_slot r f p) = p_batches p" "p_preferred (upd_slot r f p) = p_preferred p"
  "p_ipCooldowns (upd_slot r f p) = p_ipCooldowns p" "p_entries (upd_slot r f p) = p_entries p"
  "p_opens (upd_slot r f p) = p_opens p"
  "p_pendingTunnelOpens (upd_slot r f p) = p_pendingTunnelOpens p"
  "p_probeTunnels (upd_slot r f p) = p_probeTunnels p" "p_closing (upd_slot r f p) = p_closing p"
  "p_leased (upd_slot r f p) = p_leased p" "p_pendingLeases (upd_slot r f p) = p_pendingLeases p"
  "p_heap (upd_slot r f p) x = (if x = r then f (p_heap p r) else p_heap p x)"
  by (simp_all add: upd_slot_def)

lemma upd_entry_fields [simp]:
  "p_opts (upd_entry i f p) = p_opts p" "p_slots (upd_entry i f p) = p_slots p"
  "p_order (upd_entry i f p) = p_order p" "p_nextRef (upd_entry i f p) = p_nextRef p"
  "p_heap (upd_entry i f p) = p_heap p" "p_batches (upd_entry i f p) = p_batches p"
  "p_preferred (upd_entry i f p) = p_preferred p" "p_opens (upd_entry i f p) = p_opens p"
  "p_pendingTunnelOpens (upd_entry i f p) = p_pendingTunnelOpens p"
  "p_probeTunnels (upd_entry i f p) = p_probeTunnels p" "p_closing (upd_entry i f p) = p_closing p"
  "p_sessions (upd_entry i f p) = p_sessions p"
  "length (p_entries (upd_entry i f p)) = length (p_entries p)"
  by (simp_all add: upd_entry_def)

lemma conn_entry [simp]: "conn (upd_entry i f p) = conn p"
  by (simp add: upd_entry_def)

lemma ids_upd_slot:
  assumes "\<And>s. s_spec (f s) = s_spec s"
  shows "ids (upd_slot r f p) = ids p"
  using assms by (auto simp: ids_def slot_ID_def fun_eq_iff)

lemma ids_eqI:
  assumes "p_slots q = p_slots p" "p_order q = p_order p" "p_nextRef q = p_nextRef p"
    and "\<And>r. s_spec (p_heap q r) = s_spec (p_heap p r)"
  shows "ids q = ids p"
  using assms by (simp add: ids_def slot_ID_def)

lemma rings_ok_cong:
  "p_preferred q = p_preferred p \<Longrightarrow> p_opts q = p_opts p \<Longrightarrow> rings_ok q = rings_ok p"
  by (simp add: rings_ok_def)

text \<open>An operation that leaves the slots, the batches and the rings alone.\<close>

definition quiet :: "pool \<Rightarrow> pool \<Rightarrow> bool" where
  "quiet p q \<longleftrightarrow>
     p_opts q = p_opts p \<and> conn q = conn p \<and> ids q = ids p \<and> p_batches q = p_batches p \<and>
     p_preferred q = p_preferred p"

lemma quiet_refl [simp]: "quiet p p"
  by (simp add: quiet_def)

lemma quiet_trans: "quiet p q \<Longrightarrow> quiet q r \<Longrightarrow> quiet p r"
  by (simp add: quiet_def)

lemma quiet_upd_slot:
  assumes "\<And>s. s_leases (f s) = s_leases s" and "\<And>s. s_pendingLeases (f s) = s_pendingLeases s"
    and "\<And>s. s_spec (f s) = s_spec s"
  shows "quiet p (upd_slot r f q) = quiet p q"
  using conn_upd [OF assms(1,2)] ids_upd_slot [OF assms(3)] by (simp add: quiet_def)

lemma quiet_fields [simp]:
  "quiet p (q\<lparr>p_sessions := a\<rparr>) = quiet p q"
  "quiet p (q\<lparr>p_pendingSessions := b\<rparr>) = quiet p q"
  "quiet p (q\<lparr>p_ipCooldowns := c\<rparr>) = quiet p q"
  "quiet p (q\<lparr>p_entries := d\<rparr>) = quiet p q"
  "quiet p (q\<lparr>p_opens := e\<rparr>) = quiet p q"
  "quiet p (q\<lparr>p_pendingTunnelOpens := f\<rparr>) = quiet p q"
  "quiet p (q\<lparr>p_probeTunnels := f\<rparr>) = quiet p q"
  "quiet p (q\<lparr>p_closing := g\<rparr>) = quiet p q"
  "quiet p (q\<lparr>p_nextBatch := f\<rparr>) = quiet p q"
  "quiet p (q\<lparr>p_metrics := h\<rparr>) = quiet p q"
  "quiet p (q\<lparr>p_statAcquired := s\<rparr>) = quiet p q"
  "quiet p (q\<lparr>p_statBusy := s\<rparr>) = quiet p q"
  "quiet p (q\<lparr>p_statSent := s\<rparr>) = quiet p q"
  "quiet p (q\<lparr>p_statReceived := s\<rparr>) = quiet p q"
  "quiet p (q\<lparr>p_statRotated := s\<rparr>) = quiet p q"
  "quiet p (q\<lparr>p_statReports := s\<rparr>) = quiet p q"
  "quiet p (q\<lparr>p_statFailures := s\<rparr>) = quiet p q"
  "quiet p (q\<lparr>p_statAcquiredByCountry := t\<rparr>) = quiet p q"
  by (simp_all add: quiet_def ids_def)

lemma quiet_entry [simp]: "quiet p (upd_entry i f q) = quiet p q"
  by (simp add: upd_entry_def)

section \<open>Quiet operations\<close>

lemma closeLocked_quiet [simp]: "quiet p (closeLocked r q) = quiet p q"
  by (simp add: closeLocked_def quiet_upd_slot)

lemma close_slots_quiet [simp]: "quiet p (close_slots rs q) = quiet p q"
  by (induction rs arbitrary: q) auto

lemma closeEntries_quiet [simp]: "quiet p (closeEntriesLocked q) = quiet p q"
  by (simp add: closeEntriesLocked_def)

lemma noteFailure_quiet [frame]: "quiet p (noteFailure e now r q) = quiet p q"
  by (simp add: noteFailure_def Let_def quiet_upd_slot)

lemma dropSession_quiet [simp]: "quiet p (dropSession n q) = quiet p q"
  by (simp add: dropSession_def)

lemma Rotate_quiet [frame]: "quiet p (snd (Rotate n q)) = quiet p q"
  by (simp add: Rotate_def Let_def)

lemma capacity_quiet: "reserveCapacityLocked ord p = (res, q) \<Longrightarrow> quiet p q"
  by (auto simp: reserveCapacityLocked_def split: if_splits option.splits)

lemma budget_quiet: "tunnelBudgetAvailableLocked now p = (ok, q) \<Longrightarrow> quiet p q"
  by (auto dest!: budget_shape)

lemma reserveTunnelOpen_quiet: "reserveTunnelOpenLocked now p = (res, q) \<Longrightarrow> quiet p q"
  by (auto simp: reserveTunnelOpenLocked_def split: prod.splits bool.splits dest!: budget_quiet)

lemma tunnelOps_quiet [frame]:
  "quiet p (pruneOpensLocked now q) = quiet p q"
  "quiet p (commitTunnelOpen now q) = quiet p q"
  "quiet p (rollbackTunnelOpen q) = quiet p q"
  "quiet p (noteTunnelOpen now q) = quiet p q"
  by (simp_all add: pruneOpensLocked_def commitTunnelOpen_def rollbackTunnelOpen_def
      noteTunnelOpen_def Let_def)

lemma ensureOpen_enter_quiet:
  "ensureOpen_enter ce ord now r p = (res, q) \<Longrightarrow> quiet p q"
  by (auto simp: ensureOpen_enter_def quiet_upd_slot split: option.splits if_splits prod.splits
      dest!: capacity_quiet reserveTunnelOpen_quiet intro: quiet_trans)

lemma ensureOpen_finish_quiet [frame]:
  "quiet p (ensureOpen_abort r q) = quiet p q"
  "quiet p (ensureOpen_finish res now r q) = quiet p q"
  by (auto simp: ensureOpen_abort_def ensureOpen_finish_def quiet_upd_slot frame split: sum.splits)

lemma ensureEntryOpen_enter_quiet:
  "ensureEntryOpen_enter ce ord now i p = (res, q) \<Longrightarrow> quiet p q"
  by (auto simp: ensureEntryOpen_enter_def split: option.splits if_splits prod.splits
      dest!: capacity_quiet reserveTunnelOpen_quiet intro: quiet_trans)

lemma metrics_quiet [frame]:
  "quiet p (ObserveRequest ob q) = quiet p q"
  "quiet p (observeTunnelOpen role res d q) = quiet p q"
  "quiet p (observeEntryOpenFailureLocked q) = quiet p q"
  "quiet p (observeEntryDialFailureLocked q) = quiet p q"
  "quiet p (recordPayloadLocked l a b q) = quiet p q"
  by (simp_all add: ObserveRequest_def observeTunnelOpen_def observeEntryOpenFailureLocked_def
      observeEntryDialFailureLocked_def recordPayloadLocked_def Let_def split_beta)

lemma ensureEntryOpen_finish_quiet [frame]:
  "quiet p (ensureEntryOpen_abort i q) = quiet p q"
  "quiet p (ensureEntryOpen_finish res now i q) = quiet p q"
  by (auto simp: ensureEntryOpen_abort_def ensureEntryOpen_finish_def Let_def frame
      split: sum.splits)

lemma recordEntryLatency_quiet [frame]:
  "quiet p (recordEntryLatency ewma i c d q) = quiet p q"
  by (simp add: recordEntryLatency_def)

lemma noteEntryFailure_quiet [frame]: "quiet p (snd (noteEntryFailure i e now q)) = quiet p q"
  by (simp add: noteEntryFailure_def Let_def frame split: option.split)

lemma RecordTraffic_quiet [frame]: "quiet p (RecordTraffic l a b q) = quiet p q"
  by (simp add: RecordTraffic_def Let_def quiet_upd_slot frame split: option.split)

lemma NoteDialFailure_quiet [frame]: "quiet p (NoteDialFailure l e now q) = quiet p q"
  by (simp add: NoteDialFailure_def frame split: option.split)

lemma setIPCooldown_quiet [simp]: "quiet p (setIPCooldownLocked t ip u q) = quiet p q"
  by (simp add: setIPCooldownLocked_def Let_def)

lemma Close_quiet [frame]: "quiet p (Close q) = quiet p q"
  by (simp add: Close_def)

lemma maybeCheckIP_start_quiet [frame]: "quiet p (snd (maybeCheckIP_start now r q)) = quiet p q"
  by (simp add: maybeCheckIP_start_def Let_def quiet_upd_slot)

lemma probe_quiet [frame]:
  "quiet p (releaseProbeCapacity q) = quiet p q" "quiet p (probeDialer_abort q) = quiet p q"
  by (simp_all add: releaseProbeCapacity_def probeDialer_abort_def frame)

lemma probeDialer_enter_quiet: "probeDialer_enter ce ord now p = (res, q) \<Longrightarrow> quiet p q"
  by (auto simp: probeDialer_enter_def split: option.splits prod.splits
      dest!: capacity_quiet reserveTunnelOpen_quiet intro: quiet_trans)

section \<open>Operations on batches and rings\<close>

text \<open>
  The remaining operations change a batch or a ring by the operations of \<open>Batch\<close> and
  \<open>Preferred\<close>; they keep the invariants on them and leave counters and names alone.
\<close>

definition sane :: "pool \<Rightarrow> pool \<Rightarrow> bool" where
  "sane p q \<longleftrightarrow>
     p_opts q = p_opts p \<and> conn q = conn p \<and> ids q = ids p \<and>
     (batches_ok p \<longrightarrow> batches_ok q) \<and>
     (0 < PreferredMax (p_opts p) \<longrightarrow> rings_ok p \<longrightarrow> rings_ok q)"

lemma sane_refl [simp]: "sane p p"
  by (simp add: sane_def)

lemma sane_trans [trans]: "sane p q \<Longrightarrow> sane q r \<Longrightarrow> sane p r"
  by (auto simp: sane_def)

lemma quiet_sane: "quiet p q \<Longrightarrow> sane p q"
  by (simp add: quiet_def sane_def batches_ok_def rings_ok_def)

lemma sane_quiet_trans: "sane p q \<Longrightarrow> quiet q r \<Longrightarrow> sane p r"
  using quiet_sane sane_trans by blast

lemma sane_batches:
  assumes "batches_ok p \<Longrightarrow> batches_ok (p\<lparr>p_batches := m\<rparr>)"
  shows "sane p (p\<lparr>p_batches := m\<rparr>)"
  using assms by (simp add: sane_def ids_def rings_ok_def)

lemma sane_preferred:
  assumes "0 < PreferredMax (p_opts p) \<Longrightarrow> rings_ok p \<Longrightarrow> rings_ok (p\<lparr>p_preferred := m\<rparr>)"
  shows "sane p (p\<lparr>p_preferred := m\<rparr>)"
  using assms by (simp add: sane_def ids_def batches_ok_def)

lemma expireLocked_sane: "sane p (expireLocked now p)"
proof -
  have "ids (expireLocked now p) = ids p" by (rule ids_eqI) simp_all
  moreover have "batches_ok (expireLocked now p)" if b: "batches_ok p"
    by (rule batches_ok_within [OF b])
      (use b in \<open>auto simp: batches_ok_def expireLocked_def dest: fsubsetD [OF fmdom_keep_subset]
        split: option.splits if_splits\<close>)
  moreover have "rings_ok p \<longrightarrow> rings_ok (expireLocked now p)"
    by (auto simp: rings_ok_def expireLocked_def Let_def prune_def ring.keep_ok
        split: option.splits if_splits)
  ultimately show ?thesis by (simp add: sane_def expireLocked_conn)
qed

lemma releaseSlotFromBatches_sane: "sane p (releaseSlotFromBatchesLocked i p)"
  unfolding releaseSlotFromBatchesLocked_def
proof (rule sane_batches)
  assume b: "batches_ok p"
  show "batches_ok (p\<lparr>p_batches := fm_update
         (\<lambda>b. if i |\<notin>| b_usedSlots b then Some b
              else let b' = batch_release i b
                   in if fcard (b_usedSlots b') = 0 then None else Some b') (p_batches p)\<rparr>)"
    by (rule batches_ok_within [OF b])
      (use b in
        \<open>auto simp: batches_ok_def Let_def batch_release_ok dest: fsubsetD [OF fmdom_update_subset] split: option.splits if_splits\<close>)
qed

lemma forget_preferred_sane: "sane p (forget_preferred t ip p)"
proof (cases "fmlookup (p_preferred p) t")
  case (Some r)
  show ?thesis
    unfolding forget_preferred_def Some option.case Let_def
    by (rule sane_preferred) (use Some in \<open>auto simp: rings_ok_def intro: ring.drop_ok\<close>)
qed (simp add: forget_preferred_def)

lemma apply_report_sane: "sane p (snd (apply_report inp slotID r now p))"
proof -
  let ?until = "now + (if ri_Cooldown inp \<le> 0 then Cooldown (p_opts p) else ri_Cooldown inp)"
  define p1 where "p1 = (if ri_Target inp = [] then upd_slot r (\<lambda>s. s\<lparr>s_disabledUntil := ?until\<rparr>) p
    else forget_preferred (ri_Target inp) (s_publicIP (p_heap p r))
      (setIPCooldownLocked (ri_Target inp) (s_publicIP (p_heap p r)) ?until
        (upd_slot r (\<lambda>s. s\<lparr>s_cooldowns := fmupd (ri_Target inp) ?until (s_cooldowns s)\<rparr>) p)))"
  have "sane p p1"
  proof (cases "ri_Target inp = []")
    case True
    then show ?thesis by (simp add: p1_def quiet_sane quiet_upd_slot)
  next
    case False
    let ?p2 = "setIPCooldownLocked (ri_Target inp) (s_publicIP (p_heap p r)) ?until
        (upd_slot r (\<lambda>s. s\<lparr>s_cooldowns := fmupd (ri_Target inp) ?until (s_cooldowns s)\<rparr>) p)"
    have "quiet p ?p2" by (simp add: quiet_upd_slot)
    then have "sane p ?p2" by (rule quiet_sane)
    also have "sane ?p2 p1" using False forget_preferred_sane by (simp add: p1_def)
    finally show ?thesis .
  qed
  also have "sane p1 (releaseSlotFromBatchesLocked slotID p1)" by (rule releaseSlotFromBatches_sane)
  also have "quiet (releaseSlotFromBatchesLocked slotID p1) (snd (apply_report inp slotID r now p))"
    by (simp add: apply_report_def Let_def p1_def frame split_beta)
  then have "sane (releaseSlotFromBatchesLocked slotID p1) (snd (apply_report inp slotID r now p))"
    by (rule quiet_sane)
  finally show ?thesis .
qed

lemma Report_sane: "sane p (snd (Report inp now p))"
  using apply_report_sane by (auto simp: Report_def split_beta split: option.splits)

lemma remember_sane:
  "sane p (p\<lparr>p_preferred := fmupd t (remember i ip u (PreferredMax (p_opts p))
                (fm_get [] (p_preferred p) t)) (p_preferred p)\<rparr>)"
proof (rule sane_preferred)
  assume m: "0 < PreferredMax (p_opts p)" and r: "rings_ok p"
  have "ring_ok (PreferredMax (p_opts p)) (fm_get [] (p_preferred p) t)"
    using m r by (auto simp: rings_ok_def fm_get_def ring_ok_def ring_ips_def split: option.splits)
  then show "rings_ok (p\<lparr>p_preferred := fmupd t (remember i ip u (PreferredMax (p_opts p))
                (fm_get [] (p_preferred p) t)) (p_preferred p)\<rparr>)"
    using m r ring.add_ok by (auto simp: rings_ok_def)
qed

lemma Prefer_sane: "sane p (snd (Prefer inp now p))"
  using remember_sane by (auto simp: Prefer_def Let_def split: option.splits)

lemma setPublicIP_sane: "sane p (snd (setPublicIPLocked r ip c now p))"
proof -
  let ?p1 = "upd_slot r (\<lambda>s. s\<lparr>s_publicIP := ip, s_ipCheckedAt := c\<rparr>) p"
  have "sane p ?p1" by (simp add: quiet_sane quiet_upd_slot)
  also have "sane ?p1 (snd (setPublicIPLocked r ip c now p))"
    unfolding setPublicIPLocked_def Let_def snd_conv
  proof (rule sane_batches)
    assume b: "batches_ok ?p1"
    let ?f = "\<lambda>b. if b_expiresAt b < now then None
        else if slot_ID (p_heap ?p1 r) |\<in>| b_usedSlots b then Some (addIP (slot_ID (p_heap ?p1 r)) ip now b)
        else Some b"
    show "batches_ok (?p1\<lparr>p_batches := fm_update ?f (p_batches ?p1)\<rparr>)"
      by (rule batches_ok_within [OF b])
        (use b in
          \<open>auto simp: batches_ok_def dest: fsubsetD [OF fmdom_update_subset] intro!: addIP_ok simp: in_usedSlots split: option.splits if_splits\<close>)
  qed
  finally show ?thesis .
qed

lemma maybeCheckIP_finish_sane: "sane p (maybeCheckIP_finish res now r p)"
proof -
  let ?p1 = "case res of None \<Rightarrow> p | Some ip \<Rightarrow> snd (setPublicIPLocked r ip now now p)"
  have "sane p ?p1" using setPublicIP_sane by (auto split: option.split)
  then show ?thesis
    by (rule sane_quiet_trans) (simp add: maybeCheckIP_finish_def Let_def quiet_upd_slot)
qed

lemma probe_result_sane: "sane p (probe_result res now r p)"
proof (cases res)
  case (Inl e)
  then show ?thesis by (simp add: probe_result_def quiet_sane quiet_upd_slot)
next
  case (Inr ip)
  have "quiet (snd (setPublicIPLocked r ip now now p)) (probe_result res now r p)"
    by (simp add: Inr probe_result_def quiet_upd_slot)
  then show ?thesis using setPublicIP_sane sane_quiet_trans by blast
qed

lemma load_slots_sane: "sane p (snd (load_slots f now is n p))"
proof (induction "is" arbitrary: n p)
  case (Cons i "is")
  have "sane p (snd (load_slots f now is n' (snd (setPublicIPLocked r a c now p))))" for n' r a c
    using setPublicIP_sane Cons sane_trans by blast
  then show ?case using Cons by (auto split: option.split)
qed simp

lemma load_preferred_sane: "sane p (load_preferred scope now xs p)"
proof (induction xs arbitrary: p)
  case (Cons x xs)
  have "sane p (load_preferred scope now xs
      (p\<lparr>p_preferred := fmupd scope (remember i a u (PreferredMax (p_opts p))
           (fm_get [] (p_preferred p) scope)) (p_preferred p)\<rparr>))" for i a u
    using remember_sane Cons sane_trans by blast
  then show ?case using Cons by (auto split: option.split)
qed simp

lemma load_cooldowns_quiet [simp]: "quiet p (load_cooldowns scope now m raws q) = quiet p q"
  by (induction raws arbitrary: q) (auto simp: Let_def split: option.split)

lemma load_health_sane: "sane p (load_health f now scopes p)"
proof (induction scopes arbitrary: p)
  case (Cons scope scopes)
  have "sane p (load_health f now scopes (load_cooldowns scope now m raws
      (load_preferred scope now xs p)))" for m raws xs
  proof -
    have "sane p (load_preferred scope now xs p)" by (rule load_preferred_sane)
    then have "sane p (load_cooldowns scope now m raws (load_preferred scope now xs p))"
      by (rule sane_quiet_trans) simp
    then show ?thesis using Cons sane_trans by blast
  qed
  then show ?case using Cons by (auto split: option.split)
qed simp

lemma LoadInventory_sane: "sane p (snd (LoadInventory file now p))"
  using load_slots_sane load_health_sane sane_trans
  by (auto simp: LoadInventory_def split_beta split: option.split sum.split) blast

lemma SaveInventory_sane: "sane p (snd (SaveInventory ips now p))"
  by (simp add: SaveInventory_def Let_def expireLocked_sane)

lemma Stats_sane: "sane p (snd (Stats now p))"
  by (simp add: Stats_def Let_def quiet_sane frame)

lemma housekeep_sane: "sane p (snd (housekeep ord now p))"
proof -
  have "quiet (expireLocked now p) (snd (housekeep ord now p))"
    by (simp add: housekeep_def Let_def)
  then show ?thesis using expireLocked_sane sane_quiet_trans by blast
qed

section \<open>Selection, commit, roll-back and release\<close>

text \<open>What these keep: everything \<open>sane\<close> asks for except the connection counters.\<close>

definition keeps :: "pool \<Rightarrow> pool \<Rightarrow> bool" where
  "keeps p q \<longleftrightarrow>
     p_opts q = p_opts p \<and> ids q = ids p \<and> (batches_ok p \<longrightarrow> batches_ok q) \<and>
     (0 < PreferredMax (p_opts p) \<longrightarrow> rings_ok p \<longrightarrow> rings_ok q)"

lemma keeps_refl [simp]: "keeps p p"
  by (simp add: keeps_def)

lemma keeps_trans [trans]: "keeps p q \<Longrightarrow> keeps q r \<Longrightarrow> keeps p r"
  by (auto simp: keeps_def)

lemma sane_keeps: "sane p q \<Longrightarrow> keeps p q"
  by (simp add: sane_def keeps_def)

lemma quiet_keeps: "quiet p q \<Longrightarrow> keeps p q"
  by (blast intro: quiet_sane sane_keeps)

lemma keeps_upd_slot:
  assumes "\<And>s. s_spec (f s) = s_spec s"
  shows "keeps p (upd_slot r f q) = keeps p q"
  using ids_upd_slot [OF assms] by (simp add: keeps_def batches_ok_def rings_ok_def)

lemma keeps_fields [simp]:
  "keeps p (q\<lparr>p_sessions := a\<rparr>) = keeps p q"
  "keeps p (q\<lparr>p_pendingSessions := b\<rparr>) = keeps p q"
  "keeps p (q\<lparr>p_pendingLeases := c\<rparr>) = keeps p q"
  "keeps p (q\<lparr>p_leased := c\<rparr>) = keeps p q"
  "keeps p (q\<lparr>p_nextBatch := c\<rparr>) = keeps p q"
  "keeps p (q\<lparr>p_statBusy := s\<rparr>) = keeps p q"
  "keeps p (q\<lparr>p_statAcquired := s\<rparr>) = keeps p q"
  "keeps p (q\<lparr>p_statAcquiredByCountry := t\<rparr>) = keeps p q"
  by (simp_all add: keeps_def ids_def batches_ok_def rings_ok_def)

lemma reserveBatch_keeps:
  assumes "reserveBatchLocked pol r now p = (res, q)"
  shows "keeps p q"
proof -
  obtain m n where q: "q = p\<lparr>p_batches := m, p_nextBatch := n\<rparr>"
    using reserveBatch_shape [OF assms] by blast
  have "batches_ok q" if b: "batches_ok p"
  proof -
    have "int (fm_size (p_batches q)) \<le> MaxUniqueBatches (p_opts q)"
      using assms b fm_size_drop_le [of "pol_UniqueBatch pol" "p_batches p"]
      by (auto simp: reserveBatchLocked_def Let_def batches_ok_def fm_size_upd fmlookup_dom_iff
          split: if_splits option.splits)
    moreover have "fmlookup (p_batches q) n = Some c \<Longrightarrow> batch_ok c" for n c
      using assms b
      by (auto simp: reserveBatchLocked_def Let_def batches_ok_def newBatch_ok
          intro!: batch_reserve_ok split: if_splits option.splits)
    ultimately show ?thesis by (simp add: batches_ok_def)
  qed
  then show ?thesis by (simp add: q keeps_def ids_def rings_ok_def)
qed

lemma releasePending_keeps [simp]: "keeps p (releasePendingSessionLocked n q) = keeps p q"
  using releasePending_shape [of n q] by auto

lemma reserveAcquisition_keeps:
  assumes "reserveAcquisitionLocked pol r now p = (res, q)"
  shows "keeps p q"
proof -
  obtain rs p1 where s: "reserveSessionLocked pol p = (rs, p1)" by fastforce
  have k1: "keeps p p1" using reserveSession_shape [OF s] by auto
  show ?thesis
  proof (cases rs)
    case (Inl e)
    then show ?thesis using assms s k1 by (simp add: reserveAcquisitionLocked_def)
  next
    case (Inr ses)
    obtain rb p2 where b: "reserveBatchLocked pol r now p1 = (rb, p2)" by fastforce
    have k2: "keeps p p2" using k1 reserveBatch_keeps [OF b] by (rule keeps_trans)
    show ?thesis
      using assms s Inr b k2
      by (cases rb) (auto simp: reserveAcquisitionLocked_def keeps_upd_slot)
  qed
qed

lemma reserve_pick_keeps: "reserve_pick pol r st now p = (res, q) \<Longrightarrow> keeps p q"
  by (auto simp: reserve_pick_def split: prod.splits sum.splits dest: reserveAcquisition_keeps)

lemma cleaned_keeps: "cleaned now p q \<Longrightarrow> keeps p q"
  by (simp add: keeps_def ids_def batches_ok_def rings_ok_def frame)

lemma eligibleLocked_keeps: "eligibleLocked pol t now p r = (ok, q) \<Longrightarrow> cleaned now p q"
  using eligibleLocked_spec(2) [of now p pol t r] by simp

lemma sticky_slot_keeps:
  assumes "sticky_slot pol t now p = (res, q)"
  shows "keeps p q"
  using assms
  by (auto simp: sticky_slot_def dropSession_def split: if_splits option.splits prod.splits bool.splits
      dest!: eligibleLocked_keeps cleaned_keeps)

lemma preferred_loop_cleaned:
  "preferred_loop pol t now best p xs = ((kept, res), q) \<Longrightarrow> cleaned now p q"
proof (induction xs arbitrary: best p kept res q)
  case (Cons x xs)
  have step: "preferred_loop pol t now b p2 xs = ((k, s), q) \<Longrightarrow> cleaned now p p2 \<Longrightarrow> cleaned now p q"
    for b p2 k s
    using Cons.IH cleaned_trans by blast
  have pref: "eligiblePreferredLocked pol t now p (Some r) = (ok, p1) \<Longrightarrow> cleaned now p p1" for r ok p1
    using eligibleLocked_keeps by (auto simp: eligiblePreferredLocked_def)
  show ?case
    using Cons.prems
    by (auto simp: Let_def split: option.splits if_splits prod.splits
        dest!: pref eligibleLocked_keeps intro: step cleaned_trans)
qed simp

lemma pickPreferred_keeps:
  assumes "pickPreferredLocked pol t now p = (res, q)"
  shows "keeps p q"
proof (cases "fmlookup (p_preferred p) t")
  case None
  then show ?thesis using assms by (simp add: pickPreferredLocked_def)
next
  case (Some r)
  obtain kept best p1 where l: "preferred_loop pol t now None p (prune now r) = ((kept, best), p1)"
    by (metis surj_pair)
  have c: "cleaned now p p1" by (rule preferred_loop_cleaned [OF l])
  have k: "kept = filter (keeps_exit p pol t now) (prune now r)"
    using preferred_loop_spec [OF l] by blast
  have ring: "ring_ok mx r \<Longrightarrow> ring_ok mx kept" for mx
    by (simp add: k prune_def ring.keep_ok)
  have up: "keeps p (p1\<lparr>p_preferred := fmupd t kept' (p_preferred p1)\<rparr>)"
    if "\<And>mx. ring_ok mx kept \<Longrightarrow> ring_ok mx kept'" for kept'
    using that ring Some cleaned_keeps [OF c] cleaned_frame [OF c]
    by (auto simp: keeps_def ids_def batches_ok_def rings_ok_def)
  have dr: "keeps p (p1\<lparr>p_preferred := fmdrop t (p_preferred p1)\<rparr>)"
    using cleaned_keeps [OF c] by (auto simp: keeps_def ids_def batches_ok_def rings_ok_def)
  show ?thesis
  proof (cases "kept = [] \<or> best = None")
    case True
    then show ?thesis
      using assms Some l up [of kept] dr by (auto simp: pickPreferredLocked_def split: if_splits)
  next
    case False
    then obtain w where w: "best = Some w" by auto
    let ?p2 = "p1\<lparr>p_preferred := fmupd t (rotateToTail (slot_ID (p_heap p1 w)) kept) (p_preferred p1)\<rparr>"
    obtain rr p3 where r3: "reserveAcquisitionLocked pol w now ?p2 = (rr, p3)" by fastforce
    have "q = p3" using assms Some l False w r3
      by (auto simp: pickPreferredLocked_def split: sum.splits)
    moreover have "keeps p ?p2" using up ring.rotate_ok by blast
    ultimately show ?thesis using reserveAcquisition_keeps [OF r3] keeps_trans by blast
  qed
qed

lemma recycle_loop_cleaned:
  "recycle_loop pol t now b best p is = (res, q) \<Longrightarrow> cleaned now p q"
proof (induction "is" arbitrary: best p res q)
  case (Cons i "is")
  have ign: "eligibleIgnoringBatchLocked pol t now p r = (ok, p1) \<Longrightarrow> cleaned now p p1" for r ok p1
    using eligibleLocked_keeps by (auto simp: eligibleIgnoringBatchLocked_def)
  obtain ok p1 where e: "eligibleIgnoringBatchLocked pol t now p (slot_ref p i) = (ok, p1)"
    by fastforce
  obtain best' where "recycle_loop pol t now b best' p1 is = (res, q)"
    using Cons.prems e by (auto simp: Let_def split: if_splits)
  then show ?case using Cons.IH ign [OF e] cleaned_trans by blast
qed simp

lemma recycle_keeps:
  assumes "recycleOldestBatchExitLocked pol t now p = (res, q)"
  shows "keeps p q"
proof -
  consider "cleaned now p q" | b r n p1 where
    "fmlookup (p_batches p) (pol_UniqueBatch pol) = Some b"
    "recycle_loop pol t now b None p (p_order p) = (Some (r, n), p1)"
    "q = p1\<lparr>p_batches := fmupd (pol_UniqueBatch pol)
            (stampLocked (s_publicIP (p_heap p1 r)) now b) (p_batches p1)\<rparr>"
    using assms
    by (auto simp: recycleOldestBatchExitLocked_def split: if_splits option.splits prod.splits
        dest: recycle_loop_cleaned)
  then show ?thesis
  proof cases
    case 1
    then show ?thesis by (rule cleaned_keeps)
  next
    case 2
    have c: "cleaned now p p1" using 2(2) by (rule recycle_loop_cleaned)
    let ?ids = "filter (recyclable p pol t now b) (p_order p)"
    have f: "foldl (older p b) None ?ids = Some (r, n)"
      using recycle_loop_spec [OF 2(2)] by simp
    then have "?ids \<noteq> []" by auto
    from oldest [OF this, of p b] f obtain i where "i \<in> set ?ids" "r = the (slot_ref p i)"
      by auto
    then have "burned b (s_publicIP (p_heap p r))"
      by (auto simp: recyclable_def split: option.splits)
    then have "batches_ok p \<longrightarrow> batch_ok (stampLocked (s_publicIP (p_heap p1 r)) now b)"
      using 2(1) by (auto simp: batches_ok_def cleaned_frame [OF c] intro: stamp_ok)
    moreover have "fm_size (p_batches q) = fm_size (p_batches p)"
      using 2(1) by (simp add: 2(3) cleaned_frame [OF c] fm_size_upd fmdomI)
    ultimately show ?thesis
      using cleaned_keeps [OF c] 2(3) cleaned_frame [OF c]
      by (auto simp: keeps_def ids_def batches_ok_def rings_ok_def)
  qed
qed

lemma pick_any_keeps:
  assumes "pick_any rnd ord pol t now p = (res, q)"
  shows "keeps p q"
proof -
  obtain cs p1 where sc:
    "scan (\<lambda>p r. eligibleLocked pol t now p r) p (map (slot_ref p) (p_order p)) = (cs, p1)"
    by fastforce
  have k1: "keeps p p1"
    using elig.scan_ok [of now p p pol t "map (slot_ref p) (p_order p)"] sc cleaned_keeps by simp
  have via: "keeps p1 p2 \<Longrightarrow> keeps p p2" for p2 using k1 keeps_trans by blast
  show ?thesis
    using assms sc
    by (auto simp: pick_any_def Let_def split: if_splits prod.splits option.splits bool.splits
        dest!: recycle_keeps reserve_pick_keeps budget_quiet capacity_quiet quiet_keeps
        intro: via keeps_trans k1)
qed

lemma pick_keeps:
  assumes "pick rnd ord pol t now p = (res, q)"
  shows "keeps p q"
proof -
  let ?t = "if pol_HealthScope pol \<noteq> [] then pol_HealthScope pol else t"
  have k0: "keeps p (expireLocked now p)" by (rule sane_keeps [OF expireLocked_sane])
  have "keeps (expireLocked now p) q'"
    if slot: "pick_slot rnd ord pol ?t now (expireLocked now p) = (res', q')" for res' q'
  proof -
    obtain so p1 where st: "sticky_slot pol ?t now (expireLocked now p) = (so, p1)" by fastforce
    have k1: "keeps (expireLocked now p) p1" by (rule sticky_slot_keeps [OF st])
    have "keeps p1 q'"
      using slot st
      by (auto simp: pick_slot_def split: option.splits prod.splits if_splits sum.splits
          dest!: reserve_pick_keeps pick_any_keeps pickPreferred_keeps intro: keeps_trans)
    then show ?thesis using k1 keeps_trans by blast
  qed
  then show ?thesis
    using assms k0
    by (auto simp: pick_def Let_def split: if_splits intro: keeps_trans)
qed

end
