(* ===== verification/World.thy ===== *)
theory World
  imports Invariants
begin

text \<open>
  The pool with everything that runs on it. A world is the pool, the acquisitions in flight, the
  leases not yet released, the goroutines opening a tunnel, and the clock. \<open>w_commits\<close> lists when
  tunnel openings were committed, so that the rate limit can be stated over the whole run. A step
  is one critical section under the pool's lock: of an acquisition, of a release, of an opening,
  or of any other operation (\<open>pool_op\<close>). Every interleaving of the program is a path of steps.
\<close>

section \<open>Worlds and steps\<close>

text \<open>
  A goroutine that opens a tunnel. Its flag says that its pending open is settled: committed
  before the handshake, or rolled back because the context ended.
\<close>

datatype opener = SlotOpener ref bool | EntryOpener nat bool | ProbeOpener bool

record world =
  w_pool :: pool
  w_now :: time
  w_acqs :: "(policy \<times> string \<times> acquiring) multiset"
  w_leases :: "lease multiset"
  w_openers :: "opener multiset"
  w_commits :: "time list"

text \<open>The operations that touch neither a reservation, a lease nor an opening.\<close>

inductive pool_op :: "time \<Rightarrow> pool \<Rightarrow> pool \<Rightarrow> bool" for now where
  op_report: "pool_op now p (snd (Report inp now p))"
| op_prefer: "pool_op now p (snd (Prefer pin now p))"
| op_rotate: "pool_op now p (snd (Rotate n p))"
| op_traffic: "pool_op now p (RecordTraffic lo a b p)"
| op_dial_failure: "pool_op now p (NoteDialFailure lo e now p)"
| op_note_failure: "pool_op now p (noteFailure e now r p)"
| op_latency: "pool_op now p (recordEntryLatency ewma i c d p)"
| op_observe: "pool_op now p (ObserveRequest ob p)"
| op_tunnel_observed: "pool_op now p (snd (openTunnel role opened hs took p))"
| op_check_start: "pool_op now p (snd (maybeCheckIP_start now r p))"
| op_check_finish: "pool_op now p (maybeCheckIP_finish res now r p)"
| op_probe_result: "pool_op now p (probe_result pres now r p)"
| op_save: "pool_op now p (snd (SaveInventory ips now p))"
| op_load: "pool_op now p (snd (LoadInventory file now p))"
| op_stats: "pool_op now p (snd (Stats now p))"
| op_housekeep: "pool_op now p (snd (housekeep ord now p))"
| op_close: "pool_op now p (Close p)"
| op_warmup: "pool_op now p (snd (warmup_count n now p))"

definition slot_order :: "pool \<Rightarrow> string list \<Rightarrow> bool" where
  "slot_order p ord \<longleftrightarrow> distinct ord \<and> set ord = fset (fmdom (p_slots p))"

definition after_acq ::
  "policy \<Rightarrow> string \<Rightarrow> acquiring \<Rightarrow> pool \<Rightarrow> world \<Rightarrow> (policy \<times> string \<times> acquiring) multiset \<Rightarrow> world"
where
  "after_acq pol t a p w rest =
     w\<lparr>w_pool := p,
       w_acqs := (if finished a then rest else add_mset (pol, t, a) rest),
       w_leases := (case a of Acquired l \<Rightarrow> add_mset l (w_leases w) | _ \<Rightarrow> w_leases w)\<rparr>"

inductive step :: "world \<Rightarrow> world \<Rightarrow> bool" where
  tick: "w_now w \<le> t \<Longrightarrow> step w (w\<lparr>w_now := t\<rparr>)"
| start: "acquire_start (w_pool w) = a \<Longrightarrow> \<not> finished a \<Longrightarrow>
    step w (w\<lparr>w_acqs := add_mset (pol, t, a) (w_acqs w)\<rparr>)"
| acquire: "w_acqs w = add_mset (pol, t, a) rest \<Longrightarrow> (\<And>n. 0 < n \<Longrightarrow> rnd n < n) \<Longrightarrow>
    slot_order (w_pool w) ord \<Longrightarrow>
    acq_step rnd ord dr (w_now w) pol t a (w_pool w) = (a', p) \<Longrightarrow>
    step w (after_acq pol t a' p w rest)"
| release: "w_leases w = add_mset l rest \<Longrightarrow> Release (w_now w) l (w_pool w) = (l', p) \<Longrightarrow>
    step w (w\<lparr>w_pool := p, w_leases := rest\<rparr>)"
| other: "pool_op (w_now w) (w_pool w) p \<Longrightarrow> step w (w\<lparr>w_pool := p\<rparr>)"
| reconcile: "set ord = set (map sp_ID specs) \<Longrightarrow> distinct ord \<Longrightarrow>
    ReconcileRelaySlots ord specs (w_pool w) = (res, p) \<Longrightarrow> step w (w\<lparr>w_pool := p\<rparr>)"
| slot_enter: "slot_order (w_pool w) ord \<Longrightarrow> fmlookup (p_slots (w_pool w)) i = Some r \<Longrightarrow>
    sp_Kind (s_spec (p_heap (w_pool w) r)) \<noteq> KindRelaySocks \<Longrightarrow>
    ensureOpen_enter ce ord (w_now w) r (w_pool w) = (res, p) \<Longrightarrow>
    step w (w\<lparr>w_pool := p,
       w_openers := (if res = EnterOpening then add_mset (SlotOpener r False) (w_openers w)
                     else w_openers w)\<rparr>)"
| slot_rollback: "w_openers w = add_mset (SlotOpener r False) rest \<Longrightarrow>
    step w (w\<lparr>w_pool := rollbackTunnelOpen (w_pool w),
              w_openers := add_mset (SlotOpener r True) rest\<rparr>)"
| slot_commit: "w_openers w = add_mset (SlotOpener r False) rest \<Longrightarrow>
    step w (w\<lparr>w_pool := commitTunnelOpen (w_now w) (w_pool w),
              w_openers := add_mset (SlotOpener r True) rest,
              w_commits := w_now w # w_commits w\<rparr>)"
| slot_finish: "w_openers w = add_mset (SlotOpener r True) rest \<Longrightarrow>
    step w (w\<lparr>w_pool := ensureOpen_finish res (w_now w) r (w_pool w), w_openers := rest\<rparr>)"
| entry_enter: "slot_order (w_pool w) ord \<Longrightarrow> i < length (p_entries (w_pool w)) \<Longrightarrow>
    ensureEntryOpen_enter ce ord (w_now w) i (w_pool w) = (res, p) \<Longrightarrow>
    step w (w\<lparr>w_pool := p,
       w_openers := (if res = EnterOpening then add_mset (EntryOpener i False) (w_openers w)
                     else w_openers w)\<rparr>)"
| entry_rollback: "w_openers w = add_mset (EntryOpener i False) rest \<Longrightarrow>
    step w (w\<lparr>w_pool := rollbackTunnelOpen (w_pool w),
              w_openers := add_mset (EntryOpener i True) rest\<rparr>)"
| entry_clear: "w_openers w = add_mset (EntryOpener i True) rest \<Longrightarrow>
    step w (w\<lparr>w_pool := upd_entry i (\<lambda>e. e\<lparr>e_opening := False\<rparr>) (w_pool w),
              w_openers := rest\<rparr>)"
| entry_commit: "w_openers w = add_mset (EntryOpener i False) rest \<Longrightarrow>
    step w (w\<lparr>w_pool := commitTunnelOpen (w_now w) (w_pool w),
              w_openers := add_mset (EntryOpener i True) rest,
              w_commits := w_now w # w_commits w\<rparr>)"
| entry_finish: "w_openers w = add_mset (EntryOpener i True) rest \<Longrightarrow>
    step w (w\<lparr>w_pool := ensureEntryOpen_finish res (w_now w) i (w_pool w), w_openers := rest\<rparr>)"
| probe_enter: "slot_order (w_pool w) ord \<Longrightarrow>
    probeDialer_enter ce ord (w_now w) (w_pool w) = (res, p) \<Longrightarrow>
    step w (w\<lparr>w_pool := p,
       w_openers := (if res = None then add_mset (ProbeOpener False) (w_openers w)
                     else w_openers w)\<rparr>)"
| probe_rollback: "w_openers w = add_mset (ProbeOpener False) rest \<Longrightarrow>
    step w (w\<lparr>w_pool := rollbackTunnelOpen (w_pool w),
              w_openers := add_mset (ProbeOpener True) rest\<rparr>)"
| probe_commit: "w_openers w = add_mset (ProbeOpener False) rest \<Longrightarrow>
    step w (w\<lparr>w_pool := commitTunnelOpen (w_now w) (w_pool w),
              w_openers := add_mset (ProbeOpener True) rest,
              w_commits := w_now w # w_commits w\<rparr>)"
| probe_release: "w_openers w = add_mset (ProbeOpener True) rest \<Longrightarrow>
    step w (w\<lparr>w_pool := releaseProbeCapacity (w_pool w), w_openers := rest\<rparr>)"

inductive reachable :: "world \<Rightarrow> bool" where
  init: "NewWithSpecs specs entries opts = Inr p \<Longrightarrow>
    reachable \<lparr>w_pool = p, w_now = t, w_acqs = {#}, w_leases = {#}, w_openers = {#}, w_commits = []\<rparr>"
| next_step: "reachable w \<Longrightarrow> step w w' \<Longrightarrow> reachable w'"

section \<open>Reservations and leases\<close>

fun reserved_ref :: "acquiring \<Rightarrow> ref option" where
  "reserved_ref (Dialing n e r st ar) = Some r"
| "reserved_ref _ = None"

definition reserved :: "world \<Rightarrow> ref multiset" where
  "reserved w = image_mset (\<lambda>x. the (reserved_ref (snd (snd x))))
                  (filter_mset (\<lambda>x. reserved_ref (snd (snd x)) \<noteq> None) (w_acqs w))"

definition leased :: "world \<Rightarrow> ref multiset" where
  "leased w = image_mset l_state (w_leases w)"

text \<open>What the counters should say, from the acquisitions and the leases that exist.\<close>

definition tally :: "world \<Rightarrow> conn" where
  "tally w = \<lparr>cn_leased = size (leased w), cn_pending = size (reserved w),
     cn_l = count (leased w), cn_p = count (reserved w)\<rparr>"

definition acq_ok :: "acquiring \<Rightarrow> bool" where
  "acq_ok a \<longleftrightarrow> \<not> finished a \<and>
     (case a of Dialing n e r st ar \<Rightarrow> ar_state ar = r \<and> ar_active ar | _ \<Rightarrow> True)"

definition within_limits :: "options \<Rightarrow> conn \<Rightarrow> bool" where
  "within_limits opts c \<longleftrightarrow>
     (MaxConcurrentConns opts > 0 \<longrightarrow> int (cn_leased c + cn_pending c) \<le> MaxConcurrentConns opts) \<and>
     (MaxConnsPerExit opts > 0 \<longrightarrow> (\<forall>r. int (cn_l c r + cn_p c r) \<le> MaxConnsPerExit opts))"

definition conn_inv :: "world \<Rightarrow> bool" where
  "conn_inv w \<longleftrightarrow>
     conn (w_pool w) = tally w \<and> within_limits (p_opts (w_pool w)) (tally w) \<and>
     (\<forall>x\<in>#w_acqs w. acq_ok (snd (snd x))) \<and> (\<forall>l\<in>#w_leases w. \<not> l_released l) \<and>
     (\<forall>r\<in>#reserved w + leased w. r < p_nextRef (w_pool w)) \<and>
     ids_ok (ids (w_pool w)) \<and> batches_ok (w_pool w) \<and>
     0 < PreferredMax (p_opts (w_pool w)) \<and> rings_ok (w_pool w)"

lemma warmup_count_quiet: "quiet p (snd (warmup_count n now p))"
  by (simp add: warmup_count_def Let_def frame)

lemma openTunnel_quiet [frame]: "quiet p (snd (openTunnel role opened hs took p))"
  by (simp add: openTunnel_def frame split: sum.split option.split)

lemma pool_op_sane: "pool_op now p q \<Longrightarrow> sane p q"
  by (induction rule: pool_op.induct)
    (auto simp: frame quiet_sane warmup_count_quiet
      intro: Report_sane Prefer_sane maybeCheckIP_finish_sane probe_result_sane SaveInventory_sane
        LoadInventory_sane Stats_sane housekeep_sane)

section \<open>Reconciliation\<close>

text \<open>Slots named by their key, and no count on a state that is not allocated.\<close>

definition named :: "(string, ref) fmap \<Rightarrow> pool \<Rightarrow> bool" where
  "named m p \<longleftrightarrow> (\<forall>i r. fmlookup m i = Some r \<longrightarrow> slot_ID (p_heap p r) = i \<and> r < p_nextRef p)"

definition fresh_zero :: "pool \<Rightarrow> bool" where
  "fresh_zero p \<longleftrightarrow>
     (\<forall>r. p_nextRef p \<le> r \<longrightarrow> s_leases (p_heap p r) = 0 \<and> s_pendingLeases (p_heap p r) = 0)"

definition grown_slot :: "ref \<Rightarrow> ref \<Rightarrow> ref \<Rightarrow> slot_state \<Rightarrow> slot_state \<Rightarrow> bool" where
  "grown_slot n n' r s s' \<longleftrightarrow>
     (r < n \<and> slot_ID s' = slot_ID s \<and> sp_Kind (s_spec s') = sp_Kind (s_spec s) \<and>
        s' = s\<lparr>s_spec := s_spec s'\<rparr>) \<or>
     (n \<le> r \<and> n' \<le> r \<and> s' = s) \<or>
     (n \<le> r \<and> r < n' \<and> sp_Kind (s_spec s') = KindRelaySocks \<and> s' = new_slot_state (s_spec s'))"

definition grown :: "pool \<Rightarrow> pool \<Rightarrow> bool" where
  "grown p q \<longleftrightarrow>
     p_opts q = p_opts p \<and> p_slots q = p_slots p \<and> p_order q = p_order p \<and>
     p_sessions q = p_sessions p \<and> p_batches q = p_batches p \<and> p_preferred q = p_preferred p \<and>
     p_entries q = p_entries p \<and> p_opens q = p_opens p \<and>
     p_pendingTunnelOpens q = p_pendingTunnelOpens p \<and> p_probeTunnels q = p_probeTunnels p \<and>
     p_leased q = p_leased p \<and> p_pendingLeases q = p_pendingLeases p \<and>
     p_nextRef p \<le> p_nextRef q \<and>
     (\<forall>r. grown_slot (p_nextRef p) (p_nextRef q) r (p_heap p r) (p_heap q r))"

lemma new_slot_spec [simp]: "(new_slot_state sp)\<lparr>s_spec := sp'\<rparr> = new_slot_state sp'"
  by (simp add: new_slot_state_def)

lemma grown_slot_refl [simp]: "grown_slot n n r s s"
  by (cases "r < n") (auto simp: grown_slot_def)

lemma grown_slot_trans:
  assumes "grown_slot n n' r s s'" and "grown_slot n' n'' r s' s''" and "n \<le> n'" and "n' \<le> n''"
  shows "grown_slot n n'' r s s''"
proof -
  consider "r < n" | "n' \<le> r" | "n \<le> r" "r < n'" by linarith
  then show ?thesis
  proof cases
    case 1
    then have "s' = s\<lparr>s_spec := s_spec s'\<rparr>" "s'' = s'\<lparr>s_spec := s_spec s''\<rparr>"
      "slot_ID s'' = slot_ID s" "sp_Kind (s_spec s'') = sp_Kind (s_spec s)"
      using assms by (auto simp: grown_slot_def)
    then obtain a b where "s' = s\<lparr>s_spec := a\<rparr>" "s'' = s'\<lparr>s_spec := b\<rparr>" by blast
    then have "s'' = s\<lparr>s_spec := s_spec s''\<rparr>" by simp
    then show ?thesis
      using 1 \<open>slot_ID s'' = slot_ID s\<close> \<open>sp_Kind (s_spec s'') = sp_Kind (s_spec s)\<close>
      by (simp add: grown_slot_def)
  next
    case 2
    then show ?thesis using assms by (auto simp: grown_slot_def)
  next
    case 3
    then have "s' = new_slot_state (s_spec s')" "sp_Kind (s_spec s') = KindRelaySocks"
      "s'' = s'\<lparr>s_spec := s_spec s''\<rparr>" "sp_Kind (s_spec s'') = sp_Kind (s_spec s')"
      using assms by (auto simp: grown_slot_def)
    then have "s'' = new_slot_state (s_spec s'')" by (metis new_slot_spec)
    then show ?thesis
      using 3 assms \<open>sp_Kind (s_spec s'') = sp_Kind (s_spec s')\<close>
        \<open>sp_Kind (s_spec s') = KindRelaySocks\<close>
      by (simp add: grown_slot_def)
  qed
qed

lemma grown_refl [simp]: "grown p p"
  by (simp add: grown_def)

lemma grown_trans [trans]: "grown p q \<Longrightarrow> grown q r \<Longrightarrow> grown p r"
  unfolding grown_def by (auto intro: grown_slot_trans)

lemma grown_counts:
  assumes "grown p q" and "fresh_zero p"
  shows "conn q = conn p" and "fresh_zero q"
proof -
  have z: "s_leases (p_heap q r) = s_leases (p_heap p r) \<and>
      s_pendingLeases (p_heap q r) = s_pendingLeases (p_heap p r)" for r
  proof -
    have "grown_slot (p_nextRef p) (p_nextRef q) r (p_heap p r) (p_heap q r)"
      using assms(1) by (simp add: grown_def)
    then consider "p_heap q r = (p_heap p r)\<lparr>s_spec := s_spec (p_heap q r)\<rparr>"
      | "p_heap q r = p_heap p r"
      | "p_nextRef p \<le> r" "p_heap q r = new_slot_state (s_spec (p_heap q r))"
      by (auto simp: grown_slot_def)
    then show ?thesis
    proof cases
      case 1
      then show ?thesis by (metis slot_state.select_convs(6,7) slot_state.surjective slot_state.update_convs(1))
    next
      case 3
      have "s_leases (new_slot_state x) = 0 \<and> s_pendingLeases (new_slot_state x) = 0" for x
        by (simp add: new_slot_state_def)
      then show ?thesis using 3 assms(2) unfolding fresh_zero_def by metis
    qed simp
  qed
  then show "conn q = conn p"
    using assms(1) by (simp add: conn_def grown_def)
  show "fresh_zero q"
    using assms z by (auto simp: fresh_zero_def grown_def)
qed

lemma grown_retain:
  assumes "r < p_nextRef p" "sp_ID sp = slot_ID (p_heap p r)"
    and "sp_Kind sp = sp_Kind (s_spec (p_heap p r))"
  shows "grown p (upd_slot r (\<lambda>s. s\<lparr>s_spec := sp\<rparr>) p)"
  using assms by (simp add: grown_def) (simp add: grown_slot_def slot_ID_def)

lemma grown_alloc:
  assumes "sp_Kind sp = KindRelaySocks"
  shows "grown p (alloc_slot sp p)"
proof -
  have "s_spec (new_slot_state sp) = sp" by (simp add: new_slot_state_def)
  then show ?thesis
    using assms by (auto simp: grown_def alloc_slot_def) (auto simp: grown_slot_def)
qed

lemma named_grown: "grown p q \<Longrightarrow> named m p \<Longrightarrow> named m q"
proof -
  assume g: "grown p q" and n: "named m p"
  have "slot_ID (p_heap q r) = i \<and> r < p_nextRef q" if "fmlookup m i = Some r" for i r
  proof -
    have "slot_ID (p_heap p r) = i" "r < p_nextRef p" using n that by (auto simp: named_def)
    moreover have "grown_slot (p_nextRef p) (p_nextRef q) r (p_heap p r) (p_heap q r)"
      "p_nextRef p \<le> p_nextRef q"
      using g by (simp_all add: grown_def)
    ultimately show ?thesis by (auto simp: grown_slot_def)
  qed
  then show "named m q" by (simp add: named_def)
qed

lemma merge_specs_spec:
  assumes "merge_specs m is res nxt p = (out, q)"
    and "\<And>i. i \<in> set is \<Longrightarrow> \<exists>sp. fmlookup m i = Some sp \<and> sp_ID sp = i \<and> sp_Kind sp = KindRelaySocks"
    and "named (p_slots p) p" and "named nxt p"
  shows "grown p q \<and>
         (\<forall>res' nxt'. out = Inr (res', nxt') \<longrightarrow>
            named nxt' q \<and> fmdom nxt' = fmdom nxt |\<union>| fset_of_list is \<and>
            (\<forall>i. i \<notin> set is \<longrightarrow> fmlookup nxt' i = fmlookup nxt i) \<and>
            (\<forall>i\<in>set is. \<forall>r. fmlookup (p_slots p) i = Some r \<longrightarrow> fmlookup nxt' i = Some r))"
  using assms
proof (induction "is" arbitrary: res nxt p)
  case Nil
  then show ?case by auto
next
  case (Cons i "is")
  obtain sp where sp: "fmlookup m i = Some sp" "sp_ID sp = i" "sp_Kind sp = KindRelaySocks"
    using Cons.prems(2) by auto
  show ?case
  proof (cases "fmlookup (p_slots p) i")
    case None
    let ?p = "alloc_slot sp p" and ?nxt = "fmupd i (p_nextRef p) nxt"
    have g: "grown p ?p" using sp by (intro grown_alloc)
    have sl: "p_slots ?p = p_slots p" by (simp add: alloc_slot_def)
    have "named ?nxt ?p"
      using named_grown [OF g Cons.prems(4)] sp
      by (auto simp: named_def alloc_slot_def new_slot_state_def slot_ID_def)
    then have IH: "grown ?p q \<and>
         (\<forall>res' nxt'. out = Inr (res', nxt') \<longrightarrow>
            named nxt' q \<and> fmdom nxt' = fmdom ?nxt |\<union>| fset_of_list is \<and>
            (\<forall>i. i \<notin> set is \<longrightarrow> fmlookup nxt' i = fmlookup ?nxt i) \<and>
            (\<forall>i\<in>set is. \<forall>r. fmlookup (p_slots ?p) i = Some r \<longrightarrow> fmlookup nxt' i = Some r))"
      using Cons.IH Cons.prems None sp named_grown [OF g Cons.prems(3)] sl by (auto simp: Let_def)
    then show ?thesis
      using grown_trans [OF g] None by (auto simp: sl)
  next
    case (Some r)
    have nm: "slot_ID (p_heap p r) = i" "r < p_nextRef p"
      using Cons.prems(3) Some by (auto simp: named_def)
    show ?thesis
    proof (cases "sp_Kind (s_spec (p_heap p r)) = KindRelaySocks")
      case False
      then show ?thesis using Cons.prems(1) Some by auto
    next
      case True
      let ?p = "upd_slot r (\<lambda>s. s\<lparr>s_spec := sp\<rparr>) p" and ?nxt = "fmupd i r nxt"
      have g: "grown p ?p" using nm sp True by (intro grown_retain) auto
      have "named ?nxt ?p"
        using named_grown [OF g Cons.prems(4)] sp nm by (auto simp: named_def slot_ID_def)
      then have IH: "grown ?p q \<and>
         (\<forall>res' nxt'. out = Inr (res', nxt') \<longrightarrow>
            named nxt' q \<and> fmdom nxt' = fmdom ?nxt |\<union>| fset_of_list is \<and>
            (\<forall>i. i \<notin> set is \<longrightarrow> fmlookup nxt' i = fmlookup ?nxt i) \<and>
            (\<forall>i\<in>set is. \<forall>r. fmlookup (p_slots ?p) i = Some r \<longrightarrow> fmlookup nxt' i = Some r))"
        using Cons.IH Cons.prems Some True sp named_grown [OF g Cons.prems(3)] by (auto simp: Let_def)
      then show ?thesis
        using grown_trans [OF g] Some by (cases "i \<in> set is") auto
    qed
  qed
qed

end
