(* ===== verification/Counters.thy ===== *)
theory Counters
  imports World
begin

text \<open>
  The connection counters. Every reachable world has exact counters: the pool's \<open>leased\<close> and
  \<open>pendingLeases\<close>, and those of each slot, are the numbers of leases and of acquisitions that
  exist; and no interleaving of acquisitions exceeds the configured caps.
\<close>

section \<open>Commit, roll-back and release on the counters\<close>

definition tallies :: "ref multiset \<Rightarrow> ref multiset \<Rightarrow> conn" where
  "tallies R L = \<lparr>cn_leased = size L, cn_pending = size R, cn_l = count L, cn_p = count R\<rparr>"

definition lease_conn :: "ref \<Rightarrow> conn \<Rightarrow> conn" where
  "lease_conn r c = c\<lparr>cn_leased := Suc (cn_leased c), cn_l := (cn_l c)(r := Suc (cn_l c r))\<rparr>"

definition free_conn :: "ref \<Rightarrow> conn \<Rightarrow> conn" where
  "free_conn r c = c\<lparr>cn_leased := cn_leased c - 1, cn_l := (cn_l c)(r := cn_l c r - 1)\<rparr>"

lemma tallies_simps [simp]:
  "reserve_conn r (tallies R L) = tallies (add_mset r R) L"
  "release_conn r (tallies (add_mset r R) L) = tallies R L"
  "lease_conn r (tallies R L) = tallies R (add_mset r L)"
  "free_conn r (tallies R (add_mset r L)) = tallies R L"
  by (auto simp: tallies_def reserve_conn_def release_conn_def lease_conn_def free_conn_def
      fun_eq_iff)

lemma tally_eq: "tally w = tallies (reserved w) (leased w)"
  by (simp add: tally_def tallies_def)

lemma releasePending_conn [simp]: "conn (releasePendingSessionLocked n p) = conn p"
  using releasePending_shape [of n p] by auto

lemma releasePending_heap [simp]:
  "p_heap (releasePendingSessionLocked n p) = p_heap p"
  "p_pendingLeases (releasePendingSessionLocked n p) = p_pendingLeases p"
  "p_leased (releasePendingSessionLocked n p) = p_leased p"
  "p_opts (releasePendingSessionLocked n p) = p_opts p"
  using releasePending_shape [of n p] by auto

lemma commit_conn:
  "ar_active ar \<Longrightarrow>
     conn (snd (commitAcquisitionLocked ar p)) = release_conn (ar_state ar) (conn p)"
  by (auto simp: commitAcquisitionLocked_def conn_def release_conn_def Let_def upd_slot_def fun_eq_iff)

lemma commit_keeps [simp]: "keeps p (snd (commitAcquisitionLocked ar p))"
  by (simp add: commitAcquisitionLocked_def Let_def keeps_upd_slot)

lemma rollbackBatch_conn [simp]: "conn (rollbackBatchLocked br p) = conn p"
  by (auto simp: rollbackBatchLocked_def Let_def split: option.split)

lemma rollbackBatch_ok:
  assumes b: "batches_ok p"
  shows "batches_ok (rollbackBatchLocked br p)"
proof (rule batches_ok_within [OF b])
  show "fmdom (p_batches (rollbackBatchLocked br p)) |\<subseteq>| fmdom (p_batches p)"
    by (auto simp: rollbackBatchLocked_def Let_def fmlookup_dom_iff split: option.splits if_splits)
  show "batch_ok c" if "fmlookup (p_batches (rollbackBatchLocked br p)) n = Some c" for n c
    using that b
    by (auto simp: rollbackBatchLocked_def Let_def batches_ok_def batch_release_ok split: option.splits if_splits)
  show "p_opts (rollbackBatchLocked br p) = p_opts p"
    by (simp add: rollbackBatchLocked_def Let_def split: option.split)
qed

lemma rollbackBatch_keeps [simp]: "keeps p (rollbackBatchLocked br p)"
  using rollbackBatch_ok
  by (auto simp: rollbackBatchLocked_def Let_def keeps_def ids_def rings_ok_def split: option.split)

lemma rollback_conn:
  "ar_active ar \<Longrightarrow> conn (rollbackAcquisition (Some ar) p) = release_conn (ar_state ar) (conn p)"
  by (simp add: rollbackAcquisition_def commit_conn)

lemma rollback_keeps [simp]: "keeps p (rollbackAcquisition (Some ar) p)"
  unfolding rollbackAcquisition_def option.case
  by (rule keeps_trans [OF commit_keeps rollbackBatch_keeps])

lemma bindSession_keeps [simp]: "keeps p (bindSession pol i now q) = keeps p q"
  by (simp add: bindSession_def)

lemma bindSession_conn [simp]: "conn (bindSession pol i now q) = conn q"
  by (simp add: bindSession_def)

lemma recordAcquisition_keeps [simp]: "keeps p (recordAcquisitionLocked r q) = keeps p q"
  by (simp add: recordAcquisitionLocked_def Let_def)

lemma recordAcquisition_conn [simp]: "conn (recordAcquisitionLocked r q) = conn q"
  by (simp add: recordAcquisitionLocked_def Let_def)

lemma acquire_commit_conn:
  assumes "ar_active ar" and "ar_state ar = r"
    and "acquire_commit pol now e r ar p = (l, q)"
  shows "conn q = lease_conn r (release_conn r (conn p))" and "keeps p q"
    and "l_state l = r" and "\<not> l_released l"
proof -
  let ?c = "snd (commitAcquisitionLocked ar p)"
  let ?q1 = "(upd_slot r (\<lambda>s. s\<lparr>s_leases := Suc (s_leases s)\<rparr>) ?c)\<lparr>p_leased := Suc (p_leased ?c)\<rparr>"
  let ?q2 = "upd_slot r (\<lambda>s. s\<lparr>s_lastUsed := now, s_failures := 0, s_lastError := []\<rparr>) ?q1"
  have q: "q = recordAcquisitionLocked r (bindSession pol (slot_ID (p_heap ?q2 r)) now ?q2)"
    using assms(3) by (simp add: acquire_commit_def Let_def)
  have "conn ?q1 = lease_conn r (conn ?c)"
    by (auto simp: conn_def lease_conn_def fun_eq_iff)
  moreover have "conn ?q2 = conn ?q1"
    by (rule conn_upd) simp_all
  ultimately show "conn q = lease_conn r (release_conn r (conn p))"
    using assms(1,2) by (simp only: q recordAcquisition_conn bindSession_conn commit_conn)
  show "keeps p q" by (simp add: q keeps_upd_slot)
  show "l_state l = r" "\<not> l_released l"
    using assms(3) by (auto simp: acquire_commit_def Let_def)
qed

lemma Release_conn:
  assumes "\<not> l_released l" and "Release now l p = (l', q)"
  shows "conn q = free_conn (l_state l) (conn p)" and "keeps p q"
proof -
  let ?q1 = "(upd_slot (l_state l) (\<lambda>s. s\<lparr>s_leases := s_leases s - 1\<rparr>) p)
    \<lparr>p_leased := p_leased p - 1\<rparr>"
  have q: "q = upd_slot (l_state l) (\<lambda>s. s\<lparr>s_lastUsed := now\<rparr>) ?q1"
    using assms by (auto simp: Release_def Let_def)
  have "conn q = conn ?q1" unfolding q by (rule conn_upd) simp_all
  then show "conn q = free_conn (l_state l) (conn p)"
    by (auto simp: conn_def free_conn_def fun_eq_iff)
  show "keeps p q" by (simp add: q keeps_upd_slot)
qed

section \<open>What a selection reserves\<close>

lemma chosen_below_limit:
  assumes "chosen p pol target now r"
  shows "\<not> at_conn_limit p (p_heap p r)" and "\<exists>i. fmlookup (p_slots p) i = Some r"
proof -
  have "eligible p pol target now r \<or> eligible p (pol\<lparr>pol_UniqueBatch := []\<rparr>) target now r"
    using assms by (auto simp: chosen_def recycles_def recyclable_def)
  then show "\<not> at_conn_limit p (p_heap p r)" by (auto simp: eligible_def Let_def)
  show "\<exists>i. fmlookup (p_slots p) i = Some r"
    using assms by (simp add: chosen_def slot_ref_def)
qed

lemma pick_reserves:
  assumes pk: "pick rnd ord pol t now p = (Inr (Picked r sticky ar), q)"
    and rnd: "\<And>n. 0 < n \<Longrightarrow> rnd n < n" and lim: "within_limits (p_opts p) (conn p)"
  shows "conn q = reserve_conn r (conn p)" and "within_limits (p_opts p) (conn q)"
    and "ar_state ar = r \<and> ar_active ar" and "\<exists>i. fmlookup (p_slots p) i = Some r"
proof -
  let ?p = "expireLocked now p"
  note sp = pick_spec [OF pk rnd]
  have ng: "\<not> at_global_limit ?p"
    and pr: "pick_result ord pol (scope_of pol t) now ?p (Inr (Picked r sticky ar)) q"
    using sp by (auto split: if_splits)
  obtain p1 where p1: "near ?p p1" "chosen ?p pol (scope_of pol t) now r"
    "reserveAcquisitionLocked pol r now p1 = (Inr ar, q)"
    using pr by (auto simp: pick_result_def reserved_at_def)
  show c: "conn q = reserve_conn r (conn p)"
    using reserveAcquisition_conn(1) [OF p1(3)] near_conn [OF p1(1)] by (simp add: expireLocked_conn)
  show "ar_state ar = r \<and> ar_active ar" using reserveAcquisition_Inr [OF p1(3)] by blast
  show "\<exists>i. fmlookup (p_slots p) i = Some r" using chosen_below_limit(2) [OF p1(2)] by simp
  have "\<not> at_conn_limit ?p (p_heap ?p r)" by (rule chosen_below_limit(1) [OF p1(2)])
  then show "within_limits (p_opts p) (conn q)"
    using lim ng unfolding c
    by (auto simp: within_limits_def reserve_conn_def conn_def at_global_limit_def
        at_conn_limit_def)
qed

lemma pick_refused:
  assumes pk: "pick rnd ord pol t now p = (Inl e, q)" and rnd: "\<And>n. 0 < n \<Longrightarrow> rnd n < n"
  shows "conn q = conn p"
proof -
  let ?p = "expireLocked now p"
  have c: "conn ?p = conn p" by (rule expireLocked_conn)
  show ?thesis
  proof (cases "over_policy_limits ?p pol \<or> at_global_limit ?p")
    case True
    then show ?thesis using pick_spec [OF pk rnd] c by (auto split: if_splits)
  next
    case False
    then have "pick_result ord pol (scope_of pol t) now ?p (Inl e) q"
      using pick_spec [OF pk rnd] by (auto split: if_splits)
    then obtain p1 where "near ?p p1" "q = p1 \<or> (\<exists>r. reserveAcquisitionLocked pol r now p1 = (Inl e, q))"
      by (auto simp: pick_result_def reserved_at_def)
    then show ?thesis
      using c near_conn reserveAcquisition_conn(2) by metis
  qed
qed

end
