(* ===== verification/Reachable.thy ===== *)
theory Reachable
  imports Counters
begin

text \<open>
  Every step keeps the connection counters exact and within the caps, and the names of the slots
  consistent: \<open>conn_inv\<close> holds in every reachable world.
\<close>

section \<open>Reconciliation keeps names and counters\<close>

lemma named_iff: "ids_ok (ids p) \<Longrightarrow> named (p_slots p) p"
  by (simp add: ids_ok_def ids_def named_def)

lemma ids_okI:
  assumes "named (p_slots p) p" "sorted (p_order p)" "distinct (p_order p)"
    and "set (p_order p) = fset (fmdom (p_slots p))"
  shows "ids_ok (ids p)"
  using assms by (simp add: ids_ok_def ids_def named_def)

lemma check_specs_spec:
  assumes "check_specs sps m = Inr m'"
    and "\<And>i sp. fmlookup m i = Some sp \<Longrightarrow> sp_ID sp = i \<and> sp_Kind sp = KindRelaySocks"
  shows "(\<forall>i sp. fmlookup m' i = Some sp \<longrightarrow> sp_ID sp = i \<and> sp_Kind sp = KindRelaySocks) \<and>
         fmdom m' = fmdom m |\<union>| fset_of_list (map sp_ID sps)"
  using assms
proof (induction sps arbitrary: m)
  case (Cons sp sps)
  have k: "sp_Kind sp = KindRelaySocks" and r: "check_specs sps (fmupd (sp_ID sp) sp m) = Inr m'"
    using Cons.prems(1) by (auto split: if_splits)
  have "(\<forall>i sp. fmlookup m' i = Some sp \<longrightarrow> sp_ID sp = i \<and> sp_Kind sp = KindRelaySocks) \<and>
        fmdom m' = fmdom (fmupd (sp_ID sp) sp m) |\<union>| fset_of_list (map sp_ID sps)"
    by (rule Cons.IH [OF r]) (use Cons.prems(2) k in \<open>auto split: if_splits\<close>)
  then show ?case by auto
qed simp

lemma check_specs_ids:
  assumes "check_specs sps fmempty = Inr m" and "i \<in> set (map sp_ID sps)"
  shows "\<exists>sp. fmlookup m i = Some sp \<and> sp_ID sp = i \<and> sp_Kind sp = KindRelaySocks"
proof -
  have s: "(\<forall>i sp. fmlookup m i = Some sp \<longrightarrow> sp_ID sp = i \<and> sp_Kind sp = KindRelaySocks) \<and>
      fmdom m = fset_of_list (map sp_ID sps)"
    using check_specs_spec [OF assms(1)] by simp
  then have "i |\<in>| fmdom m" using assms(2) by (simp add: fset_of_list.rep_eq)
  then obtain sp where "fmlookup m i = Some sp" by (meson fmdomE)
  then show ?thesis using s by blast
qed

lemma reconcile_cases:
  assumes rc: "ReconcileRelaySlots ord specs p = (res, q)"
    and ord: "set ord = set (map sp_ID specs)" and ok: "ids_ok (ids p)"
  obtains (same) "q = p" "\<exists>e. res = Inl e"
  | (failed) e where "grown p q" "res = Inl e"
  | (merged) p' nxt ses r where "grown p p'" "named nxt p'"
      "\<forall>i x. fmlookup (p_slots p) i = Some x \<longrightarrow>
         sp_Kind (s_spec (p_heap p x)) \<noteq> KindRelaySocks \<longrightarrow> fmlookup nxt i = Some x"
      "q = p'\<lparr>p_slots := nxt, p_order := sorted_list_of_fset (fmdom nxt), p_sessions := ses\<rparr>"
      "res = Inr r"
proof (cases "specs = [] \<or> p_closing p \<or> (\<exists>e. check_specs specs fmempty = Inl e)")
  case True
  then show ?thesis
    using rc same by (auto simp: ReconcileRelaySlots_def split: sum.splits if_splits)
next
  case False
  then obtain m where m: "check_specs specs fmempty = Inr m"
    by (cases "check_specs specs fmempty") auto
  let ?relay = "\<lambda>i. sp_Kind (s_spec (p_heap p (the (fmlookup (p_slots p) i)))) = KindRelaySocks"
  let ?nxt = "fmfilter (\<lambda>i. \<not> ?relay i) (p_slots p)"
  obtain out p' where mg: "merge_specs m ord \<lparr>rc_Added = 0, rc_Removed = 0, rc_Retained = 0\<rparr> ?nxt p
      = (out, p')" by fastforce
  have n: "named (p_slots p) p" by (rule named_iff [OF ok])
  have "named ?nxt p" using n by (auto simp: named_def)
  then have ms: "grown p p' \<and> (\<forall>res' nxt'. out = Inr (res', nxt') \<longrightarrow>
      named nxt' p' \<and> (\<forall>i. i \<notin> set ord \<longrightarrow> fmlookup nxt' i = fmlookup ?nxt i) \<and>
      (\<forall>i\<in>set ord. \<forall>r. fmlookup (p_slots p) i = Some r \<longrightarrow> fmlookup nxt' i = Some r))"
    using merge_specs_spec [OF mg _ n] check_specs_ids [OF m] ord by blast
  show ?thesis
  proof (cases out)
    case (Inl e)
    then have "res = Inl e \<and> q = p'"
      using rc False m mg by (auto simp: ReconcileRelaySlots_def Let_def)
    then show ?thesis using ms failed by blast
  next
    case (Inr x)
    obtain r' nxt where x: "x = (r', nxt)" by fastforce
    then have "named nxt p'" and same: "\<forall>i. i \<notin> set ord \<longrightarrow> fmlookup nxt i = fmlookup ?nxt i"
      "\<forall>i\<in>set ord. \<forall>r. fmlookup (p_slots p) i = Some r \<longrightarrow> fmlookup nxt i = Some r"
      using ms Inr by blast+
    moreover have "\<forall>i x. fmlookup (p_slots p) i = Some x \<longrightarrow>
        sp_Kind (s_spec (p_heap p x)) \<noteq> KindRelaySocks \<longrightarrow> fmlookup nxt i = Some x"
    proof (intro allI impI)
      fix i x
      assume "fmlookup (p_slots p) i = Some x" "sp_Kind (s_spec (p_heap p x)) \<noteq> KindRelaySocks"
      then show "fmlookup nxt i = Some x" using same by (cases "i \<in> set ord") auto
    qed
    moreover obtain ses r where "res = Inr r \<and>
        q = p'\<lparr>p_slots := nxt, p_order := sorted_list_of_fset (fmdom nxt), p_sessions := ses\<rparr>"
      using rc False m mg Inr x
      by (auto simp: ReconcileRelaySlots_def Let_def split: sum.splits prod.splits)
    ultimately show ?thesis using ms merged by blast
  qed
qed

lemma grown_ids_ok: "grown p q \<Longrightarrow> ids_ok (ids p) \<Longrightarrow> ids_ok (ids q)"
proof -
  assume g: "grown p q" and ok: "ids_ok (ids p)"
  have "named (p_slots q) q"
    using named_grown [OF g named_iff [OF ok]] g by (simp add: grown_def)
  then show "ids_ok (ids q)"
    using g ok by (intro ids_okI) (simp_all add: grown_def ids_ok_def ids_def)
qed

text \<open>What reconciliation keeps.\<close>

lemma reconcile_keeps:
  assumes "ReconcileRelaySlots ord specs p = (res, q)"
    and "set ord = set (map sp_ID specs)" and "ids_ok (ids p)" and "fresh_zero p"
  shows "conn q = conn p" and "ids_ok (ids q)" and "p_nextRef p \<le> p_nextRef q"
    and "p_opts q = p_opts p" and "p_batches q = p_batches p" and "p_preferred q = p_preferred p"
proof -
  have "conn q = conn p \<and> ids_ok (ids q) \<and> p_nextRef p \<le> p_nextRef q \<and> p_opts q = p_opts p \<and>
      p_batches q = p_batches p \<and> p_preferred q = p_preferred p"
    using assms(1-3)
  proof (cases rule: reconcile_cases)
    case same
    then show ?thesis using assms by simp
  next
    case failed
    then show ?thesis
      using grown_counts(1) [OF failed(1) assms(4)] grown_ids_ok [OF failed(1) assms(3)]
      by (simp add: grown_def)
  next
    case (merged p' nxt ses r)
    have "ids_ok (ids q)"
      by (rule ids_okI) (use merged(2,4) in \<open>simp_all add: named_def sorted_list_of_fset.rep_eq\<close>)
    then show ?thesis
      using grown_counts(1) [OF merged(1) assms(4)] merged(1,4) by (simp add: grown_def)
  qed
  then show "conn q = conn p" "ids_ok (ids q)" "p_nextRef p \<le> p_nextRef q"
    "p_opts q = p_opts p" "p_batches q = p_batches p" "p_preferred q = p_preferred p"
    by simp_all
qed

section \<open>A new pool\<close>

definition new_ok :: "pool \<Rightarrow> bool" where
  "new_ok p \<longleftrightarrow>
     conn p = tallies {#} {#} \<and> named (p_slots p) p \<and> distinct (p_order p) \<and>
     set (p_order p) = fset (fmdom (p_slots p)) \<and> p_batches p = fmempty \<and>
     p_preferred p = fmempty"

lemma add_specs_ok:
  assumes "add_specs sps p = Inr q" and "new_ok p"
  shows "new_ok q \<and> p_opts q = p_opts p"
  using assms
proof (induction sps arbitrary: p)
  case (Cons sp sps)
  let ?p = "(alloc_slot sp p)\<lparr>p_slots := fmupd (sp_ID sp) (p_nextRef p) (p_slots p),
      p_order := p_order p @ [sp_ID sp]\<rparr>"
  have new: "sp_ID sp |\<notin>| fmdom (p_slots p)" and r: "add_specs sps ?p = Inr q"
    using Cons.prems(1) by (auto split: if_splits)
  have "s_leases (p_heap p r) = 0 \<and> s_pendingLeases (p_heap p r) = 0" for r
    using Cons.prems(2) by (auto simp: new_ok_def conn_def tallies_def fun_eq_iff)
  then have "conn ?p = conn p"
    by (auto simp: conn_def alloc_slot_def new_slot_state_def fun_eq_iff)
  moreover have "named (p_slots ?p) ?p"
    using Cons.prems(2)
    by (auto simp: new_ok_def named_def alloc_slot_def new_slot_state_def slot_ID_def less_Suc_eq
        split: if_splits)
  ultimately have "new_ok ?p"
    using Cons.prems(2) new by (auto simp: new_ok_def alloc_slot_def)
  from Cons.IH [OF r this] show ?case by (simp add: alloc_slot_def)
qed simp

lemma NewWithSpecs_ok:
  assumes "NewWithSpecs specs entries opts = Inr p"
  shows "new_ok p" and "sorted (p_order p)" and "p_opts p = applyDefaults opts"
proof -
  obtain q where q: "add_specs specs (empty_pool (applyDefaults opts) entries) = Inr q"
    "p = q\<lparr>p_order := sort (p_order q)\<rparr>"
    using assms by (auto simp: NewWithSpecs_def split: if_splits sum.splits)
  have "new_ok (empty_pool (applyDefaults opts) entries)"
    by (auto simp: new_ok_def empty_pool_def conn_def tallies_def named_def new_slot_state_def)
  then have "new_ok q \<and> p_opts q = applyDefaults opts"
    using add_specs_ok [OF q(1)] by (simp add: empty_pool_def)
  then show "new_ok p" "sorted (p_order p)" "p_opts p = applyDefaults opts"
    by (auto simp: q(2) new_ok_def named_def)
qed

section \<open>The invariant\<close>

definition state_ok :: "pool \<Rightarrow> bool" where
  "state_ok p \<longleftrightarrow>
     ids_ok (ids p) \<and> batches_ok p \<and> 0 < PreferredMax (p_opts p) \<and> rings_ok p"

definition held_ok :: "pool \<Rightarrow> (policy \<times> string \<times> acquiring) multiset \<Rightarrow> lease multiset \<Rightarrow> bool" where
  "held_ok p A L \<longleftrightarrow>
     (\<forall>x\<in>#A. acq_ok (snd (snd x))) \<and> (\<forall>l\<in>#L. \<not> l_released l) \<and>
     (\<forall>r\<in>#image_mset (\<lambda>x. the (reserved_ref (snd (snd x))))
            (filter_mset (\<lambda>x. reserved_ref (snd (snd x)) \<noteq> None) A) + image_mset l_state L.
        r < p_nextRef p)"

lemma conn_inv_iff:
  "conn_inv w \<longleftrightarrow>
     conn (w_pool w) = tallies (reserved w) (leased w) \<and>
     within_limits (p_opts (w_pool w)) (tallies (reserved w) (leased w)) \<and>
     state_ok (w_pool w) \<and> held_ok (w_pool w) (w_acqs w) (w_leases w)"
  by (auto simp: conn_inv_def tally_eq state_ok_def held_ok_def reserved_def leased_def)

lemma conn_inv_facts:
  assumes "conn_inv w"
  shows "conn (w_pool w) = tallies (reserved w) (leased w)"
    and "within_limits (p_opts (w_pool w)) (tallies (reserved w) (leased w))"
    and "state_ok (w_pool w)" and "r \<in># reserved w + leased w \<Longrightarrow> r < p_nextRef (w_pool w)"
proof -
  show c: "conn (w_pool w) = tallies (reserved w) (leased w)"
    using assms by (simp add: conn_inv_iff)
  show "within_limits (p_opts (w_pool w)) (tallies (reserved w) (leased w))"
    using assms by (simp add: conn_inv_iff)
  show "state_ok (w_pool w)" using assms by (simp add: conn_inv_iff)
  show "r \<in># reserved w + leased w \<Longrightarrow> r < p_nextRef (w_pool w)"
    using assms unfolding conn_inv_def by blast
qed

lemma keeps_state_ok: "keeps p q \<Longrightarrow> state_ok p \<Longrightarrow> state_ok q"
  by (simp add: keeps_def state_ok_def)

lemma keeps_next: "keeps p q \<Longrightarrow> p_nextRef q = p_nextRef p"
  using arg_cong [of "ids q" "ids p" iv_next] by (simp add: keeps_def ids_def)

lemma conn_inv_other [simp]:
  "conn_inv (w\<lparr>w_openers := os\<rparr>) = conn_inv w" "conn_inv (w\<lparr>w_commits := cs\<rparr>) = conn_inv w"
  "conn_inv (w\<lparr>w_now := t\<rparr>) = conn_inv w"
  by (simp_all add: conn_inv_iff reserved_def leased_def)

lemma conn_inv_sane:
  assumes "conn_inv w" and "sane (w_pool w) p"
  shows "conn_inv (w\<lparr>w_pool := p\<rparr>)"
proof -
  have k: "keeps (w_pool w) p" by (rule sane_keeps [OF assms(2)])
  have "conn p = conn (w_pool w)" "p_opts p = p_opts (w_pool w)" using assms(2) by (auto simp: sane_def)
  moreover have "state_ok p" using assms(1) keeps_state_ok [OF k] by (simp add: conn_inv_iff)
  moreover have "held_ok p (w_acqs w) (w_leases w)"
    using assms(1) keeps_next [OF k] unfolding conn_inv_iff held_ok_def by metis
  moreover have "reserved (w\<lparr>w_pool := p\<rparr>) = reserved w" "leased (w\<lparr>w_pool := p\<rparr>) = leased w"
    by (simp_all add: reserved_def leased_def)
  ultimately show ?thesis using assms(1) unfolding conn_inv_iff by auto
qed

lemmas conn_inv_quiet = conn_inv_sane [OF _ quiet_sane]

lemma reserved_add:
  "w_acqs w = add_mset (pol, t, a) rest \<Longrightarrow>
     reserved w = (case reserved_ref a of
        Some r \<Rightarrow> add_mset r (reserved (w\<lparr>w_acqs := rest\<rparr>))
      | None \<Rightarrow> reserved (w\<lparr>w_acqs := rest\<rparr>))"
  by (auto simp: reserved_def split: option.split)

lemma within_tallies:
  "within_limits opts (tallies R L) \<longleftrightarrow>
     (MaxConcurrentConns opts > 0 \<longrightarrow> int (size L) + int (size R) \<le> MaxConcurrentConns opts) \<and>
     (MaxConnsPerExit opts > 0 \<longrightarrow>
        (\<forall>r. int (count L r) + int (count R r) \<le> MaxConnsPerExit opts))"
  by (simp add: within_limits_def tallies_def)

lemma within_mono:
  assumes "within_limits opts (tallies R' L')" and "R \<subseteq># R'" and "L \<subseteq># L'"
  shows "within_limits opts (tallies R L)"
proof -
  have "size L \<le> size L'" "size R \<le> size R'" using assms by (simp_all add: size_mset_mono)
  moreover have "int (count L r) + int (count R r) \<le> k"
    if "int (count L' r) + int (count R' r) \<le> k" for r k
    using that assms(2,3) mset_subset_eq_count [of R R' r] mset_subset_eq_count [of L L' r]
    by linarith
  ultimately show ?thesis using assms(1) unfolding within_tallies by fastforce
qed

lemma within_swap:
  "within_limits opts (tallies R (add_mset r L)) = within_limits opts (tallies (add_mset r R) L)"
  by (simp add: within_tallies add.assoc) (auto split: if_splits simp: algebra_simps)

lemma next_attempt_simps [simp]:
  "reserved_ref (next_attempt p n e) = None" "next_attempt p n e \<noteq> Acquired l"
  "(case next_attempt p n e of Acquired l \<Rightarrow> f l | _ \<Rightarrow> z) = z"
  "\<not> finished (next_attempt p n e) \<longrightarrow> acq_ok (next_attempt p n e)"
  by (simp_all add: next_attempt_def acq_ok_def)

text \<open>The effect of one critical section of an acquisition on the counters.\<close>

lemma acq_step_effect:
  assumes st: "acq_step rnd ord dr now pol t a p = (a', q)" and a: "acq_ok a"
    and rnd: "\<And>n. 0 < n \<Longrightarrow> rnd n < n" and lim: "within_limits (p_opts p) (conn p)"
    and ok: "state_ok p" and rR: "\<And>r. reserved_ref a = Some r \<Longrightarrow> r \<in># R"
    and c: "conn p = tallies R L"
  shows "keeps p q \<and> within_limits (p_opts p) (conn q) \<and> (\<not> finished a' \<longrightarrow> acq_ok a') \<and>
         conn q = tallies
           ((case reserved_ref a of None \<Rightarrow> R | Some r \<Rightarrow> R - {#r#}) +
            (case reserved_ref a' of None \<Rightarrow> {#} | Some r \<Rightarrow> {#r#}))
           (L + (case a' of Acquired l \<Rightarrow> {#l_state l#} | _ \<Rightarrow> {#})) \<and>
         (\<forall>r. reserved_ref a' = Some r \<longrightarrow> r < p_nextRef p) \<and>
         (\<forall>l. a' = Acquired l \<longrightarrow> \<not> l_released l \<and> reserved_ref a = Some (l_state l))"
proof (cases a)
  case (Picking n le)
  obtain res p1 where pk: "pick rnd ord pol t now p = (res, p1)" by fastforce
  show ?thesis
  proof (cases res)
    case (Inl e)
    then show ?thesis
      using st Picking pk pick_refused [of rnd ord pol t now p e p1] rnd lim c pick_keeps [OF pk]
      by (auto simp: finished_def)
  next
    case (Inr pd)
    obtain r' sticky ar where pd: "pd = Picked r' sticky ar" by (cases pd)
    note pr = pick_reserves [OF pk [unfolded Inr pd] rnd lim]
    have "r' < p_nextRef p"
      using pr(4) ok by (auto simp: state_ok_def ids_ok_def ids_def)
    then show ?thesis
      using st Picking pk Inr pd pr pick_keeps [OF pk] c
      by (auto simp: acq_ok_def finished_def)
  qed
next
  case (Dialing n e r' sticky ar)
  have ar: "ar_state ar = r' \<and> ar_active ar" using a Dialing by (simp add: acq_ok_def)
  have "r' \<in># R"
    using rR Dialing a c by simp
  then obtain R' where R: "R = add_mset r' R'" by (meson multi_member_split)
  show ?thesis
  proof (cases dr)
    case (Inl er)
    then have q: "q = rollbackAcquisition (Some ar) p" and a': "a' = Failing n er r' sticky"
      using st Dialing by auto
    have "conn q = tallies R' L" using q ar R c by (simp add: rollback_conn)
    moreover have "within_limits (p_opts p) (tallies R' L)"
      using lim unfolding c R by (rule within_mono) simp_all
    ultimately show ?thesis
      using q a' Dialing R by (simp add: acq_ok_def finished_def)
  next
    case (Inr entryID)
    obtain l p1 where ac: "acquire_commit pol now entryID r' ar p = (l, p1)" by fastforce
    then have q: "q = p1" and a': "a' = Acquired l" using st Dialing Inr by auto
    note eff = acquire_commit_conn [OF conjunct2 [OF ar] conjunct1 [OF ar] ac]
    have cq: "conn q = tallies R' (add_mset r' L)" using eff(1) c R q by simp
    moreover have "within_limits (p_opts p) (tallies R' (add_mset r' L))"
      using lim unfolding c R by (simp add: within_swap)
    ultimately show ?thesis using eff q a' Dialing R by (simp add: finished_def)
  qed
next
  case (Failing n e r' sticky)
  have qq: "quiet p q" using st Failing by (auto simp: Let_def frame)
  have "a' = Dropping n e \<or> (\<exists>p. a' = next_attempt p (Suc n) (Some e))"
    using st Failing by (auto simp: Let_def split: if_splits)
  then show ?thesis
    using Failing quiet_keeps [OF qq] lim c qq
    by (elim disjE exE) (simp_all add: quiet_def, simp add: acq_ok_def)
next
  case (Dropping n e)
  have qq: "quiet p q" using st Dropping by (auto simp: Let_def)
  have "\<exists>p. a' = next_attempt p (Suc n) (Some e)" using st Dropping by (auto simp: Let_def)
  then show ?thesis
    using Dropping quiet_keeps [OF qq] lim c qq by (auto simp: quiet_def)
qed (use a in \<open>simp_all add: acq_ok_def finished_def\<close>)

lemma conn_inv_acquire:
  assumes inv: "conn_inv w" and A: "w_acqs w = add_mset (pol, t, a) rest"
    and rnd: "\<And>n. 0 < n \<Longrightarrow> rnd n < n"
    and st: "acq_step rnd ord dr now pol t a (w_pool w) = (a', q)"
  shows "conn_inv (after_acq pol t a' q w rest)"
proof -
  let ?p = "w_pool w" and ?w = "after_acq pol t a' q w rest"
  have a: "acq_ok a" and ok: "state_ok ?p" and lim: "within_limits (p_opts ?p) (conn ?p)"
    and c: "conn ?p = tallies (reserved w) (leased w)"
    using inv A by (auto simp: conn_inv_iff held_ok_def)
  have "reserved_ref a = Some r \<Longrightarrow> r \<in># reserved w" for r
    by (simp add: reserved_add [OF A])
  note eff = acq_step_effect [OF st a rnd lim ok this c]
  have k: "keeps ?p q" using eff by blast
  have res: "reserved ?w = (case reserved_ref a of None \<Rightarrow> reserved w | Some r \<Rightarrow> reserved w - {#r#}) +
      (case reserved_ref a' of None \<Rightarrow> {#} | Some r \<Rightarrow> {#r#})"
  proof -
    have fin: "finished a' \<Longrightarrow> reserved_ref a' = None"
      by (cases a') (simp_all add: finished_def)
    have "reserved w = (case reserved_ref a of
        Some r \<Rightarrow> add_mset r (reserved (w\<lparr>w_acqs := rest\<rparr>))
      | None \<Rightarrow> reserved (w\<lparr>w_acqs := rest\<rparr>))" by (rule reserved_add [OF A])
    then show ?thesis
      using fin by (auto simp: after_acq_def reserved_def split: option.split)
  qed
  have les: "leased ?w = leased w + (case a' of Acquired l \<Rightarrow> {#l_state l#} | _ \<Rightarrow> {#})"
    by (simp add: after_acq_def leased_def split: acquiring.split)
  have pool: "w_pool ?w = q" by (simp add: after_acq_def)
  have h: "r < p_nextRef q" if "r \<in># reserved ?w + leased ?w" for r
  proof -
    have old: "r \<in># reserved w + leased w \<Longrightarrow> r < p_nextRef ?p"
      using inv by (auto simp: conn_inv_def)
    have "reserved_ref a = Some r \<Longrightarrow> r \<in># reserved w"
      by (simp add: reserved_add [OF A])
    then have "r \<in># reserved w + leased w \<or> reserved_ref a' = Some r"
      using that eff
      by (auto simp: res les dest: in_diffD split: option.splits acquiring.splits)
    then show ?thesis using old eff keeps_next [OF k] by auto
  qed
  have "\<forall>x\<in>#w_acqs ?w. acq_ok (snd (snd x))"
    using inv A eff by (auto simp: conn_inv_def after_acq_def)
  moreover have "\<forall>l\<in>#w_leases ?w. \<not> l_released l"
    using inv eff by (auto simp: conn_inv_def after_acq_def split: acquiring.split)
  moreover have cq: "conn q = tallies (reserved ?w) (leased ?w)" using eff by (simp add: res les)
  moreover have "within_limits (p_opts ?p) (conn q)" using eff by blast
  then have "within_limits (p_opts ?p) (tallies (reserved ?w) (leased ?w))" unfolding cq .
  moreover have "p_opts q = p_opts ?p" using k by (simp add: keeps_def)
  moreover have "state_ok q" using keeps_state_ok [OF k ok] .
  ultimately show ?thesis
    using h by (simp add: conn_inv_def pool tally_eq state_ok_def)
qed

lemma conn_inv_release:
  assumes inv: "conn_inv w" and L: "w_leases w = add_mset l rest"
    and st: "Release now l (w_pool w) = (l', q)"
  shows "conn_inv (w\<lparr>w_pool := q, w_leases := rest\<rparr>)"
proof -
  let ?p = "w_pool w" and ?w = "w\<lparr>w_pool := q, w_leases := rest\<rparr>"
  have un: "\<not> l_released l" using inv L by (simp add: conn_inv_def)
  note eff = Release_conn [OF un st]
  have les: "leased w = add_mset (l_state l) (leased ?w)" by (simp add: leased_def L)
  have res: "reserved ?w = reserved w" by (simp add: reserved_def)
  have c: "conn q = tallies (reserved ?w) (leased ?w)"
    using eff(1) inv by (simp add: conn_inv_def tally_eq les res)
  have o: "p_opts q = p_opts ?p" using eff(2) by (simp add: keeps_def)
  have "within_limits (p_opts ?p) (tallies (reserved w) (leased w))"
    by (rule conn_inv_facts(2) [OF inv])
  then have "within_limits (p_opts ?p) (tallies (reserved ?w) (leased ?w))"
    by (rule within_mono) (simp_all add: les res)
  moreover have "state_ok q"
    using inv keeps_state_ok [OF eff(2)] by (simp add: conn_inv_iff)
  moreover have "\<forall>r\<in>#reserved ?w + leased ?w. r < p_nextRef q"
    using inv keeps_next [OF eff(2)] unfolding conn_inv_def les res by simp
  ultimately show ?thesis
    using inv c o L by (simp add: conn_inv_def tally_eq state_ok_def)
qed

lemma conn_inv_fresh_zero: "conn_inv w \<Longrightarrow> fresh_zero (w_pool w)"
proof -
  assume inv: "conn_inv w"
  have "s_leases (p_heap (w_pool w) r) = count (leased w) r \<and>
      s_pendingLeases (p_heap (w_pool w) r) = count (reserved w) r" for r
    using conn_inv_facts(1) [OF inv] by (simp add: tallies_def conn_def fun_eq_iff)
  moreover have "count (leased w) r = 0 \<and> count (reserved w) r = 0" if "p_nextRef (w_pool w) \<le> r" for r
    using conn_inv_facts(4) [OF inv, of r] that by (auto simp: count_eq_zero_iff)
  ultimately show ?thesis by (simp add: fresh_zero_def)
qed

lemma conn_inv_reconcile:
  assumes inv: "conn_inv w" and ord: "set ord = set (map sp_ID specs)"
    and st: "ReconcileRelaySlots ord specs (w_pool w) = (res, q)"
  shows "conn_inv (w\<lparr>w_pool := q\<rparr>)"
proof -
  have "ids_ok (ids (w_pool w))" using inv by (simp add: conn_inv_def)
  note k = reconcile_keeps [OF st ord this conn_inv_fresh_zero [OF inv]]
  have rl: "reserved (w\<lparr>w_pool := q\<rparr>) = reserved w" "leased (w\<lparr>w_pool := q\<rparr>) = leased w"
    by (simp_all add: reserved_def leased_def)
  have "batches_ok q = batches_ok (w_pool w)" "rings_ok q = rings_ok (w_pool w)"
    using k by (simp_all add: batches_ok_def rings_ok_def)
  moreover have "r < p_nextRef q" if "r \<in># reserved w + leased w" for r
    using conn_inv_facts(4) [OF inv that] k(3) by simp
  ultimately have "state_ok q" "held_ok q (w_acqs w) (w_leases w)"
    using inv k by (simp_all add: conn_inv_def state_ok_def held_ok_def reserved_def leased_def)
  then show ?thesis
    using conn_inv_facts [OF inv] k by (simp add: conn_inv_iff rl)
qed

text \<open>One case for each kind of step.\<close>

lemma conn_inv_step:
  assumes "step w w'" and inv: "conn_inv w"
  shows "conn_inv w'"
  using assms(1)
proof cases
  case (start a pol t)
  have a: "a = Picking 0 None"
    using start(2,3) by (auto simp: acquire_start_def next_attempt_def finished_def split: if_splits)
  have "reserved w' = reserved w" "leased w' = leased w"
    by (simp_all add: start(1) a reserved_def leased_def)
  moreover have "held_ok (w_pool w') (w_acqs w') (w_leases w')"
    using inv by (simp add: conn_inv_iff held_ok_def start(1) a acq_ok_def finished_def)
  ultimately show ?thesis
    using inv by (simp add: conn_inv_iff start(1))
next
  case (acquire pol t a rest rnd ord dr a' p)
  show ?thesis unfolding acquire(1) by (rule conn_inv_acquire [OF inv acquire(2,3,5)])
next
  case (release l rest l' p)
  show ?thesis unfolding release(1) by (rule conn_inv_release [OF inv release(2,3)])
next
  case (other p)
  show ?thesis unfolding other(1) by (rule conn_inv_sane [OF inv pool_op_sane [OF other(2)]])
next
  case (reconcile ord specs res p)
  show ?thesis unfolding reconcile(1) by (rule conn_inv_reconcile [OF inv reconcile(2,4)])
next
  case (slot_enter ord i r ce res p)
  show ?thesis
    using conn_inv_quiet [OF inv ensureOpen_enter_quiet [OF slot_enter(5)]] by (simp add: slot_enter(1))
next
  case (entry_enter ord i ce res p)
  show ?thesis
    using conn_inv_quiet [OF inv ensureEntryOpen_enter_quiet [OF entry_enter(4)]]
    by (simp add: entry_enter(1))
next
  case (probe_enter ord ce res p)
  show ?thesis
    using conn_inv_quiet [OF inv probeDialer_enter_quiet [OF probe_enter(3)]]
    by (simp add: probe_enter(1))
qed (use inv in \<open>simp_all add: conn_inv_quiet frame\<close>)

lemma conn_inv_init:
  assumes "NewWithSpecs specs entries opts = Inr p"
  shows "conn_inv \<lparr>w_pool = p, w_now = t, w_acqs = {#}, w_leases = {#}, w_openers = {#},
    w_commits = []\<rparr>"
proof -
  note n = NewWithSpecs_ok [OF assms]
  have "within_limits (p_opts p) (tallies {#} {#})" by (simp add: within_tallies)
  moreover have "ids_ok (ids p)" by (rule ids_okI) (use n in \<open>simp_all add: new_ok_def\<close>)
  moreover have "0 < PreferredMax (p_opts p)"
    by (simp add: n(3) applyDefaults_def Let_def default_to_def)
  moreover have "0 \<le> MaxUniqueBatches (p_opts p)"
    by (simp add: n(3) applyDefaults_def Let_def default_to_def)
  ultimately show ?thesis
    using n(1) by (simp add: conn_inv_iff reserved_def leased_def state_ok_def held_ok_def
        new_ok_def batches_ok_def rings_ok_def)
qed

theorem reachable_conn_inv: "reachable w \<Longrightarrow> conn_inv w"
  by (induction rule: reachable.induct) (auto intro: conn_inv_init conn_inv_step)

end
