(* ===== verification/Samples.thy ===== *)
theory Samples
  imports Reachable
begin

text \<open>
  A small concrete pool, and a run of it: an acquisition that ends in a lease. The theorems about
  reachable worlds are applied to it.
\<close>

definition demo_spec :: "string \<Rightarrow> kind \<Rightarrow> spec" where
  "demo_spec i k = \<lparr>sp_ID = i, sp_Country = ''US'', sp_City = ''NYC'', sp_Provider = ''mullvad'',
     sp_Rotating = False, sp_Kind = k, sp_WG = no_wg, sp_SocksAddr = ''10.0.0.1:1080'',
     sp_socksUsername = [], sp_socksPassword = []\<rparr>"

definition demo_opts :: options where
  "demo_opts = \<lparr>MaxActive = 1, MaxConnsPerExit = 1, MaxConcurrentConns = 2, SessionTTL = 0,
     MaxSessionTTL = 0, MaxSessions = 0, BatchTTL = 0, MaxBatchTTL = 0, MaxUniqueBatches = 0,
     Cooldown = 0, PreferredTTL = 0, PreferredMax = 0, IdleTimeout = 0, HandshakeTimeout = 0,
     DialAttempts = 0, FailureBackoff = 0, NewTunnelBudget = 1, NewTunnelWindow = 0,
     EntryExploreRate = 0, DisableEntryExploration = False, IPCheckURL = [], IPCheckTimeout = 0,
     IPRefreshInterval = 0, IPCheckConcurrency = 0\<rparr>"

definition demo_specs :: "spec list" where
  "demo_specs = [demo_spec ''b'' KindDirectSocks, demo_spec ''a'' KindWireGuard]"

definition demo_pool :: pool where
  "demo_pool = (case NewWithSpecs demo_specs [] demo_opts of
      Inr p \<Rightarrow> p | Inl _ \<Rightarrow> empty_pool demo_opts [])"

definition demo_pick :: "acquiring \<times> pool" where
  "demo_pick = acq_step (\<lambda>_. 0) [''a'', ''b''] (Inl ErrBusy) 5 no_policy ''t'' (Picking 0 None)
     demo_pool"

definition demo_got :: "acquiring \<times> pool" where
  "demo_got = acq_step (\<lambda>_. 0) [''a'', ''b''] (Inr []) 5 no_policy ''t'' (fst demo_pick)
     (snd demo_pick)"

definition demo_lease :: lease where
  "demo_lease = (case fst demo_got of Acquired l \<Rightarrow> l | _ \<Rightarrow>
     \<lparr>l_state = 0, l_Slot = demo_spec [] KindWireGuard, l_Entry = [], l_Chained = False,
      l_PublicIP = None, l_Session = [], l_released = False\<rparr>)"

definition demo_start :: world where
  "demo_start = \<lparr>w_pool = demo_pool, w_now = 5, w_acqs = {#}, w_leases = {#}, w_openers = {#},
     w_commits = []\<rparr>"

definition demo_dialing :: world where
  "demo_dialing = demo_start\<lparr>w_pool := snd demo_pick, w_acqs := {#(no_policy, ''t'', fst demo_pick)#}\<rparr>"

definition demo_world :: world where
  "demo_world = demo_start\<lparr>w_pool := snd demo_got, w_leases := {#demo_lease#}\<rparr>"

lemma demo_new: "NewWithSpecs demo_specs [] demo_opts = Inr demo_pool"
proof -
  have "\<not> isl (NewWithSpecs demo_specs [] demo_opts)" by code_simp
  then show ?thesis by (cases "NewWithSpecs demo_specs [] demo_opts") (simp_all add: demo_pool_def)
qed

lemma demo_order: "slot_order demo_pool [''a'', ''b'']"
proof -
  have "fmdom (p_slots demo_pool) = {|''a'', ''b''|}" by code_simp
  then show ?thesis by (auto simp: slot_order_def)
qed

lemma demo_start_reachable: "reachable demo_start"
  unfolding demo_start_def by (rule reachable.init [OF demo_new])

lemma demo_dialing_reachable: "reachable demo_dialing"
proof -
  let ?w = "demo_start\<lparr>w_acqs := {#(no_policy, ''t'', Picking 0 None)#}\<rparr>"
  have "acquire_start demo_pool = Picking 0 None" by code_simp
  then have "step demo_start ?w"
    using step.start [of demo_start "Picking 0 None" no_policy "''t''"]
    by (simp add: demo_start_def finished_def)
  then have r: "reachable ?w" by (rule reachable.next_step [OF demo_start_reachable])
  have "\<not> finished (fst demo_pick)" "reserved_ref (fst demo_pick) \<noteq> None" by code_simp+
  then have n: "\<not> finished (fst demo_pick)" "\<And>l. fst demo_pick \<noteq> Acquired l"
    by (auto simp: finished_def)
  have "step ?w (after_acq no_policy ''t'' (fst demo_pick) (snd demo_pick) ?w {#})"
    by (rule step.acquire [where rnd = "\<lambda>_. 0" and ord = "[''a'', ''b'']" and dr = "Inl ErrBusy"])
      (simp_all add: demo_start_def demo_order demo_pick_def del: acq_step.simps)
  moreover have "after_acq no_policy ''t'' (fst demo_pick) (snd demo_pick) ?w {#} = demo_dialing"
    using n by (simp add: after_acq_def demo_dialing_def split: acquiring.split)
  ultimately show ?thesis using r reachable.next_step by metis
qed

lemma demo_reachable: "reachable demo_world"
proof -
  have "slot_ref (snd demo_pick) ''a'' \<noteq> None" "fmdom (p_slots (snd demo_pick)) = {|''a'', ''b''|}"
    by code_simp+
  then have so: "slot_order (snd demo_pick) [''a'', ''b'']" by (auto simp: slot_order_def)
  have "(case fst demo_got of Acquired l \<Rightarrow> True | _ \<Rightarrow> False)" by code_simp
  then have g: "fst demo_got = Acquired demo_lease"
    by (simp add: demo_lease_def split: acquiring.splits)
  have "step demo_dialing (after_acq no_policy ''t'' (fst demo_got) (snd demo_got) demo_dialing {#})"
    by (rule step.acquire [where rnd = "\<lambda>_. 0" and ord = "[''a'', ''b'']" and dr = "Inr []"])
      (simp_all add: demo_start_def demo_dialing_def so demo_got_def del: acq_step.simps)
  moreover have "after_acq no_policy ''t'' (fst demo_got) (snd demo_got) demo_dialing {#} = demo_world"
    by (simp add: g after_acq_def demo_dialing_def demo_world_def demo_start_def finished_def)
  ultimately show ?thesis using demo_dialing_reachable reachable.next_step by metis
qed

text \<open>
  A second run: the address of a slot is measured, a client prefers the slot for a destination, and
  an acquisition for a unique batch selects it.
\<close>

definition demo_ip :: netaddr where
  "demo_ip = Some (V4 16909060)"

definition demo_batch_policy :: policy where
  "demo_batch_policy = no_policy\<lparr>pol_UniqueBatch := ''job''\<rparr>"

definition demo_measured :: pool where
  "demo_measured = maybeCheckIP_finish (Some demo_ip) 5 0 demo_pool"

definition demo_preferred :: pool where
  "demo_preferred = snd (Prefer \<lparr>pi_Slot = ''b'', pi_PublicIP = None, pi_Target = ''t'', pi_TTL = 0\<rparr> 5
     demo_measured)"

definition demo_uniq :: "acquiring \<times> pool" where
  "demo_uniq = acq_step (\<lambda>_. 0) [''a'', ''b''] (Inl ErrBusy) 5 demo_batch_policy ''t''
     (Picking 0 None) demo_preferred"

definition demo_batch_world :: world where
  "demo_batch_world = demo_start\<lparr>w_pool := snd demo_uniq,
     w_acqs := {#(demo_batch_policy, ''t'', fst demo_uniq)#}\<rparr>"

lemma demo_batch_reachable: "reachable demo_batch_world"
proof -
  let ?m = "demo_start\<lparr>w_pool := demo_measured\<rparr>"
  let ?p = "demo_start\<lparr>w_pool := demo_preferred\<rparr>"
  let ?s = "?p\<lparr>w_acqs := {#(demo_batch_policy, ''t'', Picking 0 None)#}\<rparr>"
  have "step demo_start ?m"
    by (rule step.other) (simp add: demo_start_def demo_measured_def pool_op.op_check_finish)
  then have "reachable ?m" by (rule reachable.next_step [OF demo_start_reachable])
  moreover have "step ?m (?m\<lparr>w_pool := demo_preferred\<rparr>)"
    by (rule step.other) (simp add: demo_start_def demo_preferred_def pool_op.op_prefer)
  ultimately have "reachable ?p" using reachable.next_step by fastforce
  moreover have "acquire_start demo_preferred = Picking 0 None" by code_simp
  then have "step ?p ?s"
    using step.start [of ?p "Picking 0 None" demo_batch_policy "''t''"]
    by (simp add: demo_start_def finished_def)
  ultimately have r: "reachable ?s" by (rule reachable.next_step)
  have "\<not> finished (fst demo_uniq)" "reserved_ref (fst demo_uniq) \<noteq> None" by code_simp+
  then have n: "\<not> finished (fst demo_uniq)" "\<And>l. fst demo_uniq \<noteq> Acquired l"
    by (auto simp: finished_def)
  have "fmdom (p_slots demo_preferred) = {|''a'', ''b''|}" by code_simp
  then have so: "slot_order demo_preferred [''a'', ''b'']" by (auto simp: slot_order_def)
  have "step ?s (after_acq demo_batch_policy ''t'' (fst demo_uniq) (snd demo_uniq) ?s {#})"
    by (rule step.acquire [where rnd = "\<lambda>_. 0" and ord = "[''a'', ''b'']" and dr = "Inl ErrBusy"])
      (simp_all add: demo_start_def so demo_uniq_def del: acq_step.simps)
  moreover have "after_acq demo_batch_policy ''t'' (fst demo_uniq) (snd demo_uniq) ?s {#} =
      demo_batch_world"
    using n by (simp add: after_acq_def demo_batch_world_def split: acquiring.split)
  ultimately show ?thesis using r reachable.next_step by metis
qed

end
