(* ===== verification/Connections.thy ===== *)
theory Connections
  imports Samples
begin

text \<open>
  The theorems on the connection caps, the connection counters and the names of the slots in every
  reachable world: what \<open>conn_inv\<close> means for the fields of the pool.
\<close>

text \<open>
  The connections through an exit, by its name: the leases in use and the acquisitions that wait for a dialer. An
  exit has more than one state while connections go on through one that a refresh has dropped.
\<close>

definition exit_conns :: "world \<Rightarrow> string \<Rightarrow> nat" where
  "exit_conns w i = size (filter_mset (\<lambda>r. slot_ID (p_heap (w_pool w) r) = i) (leased w + reserved w))"

definition detached :: "world \<Rightarrow> string \<Rightarrow> ref set" where
  "detached w i =
     {r \<in> set_mset (leased w + reserved w). slot_ID (p_heap (w_pool w) r) = i \<and> fmlookup (p_slots (w_pool w)) i \<noteq> Some r}"

lemma size_filter_le:
  assumes "\<And>r. int (count M r) \<le> k" and "{r \<in> set_mset M. P r} \<subseteq> insert x D" and "finite D"
    and "0 \<le> k"
  shows "int (size (filter_mset P M)) \<le> k * (1 + int (card D))"
proof -
  have "int (size (filter_mset P M)) = (\<Sum>r\<in>{r \<in> set_mset M. P r}. int (count M r))"
    by (simp add: size_multiset_overloaded_eq)
  also have "\<dots> \<le> (\<Sum>r\<in>{r \<in> set_mset M. P r}. k)" by (rule sum_mono) (rule assms(1))
  also have "\<dots> = int (card {r \<in> set_mset M. P r}) * k" by simp
  also have "\<dots> \<le> int (card (insert x D)) * k"
    using assms by (intro mult_right_mono) (simp_all add: card_mono)
  also have "\<dots> \<le> (1 + int (card D)) * k"
    using assms(3,4) by (intro mult_right_mono) (simp_all add: card_insert_if)
  finally show ?thesis by (simp add: mult.commute)
qed

lemma exit_within:
  assumes "within_limits opts (tally w)" and "0 < MaxConnsPerExit opts"
  shows "int (exit_conns w i) \<le> MaxConnsPerExit opts * (1 + int (card (detached w i)))"
  unfolding exit_conns_def
proof (rule size_filter_le [where x = "the (fmlookup (p_slots (w_pool w)) i)"])
  show "int (count (leased w + reserved w) r) \<le> MaxConnsPerExit opts" for r
    using assms by (simp add: within_limits_def tally_def)
  show "finite (detached w i)" by (simp add: detached_def)
  show "{r \<in> set_mset (leased w + reserved w). slot_ID (p_heap (w_pool w) r) = i}
      \<subseteq> insert (the (fmlookup (p_slots (w_pool w)) i)) (detached w i)"
    by (auto simp: detached_def)
qed (use assms in simp)


text \<open>A relay that is dropped with a connection and added again takes a second connection, with a cap of one.\<close>

definition demo_exit_pool :: pool where
  "demo_exit_pool = (case NewWithSpecs [demo_spec ''r'' KindRelaySocks] [no_wg] demo_opts of
      Inr p \<Rightarrow> p | Inl _ \<Rightarrow> empty_pool demo_opts [])"

definition demo_exit_step :: "acquiring \<Rightarrow> (pool_error + string) \<Rightarrow> pool \<Rightarrow> acquiring \<times> pool" where
  "demo_exit_step a dr p = acq_step (\<lambda>_. 0) [''r''] dr 5 no_policy ''t'' a p"

definition demo_exit_first :: "acquiring \<times> pool" where
  "demo_exit_first =
     (case demo_exit_step (Picking 0 None) (Inl ErrBusy) demo_exit_pool of (a, p) \<Rightarrow> demo_exit_step a (Inr []) p)"

definition demo_exit_readded :: pool where
  "demo_exit_readded =
     snd (ReconcileRelaySlots [''r''] [demo_spec ''r'' KindRelaySocks]
       (snd (ReconcileRelaySlots [''s''] [demo_spec ''s'' KindRelaySocks] (snd demo_exit_first))))"

definition demo_exit_second :: "acquiring \<times> pool" where
  "demo_exit_second = demo_exit_step (Picking 0 None) (Inl ErrBusy) demo_exit_readded"

definition demo_exit_lease :: lease where
  "demo_exit_lease = (case fst demo_exit_first of Acquired l \<Rightarrow> l | _ \<Rightarrow> demo_lease)"

definition demo_exit_world :: world where
  "demo_exit_world = \<lparr>w_pool = snd demo_exit_second, w_now = 5, w_acqs = {#(no_policy, ''t'', fst demo_exit_second)#},
     w_leases = {#demo_exit_lease#}, w_openers = {#}, w_commits = []\<rparr>"

lemma reach_acquire:
  assumes "reachable w" and "w_acqs w = {#(pol, t, a)#}" and "fset (fmdom (p_slots (w_pool w))) = set ord" and "distinct ord"
    and "acq_step (\<lambda>_. 0) ord dr (w_now w) pol t a (w_pool w) = (a', p)"
  shows "reachable (after_acq pol t a' p w {#})"
  using assms(1)
  by (rule reachable.next_step)
    (rule step.acquire [where rnd = "\<lambda>_. 0" and ord = ord and dr = dr], use assms in \<open>simp_all add: slot_order_def\<close>)

lemma reach_start:
  assumes "reachable w" and "w_acqs w = {#}" and "acquire_start (w_pool w) = Picking 0 None"
  shows "reachable (w\<lparr>w_acqs := {#(pol, t, Picking 0 None)#}\<rparr>)"
  using reachable.next_step [OF assms(1) step.start [OF assms(3), of pol t]] assms(2)
  by (simp add: finished_def)

lemma reach_reconcile:
  assumes "reachable w" and "set ord = set (map sp_ID specs)" and "distinct ord"
  shows "reachable (w\<lparr>w_pool := snd (ReconcileRelaySlots ord specs (w_pool w))\<rparr>)"
  using assms(1)
  by (rule reachable.next_step) (rule step.reconcile [OF assms(2,3)], simp add: prod_eq_iff)

lemma after_acq_open:
  "\<not> finished a \<Longrightarrow> after_acq pol t a p w rest = w\<lparr>w_pool := p, w_acqs := add_mset (pol, t, a) rest\<rparr>"
  by (simp add: after_acq_def finished_def split: acquiring.splits)

lemma demo_exit_first_world:
  "fst demo_exit_first = Acquired demo_exit_lease"
  "reachable \<lparr>w_pool = snd demo_exit_first, w_now = 5, w_acqs = {#}, w_leases = {#demo_exit_lease#},
     w_openers = {#}, w_commits = []\<rparr>"
proof -
  let ?w = "\<lambda>p as ls. \<lparr>w_pool = p, w_now = 5, w_acqs = as, w_leases = ls, w_openers = {#}, w_commits = []\<rparr>"
  have "\<not> isl (NewWithSpecs [demo_spec ''r'' KindRelaySocks] [no_wg] demo_opts)" by code_simp
  then have "NewWithSpecs [demo_spec ''r'' KindRelaySocks] [no_wg] demo_opts = Inr demo_exit_pool"
    by (cases "NewWithSpecs [demo_spec ''r'' KindRelaySocks] [no_wg] demo_opts") (simp_all add: demo_exit_pool_def)
  then have r0: "reachable (?w demo_exit_pool {#} {#})" by (rule reachable.init)
  have ev: "acquire_start demo_exit_pool = Picking 0 None" by code_simp
  note r1 = reach_start [OF r0, of no_policy "''t''", simplified, OF ev]
  obtain a1 p1 where s1: "demo_exit_step (Picking 0 None) (Inl ErrBusy) demo_exit_pool = (a1, p1)" by fastforce
  obtain a2 p2 where s2: "demo_exit_step a1 (Inr []) p1 = (a2, p2)" by fastforce
  have f: "demo_exit_first = (a2, p2)" using s1 s2 by (simp add: demo_exit_first_def)
  have d: "fmdom (p_slots demo_exit_pool) = {|''r''|}"
    "fmdom (p_slots (snd (demo_exit_step (Picking 0 None) (Inl ErrBusy) demo_exit_pool))) = {|''r''|}"
    "case fst (demo_exit_step (Picking 0 None) (Inl ErrBusy) demo_exit_pool) of Dialing n e r st ar \<Rightarrow> True | _ \<Rightarrow> False"
    "case fst demo_exit_first of Acquired l \<Rightarrow> True | _ \<Rightarrow> False"
    by code_simp+
  have a1: "\<not> finished a1"
    using d(3) s1 by (auto simp: finished_def split: acquiring.splits)
  have r2: "reachable (?w p1 {#(no_policy, ''t'', a1)#} {#})"
    using reach_acquire [OF r1, of no_policy "''t''" "Picking 0 None" "[''r'']" "Inl ErrBusy" a1 p1] d(1) s1 a1
    by (simp add: demo_exit_step_def after_acq_open del: acq_step.simps)
  show g: "fst demo_exit_first = Acquired demo_exit_lease"
    using d(4) by (simp add: demo_exit_lease_def split: acquiring.splits)
  show "reachable (?w (snd demo_exit_first) {#} {#demo_exit_lease#})"
    using reach_acquire [OF r2, of no_policy "''t''" a1 "[''r'']" "Inr []" a2 p2] d(2) s1 s2 g
    by (simp add: demo_exit_step_def after_acq_def f finished_def del: acq_step.simps)
qed

lemma demo_exit_reachable: "reachable demo_exit_world"
proof -
  let ?w = "\<lambda>p as. \<lparr>w_pool = p, w_now = 5, w_acqs = as, w_leases = {#demo_exit_lease#}, w_openers = {#}, w_commits = []\<rparr>"
  have r: "reachable (?w demo_exit_readded {#})"
    using reach_reconcile [OF reach_reconcile [OF demo_exit_first_world(2),
          of "[''s'']" "[demo_spec ''s'' KindRelaySocks]"], of "[''r'']" "[demo_spec ''r'' KindRelaySocks]"]
    by (simp add: demo_exit_readded_def demo_spec_def)
  have ev: "acquire_start demo_exit_readded = Picking 0 None" "fmdom (p_slots demo_exit_readded) = {|''r''|}"
    "case fst demo_exit_second of Dialing n e r st ar \<Rightarrow> True | _ \<Rightarrow> False"
    by code_simp+
  have a: "\<not> finished (fst demo_exit_second)"
    using ev(3) by (auto simp: finished_def split: acquiring.splits)
  show ?thesis
    using reach_acquire [OF reach_start [OF r, of no_policy "''t''", simplified, OF ev(1)], of no_policy "''t''"
        "Picking 0 None" "[''r'']" "Inl ErrBusy" "fst demo_exit_second" "snd demo_exit_second"] ev(2) a
    by (simp add: demo_exit_step_def demo_exit_second_def demo_exit_world_def after_acq_open del: acq_step.simps)
qed


text \<open>
  The connection counters are exact in every reachable world. The pool's \<open>leased\<close> is the number
  of leases that were handed out and not released, its \<open>pendingLeases\<close> the number of acquisitions
  that wait for a dialer, and each slot counts its own: no path through success, failure, retry or
  release loses or double counts a connection.
\<close>

theorem connection_counters:
  assumes "reachable w"
  shows "p_leased (w_pool w) = size (w_leases w) \<and>
         p_pendingLeases (w_pool w) = size (reserved w) \<and>
         s_leases (p_heap (w_pool w) r) = count (image_mset l_state (w_leases w)) r \<and>
         s_pendingLeases (p_heap (w_pool w) r) = count (reserved w) r"
  using conn_inv_facts(1) [OF reachable_conn_inv [OF assms]]
  by (simp add: conn_def tallies_def leased_def fun_eq_iff)

theorem connection_counters_witness:
  "p_pendingLeases (w_pool demo_dialing) = 1 \<and> size (reserved demo_dialing) = 1 \<and>
   p_leased (w_pool demo_world) = 1 \<and> w_leases demo_world = {#demo_lease#}"
proof -
  have "p_pendingLeases (w_pool demo_dialing) = 1" "p_leased (w_pool demo_world) = 1" by code_simp+
  then show ?thesis
    using connection_counters [OF demo_dialing_reachable] connection_counters [OF demo_reachable]
    by (simp add: demo_world_def)
qed

text \<open>
  C39: in every reachable world, through every refresh of the relays, the list of slot names is
  sorted, has no duplicates and is exactly the key set of the slot map, every slot is stored under
  its own name, and no two names share a slot.
\<close>

theorem slot_names:
  assumes "reachable w"
  shows "sorted (p_order (w_pool w)) \<and> distinct (p_order (w_pool w)) \<and>
         set (p_order (w_pool w)) = fset (fmdom (p_slots (w_pool w))) \<and>
         (fmlookup (p_slots (w_pool w)) i = Some r \<longrightarrow>
            slot_ID (p_heap (w_pool w) r) = i \<and>
            (\<forall>j. fmlookup (p_slots (w_pool w)) j = Some r \<longrightarrow> j = i))"
proof -
  have "ids_ok (ids (w_pool w))" using reachable_conn_inv [OF assms] by (simp add: conn_inv_def)
  then show ?thesis unfolding ids_ok_def ids_def by (simp add: fmdom_notI) metis
qed

theorem slot_names_witness:
  "p_order (w_pool demo_world) = [''a'', ''b''] \<and> sorted (p_order (w_pool demo_world)) \<and>
   slot_ID (p_heap (w_pool demo_world) 0) = ''b''"
proof -
  have "p_order (w_pool demo_world) = [''a'', ''b'']"
    "fmlookup (p_slots (w_pool demo_world)) ''b'' = Some 0"
    by code_simp+
  then show ?thesis using slot_names [OF demo_reachable] by blast
qed

text \<open>
  In every reachable world the ring of last-good exits of a destination holds at most
  \<open>PreferredMax\<close> exits, which is positive, and each public address at most once.
\<close>

theorem preferred_rings:
  assumes "reachable w" and "fmlookup (p_preferred (w_pool w)) target = Some ring"
  shows "int (length ring) \<le> PreferredMax (p_opts (w_pool w)) \<and>
         0 < PreferredMax (p_opts (w_pool w)) \<and> distinct (map pe_publicIP ring)"
  using reachable_conn_inv [OF assms(1)] assms(2)
  by (auto simp: conn_inv_def rings_ok_def ring_ok_def ring_ips_def)

theorem preferred_rings_witness:
  "\<exists>ring. fmlookup (p_preferred (w_pool demo_batch_world)) ''t'' = Some ring \<and>
     length ring = 1 \<and> int (length ring) \<le> PreferredMax (p_opts (w_pool demo_batch_world))"
proof -
  have "map_option length (fmlookup (p_preferred (w_pool demo_batch_world)) ''t'') = Some 1"
    by code_simp
  then show ?thesis using preferred_rings [OF demo_batch_reachable] by auto
qed

text \<open>
  C19: the books of a unique batch are consistent in every reachable world, through reservations,
  measurements, recycling, reports and roll-backs. An address is burned exactly when it is
  attributed to one of the slots the batch has taken, the invalid address is never burned, and
  every burned address has a burn number, which is its own.
\<close>

theorem batch_books:
  assumes "reachable w" and "fmlookup (p_batches (w_pool w)) name = Some b"
  shows "(ip |\<in>| fmdom (b_usedIPs b) \<longleftrightarrow>
            (\<exists>sid. ip |\<in>| fm_get {||} (b_slotIPs b) sid \<and> sid |\<in>| b_usedSlots b)) \<and>
         (ip |\<in>| fmdom (b_usedIPs b) \<longrightarrow> ip \<noteq> None \<and> 0 < fm_get 0 (b_burnSeq b) ip \<and>
            (\<forall>jp. fm_get 0 (b_burnSeq b) jp = fm_get 0 (b_burnSeq b) ip \<longrightarrow> jp = ip))"
proof -
  have "batch_ok b"
    using reachable_conn_inv [OF assms(1)] assms(2) by (auto simp: conn_inv_def batches_ok_def)
  then show ?thesis
    unfolding batch_ok_def burned_def taken_def attributed_def burn_age_def by metis
qed

theorem batch_books_witness:
  "\<exists>b. fmlookup (p_batches (w_pool demo_batch_world)) ''job'' = Some b \<and>
     demo_ip |\<in>| fmdom (b_usedIPs b) \<and> 0 < fm_get 0 (b_burnSeq b) demo_ip"
proof -
  have "map_option (\<lambda>b. demo_ip |\<in>| fmdom (b_usedIPs b))
      (fmlookup (p_batches (w_pool demo_batch_world)) ''job'') = Some True"
    by code_simp
  then show ?thesis using batch_books [OF demo_batch_reachable] by auto
qed

end
