(* ===== verification/Calm.thy ===== *)
theory Calm
  imports Reachable
begin

text \<open>
  The frame of the tunnel bookkeeping: an operation is \<open>calm\<close> when it opens nothing. It may close
  tunnels and forget openings that left the rate window, and it keeps the flags of the openings
  in flight, the kinds of the slots and the pending opens. Every operation outside the opening
  of a tunnel is calm.
\<close>

definition quieter_entry :: "entryState \<Rightarrow> entryState \<Rightarrow> bool" where
  "quieter_entry e e' \<longleftrightarrow> e_opening e' = e_opening e \<and> (e_tunnel e' = e_tunnel e \<or> e_tunnel e' = None)"

definition quieter_slot :: "slot_state \<Rightarrow> slot_state \<Rightarrow> bool" where
  "quieter_slot s s' \<longleftrightarrow>
     s_opening s' = s_opening s \<and> (s_tunnel s' = s_tunnel s \<or> s_tunnel s' = None) \<and>
     sp_Kind (s_spec s') = sp_Kind (s_spec s)"

definition in_window :: "pool \<Rightarrow> time \<Rightarrow> time list \<Rightarrow> time list" where
  "in_window p now = dropWhile (\<lambda>at. \<not> at > now - NewTunnelWindow (p_opts p))"

definition calm_heap :: "time \<Rightarrow> pool \<Rightarrow> pool \<Rightarrow> bool" where
  "calm_heap now p q \<longleftrightarrow>
     p_opts q = p_opts p \<and> p_pendingTunnelOpens q = p_pendingTunnelOpens p \<and>
     p_probeTunnels q = p_probeTunnels p \<and>
     (p_opens q = p_opens p \<or> p_opens q = in_window p now (p_opens p)) \<and>
     list_all2 quieter_entry (p_entries p) (p_entries q)"

definition calm :: "time \<Rightarrow> pool \<Rightarrow> pool \<Rightarrow> bool" where
  "calm now p q \<longleftrightarrow>
     calm_heap now p q \<and> p_slots q = p_slots p \<and>
     (\<forall>r. quieter_slot (p_heap p r) (p_heap q r))"

lemma quieter_refl [simp]: "quieter_slot s s" "quieter_entry e e"
  by (simp_all add: quieter_slot_def quieter_entry_def)

lemma quieter_trans:
  "quieter_slot s s' \<Longrightarrow> quieter_slot s' s'' \<Longrightarrow> quieter_slot s s''"
  "quieter_entry e e' \<Longrightarrow> quieter_entry e' e'' \<Longrightarrow> quieter_entry e e''"
  by (auto simp: quieter_slot_def quieter_entry_def)

lemma in_window_idem: "in_window p now (in_window p now xs) = in_window p now xs"
  by (simp add: in_window_def)

lemma calm_refl [simp]: "calm now p p"
  by (simp add: calm_def calm_heap_def list_all2_refl)

lemma calm_trans: "calm now p q \<Longrightarrow> calm now q r \<Longrightarrow> calm now p r"
proof -
  assume a: "calm now p q" and b: "calm now q r"
  have w: "in_window q now = in_window p now"
    using a by (simp add: in_window_def calm_def calm_heap_def)
  have "list_all2 quieter_entry (p_entries p) (p_entries r)"
    by (rule list_all2_trans [of quieter_entry quieter_entry quieter_entry _ "p_entries q"])
      (use a b in \<open>auto simp: calm_def calm_heap_def intro: quieter_trans\<close>)
  moreover have "quieter_slot (p_heap p x) (p_heap r x)" for x
    using a b quieter_trans(1) unfolding calm_def by blast
  ultimately show ?thesis
    using a b unfolding calm_def calm_heap_def w by (auto simp: in_window_idem)
qed

lemma calm_fields [simp]:
  "calm now p (q\<lparr>p_order := o'\<rparr>) = calm now p q"
  "calm now p (q\<lparr>p_nextRef := r\<rparr>) = calm now p q"
  "calm now p (q\<lparr>p_sessions := a\<rparr>) = calm now p q"
  "calm now p (q\<lparr>p_pendingSessions := b\<rparr>) = calm now p q"
  "calm now p (q\<lparr>p_batches := b'\<rparr>) = calm now p q"
  "calm now p (q\<lparr>p_nextBatch := c'\<rparr>) = calm now p q"
  "calm now p (q\<lparr>p_preferred := d'\<rparr>) = calm now p q"
  "calm now p (q\<lparr>p_ipCooldowns := c\<rparr>) = calm now p q"
  "calm now p (q\<lparr>p_leased := e\<rparr>) = calm now p q"
  "calm now p (q\<lparr>p_pendingLeases := e\<rparr>) = calm now p q"
  "calm now p (q\<lparr>p_closing := g\<rparr>) = calm now p q"
  "calm now p (q\<lparr>p_metrics := h\<rparr>) = calm now p q"
  "calm now p (q\<lparr>p_statAcquired := s\<rparr>) = calm now p q"
  "calm now p (q\<lparr>p_statBusy := s\<rparr>) = calm now p q"
  "calm now p (q\<lparr>p_statSent := s\<rparr>) = calm now p q"
  "calm now p (q\<lparr>p_statReceived := s\<rparr>) = calm now p q"
  "calm now p (q\<lparr>p_statRotated := s\<rparr>) = calm now p q"
  "calm now p (q\<lparr>p_statReports := s\<rparr>) = calm now p q"
  "calm now p (q\<lparr>p_statFailures := s\<rparr>) = calm now p q"
  "calm now p (q\<lparr>p_statAcquiredByCountry := t\<rparr>) = calm now p q"
  by (simp_all add: calm_def calm_heap_def)

lemma calm_upd_slot [simp]:
  assumes "\<And>s. quieter_slot s (f s)" and "calm now p q"
  shows "calm now p (upd_slot r f q)"
proof -
  have "quieter_slot (p_heap p x) (p_heap (upd_slot r f q) x)" for x
    using assms(2) quieter_trans(1) [OF _ assms(1)] by (simp add: calm_def)
  then show ?thesis using assms(2) by (simp add: calm_def calm_heap_def)
qed

lemma calm_upd_entry [simp]:
  assumes "\<And>e. quieter_entry e (f e)" and "calm now p q"
  shows "calm now p (upd_entry i f q)"
proof -
  have "list_all2 quieter_entry (p_entries q) (p_entries (upd_entry i f q))"
    using assms(1) by (auto simp: upd_entry_def list_all2_conv_all_nth nth_list_update)
  then have "list_all2 quieter_entry (p_entries p) (p_entries (upd_entry i f q))"
    using assms(2) list_all2_trans [of quieter_entry quieter_entry quieter_entry] quieter_trans(2)
    unfolding calm_def calm_heap_def by metis
  then show ?thesis using assms(2) by (simp add: calm_def calm_heap_def)
qed

section \<open>Operations that open nothing\<close>

lemma closeLocked_calm [simp]: "calm now p q \<Longrightarrow> calm now p (closeLocked r q)"
  by (simp add: closeLocked_def) (simp add: quieter_slot_def)

lemma close_slots_calm [simp]: "calm now p q \<Longrightarrow> calm now p (close_slots rs q)"
  by (induction rs arbitrary: q) auto

lemma noteFailure_calm [frame]: "calm now p (noteFailure e at r p)"
  by (simp add: noteFailure_def Let_def quieter_slot_def)

lemma dropSession_calm [simp]: "calm now p (dropSession n q) = calm now p q"
  by (simp add: dropSession_def)

lemma Rotate_calm [frame]: "calm now p q \<Longrightarrow> calm now p (snd (Rotate n q))"
  by (simp add: Rotate_def Let_def)

lemma metrics_calm [frame]:
  "calm now p (ObserveRequest ob q) = calm now p q"
  "calm now p (observeTunnelOpen role res d q) = calm now p q"
  "calm now p (observeEntryOpenFailureLocked q) = calm now p q"
  "calm now p (observeEntryDialFailureLocked q) = calm now p q"
  "calm now p (recordPayloadLocked l a b q) = calm now p q"
  by (simp_all add: ObserveRequest_def observeTunnelOpen_def observeEntryOpenFailureLocked_def
      observeEntryDialFailureLocked_def recordPayloadLocked_def Let_def split_beta)

lemma openTunnel_calm [frame]: "calm now p (snd (openTunnel role opened hs took q)) = calm now p q"
  by (simp add: openTunnel_def frame split: sum.split option.split)

lemma recordEntryLatency_calm [frame]: "calm now p (recordEntryLatency ewma i c d p)"
  by (simp add: recordEntryLatency_def quieter_entry_def)

lemma noteEntryFailure_calm [frame]: "calm now p (snd (noteEntryFailure i e at p))"
  by (simp add: noteEntryFailure_def Let_def frame quieter_entry_def split: option.split)

lemma RecordTraffic_calm [frame]: "calm now p (RecordTraffic l a b p)"
  by (simp add: RecordTraffic_def Let_def quieter_slot_def quieter_entry_def frame split: option.split)

lemma NoteDialFailure_calm [frame]: "calm now p (NoteDialFailure l e at p)"
  by (simp add: NoteDialFailure_def frame split: option.split)

lemma apply_report_calm: "calm now p (snd (apply_report inp i r at p))"
  by (simp add: apply_report_def Let_def split_beta releaseSlotFromBatchesLocked_def
      forget_preferred_def setIPCooldownLocked_def quieter_slot_def Rotate_def split: option.split)

lemma Report_calm: "calm now p (snd (Report inp at p))"
  using apply_report_calm by (auto simp: Report_def split_beta split: option.splits)

lemma Prefer_calm: "calm now p (snd (Prefer inp at p))"
  by (simp add: Prefer_def Let_def split: option.split)

lemma setPublicIP_calm [simp]: "calm now p q \<Longrightarrow> calm now p (snd (setPublicIPLocked r ip c at q))"
  by (simp add: setPublicIPLocked_def Let_def quieter_slot_def)

lemma maybeCheckIP_calm:
  "calm now p (snd (maybeCheckIP_start at r p))" "calm now p (maybeCheckIP_finish res at r p)"
  by (simp_all add: maybeCheckIP_start_def maybeCheckIP_finish_def Let_def quieter_slot_def
      split: option.split)

lemma probe_result_calm: "calm now p (probe_result res at r p)"
  by (simp add: probe_result_def quieter_slot_def split: sum.split)

lemma expireLocked_calm: "calm now p (expireLocked at p)"
  by (simp add: calm_def calm_heap_def list_all2_refl quieter_slot_def)

lemma load_slots_calm: "calm now p q \<Longrightarrow> calm now p (snd (load_slots f at is n q))"
  by (induction "is" arbitrary: n q) (auto split: option.split)

lemma load_preferred_calm: "calm now p q \<Longrightarrow> calm now p (load_preferred scope at xs q)"
  by (induction xs arbitrary: q) (auto split: option.split)

lemma load_cooldowns_calm: "calm now p q \<Longrightarrow> calm now p (load_cooldowns scope at m raws q)"
  by (induction raws arbitrary: q) (auto simp: Let_def setIPCooldownLocked_def split: option.split)

lemmas load_calm = load_slots_calm load_preferred_calm load_cooldowns_calm

lemma load_health_calm: "calm now p q \<Longrightarrow> calm now p (load_health f at scopes q)"
  by (induction scopes arbitrary: q) (auto simp: load_calm split: option.split)

lemma LoadInventory_calm: "calm now p (snd (LoadInventory file at p))"
  by (auto simp: LoadInventory_def split_beta load_calm load_health_calm split: option.split sum.split)

lemma SaveInventory_calm: "calm now p (snd (SaveInventory ips at p))"
  by (simp add: SaveInventory_def Let_def expireLocked_calm)

lemma prune_calm: "calm now p (pruneOpensLocked now p)"
  by (simp add: pruneOpensLocked_def calm_def calm_heap_def in_window_def list_all2_refl)

lemma Stats_calm: "calm now p (snd (Stats now p))"
  by (simp add: Stats_def Let_def prune_calm)

lemma housekeep_calm: "calm now p (snd (housekeep ord at p))"
  by (simp add: housekeep_def Let_def expireLocked_calm)

lemma Close_calm: "calm now p (Close p)"
proof -
  have "calm now p (closeEntriesLocked q)" if c: "calm now p q" for q
  proof -
    have "list_all2 quieter_entry (p_entries p) (map (\<lambda>e. e\<lparr>e_tunnel := None\<rparr>) (p_entries q))"
      using c by (simp add: calm_def calm_heap_def list_all2_conv_all_nth quieter_entry_def)
    then show ?thesis using c by (simp add: closeEntriesLocked_def calm_def calm_heap_def)
  qed
  then show ?thesis by (simp add: Close_def)
qed

lemma warmup_count_calm: "calm now p (snd (warmup_count n now p))"
  by (simp add: warmup_count_def Let_def prune_calm)

lemma pool_op_calm: "pool_op now p q \<Longrightarrow> calm now p q"
  by (induction rule: pool_op.induct)
    (simp_all add: frame Report_calm Prefer_calm maybeCheckIP_calm probe_result_calm
      SaveInventory_calm LoadInventory_calm Stats_calm housekeep_calm Close_calm
      warmup_count_calm)

section \<open>Selection and acquisition\<close>

lemma sel_eq_calm: "sel_eq now p q \<Longrightarrow> calm at p q"
  by (simp add: sel_eq_def calm_def calm_heap_def list_all2_refl)

lemma cleaned_calm: "cleaned now p q \<Longrightarrow> calm at p q"
  by (blast intro: cleaned_sel_eq sel_eq_calm)

lemma budget_calm: "tunnelBudgetAvailableLocked now p = (ok, q) \<Longrightarrow> calm now p q"
  by (auto simp: tunnelBudgetAvailableLocked_def Let_def prune_calm split: if_splits)

lemma capacity_calm: "reserveCapacityLocked ord p = (res, q) \<Longrightarrow> calm now p q"
  by (auto simp: reserveCapacityLocked_def split: if_splits option.splits)

lemma reserveAcquisition_calm:
  assumes "reserveAcquisitionLocked pol r at p = (res, q)"
  shows "calm now p q"
proof (cases res)
  case (Inl e)
  then show ?thesis using reserveAcquisition_Inl assms by fastforce
next
  case (Inr ar)
  from reserveAcquisition_Inr [OF assms [unfolded Inr]] obtain a b c where
    q: "q = p\<lparr>p_heap := (p_heap p)(r := (p_heap p r)
                          \<lparr>s_pendingLeases := Suc (s_pendingLeases (p_heap p r))\<rparr>),
                       p_pendingSessions := a, p_batches := b, p_nextBatch := c,
                       p_pendingLeases := Suc (p_pendingLeases p)\<rparr>" by blast
  show ?thesis by (simp add: q calm_def calm_heap_def list_all2_refl quieter_slot_def)
qed

lemma reserve_pick_calm: "reserve_pick pol r st at p = (res, q) \<Longrightarrow> calm now p q"
  by (auto simp: reserve_pick_def split: prod.splits sum.splits dest: reserveAcquisition_calm)

lemma pickPreferred_calm:
  assumes "pickPreferredLocked pol t at p = (res, q)"
  shows "calm now p q"
proof (cases "ring_choice p pol t at")
  case None
  then show ?thesis using pickPreferredLocked_spec [OF assms] sel_eq_calm by auto
next
  case (Some w)
  then obtain p1 where p1: "sel_eq at p p1"
    "case reserveAcquisitionLocked pol w at p1 of
       (Inl e, p2) \<Rightarrow> res = Inl e \<and> q = p2
     | (Inr ar, p2) \<Rightarrow> res = Inr (Some (w, ar)) \<and> q = p2"
    using pickPreferredLocked_spec [OF assms] by auto
  obtain res' q' where r: "reserveAcquisitionLocked pol w at p1 = (res', q')" by fastforce
  then have "q' = q" using p1(2) by (cases res') auto
  with p1(1) r have "sel_eq at p p1" "reserveAcquisitionLocked pol w at p1 = (res', q)" by simp_all
  then show ?thesis using sel_eq_calm reserveAcquisition_calm calm_trans by blast
qed

lemma recycle_calm:
  "recycleOldestBatchExitLocked pol t at p = (res, q) \<Longrightarrow> calm now p q"
  by (auto simp: recycleOldestBatchExitLocked_def split: if_splits option.splits prod.splits
      dest!: recycle_loop_cleaned cleaned_calm)

lemma pick_any_calm:
  assumes "pick_any rnd ord pol t now p = (res, q)"
  shows "calm now p q"
proof -
  obtain cs p1 where sc:
    "scan (\<lambda>p r. eligibleLocked pol t now p r) p (map (slot_ref p) (p_order p)) = (cs, p1)"
    by fastforce
  have k1: "calm now p p1"
    using elig.scan_ok [of now p p pol t "map (slot_ref p) (p_order p)"] sc cleaned_calm by simp
  have via: "calm now p1 p2 \<Longrightarrow> calm now p p2" for p2 using k1 calm_trans by blast
  have cap: "reserveCapacityLocked ord p = (res, q) \<Longrightarrow> calm now p q" for p res q
    by (rule capacity_calm)
  have rp: "reserve_pick pol r st now p = (res, q) \<Longrightarrow> calm now p q" for r st p res q
    by (rule reserve_pick_calm)
  show ?thesis
    using assms sc
    by (auto simp: pick_any_def Let_def split: if_splits prod.splits option.splits bool.splits
        dest!: recycle_calm [where now = now] rp budget_calm cap
        intro: via calm_trans k1)
qed

lemma pick_slot_calm:
  assumes "pick_slot rnd ord pol t now p = (res, q)"
  shows "calm now p q"
proof -
  obtain so p1 where st: "sticky_slot pol t now p = (so, p1)" by fastforce
  have k1: "calm now p p1" using sticky_slot_spec(1) [OF st] by (rule sel_eq_calm)
  have "calm now p1 q"
    using assms st
    by (auto simp: pick_slot_def split: option.splits prod.splits if_splits sum.splits
        dest!: reserve_pick_calm [where now = now] pick_any_calm pickPreferred_calm [where now = now]
        intro: calm_trans)
  then show ?thesis using k1 calm_trans by blast
qed

lemma pick_calm: "pick rnd ord pol t now p = (res, q) \<Longrightarrow> calm now p q"
  using calm_trans [OF expireLocked_calm pick_slot_calm] expireLocked_calm
  by (auto simp: pick_def Let_def split: if_splits)

lemma releasePending_calm [simp]: "calm now p (releasePendingSessionLocked n q) = calm now p q"
  using releasePending_shape [of n q] by auto

lemma commit_calm: "calm now p (snd (commitAcquisitionLocked ar p))"
  by (simp add: commitAcquisitionLocked_def Let_def quieter_slot_def)

lemma rollbackBatch_calm [simp]: "calm now p (rollbackBatchLocked br q) = calm now p q"
  by (simp add: rollbackBatchLocked_def Let_def split: option.split)

lemma rollback_calm: "calm now p (rollbackAcquisition (Some ar) p)"
  by (simp add: rollbackAcquisition_def commit_calm)

lemma acquire_commit_calm: "calm now p (snd (acquire_commit pol at e r ar p))"
  using commit_calm
  by (simp add: acquire_commit_def Let_def recordAcquisitionLocked_def bindSession_def
      quieter_slot_def)

lemma acq_step_calm:
  assumes "acq_step rnd ord dr now pol t a p = (a', q)"
  shows "calm now p q"
proof (cases a)
  case (Picking n e)
  then show ?thesis
    using assms by (auto split: prod.splits sum.splits picked.splits dest: pick_calm)
next
  case (Dialing n e r st ar)
  then show ?thesis
    using assms rollback_calm acquire_commit_calm [of now p pol now _ r ar]
    by (auto split: sum.splits prod.splits) (metis snd_conv)
qed (use assms in \<open>auto simp: Let_def frame\<close>)

lemma Release_calm: "calm now p (snd (Release at l p))"
  by (simp add: Release_def Let_def quieter_slot_def)

end
