(* ===== verification/Openings.thy ===== *)
theory Openings
  imports Calm
begin

text \<open>
  The goroutines that open tunnels. In every reachable world the flags and counters of the pool
  are exactly the openings in flight (so no tunnel is opened twice), the tunnels open or being
  opened are at most \<open>MaxActive\<close>, and no window of time holds more new tunnels than the budget.
\<close>

section \<open>The openings in flight\<close>

fun settled :: "opener \<Rightarrow> bool" where
  "settled (SlotOpener r c) = c"
| "settled (EntryOpener i c) = c"
| "settled (ProbeOpener c) = c"

fun opens_slot :: "ref \<Rightarrow> opener \<Rightarrow> bool" where
  "opens_slot r (SlotOpener r' c) = (r' = r)"
| "opens_slot r _ = False"

fun opens_entry :: "nat \<Rightarrow> opener \<Rightarrow> bool" where
  "opens_entry i (EntryOpener j c) = (j = i)"
| "opens_entry i _ = False"

fun is_probe :: "opener \<Rightarrow> bool" where
  "is_probe (ProbeOpener c) = True"
| "is_probe _ = False"

abbreviation number :: "(opener \<Rightarrow> bool) \<Rightarrow> opener multiset \<Rightarrow> nat" where
  "number P O' \<equiv> size (filter_mset P O')"

definition entry_opening :: "pool \<Rightarrow> nat \<Rightarrow> bool" where
  "entry_opening p i \<longleftrightarrow> i < length (p_entries p) \<and> e_opening (p_entries p ! i)"

definition slot_sound :: "pool \<Rightarrow> ref \<Rightarrow> bool" where
  "slot_sound p r \<longleftrightarrow>
     (s_opening (p_heap p r) \<longrightarrow> s_tunnel (p_heap p r) = None) \<and>
     (slot_occupies (p_heap p r) \<longrightarrow>
        sp_Kind (s_spec (p_heap p r)) \<noteq> KindRelaySocks \<and> (\<exists>i. fmlookup (p_slots p) i = Some r))"

definition flags_ok :: "pool \<Rightarrow> opener multiset \<Rightarrow> bool" where
  "flags_ok p O' \<longleftrightarrow>
     p_pendingTunnelOpens p = number (\<lambda>x. \<not> settled x) O' \<and>
     p_probeTunnels p = number is_probe O' \<and>
     (\<forall>r. number (opens_slot r) O' = of_bool (s_opening (p_heap p r))) \<and>
     (\<forall>i. number (opens_entry i) O' = of_bool (entry_opening p i)) \<and>
     (\<forall>r. slot_sound p r) \<and>
     (\<forall>e\<in>set (p_entries p). e_opening e \<longrightarrow> e_tunnel e = None)"

section \<open>The number of tunnels\<close>

definition occupied :: "pool \<Rightarrow> nat" where
  "occupied p = card {r. slot_occupies (p_heap p r)} + length (filter entry_occupies (p_entries p)) +
     p_probeTunnels p"

definition room :: "pool \<Rightarrow> bool" where
  "room p \<longleftrightarrow> (MaxActive (p_opts p) > 0 \<longrightarrow> int (occupied p) \<le> MaxActive (p_opts p))"

lemma occupied_finite: "\<forall>r. slot_sound p r \<Longrightarrow> finite {r. slot_occupies (p_heap p r)}"
  by (rule finite_subset [of _ "fset (fmran (p_slots p))"])
    (auto simp: slot_sound_def fmlookup_ran_iff)

lemma openCount_occupied:
  assumes "slot_order p ord" and "named (p_slots p) p" and "\<forall>r. slot_sound p r"
  shows "openCount ord p = occupied p"
proof -
  let ?f = "\<lambda>i. the (fmlookup (p_slots p) i)"
  let ?is = "{i \<in> set ord. slot_occupies (p_heap p (?f i))}"
  have d: "distinct ord" "i \<in> set ord \<longleftrightarrow> (\<exists>r. fmlookup (p_slots p) i = Some r)" for i
    using assms(1) by (auto simp: slot_order_def fmlookup_dom_iff)
  have "inj_on ?f ?is"
    using assms(2) d(2) by (auto simp: inj_on_def named_def) (metis option.sel)
  moreover have "?f ` ?is = {r. slot_occupies (p_heap p r)}"
    using assms(3) d(2) by (force simp: slot_sound_def image_iff)
  ultimately have "card ?is = card {r. slot_occupies (p_heap p r)}" using card_image [of ?f ?is] by simp
  moreover have "length (filter (\<lambda>i. slot_occupies (p_heap p (?f i))) ord) = card ?is"
    using d(1) by (simp add: distinct_card [symmetric])
  ultimately show ?thesis by (simp add: openCount_def occupied_def)
qed

section \<open>Victims\<close>

text \<open>The tunnel that is closed for a new one is idle, and no idle tunnel was used longer ago.\<close>

lemma find_victim_some:
  assumes "find_victim p v ord = Some w"
  shows "v = Some w \<or> (\<exists>i\<in>set ord. w = the (fmlookup (p_slots p) i) \<and> idle (p_heap p w))"
  using assms
proof (induction ord arbitrary: v)
  case (Cons i ord)
  show ?case
  proof (cases "idle (p_heap p (the (fmlookup (p_slots p) i)))")
    case False
    then show ?thesis using Cons.prems Cons.IH [of v] by (simp add: Let_def) blast
  next
    case True
    then show ?thesis
      using Cons.prems Cons.IH [of "Some (the (fmlookup (p_slots p) i))"] Cons.IH [of v]
      by (auto simp: Let_def split: option.splits if_splits)
  qed
qed simp

lemma find_victim_oldest:
  assumes "find_victim p v ord = Some w"
  shows "(\<forall>u. v = Some u \<longrightarrow> s_lastUsed (p_heap p w) \<le> s_lastUsed (p_heap p u)) \<and>
         (\<forall>i\<in>set ord. idle (p_heap p (the (fmlookup (p_slots p) i))) \<longrightarrow>
            s_lastUsed (p_heap p w) \<le> s_lastUsed (p_heap p (the (fmlookup (p_slots p) i))))"
  using assms
proof (induction ord arbitrary: v)
  case (Cons i ord)
  let ?r = "the (fmlookup (p_slots p) i)"
  show ?case
  proof (cases "idle (p_heap p ?r)")
    case False
    then show ?thesis using Cons.prems Cons.IH [of v] by (simp add: Let_def)
  next
    case True
    then consider "v = None" "find_victim p (Some ?r) ord = Some w"
      | u where "v = Some u" "s_lastUsed (p_heap p ?r) < s_lastUsed (p_heap p u)"
          "find_victim p (Some ?r) ord = Some w"
      | u where "v = Some u" "\<not> s_lastUsed (p_heap p ?r) < s_lastUsed (p_heap p u)"
          "find_victim p (Some u) ord = Some w"
      using Cons.prems by (auto simp: Let_def split: option.splits if_splits)
    then show ?thesis
    proof cases
      case 1
      then show ?thesis using Cons.IH [of "Some ?r"] by simp
    next
      case 2
      then show ?thesis using Cons.IH [of "Some ?r"] by auto
    next
      case 3
      then show ?thesis using Cons.IH [of "Some u"] by auto
    qed
  qed
qed simp

section \<open>Calm operations\<close>

lemma calm_slot:
  assumes "calm now p q"
  shows "s_opening (p_heap q r) = s_opening (p_heap p r)"
    and "s_tunnel (p_heap q r) = s_tunnel (p_heap p r) \<or> s_tunnel (p_heap q r) = None"
    and "sp_Kind (s_spec (p_heap q r)) = sp_Kind (s_spec (p_heap p r))"
  using assms by (simp_all add: calm_def quieter_slot_def)

lemma calm_entries: "calm now p q \<Longrightarrow> list_all2 quieter_entry (p_entries p) (p_entries q)"
  by (simp add: calm_def calm_heap_def)

lemma calm_fields':
  assumes "calm now p q"
  shows "p_opts q = p_opts p" "p_pendingTunnelOpens q = p_pendingTunnelOpens p"
    "p_probeTunnels q = p_probeTunnels p" "p_slots q = p_slots p"
  using assms by (simp_all add: calm_def calm_heap_def)

lemma calm_occupies:
  "calm now p q \<Longrightarrow> slot_occupies (p_heap q r) \<Longrightarrow> slot_occupies (p_heap p r)"
  using calm_slot [of now p q r] by (auto simp: slot_occupies_def isOpen_def)

lemma calm_sound: "calm now p q \<Longrightarrow> slot_sound p r \<Longrightarrow> slot_sound q r"
  using calm_slot [of now p q r] calm_occupies [of now p q r] calm_fields' [of now p q]
  by (auto simp: slot_sound_def)

lemma quieter_entry_opening:
  "list_all2 quieter_entry es es' \<Longrightarrow>
     (i < length es' \<and> e_opening (es' ! i)) = (i < length es \<and> e_opening (es ! i))"
  by (auto simp: list_all2_conv_all_nth quieter_entry_def)

lemma quieter_entry_tunnel:
  assumes "list_all2 quieter_entry es es'" and "\<forall>e\<in>set es. e_opening e \<longrightarrow> e_tunnel e = None"
  shows "\<forall>e\<in>set es'. e_opening e \<longrightarrow> e_tunnel e = None"
  using assms by (induction rule: list_all2_induct) (auto simp: quieter_entry_def)

lemma calm_flags:
  assumes "calm now p q" and "flags_ok p O'"
  shows "flags_ok q O'"
proof -
  note e = calm_entries [OF assms(1)]
  have "entry_opening q i = entry_opening p i" for i
    using quieter_entry_opening [OF e] by (simp add: entry_opening_def)
  moreover have "\<forall>e\<in>set (p_entries q). e_opening e \<longrightarrow> e_tunnel e = None"
    using quieter_entry_tunnel [OF e] assms(2) by (simp add: flags_ok_def)
  ultimately show ?thesis
    using assms(2) calm_sound [OF assms(1)] calm_slot(1) [OF assms(1)] calm_fields' [OF assms(1)]
    by (simp add: flags_ok_def)
qed

lemma quieter_entry_count:
  "list_all2 quieter_entry es es' \<Longrightarrow>
     length (filter entry_occupies es') \<le> length (filter entry_occupies es)"
  by (induction rule: list_all2_induct)
    (auto simp: quieter_entry_def entry_occupies_def entry_isOpen_def)

lemma calm_occupied:
  assumes "calm now p q" and "\<forall>r. slot_sound p r"
  shows "occupied q \<le> occupied p"
proof -
  have "card {r. slot_occupies (p_heap q r)} \<le> card {r. slot_occupies (p_heap p r)}"
    by (rule card_mono [OF occupied_finite [OF assms(2)]])
      (use calm_occupies [OF assms(1)] in blast)
  then show ?thesis
    using quieter_entry_count [OF calm_entries [OF assms(1)]] calm_fields' [OF assms(1)]
    by (simp add: occupied_def)
qed

lemma calm_room: "calm now p q \<Longrightarrow> \<forall>r. slot_sound p r \<Longrightarrow> room p \<Longrightarrow> room q"
  using calm_occupied [of now p q] calm_fields' [of now p q] by (auto simp: room_def)

section \<open>Capacity\<close>

lemma idle_occupies: "idle s \<Longrightarrow> slot_occupies s"
  by (simp add: idle_def slot_occupies_def)

lemma close_victim:
  assumes "\<forall>r. slot_sound p r" and "idle (p_heap p v)"
  shows "Suc (occupied (closeLocked v p)) = occupied p"
proof -
  have t: "s_tunnel (p_heap p v) \<noteq> None" using assms(2) by (simp add: idle_def isOpen_def)
  then have o: "\<not> s_opening (p_heap p v)" using assms(1) by (auto simp: slot_sound_def)
  have "{r. slot_occupies (p_heap (closeLocked v p) r)} = {r. slot_occupies (p_heap p r)} - {v}"
    using t o by (auto simp: closeLocked_def slot_occupies_def isOpen_def)
  moreover have "v \<in> {r. slot_occupies (p_heap p r)}" using assms(2) idle_occupies by simp
  ultimately have "Suc (card {r. slot_occupies (p_heap (closeLocked v p) r)}) =
      card {r. slot_occupies (p_heap p r)}"
    using card_Suc_Diff1 [OF occupied_finite [OF assms(1)]] by simp
  moreover have "p_entries (closeLocked v p) = p_entries p"
    "p_probeTunnels (closeLocked v p) = p_probeTunnels p"
    by (simp_all add: closeLocked_def)
  ultimately show ?thesis by (simp add: occupied_def)
qed

text \<open>Capacity that was granted leaves room for one more tunnel.\<close>

lemma capacity_granted:
  assumes "reserveCapacityLocked ord p = (None, q)" and "slot_order p ord"
    and "named (p_slots p) p" and "\<forall>r. slot_sound p r" and "room p" and "0 < MaxActive (p_opts p)"
  shows "int (occupied q) < MaxActive (p_opts p)"
proof (cases "int (openCount ord p) < MaxActive (p_opts p)")
  case True
  then show ?thesis
    using assms openCount_occupied [OF assms(2-4)] by (simp add: reserveCapacityLocked_def)
next
  case False
  then obtain v where v: "find_victim p None ord = Some v" "q = closeLocked v p"
    using assms(1,6) by (auto simp: reserveCapacityLocked_def split: if_splits option.splits)
  then have "idle (p_heap p v)" using find_victim_some by blast
  then have "Suc (occupied q) = occupied p" using close_victim [OF assms(4)] v(2) by simp
  moreover have "int (occupied p) \<le> MaxActive (p_opts p)" using assms(5,6) by (simp add: room_def)
  ultimately show ?thesis by linarith
qed

section \<open>Entering an opening\<close>

definition granted :: "string list \<Rightarrow> time \<Rightarrow> pool \<Rightarrow> pool \<Rightarrow> bool" where
  "granted ord now p p2 \<longleftrightarrow>
     (\<exists>p1. reserveCapacityLocked ord p = (None, p1) \<and>
           tunnelBudgetAvailableLocked now p1 = (True, p2))"

lemma granted_calm: "granted ord now p p2 \<Longrightarrow> calm now p p2"
  by (auto simp: granted_def dest: capacity_calm [where now = now] budget_calm intro: calm_trans)

lemma budget_occupied: "tunnelBudgetAvailableLocked now p = (ok, q) \<Longrightarrow> occupied q = occupied p"
  by (auto dest!: budget_shape simp: occupied_def)

lemma reserveTunnelOpen_cases:
  assumes "reserveTunnelOpenLocked now p = (res, q)"
  shows "(res = Some ErrTunnelBudget \<and> calm now p q) \<or>
         (res = None \<and> (\<exists>p2. tunnelBudgetAvailableLocked now p = (True, p2) \<and>
            q = p2\<lparr>p_pendingTunnelOpens := Suc (p_pendingTunnelOpens p2)\<rparr>))"
  using assms budget_calm
  by (auto simp: reserveTunnelOpenLocked_def split: prod.splits bool.splits)

lemma ensureOpen_enter_cases:
  assumes "ensureOpen_enter ce ord now r p = (res, q)"
  shows "(res \<noteq> EnterOpening \<and> calm now p q) \<or>
         (res = EnterOpening \<and> s_tunnel (p_heap p r) = None \<and> \<not> s_opening (p_heap p r) \<and>
          (\<exists>p2. granted ord now p p2 \<and>
             q = upd_slot r (\<lambda>s. s\<lparr>s_opening := True\<rparr>)
                   (p2\<lparr>p_pendingTunnelOpens := Suc (p_pendingTunnelOpens p2)\<rparr>)))"
proof -
  consider "calm now p q" "res \<noteq> EnterOpening"
    | p1 e where "s_tunnel (p_heap p r) = None" "\<not> s_opening (p_heap p r)"
        "reserveCapacityLocked ord p = (None, p1)" "reserveTunnelOpenLocked now p1 = (Some e, q)"
        "res = EnterError e"
    | p1 p2 where "s_tunnel (p_heap p r) = None" "\<not> s_opening (p_heap p r)"
        "reserveCapacityLocked ord p = (None, p1)" "reserveTunnelOpenLocked now p1 = (None, p2)"
        "res = EnterOpening" "q = upd_slot r (\<lambda>s. s\<lparr>s_opening := True\<rparr>) p2"
    using assms capacity_calm [of ord p _ _ now]
    by (auto simp: ensureOpen_enter_def split: option.splits if_splits prod.splits)
  then show ?thesis
  proof cases
    case (2 p1 e)
    then show ?thesis
      using reserveTunnelOpen_cases [OF 2(4)] capacity_calm [OF 2(3)] calm_trans by blast
  next
    case (3 p1 p2)
    then show ?thesis using reserveTunnelOpen_cases [OF 3(4)] by (auto simp: granted_def)
  qed simp
qed

lemma ensureEntryOpen_enter_cases:
  assumes "ensureEntryOpen_enter ce ord now i p = (res, q)"
  shows "(res \<noteq> EnterOpening \<and> calm now p q) \<or>
         (res = EnterOpening \<and> e_tunnel (p_entries p ! i) = None \<and> \<not> e_opening (p_entries p ! i) \<and>
          (\<exists>p2. granted ord now p p2 \<and>
             q = upd_entry i (\<lambda>e. e\<lparr>e_opening := True\<rparr>)
                   (p2\<lparr>p_pendingTunnelOpens := Suc (p_pendingTunnelOpens p2)\<rparr>)))"
proof -
  consider "calm now p q" "res \<noteq> EnterOpening"
    | p1 e where "e_tunnel (p_entries p ! i) = None" "\<not> e_opening (p_entries p ! i)"
        "reserveCapacityLocked ord p = (None, p1)" "reserveTunnelOpenLocked now p1 = (Some e, q)"
        "res = EnterError e"
    | p1 p2 where "e_tunnel (p_entries p ! i) = None" "\<not> e_opening (p_entries p ! i)"
        "reserveCapacityLocked ord p = (None, p1)" "reserveTunnelOpenLocked now p1 = (None, p2)"
        "res = EnterOpening" "q = upd_entry i (\<lambda>e. e\<lparr>e_opening := True\<rparr>) p2"
    using assms capacity_calm [of ord p _ _ now]
    by (auto simp: ensureEntryOpen_enter_def split: option.splits if_splits prod.splits)
  then show ?thesis
  proof cases
    case (2 p1 e)
    then show ?thesis
      using reserveTunnelOpen_cases [OF 2(4)] capacity_calm [OF 2(3)] calm_trans by blast
  next
    case (3 p1 p2)
    then show ?thesis using reserveTunnelOpen_cases [OF 3(4)] by (auto simp: granted_def)
  qed simp
qed

lemma probeDialer_enter_cases:
  assumes "probeDialer_enter ce ord now p = (res, q)"
  shows "(res \<noteq> None \<and> calm now p q) \<or>
         (res = None \<and> (\<exists>p2. granted ord now p p2 \<and>
             q = p2\<lparr>p_pendingTunnelOpens := Suc (p_pendingTunnelOpens p2),
                     p_probeTunnels := Suc (p_probeTunnels p2)\<rparr>))"
proof (cases ce)
  case (Some e)
  then show ?thesis using assms by (auto simp: probeDialer_enter_def)
next
  case None
  obtain cres p1 where c: "reserveCapacityLocked ord p = (cres, p1)" by fastforce
  show ?thesis
  proof (cases cres)
    case (Some e)
    then show ?thesis using assms None c capacity_calm [OF c] by (auto simp: probeDialer_enter_def)
  next
    case cn: None
    obtain tres p2 where t: "reserveTunnelOpenLocked now p1 = (tres, p2)" by fastforce
    show ?thesis
    proof (cases tres)
      case (Some e)
      then have "calm now p p2" using reserveTunnelOpen_cases [OF t] capacity_calm [OF c] calm_trans by blast
      then show ?thesis using assms None cn c t Some by (auto simp: probeDialer_enter_def)
    next
      case tn: None
      then show ?thesis
        using assms None cn c t reserveTunnelOpen_cases [OF t] by (auto simp: probeDialer_enter_def granted_def)
    qed
  qed
qed

end
