(* ===== verification/Rate.thy ===== *)
theory Rate
  imports Openings
begin

text \<open>
  The rate limit of new tunnels and the invariant of the openings: one preservation lemma for each
  kind of step, and their sum for every reachable world.
\<close>

section \<open>The window\<close>

definition since :: "time \<Rightarrow> time list \<Rightarrow> time list" where
  "since c xs = filter (\<lambda>at. at > c) xs"

abbreviation cutoff :: "pool \<Rightarrow> time \<Rightarrow> time" where
  "cutoff p now \<equiv> now - NewTunnelWindow (p_opts p)"

lemma in_window_since: "sorted xs \<Longrightarrow> in_window p now xs = since (cutoff p now) xs"
proof (induction xs)
  case (Cons x xs)
  show ?case
  proof (cases "x > cutoff p now")
    case True
    then have "\<forall>y\<in>set (x # xs). y > cutoff p now" using Cons.prems by auto
    then have "since (cutoff p now) (x # xs) = x # xs" unfolding since_def by (rule filter_True)
    then show ?thesis using True by (simp add: in_window_def)
  next
    case False
    then show ?thesis using Cons by (simp add: in_window_def since_def)
  qed
qed (simp add: in_window_def since_def)

lemma since_since [simp]: "since c (since c xs) = since c xs"
  by (simp add: since_def)

lemma since_mono: "c \<le> c' \<Longrightarrow> since c' (since c xs) = since c' xs"
  by (auto simp: since_def intro: filter_cong)

lemma since_append: "since c (xs @ ys) = since c xs @ since c ys"
  by (simp add: since_def)

lemma sorted_since: "sorted xs \<Longrightarrow> sorted (since c xs)"
  by (simp add: since_def sorted_filter [where f = "\<lambda>x. x", simplified])

text \<open>The openings committed in the window of the budget that ends at \<open>t\<close>.\<close>

definition commits_in_window :: "pool \<Rightarrow> time \<Rightarrow> time list \<Rightarrow> nat" where
  "commits_in_window p t commits = length (filter (\<lambda>at. cutoff p t < at \<and> at \<le> t) commits)"

text \<open>
  The pool remembers exactly the openings that are still in the window, and together with those
  reserved but not yet committed they fit in the budget; so do those of every earlier window.
\<close>

definition rate_ok :: "pool \<Rightarrow> time \<Rightarrow> time list \<Rightarrow> bool" where
  "rate_ok p now commits \<longleftrightarrow>
     sorted (p_opens p) \<and> (\<forall>at\<in>set (p_opens p). at \<le> now) \<and> (\<forall>at\<in>set commits. at \<le> now) \<and>
     since (cutoff p now) (rev commits) = since (cutoff p now) (p_opens p) \<and>
     (NewTunnelBudget (p_opts p) > 0 \<longrightarrow>
        int (length (since (cutoff p now) (p_opens p)) + p_pendingTunnelOpens p)
          \<le> NewTunnelBudget (p_opts p) \<and>
        (\<forall>t. int (commits_in_window p t commits) \<le> NewTunnelBudget (p_opts p)))"

lemma rate_prune:
  assumes "rate_ok p now commits" and "p_opens q = in_window p now (p_opens p) \<or> p_opens q = p_opens p"
    and "p_opts q = p_opts p" and "p_pendingTunnelOpens q \<le> p_pendingTunnelOpens p"
  shows "rate_ok q now commits"
proof -
  have s: "sorted (p_opens p)" using assms(1) by (simp add: rate_ok_def)
  have o: "p_opens q = since (cutoff p now) (p_opens p) \<or> p_opens q = p_opens p"
    using assms(2) by (simp add: in_window_since [OF s])
  then have "since (cutoff p now) (p_opens q) = since (cutoff p now) (p_opens p)"
    "sorted (p_opens q)" "set (p_opens q) \<subseteq> set (p_opens p)"
    using s sorted_since by (auto simp: since_def)
  then show ?thesis
    using assms(1,3,4) by (auto simp: rate_ok_def commits_in_window_def)
qed

lemma rate_calm: "calm now p q \<Longrightarrow> rate_ok p now commits \<Longrightarrow> rate_ok q now commits"
  by (rule rate_prune) (auto simp: calm_def calm_heap_def)

lemma rate_tick:
  assumes "rate_ok p now commits" and "now \<le> t"
  shows "rate_ok p t commits"
proof -
  have m: "since (cutoff p t) (since (cutoff p now) xs) = since (cutoff p t) xs" for xs
    by (rule since_mono) (use assms(2) in simp)
  have "since (cutoff p t) (rev commits) = since (cutoff p t) (p_opens p)"
    using assms(1) m [of "rev commits"] m [of "p_opens p"] by (simp add: rate_ok_def)
  moreover have "length (since (cutoff p t) (p_opens p)) \<le> length (since (cutoff p now) (p_opens p))"
    using m [of "p_opens p"] length_filter_le by (metis since_def)
  ultimately show ?thesis using assms by (fastforce simp: rate_ok_def)
qed

text \<open>A granted opening finds room in the budget for one more.\<close>

lemma granted_budget:
  assumes "granted ord now p p2" and "rate_ok p now commits"
  shows "rate_ok (p2\<lparr>p_pendingTunnelOpens := Suc (p_pendingTunnelOpens p2)\<rparr>) now commits"
proof -
  obtain p1 where p1: "reserveCapacityLocked ord p = (None, p1)"
    "tunnelBudgetAvailableLocked now p1 = (True, p2)"
    using assms(1) by (auto simp: granted_def)
  have r1: "rate_ok p1 now commits" by (rule rate_calm [OF capacity_calm [OF p1(1)] assms(2)])
  have r2: "rate_ok p2 now commits" by (rule rate_calm [OF budget_calm [OF p1(2)] r1])
  have "int (length (since (cutoff p2 now) (p_opens p2)) + p_pendingTunnelOpens p2)
      < NewTunnelBudget (p_opts p2)" if "NewTunnelBudget (p_opts p2) > 0"
  proof -
    have "int (length (p_opens p2) + p_pendingTunnelOpens p2) < NewTunnelBudget (p_opts p2)"
      using p1(2) that
      by (auto simp: tunnelBudgetAvailableLocked_def Let_def pruneOpensLocked_def split: if_splits)
    moreover have "length (since (cutoff p2 now) (p_opens p2)) \<le> length (p_opens p2)"
      by (simp add: since_def)
    ultimately show ?thesis by simp
  qed
  then show ?thesis using r2 by (auto simp: rate_ok_def commits_in_window_def)
qed

lemma commits_split:
  assumes "\<forall>at\<in>set commits. at \<le> now"
  shows "int (commits_in_window p t (now # commits)) \<le> (if now \<le> t
           then 1 + int (length (since (cutoff p now) commits)) else int (commits_in_window p t commits))"
proof (cases "now \<le> t")
  case True
  have "length (filter (\<lambda>at. cutoff p t < at \<and> at \<le> t) commits)
      \<le> length (filter (\<lambda>at. at > cutoff p now) commits)"
  proof -
    have "filter (\<lambda>at. cutoff p t < at \<and> at \<le> t) commits =
        filter (\<lambda>at. cutoff p t < at \<and> at \<le> t) (filter (\<lambda>at. at > cutoff p now) commits)"
      using True by (auto simp: filter_filter intro!: filter_cong)
    then show ?thesis using length_filter_le by metis
  qed
  then show ?thesis using True by (simp add: commits_in_window_def since_def)
next
  case False
  then show ?thesis by (simp add: commits_in_window_def)
qed

lemma rate_commit:
  assumes r: "rate_ok p now commits" and pos: "0 < p_pendingTunnelOpens p"
    and w: "0 < NewTunnelWindow (p_opts p)"
  shows "rate_ok (commitTunnelOpen now p) now (now # commits)"
proof -
  let ?q = "commitTunnelOpen now p"
  have s: "sorted (p_opens p)" using r by (simp add: rate_ok_def)
  have q: "p_opens ?q = since (cutoff p now) (p_opens p) @ [now]" "p_opts ?q = p_opts p"
    "p_pendingTunnelOpens ?q = p_pendingTunnelOpens p - 1"
    using in_window_since [OF s, of p now]
    by (simp_all add: commitTunnelOpen_def pruneOpensLocked_def in_window_def Let_def)
  have le: "\<forall>at\<in>set (since (cutoff p now) (p_opens p)). at \<le> now"
    using r by (auto simp: rate_ok_def since_def)
  have eq: "since (cutoff p now) (rev commits) = since (cutoff p now) (p_opens p)"
    using r by (simp add: rate_ok_def)
  have len: "length (since (cutoff p now) commits) = length (since (cutoff p now) (p_opens p))"
    using arg_cong [OF eq, of length] by (simp add: since_def rev_filter [symmetric])
  have "int (commits_in_window p t (now # commits)) \<le> NewTunnelBudget (p_opts p)"
    if b: "NewTunnelBudget (p_opts p) > 0" for t
  proof -
    have "int (length (since (cutoff p now) (p_opens p)) + p_pendingTunnelOpens p)
        \<le> NewTunnelBudget (p_opts p)" "int (commits_in_window p t commits) \<le> NewTunnelBudget (p_opts p)"
      using r b by (auto simp: rate_ok_def)
    moreover have "\<forall>at\<in>set commits. at \<le> now" using r by (simp add: rate_ok_def)
    note commits_split [OF this, of p t]
    ultimately show ?thesis using pos len by (cases "now \<le> t") simp_all
  qed
  moreover have "sorted (p_opens ?q)"
    using s le by (simp add: q sorted_append sorted_since)
  moreover have "since (cutoff p now) (rev (now # commits)) = since (cutoff p now) (p_opens ?q)"
    using eq by (simp add: q since_append)
  moreover have "int (length (since (cutoff p now) (p_opens ?q)) + p_pendingTunnelOpens ?q)
      \<le> NewTunnelBudget (p_opts p)" if "NewTunnelBudget (p_opts p) > 0"
  proof -
    have "length (since (cutoff p now) (p_opens ?q)) = Suc (length (since (cutoff p now) (p_opens p)))"
      using w by (simp add: q since_append) (simp add: since_def)
    then show ?thesis using r that pos by (auto simp: rate_ok_def q)
  qed
  ultimately show ?thesis
    using r le by (auto simp: rate_ok_def q commits_in_window_def)
qed

section \<open>Preservation of the flags\<close>

lemma flagsD:
  assumes "flags_ok p O'"
  shows "p_pendingTunnelOpens p = number (\<lambda>x. \<not> settled x) O'"
    and "p_probeTunnels p = number is_probe O'"
    and "number (opens_slot r) O' = of_bool (s_opening (p_heap p r))"
    and "number (opens_entry i) O' = of_bool (entry_opening p i)"
    and "\<forall>r. slot_sound p r" and "\<forall>e\<in>set (p_entries p). e_opening e \<longrightarrow> e_tunnel e = None"
  using assms by (simp_all add: flags_ok_def)

text \<open>Entering: the flag of the slot or entry goes up together with the pending count.\<close>

lemma flags_slot_enter:
  assumes fl: "flags_ok p O'" and g: "granted ord now p p2"
    and none: "s_tunnel (p_heap p r) = None" "\<not> s_opening (p_heap p r)"
    and k: "sp_Kind (s_spec (p_heap p r)) \<noteq> KindRelaySocks" and i: "fmlookup (p_slots p) i = Some r"
  shows "flags_ok (upd_slot r (\<lambda>s. s\<lparr>s_opening := True\<rparr>)
             (p2\<lparr>p_pendingTunnelOpens := Suc (p_pendingTunnelOpens p2)\<rparr>))
           (add_mset (SlotOpener r False) O')"
    and "occupied (upd_slot r (\<lambda>s. s\<lparr>s_opening := True\<rparr>)
             (p2\<lparr>p_pendingTunnelOpens := Suc (p_pendingTunnelOpens p2)\<rparr>)) = Suc (occupied p2)"
proof -
  let ?q = "upd_slot r (\<lambda>s. s\<lparr>s_opening := True\<rparr>)
             (p2\<lparr>p_pendingTunnelOpens := Suc (p_pendingTunnelOpens p2)\<rparr>)"
  note c = granted_calm [OF g]
  have f2: "flags_ok p2 O'" by (rule calm_flags [OF c fl])
  note f = flagsD [OF f2]
  have r2: "s_tunnel (p_heap p2 r) = None" "\<not> s_opening (p_heap p2 r)"
    "sp_Kind (s_spec (p_heap p2 r)) \<noteq> KindRelaySocks" "fmlookup (p_slots p2) i = Some r"
    using calm_slot [OF c, of r] calm_fields' [OF c] none k i by auto
  have "slot_sound ?q x" for x
    using f(5) r2 by (auto simp: slot_sound_def slot_occupies_def isOpen_def)
  then show "flags_ok ?q (add_mset (SlotOpener r False) O')"
    using f r2 by (auto simp: flags_ok_def entry_opening_def)
  have "{x. slot_occupies (p_heap ?q x)} = insert r {x. slot_occupies (p_heap p2 x)}"
    by (auto simp: slot_occupies_def isOpen_def)
  moreover have "r \<notin> {x. slot_occupies (p_heap p2 x)}"
    using r2 by (simp add: slot_occupies_def isOpen_def)
  ultimately show "occupied ?q = Suc (occupied p2)"
    using occupied_finite [OF f(5)] by (simp add: occupied_def)
qed

lemma entry_update_count:
  assumes "i < length es" and "\<not> entry_occupies (es ! i)" and "entry_occupies e"
  shows "length (filter entry_occupies (es[i := e])) = Suc (length (filter entry_occupies es))"
  using assms
proof (induction es arbitrary: i)
  case (Cons x es)
  then show ?case by (cases i) auto
qed simp

lemma flags_entry_enter:
  assumes fl: "flags_ok p O'" and g: "granted ord now p p2"
    and none: "e_tunnel (p_entries p ! i) = None" "\<not> e_opening (p_entries p ! i)"
    and i: "i < length (p_entries p)"
  shows "flags_ok (upd_entry i (\<lambda>e. e\<lparr>e_opening := True\<rparr>)
             (p2\<lparr>p_pendingTunnelOpens := Suc (p_pendingTunnelOpens p2)\<rparr>))
           (add_mset (EntryOpener i False) O')"
    and "occupied (upd_entry i (\<lambda>e. e\<lparr>e_opening := True\<rparr>)
             (p2\<lparr>p_pendingTunnelOpens := Suc (p_pendingTunnelOpens p2)\<rparr>)) = Suc (occupied p2)"
proof -
  let ?q = "upd_entry i (\<lambda>e. e\<lparr>e_opening := True\<rparr>)
             (p2\<lparr>p_pendingTunnelOpens := Suc (p_pendingTunnelOpens p2)\<rparr>)"
  note c = granted_calm [OF g]
  have f2: "flags_ok p2 O'" by (rule calm_flags [OF c fl])
  note f = flagsD [OF f2]
  have e2: "i < length (p_entries p2)" "e_tunnel (p_entries p2 ! i) = None"
    "\<not> e_opening (p_entries p2 ! i)"
    using calm_entries [OF c] none i
    by (auto simp: list_all2_conv_all_nth quieter_entry_def)
  have es: "p_entries ?q = (p_entries p2)[i := (p_entries p2 ! i)\<lparr>e_opening := True\<rparr>]"
    using e2(1) by (simp add: upd_entry_def)
  have "entry_opening ?q j = (j = i \<or> entry_opening p2 j)" for j
    using e2(1) by (auto simp: entry_opening_def es nth_list_update)
  moreover have "\<not> entry_opening p2 i" using e2 by (simp add: entry_opening_def)
  moreover have "\<forall>e\<in>set (p_entries ?q). e_opening e \<longrightarrow> e_tunnel e = None"
    using f(6) e2 set_update_subset_insert by (fastforce simp: es)
  moreover have "slot_sound ?q x" for x
    using f(5) by (simp add: slot_sound_def)
  ultimately show "flags_ok ?q (add_mset (EntryOpener i False) O')"
    using f by (auto simp: flags_ok_def)
  show "occupied ?q = Suc (occupied p2)"
    using entry_update_count [OF e2(1), of "(p_entries p2 ! i)\<lparr>e_opening := True\<rparr>"] e2
    by (simp add: occupied_def es entry_occupies_def entry_isOpen_def)
qed

lemma flags_probe_enter:
  assumes fl: "flags_ok p O'" and g: "granted ord now p p2"
  shows "flags_ok (p2\<lparr>p_pendingTunnelOpens := Suc (p_pendingTunnelOpens p2),
             p_probeTunnels := Suc (p_probeTunnels p2)\<rparr>) (add_mset (ProbeOpener False) O')"
    and "occupied (p2\<lparr>p_pendingTunnelOpens := Suc (p_pendingTunnelOpens p2),
             p_probeTunnels := Suc (p_probeTunnels p2)\<rparr>) = Suc (occupied p2)"
proof -
  have f2: "flags_ok p2 O'" by (rule calm_flags [OF granted_calm [OF g] fl])
  then show "flags_ok (p2\<lparr>p_pendingTunnelOpens := Suc (p_pendingTunnelOpens p2),
             p_probeTunnels := Suc (p_probeTunnels p2)\<rparr>) (add_mset (ProbeOpener False) O')"
    by (simp add: flags_ok_def entry_opening_def slot_sound_def)
qed (simp add: occupied_def)

text \<open>Settling a pending open, by a commit or a roll-back, moves only the pending count.\<close>

fun settle :: "opener \<Rightarrow> opener" where
  "settle (SlotOpener r c) = SlotOpener r True"
| "settle (EntryOpener i c) = EntryOpener i True"
| "settle (ProbeOpener c) = ProbeOpener True"

lemma settle_simps [simp]:
  "settled (settle x)" "opens_slot r (settle x) = opens_slot r x"
  "opens_entry i (settle x) = opens_entry i x" "is_probe (settle x) = is_probe x"
  by (cases x; simp)+

lemma flags_settle:
  assumes "flags_ok p (add_mset x O')" and "\<not> settled x"
    and "q = p\<lparr>p_opens := os, p_pendingTunnelOpens := p_pendingTunnelOpens p - 1\<rparr>"
  shows "flags_ok q (add_mset (settle x) O')" and "occupied q = occupied p"
    and "0 < p_pendingTunnelOpens p"
proof -
  have q: "p_pendingTunnelOpens q = p_pendingTunnelOpens p - 1" "p_probeTunnels q = p_probeTunnels p"
    "p_heap q = p_heap p" "p_entries q = p_entries p" "p_slots q = p_slots p"
    by (simp_all add: assms(3))
  have n: "number (opens_slot r) (add_mset (settle x) O') = number (opens_slot r) (add_mset x O')"
    "number (opens_entry i) (add_mset (settle x) O') = number (opens_entry i) (add_mset x O')"
    "number is_probe (add_mset (settle x) O') = number is_probe (add_mset x O')"
    "number (\<lambda>x. \<not> settled x) (add_mset x O') =
       Suc (number (\<lambda>x. \<not> settled x) (add_mset (settle x) O'))" for r i
    using assms(2) by simp_all
  show "flags_ok q (add_mset (settle x) O')"
    using assms(1) unfolding flags_ok_def entry_opening_def slot_sound_def q n by simp
  show "occupied q = occupied p" by (simp add: occupied_def q)
  show "0 < p_pendingTunnelOpens p" using flagsD(1) [OF assms(1)] unfolding n by simp
qed

text \<open>Leaving: the flag goes down, and the tunnel, if there is one, takes the place of the opening.\<close>

lemma flags_slot_finish:
  assumes "flags_ok p (add_mset (SlotOpener r True) O')"
  shows "flags_ok (ensureOpen_finish res now r p) O'"
    and "occupied (ensureOpen_finish res now r p) \<le> occupied p"
proof -
  let ?q = "ensureOpen_finish res now r p"
  note f = flagsD [OF assms]
  have n: "number (opens_slot r) O' = 0" and o: "s_opening (p_heap p r)"
    using f(3) [of r] by (auto simp: of_bool_def split: if_splits)
  have h: "p_heap ?q x = (if x = r then (case res of Inl _ \<Rightarrow> (p_heap p r)\<lparr>s_opening := False\<rparr>
      | Inr t \<Rightarrow> (p_heap p r)\<lparr>s_opening := False, s_tunnel := Some t, s_openedAt := now\<rparr>)
      else p_heap p x)" for x
    by (simp add: ensureOpen_finish_def)
  have q: "p_pendingTunnelOpens ?q = p_pendingTunnelOpens p" "p_probeTunnels ?q = p_probeTunnels p"
    "p_entries ?q = p_entries p" "p_slots ?q = p_slots p"
    by (simp_all add: ensureOpen_finish_def)
  have occ: "slot_occupies (p_heap ?q x) \<Longrightarrow> slot_occupies (p_heap p x)" for x
    using o by (auto simp: h slot_occupies_def split: if_splits)
  have "s_spec (p_heap ?q x) = s_spec (p_heap p x)"
    "s_opening (p_heap ?q x) \<Longrightarrow> x \<noteq> r \<and> s_opening (p_heap p x)"
    "x \<noteq> r \<Longrightarrow> p_heap ?q x = p_heap p x" for x
    by (auto simp: h split: sum.splits if_splits)
  then have "slot_sound ?q x" for x
    using f(5) occ [of x] unfolding slot_sound_def q by metis
  moreover have "number (opens_slot x) O' = of_bool (s_opening (p_heap ?q x))" for x
    using f(3) [of x] n by (auto simp: h split: sum.split)
  ultimately show "flags_ok ?q O'"
    using assms f by (simp add: flags_ok_def q entry_opening_def)
  have "card {x. slot_occupies (p_heap ?q x)} \<le> card {x. slot_occupies (p_heap p x)}"
    by (rule card_mono [OF occupied_finite [OF f(5)]]) (use occ in blast)
  then show "occupied ?q \<le> occupied p" by (simp add: occupied_def q)
qed

lemma entry_shrink_count:
  assumes "i < length es \<Longrightarrow> entry_occupies (es ! i)"
  shows "length (filter entry_occupies (es[i := e])) \<le> length (filter entry_occupies es)"
  using assms
proof (induction es arbitrary: i)
  case (Cons x es)
  then show ?case by (cases i) auto
qed simp

lemma flags_entry_leave:
  assumes fl: "flags_ok p (add_mset (EntryOpener i True) O')"
    and es: "p_entries q = (p_entries p)[i := e]" and e: "\<not> e_opening e"
    and same: "p_pendingTunnelOpens q = p_pendingTunnelOpens p" "p_probeTunnels q = p_probeTunnels p"
      "p_heap q = p_heap p" "p_slots q = p_slots p"
  shows "flags_ok q O'" and "occupied q \<le> occupied p"
proof -
  note f = flagsD [OF fl]
  have n: "number (opens_entry i) O' = 0" and o: "entry_opening p i"
    using f(4) [of i] by (auto simp: of_bool_def split: if_splits)
  have "entry_opening q j = (j \<noteq> i \<and> entry_opening p j)" for j
    using e by (cases "j = i") (auto simp: entry_opening_def es)
  then have "number (opens_entry j) O' = of_bool (entry_opening q j)" for j
    using f(4) [of j] n by (cases "j = i") simp_all
  moreover have "\<forall>e\<in>set (p_entries q). e_opening e \<longrightarrow> e_tunnel e = None"
    using f(6) e set_update_subset_insert by (fastforce simp: es)
  moreover have "slot_sound q x" for x using f(5) by (simp add: slot_sound_def same)
  ultimately show "flags_ok q O'"
    using fl by (simp add: flags_ok_def same)
  have "entry_occupies (p_entries p ! i)"
    using o by (simp add: entry_opening_def entry_occupies_def)
  then show "occupied q \<le> occupied p"
    using entry_shrink_count by (simp add: occupied_def es same)
qed

lemma flags_probe_release:
  assumes "flags_ok p (add_mset (ProbeOpener True) O')"
  shows "flags_ok (releaseProbeCapacity p) O'" and "occupied (releaseProbeCapacity p) \<le> occupied p"
  using assms
  by (auto simp: flags_ok_def entry_opening_def slot_sound_def occupied_def releaseProbeCapacity_def)

end
