(* ===== verification/Limits.thy ===== *)
theory Limits
  imports Rate Samples
begin

text \<open>
  The invariant of the openings holds in every reachable world; the theorems on single-flight
  opening, on the cap of active tunnels and on the rate limit read it off.
\<close>

definition open_inv :: "world \<Rightarrow> bool" where
  "open_inv w \<longleftrightarrow>
     flags_ok (w_pool w) (w_openers w) \<and> room (w_pool w) \<and>
     rate_ok (w_pool w) (w_now w) (w_commits w) \<and> 0 < NewTunnelWindow (p_opts (w_pool w))"

lemma open_invD:
  assumes "open_inv w"
  shows "flags_ok (w_pool w) (w_openers w)" "room (w_pool w)"
    "rate_ok (w_pool w) (w_now w) (w_commits w)" "0 < NewTunnelWindow (p_opts (w_pool w))"
    "\<forall>r. slot_sound (w_pool w) r"
  using assms by (simp_all add: open_inv_def flags_ok_def)

lemma open_inv_calm:
  assumes "open_inv w" and "calm (w_now w) (w_pool w) p"
  shows "open_inv (w\<lparr>w_pool := p\<rparr>)"
proof -
  note inv = open_invD [OF assms(1)]
  show ?thesis
    using calm_flags [OF assms(2) inv(1)] calm_room [OF assms(2) inv(5,2)]
      rate_calm [OF assms(2) inv(3)] inv(4) calm_fields' [OF assms(2)]
    by (simp add: open_inv_def)
qed

lemma open_inv_other [simp]:
  "open_inv (w\<lparr>w_acqs := A\<rparr>) = open_inv w" "open_inv (w\<lparr>w_leases := L\<rparr>) = open_inv w"
  by (simp_all add: open_inv_def)

lemma room_Suc:
  assumes "granted ord now p p2" and "slot_order p ord" and "named (p_slots p) p"
    and "flags_ok p O'" and "room p" and "p_opts q = p_opts p2" and "occupied q = Suc (occupied p2)"
  shows "room q"
proof -
  have s: "\<forall>r. slot_sound p r" by (rule flagsD(5) [OF assms(4)])
  obtain p1 where p1: "reserveCapacityLocked ord p = (None, p1)"
    "tunnelBudgetAvailableLocked now p1 = (True, p2)"
    using assms(1) by (auto simp: granted_def)
  have "p_opts p2 = p_opts p" by (rule calm_fields' [OF granted_calm [OF assms(1)]])
  moreover have "int (occupied p2) < MaxActive (p_opts p)" if "0 < MaxActive (p_opts p)"
    using capacity_granted [OF p1(1) assms(2,3) s assms(5) that] budget_occupied [OF p1(2)] by simp
  ultimately show ?thesis using assms(6,7) unfolding room_def by fastforce
qed

lemma grown_slot_quiet:
  assumes "grown p q" and "\<forall>r. p_nextRef p \<le> r \<longrightarrow> \<not> slot_occupies (p_heap p r)"
  shows "s_opening (p_heap q r) = s_opening (p_heap p r)"
    and "s_tunnel (p_heap q r) = s_tunnel (p_heap p r)"
    and "slot_occupies (p_heap p r) \<Longrightarrow> sp_Kind (s_spec (p_heap q r)) = sp_Kind (s_spec (p_heap p r))"
proof -
  have g: "grown_slot (p_nextRef p) (p_nextRef q) r (p_heap p r) (p_heap q r)"
    using assms(1) by (simp add: grown_def)
  then consider (old) "r < p_nextRef p" "sp_Kind (s_spec (p_heap q r)) = sp_Kind (s_spec (p_heap p r))"
      "p_heap q r = (p_heap p r)\<lparr>s_spec := s_spec (p_heap q r)\<rparr>"
    | (unused) "p_heap q r = p_heap p r"
    | (fresh) "p_nextRef p \<le> r" "p_heap q r = new_slot_state (s_spec (p_heap q r))"
    by (auto simp: grown_slot_def)
  then have "s_opening (p_heap q r) = s_opening (p_heap p r) \<and> s_tunnel (p_heap q r) = s_tunnel (p_heap p r) \<and>
      (slot_occupies (p_heap p r) \<longrightarrow> sp_Kind (s_spec (p_heap q r)) = sp_Kind (s_spec (p_heap p r)))"
  proof cases
    case old
    obtain sp where "p_heap q r = (p_heap p r)\<lparr>s_spec := sp\<rparr>" using old(3) by blast
    then show ?thesis using old(2) by simp
  next
    case fresh
    then have n: "\<not> slot_occupies (p_heap p r)" using assms(2) by blast
    obtain sp where "p_heap q r = new_slot_state sp" using fresh(2) by blast
    then show ?thesis using n by (simp add: new_slot_state_def slot_occupies_def isOpen_def)
  qed simp
  then show "s_opening (p_heap q r) = s_opening (p_heap p r)"
    "s_tunnel (p_heap q r) = s_tunnel (p_heap p r)"
    "slot_occupies (p_heap p r) \<Longrightarrow> sp_Kind (s_spec (p_heap q r)) = sp_Kind (s_spec (p_heap p r))"
    by blast+
qed

lemma open_inv_reconcile:
  assumes inv: "open_inv w" and ok: "ids_ok (ids (w_pool w))"
    and ord: "set ord = set (map sp_ID specs)"
    and st: "ReconcileRelaySlots ord specs (w_pool w) = (res, q)"
  shows "open_inv (w\<lparr>w_pool := q\<rparr>)"
proof -
  let ?p = "w_pool w"
  note o = open_invD [OF inv]
  have nm: "named (p_slots ?p) ?p" by (rule named_iff [OF ok])
  have unused: "\<forall>r. p_nextRef ?p \<le> r \<longrightarrow> \<not> slot_occupies (p_heap ?p r)"
    using o(5) nm by (fastforce simp: slot_sound_def named_def)
  have main: "open_inv (w\<lparr>w_pool := q'\<rparr>)"
    if g: "grown ?p p'" and q': "p_opts q' = p_opts p'" "p_heap q' = p_heap p'"
      "p_entries q' = p_entries p'" "p_opens q' = p_opens p'"
      "p_pendingTunnelOpens q' = p_pendingTunnelOpens p'" "p_probeTunnels q' = p_probeTunnels p'"
      and keep: "\<forall>i x. fmlookup (p_slots ?p) i = Some x \<longrightarrow>
         sp_Kind (s_spec (p_heap ?p x)) \<noteq> KindRelaySocks \<longrightarrow> fmlookup (p_slots q') i = Some x"
    for p' q'
  proof -
    note h = grown_slot_quiet [OF g unused]
    have f: "p_opts p' = p_opts ?p" "p_entries p' = p_entries ?p" "p_opens p' = p_opens ?p"
      "p_pendingTunnelOpens p' = p_pendingTunnelOpens ?p" "p_probeTunnels p' = p_probeTunnels ?p"
      using g by (simp_all add: grown_def)
    have occ: "slot_occupies (p_heap p' r) = slot_occupies (p_heap ?p r)" for r
      using h(1,2) [of r] by (simp add: slot_occupies_def isOpen_def)
    have "slot_sound q' r" for r
      using o(5) h [of r] occ [of r] keep unfolding slot_sound_def q' by metis
    then have "flags_ok q' (w_openers w)"
      using o(1) h(1) by (simp add: flags_ok_def entry_opening_def q' f)
    moreover have "room q'" using o(2) by (simp add: room_def occupied_def q' f occ)
    moreover have "rate_ok q' (w_now w) (w_commits w)"
      using o(3) by (simp add: rate_ok_def commits_in_window_def q' f)
    ultimately show ?thesis using o(4) by (simp add: open_inv_def q' f)
  qed
  show ?thesis
    using st ord ok
  proof (cases rule: reconcile_cases)
    case same
    then show ?thesis using inv by simp
  next
    case (failed e)
    show ?thesis
      by (rule main [OF failed(1)]) (use failed(1) in \<open>simp_all add: grown_def\<close>)
  next
    case (merged p' nxt ses r)
    show ?thesis by (rule main [OF merged(1)]) (use merged in simp_all)
  qed
qed

lemma open_inv_settle:
  assumes inv: "open_inv w" and O': "w_openers w = add_mset x rest" and "\<not> settled x"
  shows "open_inv (w\<lparr>w_pool := rollbackTunnelOpen (w_pool w), w_openers := add_mset (settle x) rest\<rparr>)"
    and "open_inv (w\<lparr>w_pool := commitTunnelOpen (w_now w) (w_pool w),
           w_openers := add_mset (settle x) rest, w_commits := w_now w # w_commits w\<rparr>)"
proof -
  let ?p = "w_pool w"
  note o = open_invD [OF inv]
  note fs = flags_settle [OF o(1) [unfolded O'] assms(3)]
  have r: "rollbackTunnelOpen ?p = ?p\<lparr>p_opens := p_opens ?p,
      p_pendingTunnelOpens := p_pendingTunnelOpens ?p - 1\<rparr>"
    by (simp add: rollbackTunnelOpen_def)
  have c: "\<exists>os. commitTunnelOpen (w_now w) ?p = ?p\<lparr>p_opens := os,
      p_pendingTunnelOpens := p_pendingTunnelOpens ?p - 1\<rparr>"
    by (simp add: commitTunnelOpen_def pruneOpensLocked_def Let_def)
      (intro exI pool.equality, simp_all)
  then obtain os where c: "commitTunnelOpen (w_now w) ?p = ?p\<lparr>p_opens := os,
      p_pendingTunnelOpens := p_pendingTunnelOpens ?p - 1\<rparr>" by blast
  have "rate_ok (rollbackTunnelOpen ?p) (w_now w) (w_commits w)"
    by (rule rate_prune [OF o(3)]) (simp_all add: r)
  then show "open_inv (w\<lparr>w_pool := rollbackTunnelOpen ?p, w_openers := add_mset (settle x) rest\<rparr>)"
    using fs(1,2) [OF r] o(2,4) by (simp add: open_inv_def room_def) (simp add: r)
  have "rate_ok (commitTunnelOpen (w_now w) ?p) (w_now w) (w_now w # w_commits w)"
    by (rule rate_commit [OF o(3) fs(3) [OF c] o(4)])
  then show "open_inv (w\<lparr>w_pool := commitTunnelOpen (w_now w) ?p,
           w_openers := add_mset (settle x) rest, w_commits := w_now w # w_commits w\<rparr>)"
    using fs(1,2) [OF c] o(2,4) by (simp add: open_inv_def room_def) (simp add: c)
qed

lemma open_inv_leave:
  assumes inv: "open_inv w" and fl: "flags_ok q rest" and oc: "occupied q \<le> occupied (w_pool w)"
    and same: "p_opts q = p_opts (w_pool w)" "p_opens q = p_opens (w_pool w)"
      "p_pendingTunnelOpens q = p_pendingTunnelOpens (w_pool w)"
  shows "open_inv (w\<lparr>w_pool := q, w_openers := rest\<rparr>)"
proof -
  have "rate_ok q (w_now w) (w_commits w)"
    by (rule rate_prune [OF open_invD(3) [OF inv]]) (simp_all add: same)
  then show ?thesis
    using open_invD [OF inv] fl oc by (auto simp: open_inv_def room_def same)
qed

lemma open_inv_enter:
  assumes inv: "open_inv w" and nm: "named (p_slots (w_pool w)) (w_pool w)"
    and so: "slot_order (w_pool w) ord" and g: "granted ord (w_now w) (w_pool w) p2"
    and fl: "flags_ok q (add_mset x (w_openers w))" and oc: "occupied q = Suc (occupied p2)"
    and same: "p_opts q = p_opts p2" "p_opens q = p_opens p2"
      "p_pendingTunnelOpens q = Suc (p_pendingTunnelOpens p2)"
  shows "open_inv (w\<lparr>w_pool := q, w_openers := add_mset x (w_openers w)\<rparr>)"
proof -
  note o = open_invD [OF inv]
  have "rate_ok (p2\<lparr>p_pendingTunnelOpens := Suc (p_pendingTunnelOpens p2)\<rparr>) (w_now w) (w_commits w)"
    by (rule granted_budget [OF g o(3)])
  then have "rate_ok q (w_now w) (w_commits w)"
    by (simp add: rate_ok_def commits_in_window_def same)
  moreover have "room q" by (rule room_Suc [OF g so nm o(1,2) same(1) oc])
  moreover have "p_opts p2 = p_opts (w_pool w)" by (rule calm_fields' [OF granted_calm [OF g]])
  ultimately show ?thesis using o(4) fl by (simp add: open_inv_def same)
qed

lemma open_inv_step:
  assumes st: "step w w'" and inv: "open_inv w" and ok: "ids_ok (ids (w_pool w))"
  shows "open_inv w'"
  using st
proof cases
  case (tick t)
  then show ?thesis using inv rate_tick by (auto simp: open_inv_def)
next
  case (start a pol t)
  then show ?thesis using inv by simp
next
  case (acquire pol t a rest rnd ord dr a' p)
  then have "open_inv (w\<lparr>w_pool := p\<rparr>)" using open_inv_calm [OF inv acq_step_calm] by blast
  then show ?thesis by (simp add: acquire(1) after_acq_def open_inv_def)
next
  case (release l rest l' p)
  have "calm (w_now w) (w_pool w) p"
    using Release_calm [of "w_now w" "w_pool w" "w_now w" l] release(3) by simp
  then show ?thesis using open_inv_calm [OF inv] by (simp add: release(1))
next
  case (other p)
  then show ?thesis using open_inv_calm [OF inv pool_op_calm] by simp
next
  case (reconcile ord specs res p)
  then show ?thesis using open_inv_reconcile [OF inv ok] by simp
next
  case (slot_enter ord i r ce res p)
  show ?thesis
  proof (cases "res = EnterOpening")
    case False
    then have "calm (w_now w) (w_pool w) p" using ensureOpen_enter_cases [OF slot_enter(5)] by blast
    then show ?thesis using False open_inv_calm [OF inv] by (simp add: slot_enter(1))
  next
    case True
    then obtain p2 where p2: "granted ord (w_now w) (w_pool w) p2"
      "s_tunnel (p_heap (w_pool w) r) = None" "\<not> s_opening (p_heap (w_pool w) r)"
      "p = upd_slot r (\<lambda>s. s\<lparr>s_opening := True\<rparr>)
             (p2\<lparr>p_pendingTunnelOpens := Suc (p_pendingTunnelOpens p2)\<rparr>)"
      using ensureOpen_enter_cases [OF slot_enter(5)] by blast
    note e = flags_slot_enter [OF open_invD(1) [OF inv] p2(1,2,3) slot_enter(4,3)]
    show ?thesis
      using open_inv_enter [OF inv named_iff [OF ok] slot_enter(2) p2(1) e]
      by (simp add: slot_enter(1) True p2(4))
  qed
next
  case (slot_rollback r rest)
  then show ?thesis using open_inv_settle(1) [OF inv slot_rollback(2)] by simp
next
  case (slot_commit r rest)
  then show ?thesis using open_inv_settle(2) [OF inv slot_commit(2)] by simp
next
  case (slot_finish r rest res)
  note f = flags_slot_finish [OF open_invD(1) [OF inv, unfolded slot_finish(2)]]
  show ?thesis
    unfolding slot_finish(1)
    by (rule open_inv_leave [OF inv f]) (simp_all add: ensureOpen_finish_def)
next
  case (entry_enter ord i ce res p)
  show ?thesis
  proof (cases "res = EnterOpening")
    case False
    then have "calm (w_now w) (w_pool w) p"
      using ensureEntryOpen_enter_cases [OF entry_enter(4)] by blast
    then show ?thesis using False open_inv_calm [OF inv] by (simp add: entry_enter(1))
  next
    case True
    then obtain p2 where p2: "granted ord (w_now w) (w_pool w) p2"
      "e_tunnel (p_entries (w_pool w) ! i) = None" "\<not> e_opening (p_entries (w_pool w) ! i)"
      "p = upd_entry i (\<lambda>e. e\<lparr>e_opening := True\<rparr>)
             (p2\<lparr>p_pendingTunnelOpens := Suc (p_pendingTunnelOpens p2)\<rparr>)"
      using ensureEntryOpen_enter_cases [OF entry_enter(4)] by blast
    note e = flags_entry_enter [OF open_invD(1) [OF inv] p2(1,2,3) entry_enter(3)]
    show ?thesis
      using open_inv_enter [OF inv named_iff [OF ok] entry_enter(2) p2(1) e]
      by (simp add: entry_enter(1) True p2(4))
  qed
next
  case (entry_rollback i rest)
  then show ?thesis using open_inv_settle(1) [OF inv entry_rollback(2)] by simp
next
  case (entry_clear i rest)
  let ?q = "upd_entry i (\<lambda>e. e\<lparr>e_opening := False\<rparr>) (w_pool w)"
  have i: "i < length (p_entries (w_pool w))"
    using flagsD(4) [OF open_invD(1) [OF inv, unfolded entry_clear(2)], of i]
    by (auto simp: of_bool_def entry_opening_def split: if_splits)
  obtain e where e: "p_entries ?q = (p_entries (w_pool w))[i := e]" "\<not> e_opening e"
    using i by (auto simp: upd_entry_def)
  have same: "p_pendingTunnelOpens ?q = p_pendingTunnelOpens (w_pool w)"
    "p_probeTunnels ?q = p_probeTunnels (w_pool w)" "p_heap ?q = p_heap (w_pool w)"
    "p_slots ?q = p_slots (w_pool w)"
    by simp_all
  note f = flags_entry_leave [OF open_invD(1) [OF inv, unfolded entry_clear(2)] e same]
  show ?thesis unfolding entry_clear(1) by (rule open_inv_leave [OF inv f]) simp_all
next
  case (entry_commit i rest)
  then show ?thesis using open_inv_settle(2) [OF inv entry_commit(2)] by simp
next
  case (entry_finish i rest res)
  let ?q = "ensureEntryOpen_finish res (w_now w) i (w_pool w)"
  have i: "i < length (p_entries (w_pool w))"
    using flagsD(4) [OF open_invD(1) [OF inv, unfolded entry_finish(2)], of i]
    by (auto simp: of_bool_def entry_opening_def split: if_splits)
  obtain e where e: "p_entries ?q = (p_entries (w_pool w))[i := e]" "\<not> e_opening e"
    using i
    by (cases res)
      (auto simp: ensureEntryOpen_finish_def upd_entry_def observeEntryOpenFailureLocked_def Let_def)
  have same: "p_pendingTunnelOpens ?q = p_pendingTunnelOpens (w_pool w)"
    "p_probeTunnels ?q = p_probeTunnels (w_pool w)" "p_heap ?q = p_heap (w_pool w)"
    "p_slots ?q = p_slots (w_pool w)"
    by (simp_all add: ensureEntryOpen_finish_def observeEntryOpenFailureLocked_def Let_def
        split: sum.split)
  note f = flags_entry_leave [OF open_invD(1) [OF inv, unfolded entry_finish(2)] e same]
  show ?thesis
    unfolding entry_finish(1)
    by (rule open_inv_leave [OF inv f])
      (simp_all add: ensureEntryOpen_finish_def observeEntryOpenFailureLocked_def Let_def
        split: sum.split)
next
  case (probe_enter ord ce res p)
  show ?thesis
  proof (cases "res = None")
    case False
    then have "calm (w_now w) (w_pool w) p" using probeDialer_enter_cases [OF probe_enter(3)] by blast
    then show ?thesis using False open_inv_calm [OF inv] by (auto simp: probe_enter(1))
  next
    case True
    then obtain p2 where p2: "granted ord (w_now w) (w_pool w) p2"
      "p = p2\<lparr>p_pendingTunnelOpens := Suc (p_pendingTunnelOpens p2),
              p_probeTunnels := Suc (p_probeTunnels p2)\<rparr>"
      using probeDialer_enter_cases [OF probe_enter(3)] by blast
    note e = flags_probe_enter [OF open_invD(1) [OF inv] p2(1)]
    show ?thesis
      using open_inv_enter [OF inv named_iff [OF ok] probe_enter(2) p2(1) e]
      by (simp add: probe_enter(1) True p2(2))
  qed
next
  case (probe_rollback rest)
  then show ?thesis using open_inv_settle(1) [OF inv probe_rollback(2)] by simp
next
  case (probe_commit rest)
  then show ?thesis using open_inv_settle(2) [OF inv probe_commit(2)] by simp
next
  case (probe_release rest)
  note f = flags_probe_release [OF open_invD(1) [OF inv, unfolded probe_release(2)]]
  show ?thesis
    unfolding probe_release(1)
    by (rule open_inv_leave [OF inv f]) (simp_all add: releaseProbeCapacity_def)
qed

lemma open_inv_init:
  assumes "NewWithSpecs specs entries opts = Inr p"
  shows "open_inv \<lparr>w_pool = p, w_now = t, w_acqs = {#}, w_leases = {#}, w_openers = {#},
    w_commits = []\<rparr>"
proof -
  have add: "p_pendingTunnelOpens q = p_pendingTunnelOpens p \<and> p_probeTunnels q = p_probeTunnels p \<and>
      p_entries q = p_entries p \<and> p_opens q = p_opens p \<and>
      ((\<forall>r. \<not> slot_occupies (p_heap p r)) \<longrightarrow> (\<forall>r. \<not> slot_occupies (p_heap q r)))"
    if "add_specs sps p = Inr q" for sps p q
    using that
  proof (induction sps arbitrary: p)
    case (Cons sp sps)
    let ?p = "(alloc_slot sp p)\<lparr>p_slots := fmupd (sp_ID sp) (p_nextRef p) (p_slots p),
        p_order := p_order p @ [sp_ID sp]\<rparr>"
    have "add_specs sps ?p = Inr q" using Cons.prems by (auto split: if_splits)
    from Cons.IH [OF this] show ?case
      by (auto simp: alloc_slot_def new_slot_state_def slot_occupies_def isOpen_def)
  qed simp
  obtain q where q: "add_specs specs (empty_pool (applyDefaults opts) entries) = Inr q"
    "p = q\<lparr>p_order := sort (p_order q)\<rparr>"
    using assms by (auto simp: NewWithSpecs_def split: if_splits sum.splits)
  have f: "p_pendingTunnelOpens p = 0" "p_probeTunnels p = 0" "p_entries p = map new_entry entries"
    "p_opens p = []" "\<And>r. \<not> slot_occupies (p_heap p r)"
    using add [OF q(1)]
    by (auto simp: q(2) empty_pool_def new_slot_state_def slot_occupies_def isOpen_def)
  have "flags_ok p {#}"
    using f by (auto simp: flags_ok_def entry_opening_def slot_sound_def slot_occupies_def new_entry_def)
  moreover have "occupied p = 0"
    using f by (simp add: occupied_def entry_occupies_def entry_isOpen_def new_entry_def)
  moreover have "0 < NewTunnelWindow (p_opts p)"
    by (simp add: NewWithSpecs_ok(3) [OF assms] applyDefaults_def Let_def default_to_def)
  ultimately show ?thesis
    using f by (simp add: open_inv_def room_def rate_ok_def since_def commits_in_window_def)
qed

theorem reachable_open_inv: "reachable w \<Longrightarrow> open_inv w"
proof (induction rule: reachable.induct)
  case (init specs entries opts p t)
  then show ?case by (rule open_inv_init)
next
  case (next_step w w')
  then have "ids_ok (ids (w_pool w))" using reachable_conn_inv by (simp add: conn_inv_def)
  then show ?case using open_inv_step next_step by blast
qed

section \<open>A run that opens a tunnel\<close>

definition demo_opening :: world where
  "demo_opening = demo_start\<lparr>
     w_pool := commitTunnelOpen 5 (snd (ensureOpen_enter None [''a'', ''b''] 5 1 demo_pool)),
     w_openers := {#SlotOpener 1 True#}, w_commits := [5]\<rparr>"

lemma demo_opening_reachable: "reachable demo_opening"
proof -
  let ?p = "snd (ensureOpen_enter None [''a'', ''b''] 5 1 demo_pool)"
  let ?w = "demo_start\<lparr>w_pool := ?p, w_openers := {#SlotOpener 1 False#}\<rparr>"
  have "(case fst (ensureOpen_enter None [''a'', ''b''] 5 1 demo_pool) of
      EnterOpening \<Rightarrow> True | _ \<Rightarrow> False)"
    by code_simp
  then have e: "ensureOpen_enter None [''a'', ''b''] 5 1 demo_pool = (EnterOpening, ?p)"
    by (simp add: prod_eq_iff split: enter.splits)
  have "fmlookup (p_slots demo_pool) ''a'' = Some 1"
    "kind_string (sp_Kind (s_spec (p_heap demo_pool 1))) = ''wireguard''"
    by code_simp+
  then have a: "fmlookup (p_slots demo_pool) ''a'' = Some 1"
    "sp_Kind (s_spec (p_heap demo_pool 1)) \<noteq> KindRelaySocks"
    by auto
  have "step demo_start ?w"
    using step.slot_enter [of demo_start "[''a'', ''b'']" "''a''" 1 None EnterOpening ?p] a e demo_order
    by (simp add: demo_start_def)
  then have "reachable ?w" by (rule reachable.next_step [OF demo_start_reachable])
  moreover have "step ?w demo_opening"
    using step.slot_commit [of ?w 1 "{#}"] by (simp add: demo_start_def demo_opening_def)
  ultimately show ?thesis by (rule reachable.next_step)
qed

section \<open>The theorems\<close>

text \<open>
  C21: at most one goroutine opens a given slot or entry. In every reachable world the flag of a
  slot or an entry is up exactly when one goroutine is opening it, no goroutine opens what already
  has a tunnel, and the pool's counts of pending opens and of probe tunnels are the goroutines that
  have not settled their open, and the probes.
\<close>

theorem single_flight:
  assumes "reachable w"
  shows "size (filter_mset (opens_slot r) (w_openers w)) = of_bool (s_opening (p_heap (w_pool w) r)) \<and>
         size (filter_mset (opens_entry i) (w_openers w)) = of_bool (entry_opening (w_pool w) i) \<and>
         \<not> (s_opening (p_heap (w_pool w) r) \<and> isOpen (p_heap (w_pool w) r)) \<and>
         \<not> (entry_opening (w_pool w) i \<and> entry_isOpen (p_entries (w_pool w) ! i)) \<and>
         p_pendingTunnelOpens (w_pool w) = size (filter_mset (\<lambda>x. \<not> settled x) (w_openers w)) \<and>
         p_probeTunnels (w_pool w) = size (filter_mset is_probe (w_openers w))"
proof -
  note f = flagsD [OF open_invD(1) [OF reachable_open_inv [OF assms]]]
  have "\<not> (s_opening (p_heap (w_pool w) r) \<and> isOpen (p_heap (w_pool w) r))"
    using f(5) by (auto simp: slot_sound_def isOpen_def)
  moreover have "\<not> (entry_opening (w_pool w) i \<and> entry_isOpen (p_entries (w_pool w) ! i))"
    using f(6) by (auto simp: entry_opening_def entry_isOpen_def)
  ultimately show ?thesis using f(1-4) by blast
qed

theorem single_flight_witness:
  "w_openers demo_opening = {#SlotOpener 1 True#} \<and> s_opening (p_heap (w_pool demo_opening) 1) \<and>
   p_pendingTunnelOpens (w_pool demo_opening) = 0"
proof -
  have w: "w_openers demo_opening = {#SlotOpener 1 True#}" by (simp add: demo_opening_def)
  then show ?thesis
    using single_flight [OF demo_opening_reachable, of 1 0]
    by (cases "s_opening (p_heap (w_pool demo_opening) 1)") simp_all
qed

lemma open_cap:
  assumes "reachable w" and "slot_order (w_pool w) ord" and "0 < MaxActive (p_opts (w_pool w))"
  shows "int (openCount ord (w_pool w)) \<le> MaxActive (p_opts (w_pool w))"
proof -
  note o = open_invD [OF reachable_open_inv [OF assms(1)]]
  have "ids_ok (ids (w_pool w))" using reachable_conn_inv [OF assms(1)] by (simp add: conn_inv_def)
  then show ?thesis
    using openCount_occupied [OF assms(2) named_iff o(5)] o(2) assms(3) by (simp add: room_def)
qed

text \<open>
  C3: the tunnels that are open or being opened, of slots, entries and probes together, never
  exceed \<open>MaxActive\<close>, whatever the order of openings, closings, failures and relay refreshes.
\<close>

theorem tunnel_cap:
  assumes "reachable w" and "slot_order (w_pool w) ord" and "0 < MaxActive (p_opts (w_pool w))"
  shows "int (openCount ord (w_pool w)) \<le> MaxActive (p_opts (w_pool w))"
  using assms by (rule open_cap)

theorem tunnel_cap_witness:
  "openCount [''a'', ''b''] (w_pool demo_opening) = 1 \<and>
   int (openCount [''a'', ''b''] (w_pool demo_opening)) \<le> MaxActive (p_opts (w_pool demo_opening))"
proof -
  have "openCount [''a'', ''b''] (w_pool demo_opening) = 1"
    "fmdom (p_slots (w_pool demo_opening)) = {|''a'', ''b''|}"
    "MaxActive (p_opts (w_pool demo_opening)) = 1"
    by code_simp+
  then show ?thesis
    using tunnel_cap [OF demo_opening_reachable, of "[''a'', ''b'']"] by (simp add: slot_order_def)
qed

lemma open_rate:
  assumes "reachable w" and "0 < NewTunnelBudget (p_opts (w_pool w))"
  shows "int (length (filter (\<lambda>at. t - NewTunnelWindow (p_opts (w_pool w)) < at \<and> at \<le> t) (w_commits w)))
           \<le> NewTunnelBudget (p_opts (w_pool w))"
  using open_invD(3) [OF reachable_open_inv [OF assms(1)]] assms(2)
  by (auto simp: rate_ok_def commits_in_window_def)

text \<open>
  C5: whenever a budget is configured, no window of \<open>NewTunnelWindow\<close>, wherever it lies in the run,
  contains more than \<open>NewTunnelBudget\<close> committed tunnel openings; failed handshakes count, and slots,
  entries and probes share the budget.
\<close>

theorem tunnel_rate:
  assumes "reachable w" and "0 < NewTunnelBudget (p_opts (w_pool w))"
  shows "int (length (filter (\<lambda>at. t - NewTunnelWindow (p_opts (w_pool w)) < at \<and> at \<le> t) (w_commits w)))
           \<le> NewTunnelBudget (p_opts (w_pool w))"
  using assms by (rule open_rate)

theorem tunnel_rate_witness:
  "w_commits demo_opening = [5] \<and>
   int (length (filter (\<lambda>at. 60 - NewTunnelWindow (p_opts (w_pool demo_opening)) < at \<and> at \<le> 60)
          (w_commits demo_opening))) \<le> 1"
proof -
  have "NewTunnelBudget (p_opts (w_pool demo_opening)) = 1" by code_simp
  then show ?thesis
    using tunnel_rate [OF demo_opening_reachable, of 60] by (simp add: demo_opening_def)
qed

text \<open>
  A request for tunnel capacity, on every branch. Below the cap, or without one, the pool is
  left alone. At the cap exactly one tunnel is closed: one without live or pending connections that
  no other such tunnel was used before. When every tunnel carries connections, the request fails
  and nothing is closed.
\<close>

theorem capacity_eviction:
  assumes "reserveCapacityLocked ord p = (res, q)"
  shows "if MaxActive (p_opts p) \<le> 0 \<or> int (openCount ord p) < MaxActive (p_opts p)
         then res = None \<and> q = p
         else if \<exists>i\<in>set ord. idle (p_heap p (the (fmlookup (p_slots p) i)))
         then res = None \<and>
              (\<exists>i\<in>set ord. let v = the (fmlookup (p_slots p) i)
                 in idle (p_heap p v) \<and>
                    q = upd_slot v (\<lambda>s. s\<lparr>s_tunnel := None, s_openedAt := 0\<rparr>) p \<and>
                    (\<forall>j\<in>set ord. idle (p_heap p (the (fmlookup (p_slots p) j))) \<longrightarrow>
                       s_lastUsed (p_heap p v) \<le> s_lastUsed (p_heap p (the (fmlookup (p_slots p) j)))))
         else res = Some ErrCapacity \<and> q = p"
proof (cases "MaxActive (p_opts p) \<le> 0 \<or> int (openCount ord p) < MaxActive (p_opts p)")
  case True
  then show ?thesis using assms by (auto simp: reserveCapacityLocked_def)
next
  case full: False
  show ?thesis
  proof (cases "find_victim p None ord")
    case None
    then show ?thesis
      using assms full find_victim_none [OF None] by (auto simp: reserveCapacityLocked_def)
  next
    case (Some v)
    then obtain i where i: "i \<in> set ord" "v = the (fmlookup (p_slots p) i)" "idle (p_heap p v)"
      using find_victim_some by blast
    then have "closeLocked v p = upd_slot v (\<lambda>s. s\<lparr>s_tunnel := None, s_openedAt := 0\<rparr>) p"
      by (auto simp: closeLocked_def idle_def isOpen_def)
    then have "res = None" "q = upd_slot v (\<lambda>s. s\<lparr>s_tunnel := None, s_openedAt := 0\<rparr>) p"
      using assms full Some by (auto simp: reserveCapacityLocked_def)
    then show ?thesis
      using full i find_victim_oldest [OF Some] unfolding Let_def by auto
  qed
qed

theorem capacity_eviction_witness:
  "fst (reserveCapacityLocked [''a'', ''b''] (w_pool demo_opening)) = Some ErrCapacity"
proof -
  have "MaxActive (p_opts (w_pool demo_opening)) = 1"
    "openCount [''a'', ''b''] (w_pool demo_opening) = 1"
    "list_ex (\<lambda>i. idle (p_heap (w_pool demo_opening) (the (fmlookup (p_slots (w_pool demo_opening)) i))))
       [''a'', ''b''] = False"
    by code_simp+
  then show ?thesis
    using capacity_eviction [of "[''a'', ''b'']" "w_pool demo_opening"
      "fst (reserveCapacityLocked [''a'', ''b''] (w_pool demo_opening))"
      "snd (reserveCapacityLocked [''a'', ''b''] (w_pool demo_opening))"]
    by simp
qed

end
