(* ===== verification/Choice.thy ===== *)
theory Choice
  imports Samples Calm
begin

text \<open>
  What a caller of \<open>Acquire\<close> can rely on: the slot a selection returns satisfies every constraint of
  the policy, a unique batch gets an address it has not burned, a sticky session keeps its slot, an
  error has its reason, and a reservation that is rolled back leaves nothing behind. The facts of
  \<open>PickSpec\<close> are stated on the pool after \<open>expireLocked\<close>; here they are carried back to the pool the
  caller sees.
\<close>

section \<open>Expiry does not change who is eligible\<close>

lemma coolingDown_expire:
  "coolingDown (p_heap (expireLocked now p) r) target now = coolingDown (p_heap p r) target now"
  by (auto simp: expireLocked_def coolingDown_def split: option.splits)

lemma ip_cooling_expire: "ip_cooling (expireLocked now p) target ip now = ip_cooling p target ip now"
proof (cases "fmlookup (p_ipCooldowns p) target")
  case None
  then show ?thesis by (simp add: expireLocked_def ip_cooling_def)
next
  case (Some byIP)
  let ?k = "fm_keep (\<lambda>until. \<not> until < now) byIP"
  have "fmlookup (p_ipCooldowns (expireLocked now p)) target = (if ?k = fmempty then None else Some ?k)"
    by (simp add: expireLocked_def Some Let_def fm_size_0_iff)
  moreover have "u < now" if "?k = fmempty" "fmlookup byIP ip = Some u" for u
  proof -
    have "fmlookup ?k ip = None" unfolding that(1) by simp
    then show ?thesis using that(2) by (simp split: if_splits)
  qed
  ultimately show ?thesis
    using Some by (cases "?k = fmempty") (auto simp: ip_cooling_def not_less split: option.splits dest: leD)
qed

lemma batch_excludes_expire:
  "s_publicIP s' = s_publicIP s \<Longrightarrow> slot_ID s' = slot_ID s \<Longrightarrow>
   batch_excludes (expireLocked now p) pol s' now = batch_excludes p pol s now"
  by (auto simp: expireLocked_def batch_excludes_def split: option.splits)

lemma eligible_expire:
  "eligible (expireLocked now p) pol target now r = eligible p pol target now r"
proof -
  let ?s = "p_heap p r" and ?t = "p_heap (expireLocked now p) r"
  have "s_spec ?t = s_spec ?s" "s_disabledUntil ?t = s_disabledUntil ?s" "slot_ID ?t = slot_ID ?s"
    "s_publicIP ?t = s_publicIP ?s" "s_ipCheckedAt ?t = s_ipCheckedAt ?s"
    "s_leases ?t = s_leases ?s" "s_pendingLeases ?t = s_pendingLeases ?s"
    by (auto simp: expireLocked_def slot_ID_def)
  then show ?thesis
    by (simp add: eligible_def Let_def coolingDown_expire ip_cooling_expire at_conn_limit_def
        ip_fresh_def batch_excludes_expire [of ?t ?s])
qed

lemma eligible_ref_expire:
  "eligible_ref (expireLocked now p) pol target now = eligible_ref p pol target now"
  by (rule ext) (simp add: eligible_ref_def eligible_expire split: option.split)

lemma slot_ref_expire [simp]: "slot_ref (expireLocked now p) = slot_ref p"
  by (simp add: slot_ref_def fun_eq_iff)

lemma recycles_expire:
  "recycles (expireLocked now p) pol target now r = recycles p pol target now r"
proof -
  have "recyclable (expireLocked now p) pol target now = recyclable p pol target now"
    by (simp add: fun_eq_iff recyclable_def eligible_expire split: option.split)
  moreover have "fmlookup (p_batches (expireLocked now p)) n = Some b \<and> now < b_expiresAt b \<longleftrightarrow>
      fmlookup (p_batches p) n = Some b \<and> now < b_expiresAt b" for n b
    by (auto simp: expireLocked_def split: option.splits)
  ultimately show ?thesis
    unfolding recycles_def by (simp add: eligible_ref_expire) meson
qed

lemma chosen_expire: "chosen (expireLocked now p) pol target now r = chosen p pol target now r"
  by (simp add: chosen_def eligible_expire recycles_expire)

lemma limits_expire:
  "budget_spent now (expireLocked now p) = budget_spent now p"
  "tunnels_full ord (expireLocked now p) = tunnels_full ord p"
proof -
  have "slot_occupies (p_heap (expireLocked now p) r) = slot_occupies (p_heap p r)"
    "idle (p_heap (expireLocked now p) r) = idle (p_heap p r)" for r
    by (simp_all add: slot_occupies_def idle_def isOpen_def)
  then show "tunnels_full ord (expireLocked now p) = tunnels_full ord p"
    by (simp add: tunnels_full_def openCount_def)
qed (simp add: budget_spent_def)

lemma refuses_expire: "refuses ord (expireLocked now p) pol target now e = refuses ord p pol target now e"
proof -
  have "ready (p_heap (expireLocked now p) r) = ready (p_heap p r)" for r
    by (auto simp: expireLocked_def ready_def isOpen_def)
  then show ?thesis by (simp add: refuses_def eligible_ref_expire recycles_expire limits_expire)
qed

section \<open>A selection that returns a slot\<close>

text \<open>The limits of the pool and of the policy do not stop the selection.\<close>

definition admitted :: "pool \<Rightarrow> policy \<Rightarrow> bool" where
  "admitted p pol \<longleftrightarrow> \<not> over_policy_limits p pol \<and> \<not> at_global_limit p"

lemma admitted_expire [simp]: "admitted (expireLocked now p) pol = admitted p pol"
  by (simp add: admitted_def over_policy_limits_def at_global_limit_def)

lemma pick_Inr:
  assumes "pick rnd ord pol t now p = (Inr pk, q)" and "\<And>n. 0 < n \<Longrightarrow> rnd n < n"
  obtains p1 r sticky ar where "pk = Picked r sticky ar" "admitted p pol"
    "chosen p pol (scope_of pol t) now r" "near (expireLocked now p) p1"
    "reserveAcquisitionLocked pol r now p1 = (Inr ar, q)"
proof -
  let ?p = "expireLocked now p"
  have a: "admitted ?p pol" and pr: "pick_result ord pol (scope_of pol t) now ?p (Inr pk) q"
    using pick_spec [OF assms] by (auto simp: admitted_def split: if_splits)
  obtain r sticky p1 where "near ?p p1" "chosen ?p pol (scope_of pol t) now r"
    "reserved_at pol now p1 r sticky (Inr pk) q"
    using pr by (auto simp: pick_result_def)
  then show ?thesis
    using that a by (auto simp: reserved_at_def chosen_expire)
qed

lemma reserveAcquisition_batch:
  assumes "reserveAcquisitionLocked pol r now p = (Inr ar, q)"
  obtains m p2 where "reserveBatchLocked pol r now (p\<lparr>p_pendingSessions := m\<rparr>) = (Inr (ar_batch ar), p2)"
    "p_batches q = p_batches p2"
  using assms
  by (auto simp: reserveAcquisitionLocked_def dest!: reserveSession_shape split: prod.splits sum.splits)

lemma reserveBatch_uses:
  assumes "reserveBatchLocked pol r now p = (Inr br, q)" and "pol_UniqueBatch pol \<noteq> []"
  shows "\<exists>b. fmlookup (p_batches q) (pol_UniqueBatch pol) = Some b \<and>
             taken b (slot_ID (p_heap p r)) \<and>
             (s_publicIP (p_heap p r) \<noteq> None \<longrightarrow>
                attributed b (slot_ID (p_heap p r)) (s_publicIP (p_heap p r)))"
  using assms by (auto simp: reserveBatchLocked_def Let_def split: if_splits option.splits)

text \<open>
  C6: the slot a selection returns satisfies every constraint of the policy and is usable at that moment: it is the slot,
  of the provider, country and city the policy names, its address is not excluded (and is
  known, fresh and not rotating when addresses are excluded), neither it nor its address is
  cooling down for the destination, it is not backed off, and neither its limit nor the limits
  of the pool and of the policy are reached. For a unique batch its address is known, fresh and not rotating too, and a live
  batch of that name has used neither the slot nor the address; the one way around this is a recycled exit: the caller
  allows it, no slot is eligible, and of the exits that only the batch excludes this one was burned first. All this holds for sticky
  sessions, last-good exits and random choices alike.
\<close>

theorem pick_honours:
  assumes "pick rnd ord pol t now p = (Inr (Picked r sticky ar), q)"
    and "\<And>n. 0 < n \<Longrightarrow> rnd n < n"
  shows "let s = p_heap p r; sp = s_spec s in
     (\<exists>i. fmlookup (p_slots p) i = Some r) \<and>
     (pol_Slot pol = [] \<or> sp_ID sp = pol_Slot pol) \<and>
     (pol_Provider pol = [] \<or> sp_Provider sp = pol_Provider pol) \<and>
     (pol_Countries pol = [] \<or> (\<exists>c\<in>set (pol_Countries pol). equal_fold c (sp_Country sp))) \<and>
     (pol_Cities pol = [] \<or> (\<exists>c\<in>set (pol_Cities pol). equal_fold c (sp_City sp))) \<and>
     s_publicIP s \<notin> set (pol_ExcludeIPs pol) \<and>
     (pol_ExcludeIPs pol = [] \<or> ip_fresh p s now \<and> \<not> sp_Rotating sp) \<and>
     s_disabledUntil s \<le> now \<and> \<not> coolingDown s (scope_of pol t) now \<and>
     \<not> ip_cooling p (scope_of pol t) (s_publicIP s) now \<and>
     \<not> at_conn_limit p s \<and> \<not> at_global_limit p \<and>
     (pol_UniqueBatch pol = [] \<or>
      ip_fresh p s now \<and> \<not> sp_Rotating sp \<and>
        \<not> (\<exists>b. fmlookup (p_batches p) (pol_UniqueBatch pol) = Some b \<and> now < b_expiresAt b \<and>
              (slot_ID s |\<in>| b_usedSlots b \<or> s_publicIP s |\<in>| fmdom (b_usedIPs b))) \<or>
      recycles p pol (scope_of pol t) now r) \<and>
     pol_TTL pol \<le> MaxSessionTTL (p_opts p) \<and> pol_BatchTTL pol \<le> MaxBatchTTL (p_opts p)"
proof -
  obtain p1 where a: "admitted p pol" and c: "chosen p pol (scope_of pol t) now r"
    using pick_Inr [OF assms] by blast
  let ?tg = "scope_of pol t"
  have "eligible p pol ?tg now r \<or> recycles p pol ?tg now r \<and> eligible p (pol\<lparr>pol_UniqueBatch := []\<rparr>) ?tg now r"
    using c by (auto simp: chosen_def recycles_def recyclable_def)
  moreover have "\<exists>i. fmlookup (p_slots p) i = Some r"
    using c by (simp add: chosen_def slot_ref_def)
  moreover have "batch_excludes p pol s now \<longleftrightarrow> pol_UniqueBatch pol \<noteq> [] \<and>
      (\<exists>b. fmlookup (p_batches p) (pol_UniqueBatch pol) = Some b \<and> now < b_expiresAt b \<and>
         (slot_ID s |\<in>| b_usedSlots b \<or> s_publicIP s |\<in>| fmdom (b_usedIPs b)))" for s
    by (auto simp: batch_excludes_def split: option.splits)
  ultimately show ?thesis
    using a
    by (auto simp: eligible_def matches_def Let_def admitted_def over_policy_limits_def
        containsFold_def list_ex_iff)
qed

definition demo_choice_policy :: policy where
  "demo_choice_policy = no_policy\<lparr>pol_Countries := [''jp'', ''us''], pol_Cities := [''nyc''],
     pol_Slot := ''b'', pol_ExcludeIPs := [Some (V4 7)]\<rparr>"

definition demo_choice :: "(pool_error + picked) \<times> pool" where
  "demo_choice = pick (\<lambda>_. 0) [''a'', ''b''] demo_choice_policy ''t'' 5 demo_measured"

lemma demo_choice_Picked:
  "\<exists>ar. demo_choice = (Inr (Picked 0 False ar), snd demo_choice)"
proof -
  have "(case fst demo_choice of Inr (Picked r st ar) \<Rightarrow> r = 0 \<and> \<not> st | Inl _ \<Rightarrow> False)" by code_simp
  then show ?thesis by (auto simp: prod_eq_iff split: sum.splits picked.splits)
qed

theorem pick_honours_witness:
  "s_publicIP (p_heap demo_measured 0) \<notin> set [Some (V4 7)] \<and>
   s_disabledUntil (p_heap demo_measured 0) \<le> 5"
proof -
  obtain ar where "demo_choice = (Inr (Picked 0 False ar), snd demo_choice)"
    using demo_choice_Picked by blast
  from pick_honours [OF this [unfolded demo_choice_def]] show ?thesis
    by (simp add: Let_def demo_choice_policy_def)
qed

text \<open>
  C32: an acquisition for a unique batch that does not allow recycling gets a slot the batch has not
  used, with a fresh address the batch has not burned, and afterwards the batch has taken the
  slot and attributed the address to it.
\<close>

theorem batch_fresh:
  assumes "pick rnd ord pol t now p = (Inr (Picked r sticky ar), q)"
    and "\<And>n. 0 < n \<Longrightarrow> rnd n < n"
    and "pol_UniqueBatch pol \<noteq> []" and "\<not> pol_RecycleBatch pol"
  shows "let s = p_heap p r in
     ip_fresh p s now \<and> \<not> sp_Rotating (s_spec s) \<and>
     (\<forall>b. fmlookup (p_batches p) (pol_UniqueBatch pol) = Some b \<and> now < b_expiresAt b \<longrightarrow>
        \<not> taken b (slot_ID s) \<and> \<not> burned b (s_publicIP s)) \<and>
     (\<exists>b. fmlookup (p_batches q) (pol_UniqueBatch pol) = Some b \<and> taken b (slot_ID s) \<and>
        attributed b (slot_ID s) (s_publicIP s))"
proof -
  let ?s = "p_heap p r"
  obtain p1 where c: "chosen p pol (scope_of pol t) now r" and n: "near (expireLocked now p) p1"
    and ra: "reserveAcquisitionLocked pol r now p1 = (Inr ar, q)"
    using pick_Inr [OF assms(1,2)] by (metis picked.inject)
  then have el: "eligible p pol (scope_of pol t) now r"
    using assms(4) by (simp add: chosen_def recycles_def)
  obtain m p2 where b: "reserveBatchLocked pol r now (p1\<lparr>p_pendingSessions := m\<rparr>) = (Inr (ar_batch ar), p2)"
    "p_batches q = p_batches p2"
    using reserveAcquisition_batch [OF ra] by blast
  have same: "slot_ID (p_heap p1 r) = slot_ID ?s" "s_publicIP (p_heap p1 r) = s_publicIP ?s"
    using near_slot [OF n, of r] by (simp_all add: slot_ID_def)
  have fr: "ip_fresh p ?s now" "\<not> sp_Rotating (s_spec ?s)" "\<not> batch_excludes p pol ?s now"
    using el assms(3) by (auto simp: eligible_def matches_def Let_def)
  then have "s_publicIP ?s \<noteq> None" by (simp add: ip_fresh_def)
  then show ?thesis
    using fr reserveBatch_uses [OF b(1) assms(3)] assms(3) same
    by (auto simp: Let_def b(2) batch_excludes_def taken_def burned_def split: option.splits)
qed

theorem batch_fresh_witness:
  "ip_fresh demo_preferred (p_heap demo_preferred 0) 5 \<and>
   (\<exists>b. fmlookup (p_batches (snd (pick (\<lambda>_. 0) [''a'', ''b''] demo_batch_policy ''t'' 5 demo_preferred)))
          ''job'' = Some b \<and> taken b ''b'')"
proof -
  let ?x = "pick (\<lambda>_. 0) [''a'', ''b''] demo_batch_policy ''t'' 5 demo_preferred"
  have "(case fst ?x of Inr (Picked r st ar) \<Rightarrow> r = 0 | Inl _ \<Rightarrow> False)"
    "slot_ID (p_heap demo_preferred 0) = ''b''"
    by code_simp+
  moreover from this obtain st ar where "?x = (Inr (Picked 0 st ar), snd ?x)"
    by (auto simp: prod_eq_iff split: sum.splits picked.splits)
  from batch_fresh [OF this]
  have "let s = p_heap demo_preferred 0 in ip_fresh demo_preferred s 5 \<and>
      (\<exists>b. fmlookup (p_batches (snd ?x)) ''job'' = Some b \<and> taken b (slot_ID s))"
    by (auto simp: demo_batch_policy_def no_policy_def Let_def)
  ultimately show ?thesis by (simp add: Let_def)
qed

text \<open>
  An exhausted unique batch whose caller opted in gets back, of the slots that are eligible but
  for the batch, the one whose address was burned first. Its address becomes the most recently
  burned one; what else the batch has burned, and when, stays.
\<close>

theorem recycle_oldest:
  assumes "recycleOldestBatchExitLocked pol target now p = (Some r, q)"
    and "\<forall>i\<in>set (p_order p). \<not> eligible_ref p pol target now (slot_ref p i)"
  shows "pol_RecycleBatch pol \<and>
     (\<exists>b b'. fmlookup (p_batches p) (pol_UniqueBatch pol) = Some b \<and> now < b_expiresAt b \<and>
        fmlookup (p_batches q) (pol_UniqueBatch pol) = Some b' \<and>
        (\<exists>i\<in>set (p_order p). slot_ref p i = Some r \<and> recyclable p pol target now b i) \<and>
        (\<forall>i\<in>set (p_order p). recyclable p pol target now b i \<longrightarrow>
           burn_age b (s_publicIP (p_heap p r)) \<le> burn_age b (s_publicIP (p_heap p (the (slot_ref p i))))) \<and>
        (\<forall>ip. burned b' ip = burned b ip) \<and>
        burn_age b' (s_publicIP (p_heap p r)) = Suc (b_nextBurn b) \<and>
        (\<forall>ip. ip \<noteq> s_publicIP (p_heap p r) \<longrightarrow> burn_age b' ip = burn_age b ip))"
proof -
  obtain b where b: "pol_RecycleBatch pol" "fmlookup (p_batches p) (pol_UniqueBatch pol) = Some b"
    "now < b_expiresAt b" and i: "\<exists>i\<in>set (p_order p). slot_ref p i = Some r \<and> recyclable p pol target now b i"
    and least: "\<forall>i\<in>set (p_order p). recyclable p pol target now b i \<longrightarrow>
      burn_age b (s_publicIP (p_heap p r)) \<le> burn_age b (s_publicIP (p_heap p (the (slot_ref p i))))"
    using recycle_spec [OF assms] unfolding recycles_def by blast
  obtain n p1 where l: "recycle_loop pol target now b None p (p_order p) = (Some (r, n), p1)"
    and q: "q = p1\<lparr>p_batches := fmupd (pol_UniqueBatch pol)
                 (stampLocked (s_publicIP (p_heap p1 r)) now b) (p_batches p1)\<rparr>"
    using assms(1) b
    by (auto simp: recycleOldestBatchExitLocked_def split: if_splits option.splits prod.splits)
  have "p_heap p1 = p_heap p" using recycle_loop_spec [OF l] sel_eq_fields(2) by blast
  then have q': "fmlookup (p_batches q) (pol_UniqueBatch pol) =
      Some (stampLocked (s_publicIP (p_heap p r)) now b)"
    by (simp add: q)
  have "burned b (s_publicIP (p_heap p r))"
    using i by (auto simp: recyclable_def)
  then have "burned (stampLocked (s_publicIP (p_heap p r)) now b) ip = burned b ip" for ip by auto
  then show ?thesis using b i least q' by (intro conjI exI [of _ b] exI) auto
qed

definition demo_exhausted :: pool where
  "demo_exhausted = snd demo_uniq"

definition demo_recycle_policy :: policy where
  "demo_recycle_policy = demo_batch_policy\<lparr>pol_RecycleBatch := True, pol_Slot := ''b''\<rparr>"

definition demo_released :: pool where
  "demo_released = upd_slot 0 (\<lambda>s. s\<lparr>s_pendingLeases := 0\<rparr>) demo_exhausted"

theorem recycle_oldest_witness:
  "\<exists>b'. fmlookup (p_batches (snd (recycleOldestBatchExitLocked demo_recycle_policy ''t'' 6 demo_released)))
          ''job'' = Some b' \<and> burn_age b' demo_ip = 2"
proof -
  let ?x = "recycleOldestBatchExitLocked demo_recycle_policy ''t'' 6 demo_released"
  have "fst ?x = Some 0" by code_simp
  then have x: "?x = (Some 0, snd ?x)" by (simp add: prod_eq_iff)
  have "list_all (\<lambda>i. \<not> eligible_ref demo_released demo_recycle_policy ''t'' 6 (slot_ref demo_released i))
      (p_order demo_released)"
    "s_publicIP (p_heap demo_released 0) = demo_ip" "pol_UniqueBatch demo_recycle_policy = ''job''"
    "map_option b_nextBurn (fmlookup (p_batches demo_released) ''job'') = Some 1"
    by code_simp+
  then show ?thesis
    using recycle_oldest [OF x] by (auto simp: list_all_iff)
qed

lemma expire_session:
  "fmlookup (p_sessions (expireLocked now p)) n =
     (case fmlookup (p_sessions p) n of
        None \<Rightarrow> None | Some se \<Rightarrow> if se_expiresAt se < now then None else Some se)"
  by (auto simp: expireLocked_def split: option.splits)

lemma reserveAcquisition_sessions:
  assumes "reserveAcquisitionLocked pol r now p = (res, q)"
  shows "p_sessions q = p_sessions p"
  using assms
  by (cases res) (auto dest!: reserveAcquisition_Inr reserveAcquisition_Inl)

lemma reserveSession_bound:
  "pol_Session pol |\<in>| fmdom (p_sessions p) \<Longrightarrow> reserveSessionLocked pol p = (Inr [], p)"
  by (simp add: reserveSessionLocked_def)

lemma reserveBatch_error:
  "reserveBatchLocked pol r now p = (Inl e, q) \<Longrightarrow> e = ErrBatchFull"
  by (auto simp: reserveBatchLocked_def Let_def split: if_splits option.splits)

text \<open>
  C33: a live sticky session whose slot is still eligible keeps it. The request gets exactly this
  slot, or fails because the table of batches is full; the binding is renewed, and no other
  session is touched.
\<close>

theorem sticky_kept:
  assumes "pick rnd ord pol t now p = (res, q)" and "admitted p pol" and "pol_Session pol \<noteq> []"
    and "fmlookup (p_sessions p) (pol_Session pol) = Some se" and "now < se_expiresAt se"
    and "slot_ref p (se_slotID se) = Some r" and "eligible p pol (scope_of pol t) now r"
  shows "(case res of Inr pk \<Rightarrow> pk_state pk = r \<and> pk_sticky pk | Inl e \<Rightarrow> e = ErrBatchFull) \<and>
     fmlookup (p_sessions q) (pol_Session pol) = Some (se\<lparr>se_expiresAt := now + sessionTTL p pol\<rparr>) \<and>
     (\<forall>n. n \<noteq> pol_Session pol \<longrightarrow>
        fmlookup (p_sessions q) n = fmlookup (p_sessions (expireLocked now p)) n)"
proof -
  let ?p = "expireLocked now p" and ?target = "scope_of pol t"
  let ?r = "se\<lparr>se_expiresAt := now + sessionTTL ?p pol\<rparr>"
  obtain ok p1 where e: "eligibleLocked pol ?target now ?p (Some r) = (ok, p1)" by fastforce
  have ok: "ok" and cl: "cleaned now ?p p1"
    using eligibleLocked_spec [where pol = pol and target = ?target and now = now and p = ?p and r = "Some r"] e assms(7)
    by (simp_all add: eligible_ref_def eligible_expire)
  have ses: "fmlookup (p_sessions ?p) (pol_Session pol) = Some se"
    using assms(4,5) by (simp add: expire_session)
  have sr: "slot_ref p1 (se_slotID se) = Some r"
    using assms(6) cleaned_frame(4) [OF cl] by (simp add: slot_ref_def)
  let ?p2 = "p1\<lparr>p_sessions := fmupd (pol_Session pol)
      (se\<lparr>se_expiresAt := now + sessionTTL p1 pol\<rparr>) (p_sessions p1)\<rparr>"
  have st: "sticky_slot pol ?target now ?p = (Some r, ?p2)"
    using assms(3,5) ses e ok sr assms(6)
    by (simp add: sticky_slot_def)
  have "pick rnd ord pol t now p = pick_slot rnd ord pol ?target now ?p"
    using assms(2)
    by (auto simp: pick_def admitted_def over_policy_limits_def at_global_limit_def scope_of_def Let_def)
  then have rp: "reserve_pick pol r True now ?p2 = (res, q)"
    using assms(1) st by (simp add: pick_slot_def)
  obtain rr where ra: "reserveAcquisitionLocked pol r now ?p2 = (rr, q)"
    and res: "res = (case rr of Inl e \<Rightarrow> Inl e | Inr ar \<Rightarrow> Inr (Picked r True ar))"
    using rp by (auto simp: reserve_pick_def split: prod.splits sum.splits)
  have "e = ErrBatchFull" if "rr = Inl e" for e
    using ra that reserveBatch_error
    by (auto simp: reserveAcquisitionLocked_def reserveSession_bound split: prod.splits sum.splits)
  then have "case res of Inr pk \<Rightarrow> pk_state pk = r \<and> pk_sticky pk | Inl e \<Rightarrow> e = ErrBatchFull"
    by (simp add: res split: sum.split)
  moreover have "p_sessions q = fmupd (pol_Session pol) (se\<lparr>se_expiresAt := now + sessionTTL p pol\<rparr>)
      (p_sessions ?p)"
    using reserveAcquisition_sessions [OF ra] cleaned_frame(1,6) [OF cl] by (simp add: sessionTTL_def)
  ultimately show ?thesis by simp
qed

definition demo_sticky_policy :: policy where
  "demo_sticky_policy = no_policy\<lparr>pol_Session := ''me''\<rparr>"

definition demo_bound :: pool where
  "demo_bound = bindSession demo_sticky_policy ''b'' 5 demo_pool"

theorem sticky_kept_witness:
  "\<exists>se. fmlookup (p_sessions (snd (pick (\<lambda>_. 0) [''a'', ''b''] demo_sticky_policy ''t'' 7 demo_bound)))
     ''me'' = Some se \<and> se_slotID se = ''b'' \<and> se_expiresAt se = 7 + sessionTTL demo_bound demo_sticky_policy"
proof -
  have "fmlookup (p_sessions demo_bound) ''me'' =
      Some \<lparr>se_slotID = ''b'', se_expiresAt = 5 + sessionTTL demo_pool demo_sticky_policy\<rparr>"
    by (simp add: demo_bound_def bindSession_def demo_sticky_policy_def)
  moreover have "0 < sessionTTL demo_pool demo_sticky_policy - 2"
    "\<not> over_policy_limits demo_bound demo_sticky_policy" "\<not> at_global_limit demo_bound"
    "slot_ref demo_bound ''b'' = Some 0" "eligible demo_bound demo_sticky_policy ''t'' 7 0"
    "pol_Session demo_sticky_policy = ''me''" "scope_of demo_sticky_policy ''t'' = ''t''"
    by code_simp+
  ultimately show ?thesis
    using sticky_kept [of "\<lambda>_. 0" "[''a'', ''b'']" demo_sticky_policy "''t''" 7 demo_bound
      "fst (pick (\<lambda>_. 0) [''a'', ''b''] demo_sticky_policy ''t'' 7 demo_bound)"
      "snd (pick (\<lambda>_. 0) [''a'', ''b''] demo_sticky_policy ''t'' 7 demo_bound)"]
    by (simp add: admitted_def)
qed

text \<open>Pools that differ only in how sessions and rings are used have the same batches, and none is past its time.\<close>

lemma near_batches:
  assumes "near (expireLocked now p) p1"
  shows "fmdom (p_batches p1) = fmdom (p_batches (expireLocked now p))"
    and "fmlookup (p_batches p1) n = Some b \<Longrightarrow> \<not> b_expiresAt b < now"
proof -
  have "rel_option same_use (fmlookup (p_batches (expireLocked now p)) n) (fmlookup (p_batches p1) n)" for n
    using assms by (simp add: near_def)
  then have b: "fmlookup (p_batches p1) n = Some b \<Longrightarrow>
      \<exists>c. fmlookup (p_batches (expireLocked now p)) n = Some c \<and> same_use c b"
    "fmlookup (p_batches p1) n = None \<longleftrightarrow> fmlookup (p_batches (expireLocked now p)) n = None" for n b
    by (metis option.rel_cases option.sel option.distinct(1))+
  then show "fmdom (p_batches p1) = fmdom (p_batches (expireLocked now p))"
    by (auto simp: fset_eq_iff fmlookup_dom_iff) (metis option.exhaust)+
  assume "fmlookup (p_batches p1) n = Some b"
  then obtain c where c: "fmlookup (p_batches (expireLocked now p)) n = Some c" "same_use c b" using b(1) by blast
  then have "\<not> b_expiresAt c < now" by (auto simp: expireLocked_def split: option.splits if_splits)
  then show "\<not> b_expiresAt b < now" using c(2) by (simp add: same_use_def)
qed

lemma session_full:
  assumes near: "near (expireLocked now p) p1" and "reserveSessionLocked pol p1 = (Inl e, q)"
  shows "e = ErrSessionFull \<and> pol_Session pol \<noteq> [] \<and> fm_get 0 (p_pendingSessions p) (pol_Session pol) = 0 \<and>
    MaxSessions (p_opts p) \<le> int (fm_size (fmdrop (pol_Session pol) (p_sessions (expireLocked now p))) +
                                  fm_size (p_pendingSessions p))"
proof -
  have n: "p_pendingSessions p1 = p_pendingSessions p" "p_opts p1 = p_opts p"
    "fmdom (p_sessions p1) |\<subseteq>| fmdom (p_sessions (expireLocked now p))"
    using near by (simp_all add: near_def)
  have f: "e = ErrSessionFull" "pol_Session pol \<noteq> []" "pol_Session pol |\<notin>| fmdom (p_sessions p1)"
    "fm_get 0 (p_pendingSessions p) (pol_Session pol) = 0"
    "MaxSessions (p_opts p) \<le> int (fm_size (p_sessions p1) + fm_size (p_pendingSessions p))"
    using assms(2) n by (auto simp: reserveSessionLocked_def Let_def split: if_splits)
  have "fmdom (p_sessions p1) |\<subseteq>| fmdom (fmdrop (pol_Session pol) (p_sessions (expireLocked now p)))"
    using n(3) f(3) by auto
  then have "fm_size (p_sessions p1) \<le> fm_size (fmdrop (pol_Session pol) (p_sessions (expireLocked now p)))"
    unfolding fm_size_def by (rule fcard_mono)
  then show ?thesis using f by simp
qed

lemma reservation_error:
  assumes near: "near (expireLocked now p) p1" and "reserveAcquisitionLocked pol r now p1 = (Inl e, q)"
  shows "e = ErrSessionFull \<and> pol_Session pol \<noteq> [] \<and> fm_get 0 (p_pendingSessions p) (pol_Session pol) = 0 \<and>
      MaxSessions (p_opts p) \<le> int (fm_size (fmdrop (pol_Session pol) (p_sessions (expireLocked now p))) +
                                    fm_size (p_pendingSessions p)) \<or>
    e = ErrBatchFull \<and> pol_UniqueBatch pol \<noteq> [] \<and> pol_UniqueBatch pol |\<notin>| fmdom (p_batches (expireLocked now p)) \<and>
      MaxUniqueBatches (p_opts p) \<le> int (fm_size (p_batches (expireLocked now p)))"
proof -
  have pend: "p_opts p1 = p_opts p"
    using near by (simp_all add: near_def)
  obtain rs p2 where s: "reserveSessionLocked pol p1 = (rs, p2)" by fastforce
  show ?thesis
  proof (cases rs)
    case (Inl e')
    then have "e = e'" using assms(2) s by (simp add: reserveAcquisitionLocked_def)
    then show ?thesis using session_full [OF near] s Inl by blast
  next
    case (Inr ses)
    then obtain m where p2: "p2 = p1\<lparr>p_pendingSessions := m\<rparr>"
      using reserveSession_shape [OF s] by blast
    obtain e' p3 where bt: "reserveBatchLocked pol r now p2 = (Inl e', p3)" and "e = e'"
      using assms(2) s Inr by (auto simp: reserveAcquisitionLocked_def split: prod.splits sum.splits)
    then have "e = ErrBatchFull" using reserveBatch_error by blast
    moreover have "pol_UniqueBatch pol \<noteq> []" "fmlookup (p_batches p1) (pol_UniqueBatch pol) = None"
      "MaxUniqueBatches (p_opts p1) \<le> int (fm_size (p_batches p1))"
      using bt near_batches(2) [OF near] by (auto simp: reserveBatchLocked_def Let_def p2 split: if_splits option.splits)
    ultimately show ?thesis
      using pend by (auto simp: fm_size_def fmlookup_dom_iff simp flip: near_batches(1) [OF near])
  qed
qed

lemma session_in_table:
  "reserveAcquisitionLocked pol r now p = (Inl ErrSessionFull, q) \<Longrightarrow> pol_Session pol |\<notin>| fmdom (p_sessions p)"
  by (auto simp: reserveAcquisitionLocked_def reserveSessionLocked_def Let_def
      dest: reserveBatch_error split: prod.splits sum.splits if_splits)

text \<open>A request whose session keeps its slot needs no place in the table.\<close>

definition sticks :: "pool \<Rightarrow> policy \<Rightarrow> string \<Rightarrow> time \<Rightarrow> bool" where
  "sticks p pol target now \<longleftrightarrow>
     (\<exists>se. fmlookup (p_sessions p) (pol_Session pol) = Some se \<and> now < se_expiresAt se \<and>
           eligible_ref p pol target now (slot_ref p (se_slotID se)))"

lemma sticks_expire: "sticks (expireLocked now p) pol target now = sticks p pol target now"
proof -
  have "fmlookup (p_sessions (expireLocked now p)) n = Some se \<and> now < se_expiresAt se \<longleftrightarrow>
      fmlookup (p_sessions p) n = Some se \<and> now < se_expiresAt se" for n se
    by (auto simp: expireLocked_def split: option.splits)
  then show ?thesis unfolding sticks_def by (simp add: eligible_ref_expire) meson
qed

lemma sticky_not_full:
  assumes "pick_slot rnd ord pol target now p = (Inl ErrSessionFull, q)" and "pol_Session pol \<noteq> []"
  shows "\<not> sticks p pol target now"
proof
  assume "sticks p pol target now"
  then obtain se where se: "fmlookup (p_sessions p) (pol_Session pol) = Some se" "now < se_expiresAt se"
    "eligible_ref p pol target now (slot_ref p (se_slotID se))" by (auto simp: sticks_def)
  then obtain r where r: "slot_ref p (se_slotID se) = Some r"
    by (cases "slot_ref p (se_slotID se)") (simp_all add: eligible_ref_def)
  obtain p1 where e: "eligibleLocked pol target now p (slot_ref p (se_slotID se)) = (True, p1)"
    "slot_ref p1 = slot_ref p"
    using eligibleLocked_sel_eq [of pol target now p] se(3) sel_eq_fields(6) by (metis surj_pair)
  let ?p = "p1\<lparr>p_sessions := fmupd (pol_Session pol) (se\<lparr>se_expiresAt := now + sessionTTL p1 pol\<rparr>) (p_sessions p1)\<rparr>"
  have "sticky_slot pol target now p = (Some r, ?p)"
    using se e r assms(2) by (simp add: sticky_slot_def)
  then have "reserveAcquisitionLocked pol r now ?p = (Inl ErrSessionFull, q)"
    using assms(1) by (auto simp: pick_slot_def reserve_pick_def split: prod.splits sum.splits)
  then show False using session_in_table by fastforce
qed

text \<open>
  C34: an error of a selection has its reason. \<open>ErrPolicy\<close> and \<open>ErrBusy\<close> are the limits of the policy and
  of the pool, and they come first. Otherwise either a slot was chosen and a table is full, or there is
  nothing to choose. \<open>ErrSessionFull\<close>: the session is named, it neither keeps a slot nor is any request already
  adding it, and the other live sessions with those being added fill the table. \<open>ErrBatchFull\<close>: the batch is named and new, and there are
  \<open>MaxUniqueBatches\<close> live ones. \<open>ErrNoCandidate\<close>: no slot is eligible and none can be recycled.
  \<open>ErrTunnelBudget\<close> and \<open>ErrCapacity\<close>: there are eligible slots, each needs a tunnel, and, for the first, the openings of the window with
  those in flight use up the budget; for the second, the budget has room, but \<open>MaxActive\<close> tunnels are open or opening
  and no slot has an idle one to close.
\<close>

theorem pick_errors:
  assumes "pick rnd ord pol t now p = (Inl e, q)" and "\<And>n. 0 < n \<Longrightarrow> rnd n < n"
  shows "if over_policy_limits p pol then e = Wrapped ErrPolicy
         else if at_global_limit p then e = ErrBusy
         else
           e = ErrNoCandidate \<and>
             (\<forall>i\<in>set (p_order p). \<not> eligible_ref p pol (scope_of pol t) now (slot_ref p i)) \<and>
             (\<forall>r. \<not> recycles p pol (scope_of pol t) now r) \<or>
           (e = ErrTunnelBudget \<and> budget_spent now p \<or>
            e = ErrCapacity \<and> \<not> budget_spent now p \<and> tunnels_full ord p) \<and>
             (\<exists>i\<in>set (p_order p). eligible_ref p pol (scope_of pol t) now (slot_ref p i)) \<and>
             (\<forall>i\<in>set (p_order p). eligible_ref p pol (scope_of pol t) now (slot_ref p i) \<longrightarrow>
                \<not> ready (p_heap p (the (slot_ref p i)))) \<or>
           (\<exists>r. chosen p pol (scope_of pol t) now r) \<and>
           (e = ErrSessionFull \<and> pol_Session pol \<noteq> [] \<and> \<not> sticks p pol (scope_of pol t) now \<and>
              fm_get 0 (p_pendingSessions p) (pol_Session pol) = 0 \<and>
              MaxSessions (p_opts p) \<le> int (fm_size (fmdrop (pol_Session pol) (p_sessions (expireLocked now p))) +
                                            fm_size (p_pendingSessions p)) \<or>
            e = ErrBatchFull \<and> pol_UniqueBatch pol \<noteq> [] \<and>
              pol_UniqueBatch pol |\<notin>| fmdom (p_batches (expireLocked now p)) \<and>
              MaxUniqueBatches (p_opts p) \<le> int (fm_size (p_batches (expireLocked now p))))"
proof (cases "over_policy_limits p pol \<or> at_global_limit p")
  case True
  then show ?thesis
    using pick_spec [OF assms] by (auto simp: over_policy_limits_def at_global_limit_def split: if_splits)
next
  case False
  let ?p = "expireLocked now p" and ?target = "scope_of pol t"
  have lim: "over_policy_limits ?p pol = over_policy_limits p pol" "at_global_limit ?p = at_global_limit p"
    by (simp_all add: over_policy_limits_def at_global_limit_def)
  have "pick_slot rnd ord pol ?target now ?p = (Inl e, q)"
    using assms(1) False by (auto simp: pick_def over_policy_limits_def at_global_limit_def scope_of_def Let_def)
  then have st: "\<not> sticks p pol ?target now" if "e = ErrSessionFull" "pol_Session pol \<noteq> []"
    using sticky_not_full that sticks_expire by metis
  have "pick_result ord pol ?target now ?p (Inl e) q"
    using pick_spec [OF assms] lim False by (auto split: if_splits)
  then consider "refuses ord p pol ?target now e"
    | r p1 where "near ?p p1" "chosen p pol ?target now r" "reserveAcquisitionLocked pol r now p1 = (Inl e, q)"
    by (auto simp: pick_result_def reserved_at_def chosen_expire refuses_expire)
  then show ?thesis
  proof cases
    case 1
    then show ?thesis using False unfolding refuses_def by (simp only: de_Morgan_disj if_False) blast
  next
    case 2
    then show ?thesis
      using reservation_error [OF 2(1,3)] st False by (simp only: de_Morgan_disj if_False) blast
  qed
qed

theorem pick_errors_witness:
  "fst (pick (\<lambda>_. 0) [''a'', ''b''] (demo_batch_policy\<lparr>pol_Slot := ''b''\<rparr>) ''t'' 6 demo_released) =
     Inl ErrNoCandidate \<and>
   \<not> eligible_ref demo_released (demo_batch_policy\<lparr>pol_Slot := ''b''\<rparr>) ''t'' 6 (slot_ref demo_released ''b'')"
proof -
  let ?pol = "demo_batch_policy\<lparr>pol_Slot := ''b''\<rparr>"
  let ?x = "pick (\<lambda>_. 0) [''a'', ''b''] ?pol ''t'' 6 demo_released"
  have "(case fst ?x of Inl e \<Rightarrow> e = ErrNoCandidate | Inr _ \<Rightarrow> False)"
    "\<not> over_policy_limits demo_released ?pol" "\<not> at_global_limit demo_released"
    "scope_of ?pol ''t'' = ''t''" "''b'' \<in> set (p_order demo_released)"
    by code_simp+
  moreover from this have x: "?x = (Inl ErrNoCandidate, snd ?x)" "fst ?x = Inl ErrNoCandidate"
    by (auto simp: prod_eq_iff split: sum.splits)
  ultimately show ?thesis
    using pick_errors [OF x(1)] by simp
qed

text \<open>
  What a successful selection takes: lifetimes within the caps, and a place for a session that is not in the table only
  while sessions and places together stay within \<open>MaxSessions\<close>.
\<close>

lemma reserveAcquisition_pending:
  assumes "reserveAcquisitionLocked pol r now p = (Inr ar, q)"
  obtains ses p2 where "reserveSessionLocked pol p = (Inr ses, p2)" "p_pendingSessions q = p_pendingSessions p2"
    "p_sessions q = p_sessions p"
proof -
  obtain ses p2 where s: "reserveSessionLocked pol p = (Inr ses, p2)"
    using assms by (auto simp: reserveAcquisitionLocked_def split: prod.splits sum.splits)
  obtain bat p3 where b: "reserveBatchLocked pol r now p2 = (Inr bat, p3)"
    using assms s by (auto simp: reserveAcquisitionLocked_def split: prod.splits sum.splits)
  have "p_sessions q = p_sessions p" using reserveAcquisition_Inr [OF assms] by auto
  then show ?thesis
    using that [OF s] assms s b reserveBatch_shape [OF b] by (auto simp: reserveAcquisitionLocked_def)
qed

lemma pick_within:
  assumes "pick rnd ord pol t now p = (Inr pk, q)" and "\<And>n. 0 < n \<Longrightarrow> rnd n < n"
  shows "pol_TTL pol \<le> MaxSessionTTL (p_opts p)" and "pol_BatchTTL pol \<le> MaxBatchTTL (p_opts p)"
    and "fmdom (p_pendingSessions q) \<noteq> fmdom (p_pendingSessions p) \<Longrightarrow>
      int (fm_size (p_sessions q) + fm_size (p_pendingSessions q)) \<le> MaxSessions (p_opts p)"
proof -
  obtain p1 r ar where a: "admitted p pol" "near (expireLocked now p) p1"
    "reserveAcquisitionLocked pol r now p1 = (Inr ar, q)"
    using pick_Inr [OF assms] by metis
  show "pol_TTL pol \<le> MaxSessionTTL (p_opts p)" "pol_BatchTTL pol \<le> MaxBatchTTL (p_opts p)"
    using a(1) by (simp_all add: admitted_def over_policy_limits_def)
  have n: "p_pendingSessions p1 = p_pendingSessions p" "p_opts p1 = p_opts p"
    using a(2) by (simp_all add: near_def)
  obtain ses p2 where s: "reserveSessionLocked pol p1 = (Inr ses, p2)" "p_pendingSessions q = p_pendingSessions p2"
    "p_sessions q = p_sessions p1"
    using reserveAcquisition_pending [OF a(3)] .
  show "int (fm_size (p_sessions q) + fm_size (p_pendingSessions q)) \<le> MaxSessions (p_opts p)"
    if "fmdom (p_pendingSessions q) \<noteq> fmdom (p_pendingSessions p)"
    using that s n
    by (auto simp: reserveSessionLocked_def Let_def fm_size_upd fm_get_def fmlookup_dom_iff split: if_splits option.splits)
qed

section \<open>A whole acquisition\<close>

definition attempt_ok :: "int \<Rightarrow> acquiring \<Rightarrow> bool" where
  "attempt_ok k a \<longleftrightarrow>
     (case a of Picking n _ \<Rightarrow> int n < k | Dialing n _ _ _ _ \<Rightarrow> int n < k
      | Failing n _ _ _ \<Rightarrow> int n < k | Dropping n _ \<Rightarrow> int n < k | _ \<Rightarrow> True)"

lemma next_attempt_ok:
  "attempt_ok (DialAttempts (p_opts p)) (next_attempt p n e)"
  by (simp add: next_attempt_def attempt_ok_def)

lemma next_attempt_budget:
  "acq_budget (DialAttempts (p_opts p)) (next_attempt p n e) \<le> 4 * nat (DialAttempts (p_opts p) - int n)"
  by (simp add: next_attempt_def)

lemma acq_step_opts: "acq_step rnd ord dr now pol t a p = (a', q) \<Longrightarrow> p_opts q = p_opts p"
  using acq_step_calm by (simp add: calm_def calm_heap_def)

lemma acq_step_progress:
  assumes "acq_step rnd ord dr now pol t a p = (a', q)" and "\<not> finished a"
    and "attempt_ok (DialAttempts (p_opts p)) a"
  shows "attempt_ok (DialAttempts (p_opts p)) a' \<and>
         acq_budget (DialAttempts (p_opts p)) a' < acq_budget (DialAttempts (p_opts p)) a"
proof -
  let ?k = "DialAttempts (p_opts p)"
  have k: "DialAttempts (p_opts q) = ?k" using acq_step_opts [OF assms(1)] by simp
  have less: "attempt_ok ?k (next_attempt q (Suc n) e) \<and>
      acq_budget ?k (next_attempt q (Suc n) e) < 4 * nat (?k - int n) - 3" if "int n < ?k" for n e
    using next_attempt_ok [of q "Suc n" e] next_attempt_budget [of q "Suc n" e] that k by auto
  show ?thesis
  proof (cases a)
    case (Picking n e)
    then show ?thesis
      using assms by (auto simp: attempt_ok_def split: prod.splits sum.splits picked.splits)
  next
    case (Dialing n e r st ar)
    then show ?thesis
      using assms by (auto simp: attempt_ok_def split: sum.splits prod.splits)
  next
    case (Failing n e r st)
    then have n: "int n < ?k" using assms(3) by (simp add: attempt_ok_def)
    have "a' = Dropping n e \<or> a' = next_attempt q (Suc n) (Some e)"
      using assms(1) Failing by (auto simp: Let_def)
    then show ?thesis
      using less [OF n, of "Some e"] n Failing by (auto simp: attempt_ok_def)
  next
    case (Dropping n e)
    then have n: "int n < ?k" using assms(3) by (simp add: attempt_ok_def)
    have "a' = next_attempt q (Suc n) (Some e)"
      using assms(1) Dropping by (auto simp: Let_def)
    then show ?thesis using less [OF n, of "Some e"] Dropping by auto
  qed (use assms(2) in \<open>auto simp: finished_def\<close>)
qed

lemma acq_run_finishes:
  assumes "attempt_ok (DialAttempts (p_opts p)) a" and "acq_budget (DialAttempts (p_opts p)) a \<le> n"
  shows "finished (fst (acq_run inp pol t i n a p))"
  using assms
proof (induction n arbitrary: i a p)
  case 0
  then show ?case
    by (cases a) (auto simp: finished_def attempt_ok_def)
next
  case (Suc n)
  show ?case
  proof (cases "finished a")
    case False
    obtain a' q where s: "acq_step (in_rnd (inp i)) (in_ord (inp i)) (in_dial (inp i)) (in_now (inp i))
        pol t a p = (a', q)" by fastforce
    have "p_opts q = p_opts p" by (rule acq_step_opts [OF s])
    then show ?thesis
      using acq_step_progress [OF s False] Suc s False by simp
  qed simp
qed

lemma Acquire_returns: "\<exists>res q. Acquire inp pol t p = (Some res, q)"
proof -
  let ?k = "DialAttempts (p_opts p)" and ?a = "acquire_start p"
  have "attempt_ok ?k ?a" by (simp add: acquire_start_def next_attempt_ok)
  then have "finished (fst (acq_run inp pol t 0 (acq_budget ?k ?a) ?a p))"
    by (rule acq_run_finishes) simp
  then show ?thesis
    by (auto simp: Acquire_def finished_def Let_def split: prod.splits acquiring.splits)
qed

text \<open>
  C31: an acquisition always ends. Whatever the picks, the dials, the clock and the order of the map
  do, it returns a lease or an error after at most four critical sections per dial attempt.
\<close>

theorem acquire_returns: "\<exists>res q. Acquire inp pol t p = (Some res, q)"
  by (rule Acquire_returns)

end
