(* ===== verification/Balance.thy ===== *)
theory Balance
  imports Choice
begin

text \<open>
  What an acquisition leaves behind when it fails, and what a lease that is released leaves behind:
  nothing. The counters of connections, the pending sessions and the books of the batches
  are as before.
\<close>

section \<open>Reservation and roll-back\<close>

definition positive_counts :: "('k, nat) fmap \<Rightarrow> bool" where
  "positive_counts m \<longleftrightarrow> (\<forall>k v. fmlookup m k = Some v \<longrightarrow> 0 < v)"

lemma release_reserve_session:
  assumes "reserveSessionLocked pol p = (Inr n, q)" and "positive_counts (p_pendingSessions p)"
  shows "p_pendingSessions (releasePendingSessionLocked n (q\<lparr>p_batches := a, p_nextBatch := b\<rparr>)) =
         p_pendingSessions p"
proof -
  let ?n = "pol_Session pol" and ?m = "p_pendingSessions p"
  have "fmlookup ?m ?n = None" if "\<not> 0 < fm_get 0 ?m ?n"
    using that assms(2) by (auto simp: fm_get_def positive_counts_def split: option.splits)
  moreover have "fmlookup ?m ?n = Some (fm_get 0 ?m ?n)" if "0 < fm_get 0 ?m ?n"
    using that by (auto simp: fm_get_def split: option.splits)
  ultimately show ?thesis
    using assms(1)
    by (auto simp: reserveSessionLocked_def releasePendingSessionLocked_def Let_def
        intro!: fmap_ext split: if_splits)
qed

text \<open>What a unique batch promises its caller: which slots it has taken and what it has burned.\<close>

definition books :: "pool \<Rightarrow> string \<Rightarrow> ((string \<Rightarrow> bool) \<times> (netaddr \<Rightarrow> bool)) option" where
  "books p n = map_option (\<lambda>b. (taken b, burned b)) (fmlookup (p_batches p) n)"

text \<open>The batch, when there is one, is live, in use, and has not seen the slot or its address.\<close>

definition unused_by :: "pool \<Rightarrow> ref \<Rightarrow> time \<Rightarrow> batch \<Rightarrow> bool" where
  "unused_by p r now b \<longleftrightarrow>
     batch_ok b \<and> (\<exists>sid. taken b sid) \<and> \<not> b_expiresAt b < now \<and>
     \<not> taken b (slot_ID (p_heap p r)) \<and> \<not> burned b (s_publicIP (p_heap p r))"

lemma fcard_0_taken: "fcard (b_usedSlots b) = 0 \<longleftrightarrow> (\<forall>sid. \<not> taken b sid)"
  by (auto simp: taken_def)

lemma release_new_batch:
  "\<not> taken (batch_release s (batch_reserve s ip at (newBatch n e))) sid"
  by simp

lemma rollback_batch_books:
  assumes "reserveBatchLocked pol r now p = (Inr br, q)"
    and "\<And>b. fmlookup (p_batches p) (pol_UniqueBatch pol) = Some b \<Longrightarrow> unused_by p r now b"
    and "p_batches q' = p_batches q"
  shows "books (rollbackBatchLocked br q') n = books p n"
proof (cases "pol_UniqueBatch pol = []")
  case True
  then show ?thesis using assms(1,3) by (auto simp: reserveBatchLocked_def rollbackBatchLocked_def books_def)
next
  case False
  let ?n = "pol_UniqueBatch pol" and ?s = "slot_ID (p_heap p r)" and ?ip = "s_publicIP (p_heap p r)"
  show ?thesis
  proof (cases "fmlookup (p_batches p) ?n")
    case None
    let ?b = "(newBatch (p_nextBatch p) (now + batchTTL p pol))\<lparr>b_expiresAt := now + batchTTL p pol\<rparr>"
    have q: "br = Some \<lparr>br_name = ?n, br_batch = p_nextBatch p, br_slotID = ?s\<rparr>"
      "p_batches q = fmupd ?n (batch_reserve ?s ?ip now ?b) (p_batches p)"
      using assms(1) False None
      by (auto simp: reserveBatchLocked_def Let_def batchTTL_def newBatch_def split: if_splits)
    have "\<forall>sid. \<not> taken (batch_release ?s (batch_reserve ?s ?ip now ?b)) sid" by simp
    then have "p_batches (rollbackBatchLocked br q') = fmdrop ?n (p_batches q)"
      using q assms(3) by (simp add: rollbackBatchLocked_def Let_def fcard_0_taken newBatch_def)
    then show ?thesis using q None by (simp add: books_def)
  next
    case (Some b)
    then have u: "unused_by p r now b" using assms(2) by blast
    let ?b = "b\<lparr>b_expiresAt := now + batchTTL p pol\<rparr>"
    let ?c = "batch_release ?s (batch_reserve ?s ?ip now ?b)"
    have q: "br = Some \<lparr>br_name = ?n, br_batch = b_alloc b, br_slotID = ?s\<rparr>"
      "p_batches q = fmupd ?n (batch_reserve ?s ?ip now ?b) (p_batches p)"
      using assms(1) False Some u
      by (auto simp: reserveBatchLocked_def unused_by_def Let_def split: if_splits)
    have ok: "batch_ok ?b" "\<not> taken ?b ?s" "\<not> burned ?b ?ip" using u by (simp_all add: unused_by_def)
    have view: "taken ?c = taken b" "burned ?c = burned b"
      using release_reserve [OF ok] by (simp_all add: fun_eq_iff)
    have "\<not> b_usedSlots b |\<subseteq>| {|?s|}" using u by (auto simp: unused_by_def taken_def)
    then have "p_batches (rollbackBatchLocked br q') = fmupd ?n ?c (p_batches q)"
      using q assms(3) by (simp add: rollbackBatchLocked_def Let_def)
    then show ?thesis using q Some view by (auto simp: books_def)
  qed
qed

text \<open>
  A reservation that is rolled back leaves nothing behind. The connection counters and the pending
  sessions are those before the reservation, no session changes, and every batch has taken and
  burned exactly what it had: a batch that was created for the reservation is gone.
\<close>

theorem reserve_rollback:
  assumes "reserveAcquisitionLocked pol r now p = (Inr ar, q)"
    and "positive_counts (p_pendingSessions p)"
    and "\<And>b. fmlookup (p_batches p) (pol_UniqueBatch pol) = Some b \<Longrightarrow> unused_by p r now b"
  shows "let p' = rollbackAcquisition (Some ar) q in
     conn p' = conn p \<and> p_pendingSessions p' = p_pendingSessions p \<and>
     p_sessions p' = p_sessions p \<and> (\<forall>n. books p' n = books p n)"
proof -
  obtain ses p1 where s: "reserveSessionLocked pol p = (Inr ses, p1)"
    using assms(1) by (auto simp: reserveAcquisitionLocked_def split: prod.splits sum.splits)
  then obtain m where p1: "p1 = p\<lparr>p_pendingSessions := m\<rparr>" using reserveSession_shape by blast
  obtain bat p2 where b: "reserveBatchLocked pol r now p1 = (Inr bat, p2)"
    using assms(1) s by (auto simp: reserveAcquisitionLocked_def split: prod.splits sum.splits)
  then obtain x y where p2: "p2 = p1\<lparr>p_batches := x, p_nextBatch := y\<rparr>"
    using reserveBatch_shape by blast
  have ar: "ar_batch ar = bat" "ar_session ar = ses" "ar_active ar" "ar_state ar = r"
    and q: "p_batches q = p_batches p2" "p_pendingSessions q = p_pendingSessions p2" "p_sessions q = p_sessions p2"
    using assms(1) s b by (auto simp: reserveAcquisitionLocked_def upd_slot_def)
  let ?c = "snd (commitAcquisitionLocked ar q)"
  have c: "p_batches ?c = p_batches q" "p_sessions ?c = p_sessions q"
    "p_pendingSessions ?c = p_pendingSessions (releasePendingSessionLocked ses p2)"
    using ar q by (auto simp: commitAcquisitionLocked_def releasePendingSessionLocked_def Let_def)
  have rb: "p_pendingSessions (rollbackBatchLocked bat ?c) = p_pendingSessions ?c"
    "p_sessions (rollbackBatchLocked bat ?c) = p_sessions ?c"
    by (auto simp: rollbackBatchLocked_def Let_def split: option.split)
  have "conn (rollbackAcquisition (Some ar) q) = conn p"
    using rollback_conn [OF ar(3)] reserveAcquisition_conn(1) [OF assms(1)] ar(4) by simp
  moreover have "p_pendingSessions (rollbackAcquisition (Some ar) q) = p_pendingSessions p"
    using release_reserve_session [OF s assms(2), where a = x and b = y]
    by (simp add: rollbackAcquisition_def ar(1) rb c p2)
  moreover have "p_sessions (rollbackAcquisition (Some ar) q) = p_sessions p"
    using q p1 p2 by (simp add: rollbackAcquisition_def ar(1) rb c)
  moreover have "books (rollbackAcquisition (Some ar) q) n = books p n" for n
  proof -
    have "books (rollbackBatchLocked bat ?c) n = books p1 n"
      by (rule rollback_batch_books [OF b]) (use assms(3) p1 c q in \<open>auto simp: unused_by_def\<close>)
    then show ?thesis by (simp add: rollbackAcquisition_def ar(1) p1 books_def)
  qed
  ultimately show ?thesis by (simp add: Let_def)
qed

definition demo_both_policy :: policy where
  "demo_both_policy = demo_batch_policy\<lparr>pol_Session := ''me''\<rparr>"

theorem reserve_rollback_witness:
  "let x = reserveAcquisitionLocked demo_both_policy 0 5 demo_preferred in
   \<exists>ar. fst x = Inr ar \<and> conn (rollbackAcquisition (Some ar) (snd x)) = conn demo_preferred \<and>
        books (rollbackAcquisition (Some ar) (snd x)) ''job'' = None"
proof -
  let ?x = "reserveAcquisitionLocked demo_both_policy 0 5 demo_preferred"
  have "\<not> isl (fst ?x)" by code_simp
  then obtain ar where x: "?x = (Inr ar, snd ?x)" by (metis prod.collapse sum.collapse(2))
  have "p_batches demo_preferred = fmempty" "p_pendingSessions demo_preferred = fmempty"
    by code_simp+
  then show ?thesis
    using reserve_rollback [OF x]
    by (subst x) (simp add: positive_counts_def books_def Let_def)
qed

section \<open>A whole acquisition and its release\<close>

text \<open>What the counters are in each situation of an acquisition that runs alone.\<close>

definition acq_conn :: "conn \<Rightarrow> acquiring \<Rightarrow> conn \<Rightarrow> bool" where
  "acq_conn c0 a c \<longleftrightarrow>
     (case a of
        Dialing n e r st ar \<Rightarrow> c = reserve_conn r c0 \<and> ar_active ar \<and> ar_state ar = r
      | Acquired l \<Rightarrow> c = lease_conn (l_state l) c0 \<and> \<not> l_released l
      | _ \<Rightarrow> c = c0)"

lemma next_attempt_conn [simp]: "acq_conn c0 (next_attempt p n e) c = (c = c0)"
  by (simp add: next_attempt_def acq_conn_def)

lemma pick_conn:
  assumes "pick rnd ord pol t now p = (Inr (Picked r st ar), q)" and "\<And>n. 0 < n \<Longrightarrow> rnd n < n"
  shows "conn q = reserve_conn r (conn p) \<and> ar_active ar \<and> ar_state ar = r"
proof -
  obtain p1 where "near (expireLocked now p) p1" "reserveAcquisitionLocked pol r now p1 = (Inr ar, q)"
    using pick_Inr [OF assms] by (metis picked.inject)
  then show ?thesis
    using reserveAcquisition_conn(1) reserveAcquisition_Inr near_conn expireLocked_conn by metis
qed

lemma acq_step_conn:
  assumes "acq_step rnd ord dr now pol t a p = (a', q)" and "\<And>n. 0 < n \<Longrightarrow> rnd n < n"
    and "acq_conn c0 a (conn p)"
  shows "acq_conn c0 a' (conn q)"
proof (cases a)
  case (Picking n e)
  then have c: "conn p = c0" using assms(3) by (simp add: acq_conn_def)
  obtain res q' where pk: "pick rnd ord pol t now p = (res, q')" by fastforce
  then show ?thesis
    using assms(1) Picking pick_refused [of rnd ord pol t now p _ q'] pick_conn [of rnd ord pol t now p _ _ _ q'] assms(2) c
    by (auto simp: acq_conn_def split: sum.splits picked.splits)
next
  case (Dialing n e r st ar)
  then have c: "conn p = reserve_conn r c0" "ar_active ar" "ar_state ar = r"
    using assms(3) by (simp_all add: acq_conn_def)
  show ?thesis
  proof (cases dr)
    case (Inl e')
    then show ?thesis
      using assms(1) Dialing c rollback_conn [OF c(2), of p] by (auto simp: acq_conn_def)
  next
    case (Inr i)
    obtain l q' where ac: "acquire_commit pol now i r ar p = (l, q')" by fastforce
    then show ?thesis
      using assms(1) Dialing Inr c acquire_commit_conn [OF c(2,3) ac] by (auto simp: acq_conn_def)
  qed
next
  case (Failing n e r st)
  have "conn (noteFailure e now r p) = conn p"
    using noteFailure_quiet [of p e now r p] by (simp add: quiet_def)
  then show ?thesis
    using assms(1,3) Failing by (auto simp: Let_def acq_conn_def [of _ "Failing n e r _"]
        acq_conn_def [of _ "Dropping n e"])
next
  case (Dropping n e)
  then show ?thesis
    using assms(1,3) by (auto simp: Let_def dropSession_def acq_conn_def [of _ "Dropping n e"])
qed (use assms in auto)

lemma acq_run_conn:
  assumes "\<And>i n. 0 < n \<Longrightarrow> in_rnd (inp i) n < n" and "acq_conn c0 a (conn p)"
    and "acq_run inp pol t i n a p = (a', q)"
  shows "acq_conn c0 a' (conn q)"
  using assms(2,3)
proof (induction n arbitrary: i a p)
  case (Suc n)
  show ?case
  proof (cases "finished a")
    case False
    obtain a1 p1 where s: "acq_step (in_rnd (inp i)) (in_ord (inp i)) (in_dial (inp i)) (in_now (inp i))
        pol t a p = (a1, p1)" by fastforce
    show ?thesis
      using Suc.IH [OF acq_step_conn [OF s assms(1) Suc.prems(1)]] Suc.prems(2) s False by simp
  qed (use Suc.prems in auto)
qed simp

lemma Acquire_conn:
  assumes "\<And>i n. 0 < n \<Longrightarrow> in_rnd (inp i) n < n" and "Acquire inp pol t p = (Some res, q)"
  shows "case res of Inl e \<Rightarrow> conn q = conn p
         | Inr l \<Rightarrow> conn q = lease_conn (l_state l) (conn p) \<and> \<not> l_released l"
proof -
  let ?a = "acquire_start p" and ?n = "acq_budget (DialAttempts (p_opts p)) (acquire_start p)"
  obtain a' q' where r: "acq_run inp pol t 0 ?n ?a p = (a', q')" by fastforce
  have "acq_conn (conn p) a' (conn q')"
    by (rule acq_run_conn [OF assms(1) _ r]) (simp_all add: acquire_start_def)
  then show ?thesis
    using assms(2) r by (auto simp: Acquire_def Let_def acq_conn_def split: acquiring.splits)
qed

lemma free_lease_conn [simp]: "free_conn r (lease_conn r c) = c"
  by (simp add: free_conn_def lease_conn_def)

text \<open>
  C30: an acquisition that fails leaves the connection counters as they were, after however many
  attempts; one that succeeds adds exactly one connection, on the slot of its lease, and the first
  \<open>Release\<close> of the lease takes it away again; a second \<open>Release\<close> does nothing.
\<close>

theorem acquire_balance:
  assumes "\<And>i n. 0 < n \<Longrightarrow> in_rnd (inp i) n < n" and "Acquire inp pol t p = (Some res, q)"
  shows "case res of
           Inl e \<Rightarrow> conn q = conn p
         | Inr l \<Rightarrow> conn q = lease_conn (l_state l) (conn p) \<and>
             (\<forall>t1 t2. let (l1, q1) = Release t1 l q in
                conn q1 = conn p \<and> Release t2 l1 q1 = (l1, q1))"
proof (cases res)
  case (Inr l)
  have c: "conn q = lease_conn (l_state l) (conn p)" "\<not> l_released l"
    using Acquire_conn [OF assms] Inr by simp_all
  have "conn (snd (Release t1 l q)) = conn p" for t1
    using Release_conn(1) [OF c(2), of t1 q] c(1) by (metis free_lease_conn prod.collapse)
  moreover have "l_released (fst (Release t1 l q))" for t1
    using c(2) by (simp add: Release_def Let_def)
  ultimately show ?thesis
    using c by (simp add: Inr split_beta) (simp add: Release_def)
qed (use Acquire_conn [OF assms] in simp)

definition demo_input :: "nat \<Rightarrow> acq_input" where
  "demo_input i = \<lparr>in_rnd = \<lambda>_. 0, in_ord = [''a'', ''b''], in_dial = (if i < 2 then Inl ErrCapacity else Inr []),
     in_now = 5 + int i\<rparr>"

theorem acquire_balance_witness:
  "\<exists>l q. Acquire demo_input no_policy ''t'' demo_pool = (Some (Inr l), q) \<and>
     conn q = lease_conn (l_state l) (conn demo_pool) \<and> conn (snd (Release 9 l q)) = conn demo_pool"
proof -
  let ?x = "Acquire demo_input no_policy ''t'' demo_pool"
  have "(case fst ?x of Some (Inr l) \<Rightarrow> True | _ \<Rightarrow> False)" by code_simp
  then obtain l where x: "?x = (Some (Inr l), snd ?x)"
    by (auto simp: prod_eq_iff split: option.splits sum.splits)
  show ?thesis
    using acquire_balance [OF _ x] x
    by (intro exI [of _ l] exI [of _ "snd ?x"]) (auto simp: demo_input_def split_beta Let_def)
qed

end
