(* ===== verification/Health.thy ===== *)
theory Health
  imports Balance
begin

text \<open>
  What feedback does to the pool: a report cools a slot down for one destination and nothing else, a
  dial failure is blamed on the exit or on the entry but never on both, failures back off
  exponentially up to a cap, and the entries are tried in the order of their measured latency.
\<close>

section \<open>Reports\<close>

text \<open>The time 0 is Go's zero time, which lies before every instant of the clock.\<close>

lemma setIPCooldown_cooling:
  "0 < until \<Longrightarrow> ip_cooling (setIPCooldownLocked t ip until p) t' ip' at =
     (ip_cooling p t' ip' at \<or> (t' = t \<and> ip' = ip \<and> t \<noteq> [] \<and> ip \<noteq> None \<and> at < until))"
  by (auto simp: setIPCooldownLocked_def ip_cooling_def Let_def fm_get_def split: option.splits if_splits)

lemma setIPCooldown_heap [simp]:
  "p_heap (setIPCooldownLocked t ip until p) = p_heap p"
  "p_opts (setIPCooldownLocked t ip until p) = p_opts p"
  "p_batches (setIPCooldownLocked t ip until p) = p_batches p"
  by (simp_all add: setIPCooldownLocked_def Let_def)

lemma forget_preferred_fields [simp]:
  "p_heap (forget_preferred t ip p) = p_heap p" "p_opts (forget_preferred t ip p) = p_opts p"
  "p_batches (forget_preferred t ip p) = p_batches p"
  "p_ipCooldowns (forget_preferred t ip p) = p_ipCooldowns p"
  by (auto simp: forget_preferred_def Let_def split: option.split)

lemma Rotate_fields [simp]:
  "p_heap (snd (Rotate n p)) = p_heap p" "p_opts (snd (Rotate n p)) = p_opts p"
  "p_batches (snd (Rotate n p)) = p_batches p"
  "p_ipCooldowns (snd (Rotate n p)) = p_ipCooldowns p"
  by (auto simp: Rotate_def dropSession_def Let_def)

lemma release_batches_excludes:
  assumes "batch_excludes (releaseSlotFromBatchesLocked sid p) pol s at"
  shows "batch_excludes p pol s at"
proof -
  have sub: "b_usedSlots (batch_release sid b) |\<subseteq>| b_usedSlots b"
    "fmdom (b_usedIPs (batch_release sid b)) |\<subseteq>| fmdom (b_usedIPs b)" for b
    by (auto simp: batch_release_def Let_def)
  show ?thesis
    using assms
    by (auto simp: batch_excludes_def releaseSlotFromBatchesLocked_def Let_def
        split: option.splits if_splits dest: fsubsetD [OF sub(1)] fsubsetD [OF sub(2)])
qed

text \<open>What \<open>Report\<close> changes of the fields that eligibility reads.\<close>

lemma report_changes:
  assumes "Report inp now p = (Inr res, q)" and "0 < rr_Until res"
  obtains r where "fmlookup (p_slots p) (rr_Slot res) = Some r" "p_opts q = p_opts p"
    "\<And>r'. p_heap q r' =
       (if r' \<noteq> r then p_heap p r'
        else if ri_Target inp = [] then (p_heap p r)\<lparr>s_disabledUntil := rr_Until res\<rparr>
        else (p_heap p r)\<lparr>s_cooldowns := fmupd (ri_Target inp) (rr_Until res) (s_cooldowns (p_heap p r))\<rparr>)"
    "\<And>t ip at. ip_cooling q t ip at =
       (ip_cooling p t ip at \<or> (t = ri_Target inp \<and> t \<noteq> [] \<and> ip = s_publicIP (p_heap p r) \<and>
          ip \<noteq> None \<and> at < rr_Until res))"
    "\<And>pol s at. batch_excludes q pol s at \<Longrightarrow> batch_excludes p pol s at"
proof -
  obtain sid r where r: "fmlookup (p_slots p) sid = Some r"
    and ap: "apply_report inp sid r now p = (res, q)"
    using assms(1) by (auto simp: Report_def split: option.splits if_splits prod.splits)
  let ?until = "now + (if ri_Cooldown inp \<le> 0 then Cooldown (p_opts p) else ri_Cooldown inp)"
  let ?t = "ri_Target inp" and ?ip = "s_publicIP (p_heap p r)"
  let ?p1 = "(if ?t = [] then upd_slot r (\<lambda>s. s\<lparr>s_disabledUntil := ?until\<rparr>) p
    else forget_preferred ?t ?ip (setIPCooldownLocked ?t ?ip ?until
      (upd_slot r (\<lambda>s. s\<lparr>s_cooldowns := fmupd ?t ?until (s_cooldowns s)\<rparr>) p)))"
  let ?p2 = "releaseSlotFromBatchesLocked sid ?p1"
  have q: "\<exists>a b. q = (if ri_Session inp = [] then ?p2 else snd (Rotate (ri_Session inp) ?p2))
      \<lparr>p_statReports := a\<rparr>" and res: "rr_Slot res = sid" "rr_Until res = ?until"
    using ap by (auto simp: apply_report_def Let_def split: prod.splits if_splits)
  have q': "p_heap q = p_heap ?p1" "p_opts q = p_opts ?p1" "p_batches q = p_batches ?p2"
    "p_ipCooldowns q = p_ipCooldowns ?p1"
    using q by (auto simp: releaseSlotFromBatchesLocked_def)
  show ?thesis
  proof
    show "fmlookup (p_slots p) (rr_Slot res) = Some r" using r res by simp
    show "p_opts q = p_opts p" unfolding q' by (simp add: upd_slot_def)
    show "p_heap q r' =
       (if r' \<noteq> r then p_heap p r'
        else if ri_Target inp = [] then (p_heap p r)\<lparr>s_disabledUntil := rr_Until res\<rparr>
        else (p_heap p r)\<lparr>s_cooldowns := fmupd ?t (rr_Until res) (s_cooldowns (p_heap p r))\<rparr>)" for r'
      unfolding q' res by simp
    have "ip_cooling q t ip at = ip_cooling ?p1 t ip at" for t ip at
      by (simp only: ip_cooling_def q')
    moreover have "ip_cooling (upd_slot r f p) t ip at = ip_cooling p t ip at"
      "ip_cooling (forget_preferred ?t ?ip p') t ip at = ip_cooling p' t ip at" for f t ip at p'
      by (simp_all add: ip_cooling_def upd_slot_def)
    ultimately show "ip_cooling q t ip at =
       (ip_cooling p t ip at \<or> (t = ?t \<and> t \<noteq> [] \<and> ip = ?ip \<and> ip \<noteq> None \<and> at < rr_Until res))" for t ip at
      using assms(2) by (auto simp: setIPCooldown_cooling res)
    have "batch_excludes q pol s at = batch_excludes ?p2 pol s at" for pol s at
      by (simp only: batch_excludes_def q')
    moreover have "batch_excludes ?p1 pol s at = batch_excludes p pol s at" for pol s at
      by (simp add: batch_excludes_def upd_slot_def)
    ultimately show "batch_excludes q pol s at \<Longrightarrow> batch_excludes p pol s at" for pol s at
      using release_batches_excludes by blast
  qed
qed

lemma report_eligible:
  assumes "Report inp now p = (Inr res, q)" and "ri_Target inp \<noteq> []" and "0 < rr_Until res"
    and "fmlookup (p_slots p) (rr_Slot res) = Some r"
  shows "(\<forall>pol at r'. at < rr_Until res \<and>
            (r' = r \<or> s_publicIP (p_heap p r') = s_publicIP (p_heap p r) \<and> s_publicIP (p_heap p r) \<noteq> None) \<longrightarrow>
            \<not> eligible q pol (ri_Target inp) at r') \<and>
         (\<forall>pol t at r'. t \<noteq> ri_Target inp \<or>
            r' \<noteq> r \<and> (s_publicIP (p_heap p r') \<noteq> s_publicIP (p_heap p r) \<or> s_publicIP (p_heap p r) = None) \<longrightarrow>
            eligible p pol t at r' \<longrightarrow> eligible q pol t at r')"
proof -
  note ch = report_changes [OF assms(1,3)]
  obtain r0 where r0: "fmlookup (p_slots p) (rr_Slot res) = Some r0" "p_opts q = p_opts p"
    and h: "\<And>r'. p_heap q r' = (if r' \<noteq> r0 then p_heap p r'
        else (p_heap p r0)\<lparr>s_cooldowns := fmupd (ri_Target inp) (rr_Until res) (s_cooldowns (p_heap p r0))\<rparr>)"
    and c: "\<And>t ip at. ip_cooling q t ip at =
       (ip_cooling p t ip at \<or> (t = ri_Target inp \<and> t \<noteq> [] \<and> ip = s_publicIP (p_heap p r0) \<and>
          ip \<noteq> None \<and> at < rr_Until res))"
    and b: "\<And>pol s at. batch_excludes q pol s at \<Longrightarrow> batch_excludes p pol s at"
    by (rule ch) (use assms(2) in auto)
  have [simp]: "r0 = r" using r0(1) assms(4) by simp
  have bx: "batch_excludes p pol (s\<lparr>s_cooldowns := x\<rparr>) at = batch_excludes p pol s at" for pol s at x
    by (simp add: batch_excludes_def slot_ID_def split: option.split)
  have "\<not> eligible q pol (ri_Target inp) at r'" if "at < rr_Until res"
    "r' = r \<or> s_publicIP (p_heap p r') = s_publicIP (p_heap p r) \<and> s_publicIP (p_heap p r) \<noteq> None"
    for pol at r'
    using that assms(2) by (auto simp: eligible_def Let_def h c coolingDown_def)
  moreover have "eligible q pol t at r'" if "t \<noteq> ri_Target inp \<or>
      r' \<noteq> r \<and> (s_publicIP (p_heap p r') \<noteq> s_publicIP (p_heap p r) \<or> s_publicIP (p_heap p r) = None)"
    "eligible p pol t at r'" for pol t at r'
    using that b [of pol "p_heap q r'" at]
    by (auto simp: eligible_def Let_def h c coolingDown_def at_conn_limit_def ip_fresh_def r0(2) bx)
  ultimately show ?thesis by blast
qed

text \<open>
  C35: a report about a destination takes the slot, and every slot with its address, out of the choice
  for this destination until the cooldown ends. It takes nothing else away: whatever was eligible
  for another destination, or has another address, is still eligible.
\<close>

theorem report_scope:
  assumes "Report inp now p = (Inr res, q)" and "ri_Target inp \<noteq> []" and "0 < rr_Until res"
    and "fmlookup (p_slots p) (rr_Slot res) = Some r"
  shows "(\<forall>pol at r'. at < rr_Until res \<and>
            (r' = r \<or> s_publicIP (p_heap p r') = s_publicIP (p_heap p r) \<and> s_publicIP (p_heap p r) \<noteq> None) \<longrightarrow>
            \<not> eligible q pol (ri_Target inp) at r') \<and>
         (\<forall>pol t at r'. t \<noteq> ri_Target inp \<or>
            r' \<noteq> r \<and> (s_publicIP (p_heap p r') \<noteq> s_publicIP (p_heap p r) \<or> s_publicIP (p_heap p r) = None) \<longrightarrow>
            eligible p pol t at r' \<longrightarrow> eligible q pol t at r')"
  using assms by (rule report_eligible)

definition demo_report :: reportInput where
  "demo_report = \<lparr>ri_Session = [], ri_Slot = ''b'', ri_PublicIP = demo_ip, ri_Target = ''t'', ri_Cooldown = 9\<rparr>"

theorem report_scope_witness:
  "\<not> eligible (snd (Report demo_report 5 demo_measured)) no_policy ''t'' 13 0 \<and>
   eligible (snd (Report demo_report 5 demo_measured)) no_policy ''u'' 13 0"
proof -
  let ?x = "Report demo_report 5 demo_measured"
  have "(case fst ?x of Inr res \<Rightarrow> rr_Until res = 14 \<and> rr_Slot res = ''b'' | Inl _ \<Rightarrow> False)"
    "fmlookup (p_slots demo_measured) ''b'' = Some 0" "eligible demo_measured no_policy ''u'' 13 0"
    by code_simp+
  moreover from this obtain res where "?x = (Inr res, snd ?x)" "rr_Until res = 14" "rr_Slot res = ''b''"
    by (auto simp: prod_eq_iff split: sum.splits)
  ultimately show ?thesis
    using report_scope [of demo_report 5 demo_measured res "snd ?x" 0] by (simp add: demo_report_def)
qed

section \<open>Failures\<close>

text \<open>Within these bounds the shift does not overflow; the default is 30 seconds.\<close>

lemma backoff_after_min:
  assumes "0 \<le> base" and "base < 2 ^ 58"
  shows "backoff_after base n cap = min (base * 2 ^ min n 5) cap"
proof -
  have "(2 :: int) ^ min n 5 \<le> 2 ^ 5" by (rule power_increasing) simp_all
  then have "base * 2 ^ min n 5 \<le> base * 32" using assms(1) by (intro mult_left_mono) simp_all
  then have "wrap64 (base * 2 ^ min n 5) = base * 2 ^ min n 5"
    using assms by (intro wrap64_id) (auto intro: order.trans [of _ 0])
  then show ?thesis by (simp add: backoff_after_def Let_def min_def)
qed

lemma no_tunnel_update:
  "s_tunnel s = None \<Longrightarrow> s\<lparr>s_failures := a, s_lastError := b, s_disabledUntil := c, s_tunnel := None\<rparr> =
     s\<lparr>s_failures := a, s_lastError := b, s_disabledUntil := c\<rparr>"
  by (cases s) simp

lemma noteFailure_effect:
  fixes p r
  defines "s \<equiv> p_heap p r"
  shows "p_entries (noteFailure e now r p) = p_entries p"
    "p_heap (noteFailure e now r p) = (p_heap p)(r := s
       \<lparr>s_failures := Suc (s_failures s), s_lastError := redactedError e,
        s_disabledUntil := now + backoff_after (FailureBackoff (p_opts p)) (s_failures s) (30 * minute),
        s_tunnel := None, s_openedAt := (if isOpen s then 0 else s_openedAt s)\<rparr>)"
proof -
  show "p_entries (noteFailure e now r p) = p_entries p"
    by (simp add: noteFailure_def Let_def closeLocked_def upd_slot_def)
  show "p_heap (noteFailure e now r p) = (p_heap p)(r := s
       \<lparr>s_failures := Suc (s_failures s), s_lastError := redactedError e,
        s_disabledUntil := now + backoff_after (FailureBackoff (p_opts p)) (s_failures s) (30 * minute),
        s_tunnel := None, s_openedAt := (if isOpen s then 0 else s_openedAt s)\<rparr>)"
    by (cases "s_tunnel s")
      (simp_all add: s_def noteFailure_def Let_def closeLocked_def upd_slot_def isOpen_def no_tunnel_update)
qed

lemma find_entry_less: "find_entry n es = Some i \<Longrightarrow> i < length es"
  by (induction es arbitrary: i) (auto split: if_splits)

lemma noteEntryFailure_effect:
  "p_heap (snd (noteEntryFailure n e now p)) = p_heap p"
  "find_entry n (p_entries p) = None \<Longrightarrow> snd (noteEntryFailure n e now p) = p"
  "find_entry n (p_entries p) = Some i \<Longrightarrow> m = Suc (e_failures (p_entries p ! i)) \<Longrightarrow>
   p_entries (snd (noteEntryFailure n e now p)) = (p_entries p)[i := (p_entries p ! i)
     \<lparr>e_failures := m, e_lastError := redactedError e,
      e_disabledUntil := (if m < 3 then e_disabledUntil (p_entries p ! i)
        else now + backoff_after (FailureBackoff (p_opts p)) (m - 3) (10 * minute)),
      e_tunnel := (if m < 3 then e_tunnel (p_entries p ! i) else None)\<rparr>]"
  using find_entry_less [of n "p_entries p" i]
  by (auto simp: noteEntryFailure_def upd_entry_def Let_def observeEntryDialFailureLocked_def
      entryFailureThreshold_def split: option.split)

text \<open>
  A failed dial is blamed on one party. When the lease used an entry and the far proxy did not
  answer, no slot changes: the entry of that name counts a failure, and from the third on it is
  closed and disabled. In every other case no entry changes: the slot of the lease counts the
  failure, is disabled for its doubled and capped backoff, and loses its tunnel; no other slot
  changes.
\<close>

theorem dial_failure_blame:
  assumes "0 \<le> FailureBackoff (p_opts p)" and "FailureBackoff (p_opts p) < 2 ^ 58"
  shows "let q = NoteDialFailure (Some l) (Some e) now p; base = FailureBackoff (p_opts p) in
     if l_Entry l \<noteq> [] \<and> \<not> errors_is e ErrDestination
     then p_heap q = p_heap p \<and>
          (case find_entry (l_Entry l) (p_entries p) of
             None \<Rightarrow> q = p
           | Some i \<Rightarrow> let n = Suc (e_failures (p_entries p ! i)) in
               p_entries q = (p_entries p)[i := (p_entries p ! i)
                 \<lparr>e_failures := n, e_lastError := redactedError e,
                  e_disabledUntil := (if n < 3 then e_disabledUntil (p_entries p ! i)
                                      else now + min (base * 2 ^ min (n - 3) 5) (10 * minute)),
                  e_tunnel := (if n < 3 then e_tunnel (p_entries p ! i) else None)\<rparr>])
     else p_entries q = p_entries p \<and>
          p_heap q = (p_heap p)(l_state l := (p_heap p (l_state l))
            \<lparr>s_failures := Suc (s_failures (p_heap p (l_state l))), s_lastError := redactedError e,
             s_disabledUntil := now + min (base * 2 ^ min (s_failures (p_heap p (l_state l))) 5) (30 * minute),
             s_tunnel := None,
             s_openedAt := (if isOpen (p_heap p (l_state l)) then 0 else s_openedAt (p_heap p (l_state l)))\<rparr>)"
proof (cases "l_Entry l \<noteq> [] \<and> \<not> errors_is e ErrDestination")
  case True
  then have "NoteDialFailure (Some l) (Some e) now p = snd (noteEntryFailure (l_Entry l) e now p)"
    by (simp add: NoteDialFailure_def)
  then show ?thesis
    using True noteEntryFailure_effect [where n = "l_Entry l" and e = e and now = now and p = p]
    by (simp add: Let_def backoff_after_min [OF assms] split: option.split)
next
  case False
  then have "NoteDialFailure (Some l) (Some e) now p = noteFailure e now (l_state l) p"
    by (auto simp: NoteDialFailure_def)
  then show ?thesis
    using False by (simp only: Let_def if_False noteFailure_effect backoff_after_min [OF assms])
qed

theorem dial_failure_blame_witness:
  "s_failures (p_heap (NoteDialFailure (Some demo_lease) (Some ErrCapacity) 7 demo_pool) 0) = 1"
proof -
  have "FailureBackoff (p_opts demo_pool) = 30000000000" "l_Entry demo_lease = []"
    "l_state demo_lease = 0" "s_failures (p_heap demo_pool 0) = 0"
    by code_simp+
  then show ?thesis
    using dial_failure_blame [of demo_pool demo_lease ErrCapacity 7] by (simp add: Let_def)
qed

section \<open>The order of the entries\<close>

lemma ordered_mset: "mset (orderedEntriesLocked draw c now p) = mset (healthy now p)"
proof -
  have "mset (sort_key (entry_key c p) (healthy now p)) = mset (healthy now p)" by simp
  then show ?thesis
    by (cases "sort_key (entry_key c p) (healthy now p)" rule: remdups_adj.cases)
      (auto simp: orderedEntriesLocked_def add_mset_commute)
qed

lemma healthy_set: "i \<in> set (healthy now p) \<longleftrightarrow> i < length (p_entries p) \<and> e_disabledUntil (p_entries p ! i) \<le> now"
  by (auto simp: healthy_def)

text \<open>
  For an exit country, the entries that are tried are exactly the healthy ones, each once. Without
  the draw of an exploration they come in the order of their score (then open before closed, then by
  name); an exploration only swaps the first two.
\<close>

theorem entry_order:
  shows "distinct (orderedEntriesLocked draw c now p) \<and>
     set (orderedEntriesLocked draw c now p) =
       {i. i < length (p_entries p) \<and> e_disabledUntil (p_entries p ! i) \<le> now} \<and>
     (let os = sort_key (entry_key c p) (healthy now p) in
        sorted (map (entry_key c p) os) \<and>
        orderedEntriesLocked draw c now p =
          (if draw < EntryExploreRate (p_opts p) \<and> 2 \<le> length os then os ! 1 # os ! 0 # drop 2 os else os))"
proof -
  have "distinct (orderedEntriesLocked draw c now p)"
    using mset_eq_imp_distinct_iff [OF ordered_mset] by (simp add: healthy_def)
  moreover have "set (orderedEntriesLocked draw c now p) =
      {i. i < length (p_entries p) \<and> e_disabledUntil (p_entries p ! i) \<le> now}"
    using mset_eq_setD [OF ordered_mset] healthy_set by blast
  moreover have "orderedEntriesLocked draw c now p =
      (let os = sort_key (entry_key c p) (healthy now p)
       in if draw < EntryExploreRate (p_opts p) \<and> 2 \<le> length os then os ! 1 # os ! 0 # drop 2 os else os)"
    by (cases "sort_key (entry_key c p) (healthy now p)" rule: remdups_adj.cases)
      (auto simp: orderedEntriesLocked_def Let_def)
  ultimately show ?thesis by (simp add: Let_def)
qed

text \<open>
  The dialer of a relay-socks slot opens the entries in their order and uses the first that opens;
  the ones before it failed, the ones after it are not touched. It fails only when all failed.
\<close>

lemma try_entries_spec:
  assumes "try_entries opens lastErr is p = (res, q)"
  shows "case res of
      Inr (i, t) \<Rightarrow> \<exists>xs ys p'. is = xs @ i # ys \<and>
         (\<exists>e. try_entries opens lastErr xs p = (Inl e, p')) \<and> opens i p' = (Inr t, q)
    | Inl e \<Rightarrow> errors_is e ErrExhausted"
  using assms
proof (induction opens lastErr "is" p arbitrary: res q rule: try_entries.induct)
  case (1 opens lastErr p)
  then show ?case by (auto split: option.split)
next
  case (2 opens lastErr i js p)
  show ?case
  proof (cases "opens i p")
    case (Pair r p1)
    show ?thesis
    proof (cases r)
      case (Inl e)
      have t: "try_entries opens (Some e) js p1 = (res, q)" using 2(2) Pair Inl by simp
      have IH: "case res of
          Inr (i, t) \<Rightarrow> \<exists>xs ys p'. js = xs @ i # ys \<and>
             (\<exists>e'. try_entries opens (Some e) xs p1 = (Inl e', p')) \<and> opens i p' = (Inr t, q)
        | Inl e \<Rightarrow> errors_is e ErrExhausted"
        using 2(1) [OF Pair [symmetric] Inl t] .
      show ?thesis
      proof (cases res)
        case (Inr it)
        obtain k t' xs ys p' e' where "it = (k, t')" "js = xs @ k # ys"
          "try_entries opens (Some e) xs p1 = (Inl e', p')" "opens k p' = (Inr t', q)"
          using IH Inr by (auto split: prod.splits)
        moreover from this have "try_entries opens lastErr (i # xs) p = (Inl e', p')"
          "i # js = (i # xs) @ k # ys"
          using Pair Inl by simp_all
        ultimately show ?thesis unfolding Inr by (simp only: sum.case prod.case) blast
      qed (use IH in simp)
    next
      case (Inr t)
      then have "res = Inr (i, t) \<and> opens i p = (Inr t, q) \<and>
          i # js = [] @ i # js \<and> (\<exists>e. try_entries opens lastErr [] p = (Inl e, p))"
        using 2(2) Pair by simp
      then show ?thesis by (simp only: sum.case prod.case) blast
    qed
  qed
qed

end
