(* ===== verification/Stream.thy ===== *)
theory Stream
  imports PoolState
begin

text \<open>
  A connection as the two SOCKS5 implementations and the relay see it. \<open>k_in\<close> are the bytes that will
  still arrive before the peer closes the connection, it breaks or the deadline passes; \<open>k_out\<close>
  are the bytes written so far; \<open>k_writes\<close> is the number of writes that will still succeed, and
  \<open>k_err\<close> is the error of the read or write that fails. A byte is a \<open>char\<close>, as everywhere in this
  development. An operation is a function from a connection to a result and a connection; an error
  ends the sequence, as the early returns of the code do.
\<close>

record link =
  k_in :: string
  k_out :: string
  k_writes :: nat
  k_err :: pool_error
  k_deadline :: "time option"

type_synonym 'a io = "link \<Rightarrow> (pool_error + 'a) \<times> link"

definition io_return :: "'a \<Rightarrow> 'a io" where
  "io_return x l = (Inr x, l)"

definition io_fail :: "pool_error \<Rightarrow> 'a io" where
  "io_fail e l = (Inl e, l)"

definition io_bind :: "'a io \<Rightarrow> ('a \<Rightarrow> 'b io) \<Rightarrow> 'b io" where
  "io_bind m f l = (case m l of (Inl e, l) \<Rightarrow> (Inl e, l) | (Inr x, l) \<Rightarrow> f x l)"

text \<open>\<open>io.ReadFull\<close> and \<open>Write\<close>. The Go code wraps their errors with \<open>fmt.Errorf\<close>, or returns them.\<close>

definition read_full :: "nat \<Rightarrow> string io" where
  "read_full n l =
     (if n \<le> length (k_in l) then (Inr (take n (k_in l)), l\<lparr>k_in := drop n (k_in l)\<rparr>)
      else (Inl (k_err l), l\<lparr>k_in := []\<rparr>))"

definition write_all :: "string \<Rightarrow> unit io" where
  "write_all bs l =
     (if k_writes l = 0 then (Inl (k_err l), l)
      else (Inr (), l\<lparr>k_out := k_out l @ bs, k_writes := k_writes l - 1\<rparr>))"

definition io_wrap :: "'a io \<Rightarrow> 'a io" where
  "io_wrap m l = (case m l of (Inl e, l) \<Rightarrow> (Inl (Wrapped e), l) | r \<Rightarrow> r)"

text \<open>A write whose error the code ignores.\<close>

definition try_write :: "string \<Rightarrow> unit io" where
  "try_write bs l = (Inr (), snd (write_all bs l))"

section \<open>Laws\<close>

named_theorems io "the operations on a connection, one step each"

lemma bind_return [simp]: "io_bind (io_return x) f = f x"
  by (simp add: io_bind_def io_return_def fun_eq_iff)

lemma bind_fail [simp]: "io_bind (io_fail e) f = io_fail e"
  by (simp add: io_bind_def io_fail_def fun_eq_iff)

lemma bind_assoc: "io_bind (io_bind m f) g = io_bind m (\<lambda>x. io_bind (f x) g)"
  by (simp add: io_bind_def fun_eq_iff split: prod.split sum.split)

lemma bind_Inr:
  "io_bind m f l = (Inr y, l') \<longleftrightarrow> (\<exists>x k. m l = (Inr x, k) \<and> f x k = (Inr y, l'))"
  by (auto simp: io_bind_def split: prod.split sum.split)

lemma return_Inr [simp]: "io_return x l = (Inr y, l') \<longleftrightarrow> y = x \<and> l' = l"
  by (auto simp: io_return_def)

lemma fail_Inr [simp]: "io_fail e l \<noteq> (Inr y, l')"
  by (simp add: io_fail_def)

lemma wrap_Inr [simp]: "io_wrap m l = (Inr y, l') \<longleftrightarrow> m l = (Inr y, l')"
  by (auto simp: io_wrap_def split: prod.split sum.split)

lemma read_full_Inr:
  "read_full n l = (Inr bs, l') \<longleftrightarrow>
     (\<exists>rest. k_in l = bs @ rest \<and> length bs = n \<and> l' = l\<lparr>k_in := rest\<rparr>)"
  by (auto simp: read_full_def) (metis append_take_drop_id length_take min.absorb2)

lemma write_all_Inr:
  "write_all bs l = (Inr u, l') \<longleftrightarrow>
     0 < k_writes l \<and> l' = l\<lparr>k_out := k_out l @ bs, k_writes := k_writes l - 1\<rparr>"
  by (auto simp: write_all_def)

lemma io_read [io]:
  "length bs = n \<Longrightarrow> k_in l = bs @ rest \<Longrightarrow> read_full n l = (Inr bs, l\<lparr>k_in := rest\<rparr>)"
  by (simp add: read_full_def)

lemma io_write [io]:
  "0 < k_writes l \<Longrightarrow> write_all bs l = (Inr (), l\<lparr>k_out := k_out l @ bs, k_writes := k_writes l - 1\<rparr>)"
  by (simp add: write_all_def)

lemma io_bind_Inr [io]: "m l = (Inr x, k) \<Longrightarrow> io_bind m f l = f x k"
  by (simp add: io_bind_def)

lemma io_bind_Inl [io]: "m l = (Inl e, k) \<Longrightarrow> io_bind m f l = (Inl e, k)"
  by (simp add: io_bind_def)

section \<open>Big-endian numbers\<close>

fun be_bytes :: "nat \<Rightarrow> nat \<Rightarrow> string" where
  "be_bytes 0 n = []"
| "be_bytes (Suc k) n = be_bytes k (n div 256) @ [char_of (n mod 256)]"

definition be_nat :: "string \<Rightarrow> nat" where
  "be_nat s = foldl (\<lambda>v c. v * 256 + of_char c) 0 s"

lemma length_be_bytes [simp]: "length (be_bytes k n) = k"
  by (induction k arbitrary: n) simp_all

lemma be_nat_snoc: "be_nat (s @ [c]) = be_nat s * 256 + of_char c"
  by (simp add: be_nat_def)

lemma be_nat_bytes: "be_nat (be_bytes k n) = n mod 256 ^ k"
proof (induction k arbitrary: n)
  case (Suc k)
  have "be_nat (be_bytes (Suc k) n) = (n div 256 mod 256 ^ k) * 256 + n mod 256"
    by (simp add: be_nat_snoc Suc)
  also have "\<dots> = n mod (256 * 256 ^ k)"
    by (simp add: mod_mult2_eq)
  finally show ?case by simp
qed (simp add: be_nat_def)

lemma be_bytes_eq_Nil [simp]: "be_bytes k n = [] \<longleftrightarrow> k = 0"
  by (cases k) simp_all

lemma of_char_length [simp]: "n < 256 \<Longrightarrow> of_char (char_of n :: char) = (n :: nat)"
  by simp

end
