(* ===== verification/Socksdial.thy ===== *)
theory Socksdial
  imports Stream
begin

text \<open>
  \<open>internal/socksdial/socksdial.go\<close>: the SOCKS5 client that chains through the proxy of a relay or
  through a configured one. \<open>exchange\<close> is the negotiation without its deadline; \<open>negotiate\<close> puts the
  deadline around it; \<open>SocksDialContext\<close> is the whole dial, whose base dialer is an argument.
\<close>

abbreviation socks_version :: char where "socks_version \<equiv> CHR 0x05"
abbreviation method_no_auth :: char where "method_no_auth \<equiv> CHR 0x00"
abbreviation method_user_pass :: char where "method_user_pass \<equiv> CHR 0x02"
abbreviation auth_version :: char where "auth_version \<equiv> CHR 0x01"
abbreviation atyp_v4 :: char where "atyp_v4 \<equiv> CHR 0x01"
abbreviation atyp_domain :: char where "atyp_domain \<equiv> CHR 0x03"
abbreviation atyp_v6 :: char where "atyp_v6 \<equiv> CHR 0x04"

record socks_dialer =
  sd_hasBase :: bool
  sd_ProxyAddr :: string
  sd_Timeout :: duration
  sd_Username :: string
  sd_Password :: string

section \<open>The address of the destination\<close>

text \<open>\<open>net.ParseIP\<close> with \<open>To4\<close>: an IPv4 address or its mapped form is \<open>V4\<close>; a zone is refused.\<close>

definition parse_ip :: "string \<Rightarrow> addr option" where
  "parse_ip s =
     (case parse_addr s of None \<Rightarrow> None | Some a \<Rightarrow> if has_zone a then None else Some (unmap a))"

definition put_uint16 :: "int \<Rightarrow> string" where
  "put_uint16 port = be_bytes 2 (nat (port mod 65536))"

definition buildConnect :: "string \<Rightarrow> int \<Rightarrow> pool_error + string" where
  "buildConnect host port =
     (let request = [socks_version, CHR 0x01, CHR 0x00]
      in case parse_ip host of
           Some (V4 w) \<Rightarrow> Inr (request @ atyp_v4 # be_bytes 4 (unat w) @ put_uint16 port)
         | Some (V6 w _) \<Rightarrow> Inr (request @ atyp_v6 # be_bytes 16 (unat w) @ put_uint16 port)
         | None \<Rightarrow>
             if 255 < length host then Inl (Errorf ''socksdial: host name is too long for SOCKS5'')
             else Inr (request @ atyp_domain # char_of (length host) # host @ put_uint16 port))"

section \<open>The reply\<close>

definition replyMessage :: "char \<Rightarrow> string" where
  "replyMessage code =
     (if code = CHR 0x01 then ''general failure''
      else if code = CHR 0x02 then ''connection not allowed''
      else if code = CHR 0x03 then ''network unreachable''
      else if code = CHR 0x04 then ''host unreachable''
      else if code = CHR 0x05 then ''connection refused''
      else if code = CHR 0x06 then ''TTL expired''
      else if code = CHR 0x07 then ''command not supported''
      else if code = CHR 0x08 then ''address type not supported''
      else ''code 0x'' @ [hex_char (of_char code div 16), hex_char (of_char code mod 16)])"

definition readConnectReply :: "unit io" where
  "readConnectReply =
     io_bind (io_wrap (read_full 4)) (\<lambda>header.
       if header ! 0 \<noteq> socks_version then io_fail (Errorf ''socksdial: bad reply version'')
       else if header ! 1 \<noteq> CHR 0x00 then
         io_fail (Wrapped ErrDestination)
       else if header ! 3 = atyp_v4 then
         io_bind (io_wrap (read_full (4 + 2))) (\<lambda>_. io_return ())
       else if header ! 3 = atyp_v6 then
         io_bind (io_wrap (read_full (16 + 2))) (\<lambda>_. io_return ())
       else if header ! 3 = atyp_domain then
         io_bind (io_wrap (read_full 1)) (\<lambda>len.
           io_bind (io_wrap (read_full (of_char (len ! 0) + 2))) (\<lambda>_. io_return ()))
       else io_fail (Errorf ''socksdial: unknown address type in reply''))"

section \<open>The negotiation\<close>

definition has_credentials :: "socks_dialer \<Rightarrow> bool" where
  "has_credentials d \<longleftrightarrow> sd_Username d \<noteq> [] \<or> sd_Password d \<noteq> []"

definition bad_credentials :: "socks_dialer \<Rightarrow> bool" where
  "bad_credentials d \<longleftrightarrow>
     length (sd_Username d) > 255 \<or> length (sd_Password d) > 255 \<or> sd_Username d = [] \<or>
     sd_Password d = []"

definition auth_message :: "socks_dialer \<Rightarrow> string" where
  "auth_message d =
     auth_version # char_of (length (sd_Username d)) # sd_Username d @
     char_of (length (sd_Password d)) # sd_Password d"

definition connect_request :: "string \<Rightarrow> int \<Rightarrow> unit io" where
  "connect_request host port =
     (case buildConnect host port of
        Inl e \<Rightarrow> io_fail e
      | Inr request \<Rightarrow> io_bind (io_wrap (write_all request)) (\<lambda>_. readConnectReply))"

definition exchange :: "socks_dialer \<Rightarrow> string \<Rightarrow> int \<Rightarrow> unit io" where
  "exchange d host port =
     (if has_credentials d \<and> bad_credentials d
      then io_fail (Errorf ''socksdial: username and password must be 1-255 bytes'')
      else
        let method = (if has_credentials d then method_user_pass else method_no_auth)
        in io_bind (io_wrap (write_all [socks_version, CHR 0x01, method])) (\<lambda>_.
           io_bind (io_wrap (read_full 2)) (\<lambda>reply.
             if reply ! 0 \<noteq> socks_version then io_fail (Errorf ''socksdial: proxy answered SOCKS version'')
             else if reply ! 1 = method_user_pass \<and> sd_Username d \<noteq> [] \<and> sd_Password d \<noteq> [] then
               io_bind (io_wrap (write_all (auth_message d))) (\<lambda>_.
               io_bind (io_wrap (read_full 2)) (\<lambda>authReply.
                 if authReply ! 0 \<noteq> auth_version \<or> authReply ! 1 \<noteq> CHR 0x00
                 then io_fail (Errorf ''socksdial: proxy rejected username/password'')
                 else connect_request host port))
             else if reply ! 1 \<noteq> method_no_auth then
               io_fail (Errorf ''socksdial: proxy selected unsupported authentication method'')
             else if has_credentials d then
               io_fail (Errorf ''socksdial: proxy selected unauthenticated access'')
             else connect_request host port)))"

text \<open>The tighter of the deadline of the caller and the dialer's own.\<close>

definition negotiation_deadline :: "socks_dialer \<Rightarrow> time option \<Rightarrow> time \<Rightarrow> time option" where
  "negotiation_deadline d ctxDeadline now =
     (if sd_Timeout d > 0 then
        let own = now + sd_Timeout d
        in (case ctxDeadline of
              None \<Rightarrow> Some own
            | Some deadline \<Rightarrow> if own < deadline then Some own else Some deadline)
      else ctxDeadline)"

text \<open>\<open>sdErr\<close> is the result of \<open>SetDeadline\<close>; the deadline is cleared when the negotiation returns.\<close>

definition negotiate ::
  "socks_dialer \<Rightarrow> time option \<Rightarrow> time \<Rightarrow> pool_error option \<Rightarrow> string \<Rightarrow> int \<Rightarrow> unit io" where
  "negotiate d ctxDeadline now sdErr host port l =
     (case negotiation_deadline d ctxDeadline now of
        None \<Rightarrow> exchange d host port l
      | Some t \<Rightarrow>
          (case sdErr of
             Some e \<Rightarrow> (Inl (Wrapped e), l)
           | None \<Rightarrow>
               let (r, l) = exchange d host port (l\<lparr>k_deadline := Some t\<rparr>)
               in (r, l\<lparr>k_deadline := None\<rparr>)))"

definition SocksDialContext ::
  "socks_dialer \<Rightarrow> time option \<Rightarrow> time \<Rightarrow> pool_error option \<Rightarrow> string \<Rightarrow> string \<Rightarrow> (pool_error + link)
     \<Rightarrow> pool_error + link" where
  "SocksDialContext d ctxDeadline now sdErr network address base =
     (if network \<notin> {''tcp'', ''tcp4'', ''tcp6''} then Inl (Errorf ''socksdial: unsupported network'')
      else if \<not> sd_hasBase d then Inl (Errorf ''socksdial: no base dialer'')
      else
        case split_host_port address of
          None \<Rightarrow> Inl (Wrapped (Foreign ''*net.AddrError''))
        | Some (host, portStr) \<Rightarrow>
            (case atoi portStr of
               None \<Rightarrow> Inl (Errorf ''socksdial: invalid port'')
             | Some port \<Rightarrow>
                 if port < 1 \<or> port > 65535 then Inl (Errorf ''socksdial: invalid port'')
                 else
                   (case base of
                      Inl e \<Rightarrow> Inl (Wrapped e)
                    | Inr conn \<Rightarrow>
                        (case negotiate d ctxDeadline now sdErr host port conn of
                           (Inl e, _) \<Rightarrow> Inl e
                         | (Inr _, conn) \<Rightarrow> Inr conn))))"

section \<open>What the client says and hears\<close>

text \<open>The replies after which a dial succeeds, as RFC 1928 and 1929 lay them out.\<close>

definition good_connect_reply :: "string \<Rightarrow> bool" where
  "good_connect_reply r \<longleftrightarrow>
     (\<exists>rsv rest. r = [socks_version, CHR 0x00, rsv, atyp_v4] @ rest \<and> length rest = 6) \<or>
     (\<exists>rsv rest. r = [socks_version, CHR 0x00, rsv, atyp_v6] @ rest \<and> length rest = 18) \<or>
     (\<exists>rsv n rest. r = [socks_version, CHR 0x00, rsv, atyp_domain, n] @ rest \<and> length rest = of_char n + 2)"

definition good_method_reply :: "socks_dialer \<Rightarrow> string" where
  "good_method_reply d =
     (if has_credentials d then [socks_version, method_user_pass, auth_version, CHR 0x00]
      else [socks_version, method_no_auth])"

definition client_says :: "socks_dialer \<Rightarrow> string \<Rightarrow> string" where
  "client_says d request =
     [socks_version, CHR 0x01, if has_credentials d then method_user_pass else method_no_auth] @
     (if has_credentials d then auth_message d else []) @ request"

lemma length_2E:
  assumes "length s = 2" obtains a b where "s = [a, b]"
  using assms by (auto simp: length_Suc_conv numeral_2_eq_2)

lemma length_4E:
  assumes "length s = 4" obtains a b c d where "s = [a, b, c, d]"
  using assms by (auto simp: length_Suc_conv eval_nat_numeral)

lemma readConnectReply_Inr:
  "readConnectReply l = (Inr (), l') \<longleftrightarrow>
     (\<exists>r rest. good_connect_reply r \<and> k_in l = r @ rest \<and> l' = l\<lparr>k_in := rest\<rparr>)"
proof
  assume "readConnectReply l = (Inr (), l')"
  then obtain header k where h: "length header = 4" "k_in l = header @ k"
    and rest: "(if header ! 0 \<noteq> socks_version then io_fail (Errorf ''socksdial: bad reply version'')
       else if header ! 1 \<noteq> CHR 0x00 then io_fail (Wrapped ErrDestination)
       else if header ! 3 = atyp_v4 then
         io_bind (io_wrap (read_full (4 + 2))) (\<lambda>_. io_return ())
       else if header ! 3 = atyp_v6 then
         io_bind (io_wrap (read_full (16 + 2))) (\<lambda>_. io_return ())
       else if header ! 3 = atyp_domain then
         io_bind (io_wrap (read_full 1)) (\<lambda>len.
           io_bind (io_wrap (read_full (of_char (len ! 0) + 2))) (\<lambda>_. io_return ()))
       else io_fail (Errorf ''socksdial: unknown address type in reply'')) (l\<lparr>k_in := k\<rparr>) = (Inr (), l')"
    unfolding readConnectReply_def by (auto simp: bind_Inr read_full_Inr)
  from h(1) obtain a b c d where header: "header = [a, b, c, d]" by (rule length_4E)
  show "\<exists>r rest. good_connect_reply r \<and> k_in l = r @ rest \<and> l' = l\<lparr>k_in := rest\<rparr>"
  proof (cases "d = atyp_v4 \<or> d = atyp_v6")
    case True
    then obtain bs rest' where "k = bs @ rest'" "length bs = (if d = atyp_v4 then 6 else 18)"
      "l' = l\<lparr>k_in := rest'\<rparr>" "a = socks_version" "b = CHR 0x00"
      using rest by (auto simp: header bind_Inr read_full_Inr split: if_splits)
    then have "good_connect_reply (header @ bs) \<and> k_in l = (header @ bs) @ rest' \<and> l' = l\<lparr>k_in := rest'\<rparr>"
      using True h by (auto simp: header good_connect_reply_def)
    then show ?thesis by blast
  next
    case False
    then have d: "d = atyp_domain" "a = socks_version" "b = CHR 0x00"
      using rest by (auto simp: header split: if_splits)
    obtain len bs rest' where b: "k = len @ bs @ rest'" "length len = 1"
      "length bs = of_char (len ! 0) + 2" "l' = l\<lparr>k_in := rest'\<rparr>"
      using rest by (auto simp: header d bind_Inr read_full_Inr)
    moreover from b(2) obtain n where "len = [n]" by (auto simp: length_Suc_conv)
    ultimately have "k = n # bs @ rest'" "length bs = of_char n + 2" "l' = l\<lparr>k_in := rest'\<rparr>"
      by simp_all
    then have "good_connect_reply (header @ n # bs) \<and> k_in l = (header @ n # bs) @ rest' \<and>
        l' = l\<lparr>k_in := rest'\<rparr>"
      using h d by (auto simp: header good_connect_reply_def)
    then show ?thesis by blast
  qed
next
  assume "\<exists>r rest. good_connect_reply r \<and> k_in l = r @ rest \<and> l' = l\<lparr>k_in := rest\<rparr>"
  then obtain r rest where r: "good_connect_reply r" "k_in l = r @ rest" "l' = l\<lparr>k_in := rest\<rparr>" by blast
  from r(1) consider rsv bs where "r = [socks_version, CHR 0x00, rsv, atyp_v4] @ bs" "length bs = 6"
    | rsv bs where "r = [socks_version, CHR 0x00, rsv, atyp_v6] @ bs" "length bs = 18"
    | rsv n bs where "r = [socks_version, CHR 0x00, rsv, atyp_domain, n] @ bs" "length bs = of_char n + 2"
    unfolding good_connect_reply_def by blast
  then show "readConnectReply l = (Inr (), l')"
    by cases (simp_all add: readConnectReply_def io_bind_def io_wrap_def read_full_def io_return_def r)
qed

text \<open>Two bytes are what they are read as.\<close>

lemma read_2_Inr:
  "read_full 2 l = (Inr r, k) \<longleftrightarrow>
     (\<exists>a b rest. r = [a, b] \<and> k_in l = a # b # rest \<and> k = l\<lparr>k_in := rest\<rparr>)"
  by (auto simp: read_full_Inr elim!: length_2E)

lemma connect_request_Inr:
  "connect_request host port l = (Inr (), l') \<longleftrightarrow>
     (\<exists>request r rest. buildConnect host port = Inr request \<and> 0 < k_writes l \<and>
        good_connect_reply r \<and> k_in l = r @ rest \<and>
        l' = l\<lparr>k_in := rest, k_out := k_out l @ request, k_writes := k_writes l - 1\<rparr>)"
proof (cases "buildConnect host port")
  case (Inr request)
  have "(l\<lparr>k_out := a, k_writes := b\<rparr>)\<lparr>k_in := c\<rparr> = l\<lparr>k_in := c, k_out := a, k_writes := b\<rparr>" for a b c
    by simp
  then show ?thesis
    by (auto simp: connect_request_def Inr bind_Inr write_all_Inr readConnectReply_Inr)
qed (simp add: connect_request_def)

lemma link_order:
  "l\<lparr>k_out := a, k_writes := b, k_in := c\<rparr> = l\<lparr>k_in := c, k_out := a, k_writes := b\<rparr>"
  by simp

text \<open>
  A result of the negotiation that is not a failure of the connection: success, or the refusal of
  the destination.
\<close>

definition settled_result :: "link \<Rightarrow> pool_error + unit \<Rightarrow> bool" where
  "settled_result l x \<longleftrightarrow> x = Inr () \<or> x = Inl (Wrapped ErrDestination) \<and> k_err l \<noteq> ErrDestination"

lemma settled_result_neq:
  "settled_result l x \<Longrightarrow> x \<noteq> Inl (Wrapped (k_err l))"
  "settled_result l x \<Longrightarrow> x \<noteq> Inl (Errorf t)"
  by (auto simp: settled_result_def)

lemma settled_result_upd [simp]:
  "settled_result (l\<lparr>k_in := a, k_out := b, k_writes := c\<rparr>) x = settled_result l x"
  by (simp add: settled_result_def)

text \<open>One write and one read of two bytes.\<close>

lemma send_and_hear:
  assumes "settled_result l x"
  shows "io_bind (io_wrap (write_all bs)) (\<lambda>_. io_bind (io_wrap (read_full 2)) f) l = (x, l') \<longleftrightarrow>
     (\<exists>a b rest. 0 < k_writes l \<and> k_in l = a # b # rest \<and>
        f [a, b] (l\<lparr>k_in := rest, k_out := k_out l @ bs, k_writes := k_writes l - 1\<rparr>) = (x, l'))"
proof (cases "0 < k_writes l \<and> 2 \<le> length (k_in l)")
  case True
  then obtain a b rest where "k_in l = a # b # rest"
    by (metis One_nat_def Suc_le_length_iff numeral_2_eq_2)
  then show ?thesis
    using True by (simp add: io_bind_def io_wrap_def write_all_def read_full_def link_order)
next
  case False
  have "io_bind (io_wrap (write_all bs)) (\<lambda>_. io_bind (io_wrap (read_full 2)) f) l \<noteq> (x, l')"
    using False settled_result_neq(1) [OF assms]
    by (auto simp: io_bind_def io_wrap_def write_all_def read_full_def)
  then show ?thesis using False by auto
qed

lemma exchange_without_credentials:
  assumes "\<not> has_credentials d" and "settled_result l x"
  shows "exchange d host port l = (x, l') \<longleftrightarrow>
     0 < k_writes l \<and> (\<exists>rest. k_in l = [socks_version, method_no_auth] @ rest \<and>
       connect_request host port (l\<lparr>k_in := rest,
         k_out := k_out l @ [socks_version, CHR 0x01, method_no_auth], k_writes := k_writes l - 1\<rparr>) = (x, l'))"
  using assms settled_result_neq(2) [OF assms(2)]
  by (auto simp: exchange_def Let_def send_and_hear has_credentials_def io_fail_def split: if_splits)

lemma exchange_with_credentials:
  assumes "has_credentials d" and "\<not> bad_credentials d" and "settled_result l x"
  shows "exchange d host port l = (x, l') \<longleftrightarrow>
     1 < k_writes l \<and> (\<exists>rest. k_in l = [socks_version, method_user_pass, auth_version, CHR 0x00] @ rest \<and>
       connect_request host port (l\<lparr>k_in := rest,
         k_out := k_out l @ [socks_version, CHR 0x01, method_user_pass] @ auth_message d,
         k_writes := k_writes l - 2\<rparr>) = (x, l'))"
proof -
  have u: "sd_Username d \<noteq> []" "sd_Password d \<noteq> []" using assms(2) by (simp_all add: bad_credentials_def)
  note ne = settled_result_neq(2) [OF assms(3)]
  let ?G = "\<lambda>authReply. if authReply ! 0 \<noteq> auth_version \<or> authReply ! 1 \<noteq> CHR 0x00
      then io_fail (Errorf ''socksdial: proxy rejected username/password'') else connect_request host port"
  let ?F = "\<lambda>reply. if reply ! 0 \<noteq> socks_version
      then io_fail (Errorf ''socksdial: proxy answered SOCKS version'')
      else if reply ! 1 = method_user_pass \<and> sd_Username d \<noteq> [] \<and> sd_Password d \<noteq> [] then
        io_bind (io_wrap (write_all (auth_message d))) (\<lambda>_. io_bind (io_wrap (read_full 2)) ?G)
      else if reply ! 1 \<noteq> method_no_auth then
        io_fail (Errorf ''socksdial: proxy selected unsupported authentication method'')
      else if has_credentials d then
        io_fail (Errorf ''socksdial: proxy selected unauthenticated access'')
      else connect_request host port"
  have e: "exchange d host port = io_bind (io_wrap (write_all [socks_version, CHR 0x01, method_user_pass]))
      (\<lambda>_. io_bind (io_wrap (read_full 2)) ?F)"
    using assms(1,2) by (simp add: exchange_def Let_def)
  have G: "?G [a, b] k = (x, l') \<longleftrightarrow>
      a = auth_version \<and> b = CHR 0x00 \<and> connect_request host port k = (x, l')" for a b k
    using ne by (auto simp: io_fail_def)
  have F: "?F [a, b] k = (x, l') \<longleftrightarrow> a = socks_version \<and> b = method_user_pass \<and>
      io_bind (io_wrap (write_all (auth_message d))) (\<lambda>_. io_bind (io_wrap (read_full 2)) ?G) k = (x, l')"
    for a b k
    using u assms(1) ne by (auto simp: io_fail_def)
  show ?thesis
    unfolding e send_and_hear [OF assms(3)] F
    using ne by (simp add: send_and_hear assms(3) G) (auto simp: io_fail_def diff_diff_eq numeral_2_eq_2)
qed

definition writes_needed :: "socks_dialer \<Rightarrow> nat" where
  "writes_needed d = (if has_credentials d then 3 else 2)"

lemma exchange_iff:
  "exchange d host port l = (Inr (), l') \<longleftrightarrow>
     (\<exists>request r rest. (has_credentials d \<longrightarrow> \<not> bad_credentials d) \<and>
        buildConnect host port = Inr request \<and> writes_needed d \<le> k_writes l \<and>
        good_connect_reply r \<and> k_in l = good_method_reply d @ r @ rest \<and>
        l' = l\<lparr>k_in := rest, k_out := k_out l @ client_says d request,
              k_writes := k_writes l - writes_needed d\<rparr>)"
proof (cases "has_credentials d")
  case False
  then show ?thesis
    by (auto simp: exchange_without_credentials settled_result_def connect_request_Inr good_method_reply_def
        client_says_def writes_needed_def diff_diff_eq numeral_2_eq_2) blast+
next
  case True
  show ?thesis
  proof (cases "bad_credentials d")
    case False
    then show ?thesis
      using True
      by (auto simp: exchange_with_credentials settled_result_def connect_request_Inr good_method_reply_def
          client_says_def writes_needed_def diff_diff_eq numeral_2_eq_2 numeral_3_eq_3) blast+
  qed (use True in \<open>simp add: exchange_def\<close>)
qed


lemma exchange_succeeds:
  assumes "has_credentials d \<Longrightarrow> \<not> bad_credentials d" and "buildConnect host port = Inr request"
    and "writes_needed d \<le> k_writes l" and "good_connect_reply r"
    and "k_in l = good_method_reply d @ r @ rest"
  shows "exchange d host port l = (Inr (), l\<lparr>k_in := rest, k_out := k_out l @ client_says d request,
     k_writes := k_writes l - writes_needed d\<rparr>)"
  unfolding exchange_iff using assms by blast

text \<open>
  C24: the negotiation succeeds exactly when the proxy selects the method the configuration asks for,
  accepts the credentials, and answers the request with a well-formed success. Then the client
  has said exactly its greeting, its credentials and the request, and has read exactly the replies:
  the connection starts at the payload. In particular it never falls back to no authentication, and
  never sends credentials to a proxy that did not ask for them.
\<close>

theorem socks_exchange:
  "exchange d host port l = (Inr (), l') \<longleftrightarrow>
     (\<exists>request r rest. (has_credentials d \<longrightarrow> \<not> bad_credentials d) \<and>
        buildConnect host port = Inr request \<and> writes_needed d \<le> k_writes l \<and>
        good_connect_reply r \<and> k_in l = good_method_reply d @ r @ rest \<and>
        l' = l\<lparr>k_in := rest, k_out := k_out l @ client_says d request,
              k_writes := k_writes l - writes_needed d\<rparr>)"
  by (rule exchange_iff)

definition demo_dialer :: socks_dialer where
  "demo_dialer = \<lparr>sd_hasBase = True, sd_ProxyAddr = ''10.0.0.1:1080'', sd_Timeout = 0,
     sd_Username = ''u'', sd_Password = ''pw''\<rparr>"

definition demo_link :: "string \<Rightarrow> link" where
  "demo_link bs = \<lparr>k_in = bs, k_out = [], k_writes = 9, k_err = Foreign ''*net.OpError'', k_deadline = None\<rparr>"

theorem socks_exchange_witness:
  "exchange demo_dialer ''h.net'' 443
     (demo_link ([CHR 0x05, CHR 0x02, CHR 0x01, CHR 0x00, CHR 0x05, CHR 0x00, CHR 0x00, CHR 0x01,
                  CHR 0x00, CHR 0x00, CHR 0x00, CHR 0x00, CHR 0x00, CHR 0x00] @ ''payload'')) =
   (Inr (), (demo_link ''payload'')\<lparr>k_out := [CHR 0x05, CHR 0x01, CHR 0x02, CHR 0x01, CHR 0x01] @ ''u'' @
      [CHR 0x02] @ ''pw'' @ [CHR 0x05, CHR 0x01, CHR 0x00, CHR 0x03, CHR 0x05] @ ''h.net'' @
      [CHR 0x01, CHR 0xBB], k_writes := 6\<rparr>)"
proof -
  have "buildConnect ''h.net'' 443 = Inr ([CHR 0x05, CHR 0x01, CHR 0x00, CHR 0x03, CHR 0x05] @ ''h.net'' @
      [CHR 0x01, CHR 0xBB])"
    "has_credentials demo_dialer" "\<not> bad_credentials demo_dialer"
    "auth_message demo_dialer = [CHR 0x01, CHR 0x01] @ ''u'' @ [CHR 0x02] @ ''pw''"
    by code_simp+
  moreover have "good_connect_reply ([CHR 0x05, CHR 0x00, CHR 0x00, CHR 0x01] @
      [CHR 0x00, CHR 0x00, CHR 0x00, CHR 0x00, CHR 0x00, CHR 0x00])"
    unfolding good_connect_reply_def by simp
  ultimately show ?thesis
    by (intro socks_exchange [THEN iffD2] exI conjI)
      (simp_all add: demo_link_def good_method_reply_def client_says_def writes_needed_def)
qed

lemma connect_refused:
  assumes "k_err l \<noteq> ErrDestination"
  shows "connect_request host port l = (Inl (Wrapped ErrDestination), l') \<longleftrightarrow>
     (\<exists>request code rsv ty rest. buildConnect host port = Inr request \<and> 0 < k_writes l \<and>
        k_in l = [socks_version, code, rsv, ty] @ rest \<and> code \<noteq> CHR 0x00 \<and>
        l' = l\<lparr>k_in := rest, k_out := k_out l @ request, k_writes := k_writes l - 1\<rparr>)"
proof (cases "buildConnect host port")
  case (Inl e)
  have "e \<noteq> Wrapped ErrDestination" using Inl by (auto simp: buildConnect_def Let_def split: option.splits addr.splits if_splits)
  then show ?thesis by (simp add: connect_request_def Inl io_fail_def)
next
  case (Inr request)
  show ?thesis
  proof (cases "0 < k_writes l \<and> 4 \<le> length (k_in l)")
    case True
    then obtain a b c d rest where h: "k_in l = [a, b, c, d] @ rest"
      by (metis append_take_drop_id length_4E length_take min.absorb2)
    let ?k = "l\<lparr>k_in := rest, k_out := k_out l @ request, k_writes := k_writes l - 1\<rparr>"
    have io: "io_wrap (read_full n) k = (Inl (Wrapped ErrDestination), k') \<longleftrightarrow> False"
      "io_wrap (read_full n) ?k = (Inl (Wrapped ErrDestination), k') \<longleftrightarrow> False" if "k_err k = k_err l" for n k k'
      using assms that by (auto simp: io_wrap_def read_full_def)
    have "io_bind (io_wrap (read_full n)) (\<lambda>_. io_return ()) k \<noteq> (Inl (Wrapped ErrDestination), l')"
      if "k_err k = k_err l" for n k
      using assms that by (auto simp: io_bind_def io_wrap_def read_full_def io_return_def)
    moreover have "io_bind (io_wrap (read_full m)) (\<lambda>x. io_bind (io_wrap (read_full (n x))) (\<lambda>_. io_return ())) k
        \<noteq> (Inl (Wrapped ErrDestination), l')" if "k_err k = k_err l" for m n k
      using assms that by (auto simp: io_bind_def io_wrap_def read_full_def io_return_def)
    moreover have "connect_request host port l = (io_bind (io_return [a, b, c, d]) (\<lambda>header.
       if header ! 0 \<noteq> socks_version then io_fail (Errorf ''socksdial: bad reply version'')
       else if header ! 1 \<noteq> CHR 0x00 then io_fail (Wrapped ErrDestination)
       else if header ! 3 = atyp_v4 then io_bind (io_wrap (read_full (4 + 2))) (\<lambda>_. io_return ())
       else if header ! 3 = atyp_v6 then io_bind (io_wrap (read_full (16 + 2))) (\<lambda>_. io_return ())
       else if header ! 3 = atyp_domain then
         io_bind (io_wrap (read_full 1)) (\<lambda>len.
           io_bind (io_wrap (read_full (of_char (len ! 0) + 2))) (\<lambda>_. io_return ()))
       else io_fail (Errorf ''socksdial: unknown address type in reply''))) ?k"
      using True h
      by (simp add: connect_request_def Inr readConnectReply_def io_bind_def [of "io_wrap (write_all _)"]
          io_bind_def [of "io_wrap (read_full 4)"] io_wrap_def [of "write_all _"]
          io_wrap_def [of "read_full 4"] write_all_def read_full_def [of 4] link_order)
    ultimately show ?thesis
      using True h Inr by (auto simp: io_fail_def split: if_splits)
  next
    case False
    then have "connect_request host port l \<noteq> (Inl (Wrapped ErrDestination), l')"
      using assms
      by (auto simp: connect_request_def Inr readConnectReply_def io_bind_def io_wrap_def
          write_all_def read_full_def)
    then show ?thesis using False by auto
  qed
qed

text \<open>
  The error that names the destination, \<open>ErrDestination\<close>, is returned exactly when the proxy has
  accepted the client and answers its request with a failure code. Every other failure, up to
  and including that of the connection to the proxy, is a different error.
\<close>

theorem socks_refusal:
  assumes "k_err l \<noteq> ErrDestination"
  shows "exchange d host port l = (Inl (Wrapped ErrDestination), l') \<longleftrightarrow>
     (\<exists>request code rsv ty rest. (has_credentials d \<longrightarrow> \<not> bad_credentials d) \<and>
        buildConnect host port = Inr request \<and> writes_needed d \<le> k_writes l \<and>
        k_in l = good_method_reply d @ [socks_version, code, rsv, ty] @ rest \<and> code \<noteq> CHR 0x00 \<and>
        l' = l\<lparr>k_in := rest, k_out := k_out l @ client_says d request,
              k_writes := k_writes l - writes_needed d\<rparr>)"
proof -
  have s: "settled_result l (Inl (Wrapped ErrDestination))" using assms by (simp add: settled_result_def)
  show ?thesis
  proof (cases "has_credentials d")
    case False
    then show ?thesis
      by (auto simp: exchange_without_credentials [OF _ s] connect_refused assms good_method_reply_def
          client_says_def writes_needed_def diff_diff_eq numeral_2_eq_2)
  next
    case True
    show ?thesis
    proof (cases "bad_credentials d")
      case False
      then show ?thesis
        using True
        by (auto simp: exchange_with_credentials [OF _ _ s] connect_refused assms good_method_reply_def
            client_says_def writes_needed_def diff_diff_eq numeral_2_eq_2 numeral_3_eq_3)
    qed (use True in \<open>simp add: exchange_def io_fail_def\<close>)
  qed
qed

theorem socks_refusal_witness:
  "exchange (demo_dialer\<lparr>sd_Username := [], sd_Password := []\<rparr>) ''h.net'' 443
     (demo_link [CHR 0x05, CHR 0x00, CHR 0x05, CHR 0x05, CHR 0x00, CHR 0x01]) =
   (Inl (Wrapped ErrDestination), (demo_link [])\<lparr>k_out := [CHR 0x05, CHR 0x01, CHR 0x00,
      CHR 0x05, CHR 0x01, CHR 0x00, CHR 0x03, CHR 0x05] @ ''h.net'' @ [CHR 0x01, CHR 0xBB], k_writes := 7\<rparr>)"
proof -
  let ?d = "demo_dialer\<lparr>sd_Username := [], sd_Password := []\<rparr>"
  have "buildConnect ''h.net'' 443 = Inr ([CHR 0x05, CHR 0x01, CHR 0x00, CHR 0x03, CHR 0x05] @ ''h.net'' @
      [CHR 0x01, CHR 0xBB])" "\<not> has_credentials ?d"
    by code_simp+
  moreover have "k_err (demo_link [CHR 0x05, CHR 0x00, CHR 0x05, CHR 0x05, CHR 0x00, CHR 0x01]) \<noteq> ErrDestination"
    by (simp add: demo_link_def)
  ultimately show ?thesis
    by (subst socks_refusal)
      (simp_all add: demo_link_def good_method_reply_def client_says_def writes_needed_def)
qed

end
