(* ===== verification/Proxy.thy ===== *)
theory Proxy
  imports Health Netguard Socksdial "HOL-Library.Sublist"
begin

text \<open>
  \<open>internal/proxy/proxy.go\<close> and \<open>internal/proxy/metrics.go\<close>: what the SOCKS5 and the HTTP listener
  share. Authorisation and the client list, connecting upstream with retries over the pool, the
  mapping of failures, the relay loop and the classification of requests for the metrics.
\<close>

record deps =
  dp_Guard :: guard
  dp_AllowedClients :: "prefix list"
  dp_Password :: string
  dp_RequireAuth :: bool
  dp_RequirePolicy :: bool
  dp_DialTimeout :: duration
  dp_DialAttempts :: int
  dp_IdleTimeout :: duration

definition deps_applyDefaults :: "deps \<Rightarrow> deps" where
  "deps_applyDefaults d =
     d\<lparr>dp_DialTimeout := (if dp_DialTimeout d \<le> 0 then 30 * second else dp_DialTimeout d),
       dp_DialAttempts := (if dp_DialAttempts d \<le> 0 then 3 else dp_DialAttempts d)\<rparr>"

section \<open>Who may use the proxy\<close>

datatype client_error = UnparsableClient | ClientNotAllowed

text \<open>The argument is the text of the remote address.\<close>

definition checkClient :: "deps \<Rightarrow> string \<Rightarrow> client_error option" where
  "checkClient d remote =
     (if dp_AllowedClients d = [] then None
      else
        let host = (case split_host_port remote of Some (h, _) \<Rightarrow> h | None \<Rightarrow> remote)
        in (case parse_addr host of
              None \<Rightarrow> Some UnparsableClient
            | Some a \<Rightarrow>
                let a = unmap a
                in if list_ex (\<lambda>p. is_4 (pfx_addr p) = is_4 a \<and> contains p a) (dp_AllowedClients d)
                   then None else Some ClientNotAllowed))"

datatype auth_error = Unauthorized | PolicyRequired | BadPolicy policy_error

text \<open>\<open>subtle.ConstantTimeCompare\<close> decides equality.\<close>

definition authorize :: "deps \<Rightarrow> string \<Rightarrow> string \<Rightarrow> bool \<Rightarrow> auth_error + policy" where
  "authorize d username password hadCredentials =
     (if dp_Password d \<noteq> [] \<and> \<not> hadCredentials then Inl Unauthorized
      else if dp_Password d \<noteq> [] \<and> password \<noteq> dp_Password d then Inl Unauthorized
      else if dp_Password d = [] \<and> dp_RequireAuth d \<and> \<not> hadCredentials then Inl Unauthorized
      else
        case Parse username of
          Inl e \<Rightarrow> Inl (BadPolicy e)
        | Inr pol \<Rightarrow> if dp_RequirePolicy d \<and> IsZero pol then Inl PolicyRequired else Inr pol)"

section \<open>Connecting upstream\<close>

text \<open>
  The error of a connection attempt: the guard refused the destination before anything was acquired,
  or an error of the pool, of the context, or of the dial.
\<close>

datatype connect_error = GuardError guard_error | ConnectError pool_error

definition connect_is :: "connect_error \<Rightarrow> pool_error \<Rightarrow> bool" where
  "connect_is e t = (case e of GuardError _ \<Rightarrow> False | ConnectError e \<Rightarrow> errors_is e t)"

text \<open>
  \<open>dialOnce\<close>: the dial through the lease is an argument, a connection with the text of its peer
  address. The peer of a chained lease is the proxy itself and is not judged.
\<close>

definition dialOnce :: "deps \<Rightarrow> lease \<Rightarrow> (pool_error + link \<times> string option) \<Rightarrow> pool_error + link" where
  "dialOnce d l dialled =
     (case dialled of
        Inl e \<Rightarrow> Inl e
      | Inr (c, peer) \<Rightarrow>
          if l_Chained l then Inr c
          else (case CheckResolved (dp_Guard d) peer of
                  None \<Rightarrow> Inr c
                | Some _ \<Rightarrow> Inl (Errorf ''netguard: destination is in denied range'')))"

text \<open>
  What one attempt meets: the state of the context, the oracles of its acquisition, the result of the
  dial, and the clock when the failure is noted.
\<close>

record attempt =
  at_ctx :: "pool_error option"
  at_acq :: "nat \<Rightarrow> acq_input"
  at_dial :: "pool_error + link \<times> string option"
  at_now :: time

text \<open>
  The retry loop over the three operations of the pool that it calls. The result \<open>Inl None\<close> is the
  \<open>nil\<close> error that the code returns without an attempt; \<open>n\<close> attempts are left.
\<close>

fun connect_loop ::
  "('i \<Rightarrow> 's \<Rightarrow> (pool_error + 'l) option \<times> 's) \<Rightarrow> ('l \<Rightarrow> pool_error \<Rightarrow> 'i \<Rightarrow> 's \<Rightarrow> 's) \<Rightarrow>
   ('l \<Rightarrow> 'i \<Rightarrow> 's \<Rightarrow> 's) \<Rightarrow> ('i \<Rightarrow> pool_error option) \<Rightarrow> ('l \<Rightarrow> 'i \<Rightarrow> pool_error + 'c) \<Rightarrow>
   nat \<Rightarrow> 'i list \<Rightarrow> pool_error option \<Rightarrow> 's \<Rightarrow> (pool_error option + 'c \<times> 'l) \<times> 's" where
  "connect_loop acquire noted release ctx dial 0 inp lastErr p = (Inl lastErr, p)"
| "connect_loop acquire noted release ctx dial (Suc n) [] lastErr p = (Inl lastErr, p)"
| "connect_loop acquire noted release ctx dial (Suc n) (i # inp) lastErr p =
     (case ctx i of
        Some e \<Rightarrow> (Inl (Some e), p)
      | None \<Rightarrow>
          (case acquire i p of
             (None, p) \<Rightarrow> (Inl lastErr, p)
           | (Some (Inl e), p) \<Rightarrow> (Inl (Some (case lastErr of Some le \<Rightarrow> le | None \<Rightarrow> e)), p)
           | (Some (Inr l), p) \<Rightarrow>
               (case dial l i of
                  Inr c \<Rightarrow> (Inr (c, l), p)
                | Inl e \<Rightarrow>
                    connect_loop acquire noted release ctx dial n inp (Some (Wrapped e))
                      (release l i (noted l e i p)))))"

definition connectUpstream ::
  "deps \<Rightarrow> attempt list \<Rightarrow> policy \<Rightarrow> string \<Rightarrow> int \<Rightarrow> pool
     \<Rightarrow> (connect_error option + link \<times> lease) \<times> pool" where
  "connectUpstream d inp pol host port p =
     (case CheckPort (dp_Guard d) port of
        Some e \<Rightarrow> (Inl (Some (GuardError e)), p)
      | None \<Rightarrow>
          (case CheckHost (dp_Guard d) host of
             Some e \<Rightarrow> (Inl (Some (GuardError e)), p)
           | None \<Rightarrow>
               (case connect_loop (\<lambda>i. Acquire (at_acq i) pol host)
                       (\<lambda>l e i. NoteDialFailure (Some l) (Some e) (at_now i))
                       (\<lambda>l i p. snd (Release (at_now i) l p)) at_ctx
                       (\<lambda>l i. dialOnce d l (at_dial i))
                       (nat (dp_DialAttempts d)) inp None p of
                  (Inl e, p) \<Rightarrow> (Inl (map_option ConnectError e), p)
                | (Inr r, p) \<Rightarrow> (Inr r, p))))"

definition connect_address :: "string \<Rightarrow> int \<Rightarrow> string" where
  "connect_address host port = join_host_port host (itoa port)"

section \<open>Failures\<close>

text \<open>
  \<open>isRefused\<close>. \<open>opErr\<close> is what \<open>errors.As\<close> finds: whether the text of a \<open>net.OpError\<close> in the chain
  says refused, if there is one. Otherwise the text of the error decides; \<open>text\<close> tells it of the
  errors of other packages. The sentinel \<open>ErrDestination\<close> itself reads \<open>destination refused\<close>.
\<close>

fun says_refused :: "(string \<Rightarrow> bool) \<Rightarrow> pool_error \<Rightarrow> bool" where
  "says_refused text ErrDestination = True"
| "says_refused text (Foreign t) = text t"
| "says_refused text (Errorf t) = text t"
| "says_refused text (Wrapped e) = says_refused text e"
| "says_refused text (Joined e f) = (says_refused text e \<or> says_refused text f)"
| "says_refused text _ = False"

definition isRefused ::
  "(pool_error \<Rightarrow> bool option) \<Rightarrow> (string \<Rightarrow> bool) \<Rightarrow> connect_error \<Rightarrow> bool" where
  "isRefused opErr text e =
     (case e of
        GuardError _ \<Rightarrow> False
      | ConnectError e \<Rightarrow> (case opErr e of Some b \<Rightarrow> b | None \<Rightarrow> says_refused text e))"

abbreviation repSuccess :: char where "repSuccess \<equiv> CHR 0x00"
abbreviation repGeneralFailure :: char where "repGeneralFailure \<equiv> CHR 0x01"
abbreviation repNotAllowed :: char where "repNotAllowed \<equiv> CHR 0x02"
abbreviation repHostUnreachable :: char where "repHostUnreachable \<equiv> CHR 0x04"
abbreviation repConnectionRefused :: char where "repConnectionRefused \<equiv> CHR 0x05"
abbreviation repCommandNotSupported :: char where "repCommandNotSupported \<equiv> CHR 0x07"
abbreviation repAddrNotSupported :: char where "repAddrNotSupported \<equiv> CHR 0x08"

definition replyCodeFor ::
  "(pool_error \<Rightarrow> bool option) \<Rightarrow> (string \<Rightarrow> bool) \<Rightarrow> connect_error option \<Rightarrow> char" where
  "replyCodeFor opErr text eo =
     (case eo of
        None \<Rightarrow> repSuccess
      | Some e \<Rightarrow>
          if connect_is e ErrPolicy then repNotAllowed
          else if connect_is e ErrNoCandidate \<or> connect_is e ErrCapacity \<or> connect_is e ErrTunnelBudget
                  \<or> connect_is e ErrBusy then repNotAllowed
          else if connect_is e ErrBatchFull \<or> connect_is e ErrSessionFull then repGeneralFailure
          else if connect_is e ErrExhausted then repHostUnreachable
          else if connect_is e DeadlineExceeded then repHostUnreachable
          else if isRefused opErr text e then repConnectionRefused
          else repGeneralFailure)"

text \<open>\<open>statusCodeFor\<close> of \<open>http.go\<close>, the same mapping for HTTP.\<close>

definition statusCodeFor :: "connect_error \<Rightarrow> int" where
  "statusCodeFor e =
     (if connect_is e ErrPolicy then 400
      else if connect_is e ErrBatchFull then 503
      else if connect_is e ErrNoCandidate then 409
      else if connect_is e ErrBusy \<or> connect_is e ErrSessionFull then 503
      else if connect_is e ErrCapacity \<or> connect_is e ErrTunnelBudget then 503
      else if connect_is e ErrExhausted then 502
      else if connect_is e DeadlineExceeded then 504
      else 502)"

section \<open>Metrics of a request\<close>

definition requestedCountry :: "policy \<Rightarrow> string" where
  "requestedCountry pol =
     (case pol_Countries pol of [] \<Rightarrow> ''any'' | [c] \<Rightarrow> to_lower c | _ \<Rightarrow> ''multiple'')"

definition requestResult :: "connect_error option \<Rightarrow> string" where
  "requestResult eo =
     (case eo of
        None \<Rightarrow> ''success''
      | Some e \<Rightarrow>
          if connect_is e DeadlineExceeded \<or> connect_is e Canceled then ''timeout''
          else if connect_is e ErrBusy \<or> connect_is e ErrTunnelBudget then ''busy''
          else if connect_is e ErrNoCandidate \<or> connect_is e ErrExhausted then ''no_candidate''
          else ''dial_failure'')"

definition upstreamResult :: "pool_error \<Rightarrow> string" where
  "upstreamResult e =
     (if errors_is e DeadlineExceeded \<or> errors_is e Canceled then ''timeout'' else ''upstream_failure'')"

definition observeRequestPhase ::
  "policy \<Rightarrow> lease option \<Rightarrow> string \<Rightarrow> string \<Rightarrow> duration \<Rightarrow> pool option \<Rightarrow> pool option" where
  "observeRequestPhase pol l result phase took po =
     map_option (ObserveRequest \<lparr>ro_Result = result, ro_RequestedCountry = requestedCountry pol,
       ro_Lease = l, ro_Duration = took, ro_TimeoutPhase = phase\<rparr>) po"

definition observeRequest ::
  "policy \<Rightarrow> lease option \<Rightarrow> string \<Rightarrow> duration \<Rightarrow> pool option \<Rightarrow> pool option" where
  "observeRequest pol l result took po = observeRequestPhase pol l result ''unknown'' took po"

section \<open>The relay\<close>

text \<open>
  \<open>copyWithIdle\<close>. A read brings bytes and perhaps an error (\<open>None\<close> inside is the end of the
  stream); a write accepts a number of bytes and perhaps fails. A deadline that passes is a read or a
  write that fails. The result is the count and the error, and the bytes that were accepted; \<open>None\<close>
  when the reads are used up: the loop still waits.
\<close>

datatype read_error = EOF | ReadError pool_error

type_synonym read = "string \<times> read_error option"
type_synonym written = "nat \<times> pool_error option"

fun copyWithIdle ::
  "read list \<Rightarrow> written list \<Rightarrow> nat \<Rightarrow> string \<Rightarrow> ((nat \<times> pool_error option) \<times> string) option" where
  "copyWithIdle [] ws copied out = None"
| "copyWithIdle ((bs, re) # rs) ws copied out =
     (let wrote = (if bs = [] then Some (0, None, ws)
                   else case ws of [] \<Rightarrow> None | (n, we) # ws \<Rightarrow> Some (n, we, ws))
      in case wrote of
           None \<Rightarrow> None
         | Some (n, we, ws) \<Rightarrow>
             let copied = copied + n; out = out @ take n bs
             in (case we of
                   Some e \<Rightarrow> Some ((copied, Some e), out)
                 | None \<Rightarrow>
                     (case re of
                        Some EOF \<Rightarrow> Some ((copied, None), out)
                      | Some (ReadError e) \<Rightarrow> Some ((copied, Some e), out)
                      | None \<Rightarrow> copyWithIdle rs ws copied out)))"

text \<open>How the far end of a finished direction is told.\<close>

datatype half_close = CloseWrite | ExpireReads

definition finish_direction :: "bool \<Rightarrow> half_close" where
  "finish_direction closeWriter = (if closeWriter then CloseWrite else ExpireReads)"

definition copy_dir :: "bool \<Rightarrow> read list \<Rightarrow> written list \<Rightarrow> (nat \<times> half_close \<times> string) option" where
  "copy_dir closeWriter rs ws =
     map_option (\<lambda>((n, _), out). (n, finish_direction closeWriter, out)) (copyWithIdle rs ws 0 [])"

text \<open>Both directions: the counts of bytes sent and received, once both have ended.\<close>

definition relay ::
  "bool \<Rightarrow> bool \<Rightarrow> read list \<Rightarrow> written list \<Rightarrow> read list \<Rightarrow> written list \<Rightarrow> (nat \<times> nat) option" where
  "relay upstreamCW clientCW fromClient toUpstream fromUpstream toClient =
     (case (copy_dir upstreamCW fromClient toUpstream, copy_dir clientCW fromUpstream toClient) of
        (Some (sent, _, _), Some (received, _, _)) \<Rightarrow> Some (sent, received)
      | _ \<Rightarrow> None)"

section \<open>The pool as the proxy uses it\<close>

text \<open>
  What the retry loop needs of the pool: an acquisition ends, leaves the counters alone when it fails
  and adds one lease when it succeeds, and noting a failure and releasing takes the lease away.
\<close>

locale lease_pool =
  fixes acquire :: "'i \<Rightarrow> 's \<Rightarrow> (pool_error + 'l) option \<times> 's"
    and noted :: "'l \<Rightarrow> pool_error \<Rightarrow> 'i \<Rightarrow> 's \<Rightarrow> 's"
    and release :: "'l \<Rightarrow> 'i \<Rightarrow> 's \<Rightarrow> 's"
    and valid :: "'i \<Rightarrow> bool"
    and load :: "'s \<Rightarrow> 'n"
    and held :: "'l \<Rightarrow> 'n \<Rightarrow> 'n"
    and fresh :: "'l \<Rightarrow> bool"
  assumes acquire_ends: "\<exists>res q. acquire i p = (Some res, q)"
    and acquire_fails: "valid i \<Longrightarrow> acquire i p = (Some (Inl e), q) \<Longrightarrow> load q = load p"
    and acquire_leases:
      "valid i \<Longrightarrow> acquire i p = (Some (Inr l), q) \<Longrightarrow> load q = held l (load p) \<and> fresh l"
    and gives_back: "fresh l \<Longrightarrow> load q = held l c \<Longrightarrow> load (release l i (noted l e i q)) = c"
begin

lemma loop_balance:
  assumes "\<And>i. i \<in> set inp \<Longrightarrow> valid i"
    and "connect_loop acquire noted release ctx dial n inp lastErr p = (res, q)"
  shows "case res of Inl _ \<Rightarrow> load q = load p | Inr (c, l) \<Rightarrow> load q = held l (load p) \<and> fresh l"
  using assms
proof (induction n arbitrary: inp lastErr p)
  case (Suc n)
  show ?case
  proof (cases inp)
    case (Cons i rest)
    then have v: "valid i" using Suc.prems(1) by simp
    obtain r p1 where a: "acquire i p = (Some r, p1)" using acquire_ends by blast
    show ?thesis
    proof (cases "ctx i")
      case None
      show ?thesis
      proof (cases r)
        case (Inl e)
        then show ?thesis
          using acquire_fails [OF v] a Suc.prems(2) Cons None by auto
      next
        case (Inr l)
        then have l: "load p1 = held l (load p)" "fresh l" using acquire_leases [OF v] a by auto
        show ?thesis
        proof (cases "dial l i")
          case (Inl e)
          let ?p2 = "release l i (noted l e i p1)"
          have "connect_loop acquire noted release ctx dial n rest (Some (Wrapped e)) ?p2 = (res, q)"
            using Suc.prems(2) Cons None a Inr Inl by simp
          moreover have "load ?p2 = load p" by (rule gives_back [OF l(2,1)])
          ultimately show ?thesis using Suc.IH [of rest "Some (Wrapped e)" ?p2] Suc.prems(1) Cons
            by (auto split: sum.splits)
        next
          case (Inr c)
          then show ?thesis using Suc.prems(2) Cons None a \<open>r = Inr l\<close> l by auto
        qed
      qed
    qed (use Suc.prems(2) Cons in auto)
  qed (use Suc.prems(2) in auto)
qed auto

lemma loop_error:
  assumes "connect_loop acquire noted release ctx dial n inp lastErr p = (Inl e, q)"
    and "0 < n" and "inp \<noteq> []"
  shows "e \<noteq> None"
proof -
  have "connect_loop acquire noted release ctx dial n inp (Some le) p = (Inl e, q) \<Longrightarrow> e \<noteq> None"
    for n inp le p
  proof (induction n arbitrary: inp le p)
    case (Suc n)
    obtain r p1 where "inp \<noteq> [] \<Longrightarrow> acquire (hd inp) p = (Some r, p1)" using acquire_ends by blast
    then show ?case
      using Suc by (cases inp) (force split: option.splits sum.splits)+
  qed auto
  then show ?thesis
    using assms acquire_ends [of "hd inp" p]
    by (cases n; cases inp) (auto dest!: sym [of "Some _"] split: option.splits sum.splits)
qed

end

lemma NoteDialFailure_conn: "conn (NoteDialFailure lo eo now p) = conn p"
  using NoteDialFailure_quiet [of p lo eo now p] by (simp add: quiet_def)

definition honest_draws :: "attempt \<Rightarrow> bool" where
  "honest_draws i \<longleftrightarrow> (\<forall>j n. 0 < n \<longrightarrow> in_rnd (at_acq i j) n < n)"

interpretation upstream: lease_pool "\<lambda>i. Acquire (at_acq i) pol host"
  "\<lambda>l e i. NoteDialFailure (Some l) (Some e) (at_now i)" "\<lambda>l i p. snd (Release (at_now i) l p)"
  honest_draws conn "\<lambda>l. lease_conn (l_state l)" "\<lambda>l. \<not> l_released l" for pol host
proof
  fix i p
  show "\<exists>res q. Acquire (at_acq i) pol host p = (Some res, q)"
    by (simp add: Acquire_returns)
next
  fix i p e q
  assume "honest_draws i" and "Acquire (at_acq i) pol host p = (Some (Inl e), q)"
  then show "conn q = conn p" using Acquire_conn [of "at_acq i"] by (fastforce simp: honest_draws_def)
next
  fix i p l q
  assume "honest_draws i" and "Acquire (at_acq i) pol host p = (Some (Inr l), q)"
  then show "conn q = lease_conn (l_state l) (conn p) \<and> \<not> l_released l"
    using Acquire_conn [of "at_acq i"] by (fastforce simp: honest_draws_def)
next
  fix l :: lease and q :: pool and c :: conn and i :: attempt and e :: pool_error
  assume l: "\<not> l_released l" and q: "conn q = lease_conn (l_state l) c"
  let ?q = "NoteDialFailure (Some l) (Some e) (at_now i) q"
  have "conn (snd (Release (at_now i) l ?q)) = free_conn (l_state l) (conn ?q)"
    using Release_conn(1) [OF l, of "at_now i" ?q] by (metis prod.collapse)
  then show "conn (snd (Release (at_now i) l ?q)) = c" using q by (simp add: NoteDialFailure_conn)
qed

lemma connectUpstream_conn:
  assumes "connectUpstream d inp pol host port p = (res, q)" and "\<And>i. i \<in> set inp \<Longrightarrow> honest_draws i"
  shows "case res of Inl e \<Rightarrow> conn q = conn p
    | Inr (c, l) \<Rightarrow> conn q = lease_conn (l_state l) (conn p) \<and> \<not> l_released l"
proof -
  let ?loop = "connect_loop (\<lambda>i. Acquire (at_acq i) pol host)
     (\<lambda>l e i. NoteDialFailure (Some l) (Some e) (at_now i)) (\<lambda>l i p. snd (Release (at_now i) l p)) at_ctx
     (\<lambda>l i. dialOnce d l (at_dial i)) (nat (dp_DialAttempts d)) inp None p"
  obtain r q' where l: "?loop = (r, q')" by fastforce
  have "case r of Inl _ \<Rightarrow> conn q' = conn p
      | Inr (c, l) \<Rightarrow> conn q' = lease_conn (l_state l) (conn p) \<and> \<not> l_released l"
    by (rule upstream.loop_balance [OF assms(2) l])
  then show ?thesis using assms(1) l by (auto simp: connectUpstream_def split: option.splits sum.splits)
qed

section \<open>Theorems\<close>

text \<open>
  A request is let through exactly when it presents the configured password (or, without one,
  credentials when they are required), its user name parses, and a policy is there when one is
  required. Its policy is then what the user name says.
\<close>

theorem authorize_spec:
  "authorize d username password hadCredentials = Inr pol \<longleftrightarrow>
     (if dp_Password d \<noteq> [] then hadCredentials \<and> password = dp_Password d
      else dp_RequireAuth d \<longrightarrow> hadCredentials) \<and>
     Parse username = Inr pol \<and> (dp_RequirePolicy d \<longrightarrow> \<not> IsZero pol)"
  by (auto simp: authorize_def split: sum.splits if_splits)

definition demo_deps :: deps where
  "demo_deps = deps_applyDefaults \<lparr>dp_Guard = \<lparr>g_denied = default_prefixes, g_allowed_port = None\<rparr>,
     dp_AllowedClients = [], dp_Password = ''secret'', dp_RequireAuth = False, dp_RequirePolicy = True,
     dp_DialTimeout = 0, dp_DialAttempts = 0, dp_IdleTimeout = 0\<rparr>"

theorem authorize_spec_witness:
  "is_ok (authorize demo_deps ''cc=jp'' ''secret'' True) \<and> \<not> is_ok (authorize demo_deps ''cc=jp'' ''x'' True)"
proof -
  obtain pol where p: "Parse ''cc=jp'' = Inr pol" "\<not> IsZero pol"
  proof -
    have "(case Parse ''cc=jp'' of Inr pol \<Rightarrow> \<not> IsZero pol | Inl _ \<Rightarrow> False)" by code_simp
    then show ?thesis using that by (auto split: sum.splits)
  qed
  have "dp_Password demo_deps = ''secret''" by (simp add: demo_deps_def deps_applyDefaults_def)
  then show ?thesis
    using authorize_spec [of demo_deps "''cc=jp''" "''secret''" True pol]
      authorize_spec [of demo_deps "''cc=jp''" "''x''" True] p
    by (auto simp: is_ok_iff)
qed

text \<open>
  C25: connecting upstream keeps the books. A destination the guard refuses never reaches the pool.
  When every attempt fails, whatever the mix of errors, no connection is left counted; when one
  succeeds, exactly the lease that is returned is counted. With the defaults in place a failure
  always comes with an error.
\<close>

theorem connect_balance:
  assumes "connectUpstream d inp pol host port p = (res, q)"
    and "\<And>i. i \<in> set inp \<Longrightarrow> honest_draws i"
  shows "(CheckPort (dp_Guard d) port \<noteq> None \<or> CheckHost (dp_Guard d) host \<noteq> None \<longrightarrow>
            (\<exists>e. res = Inl (Some (GuardError e))) \<and> q = p) \<and>
         (case res of
            Inl e \<Rightarrow> conn q = conn p \<and> (0 < dp_DialAttempts d \<and> inp \<noteq> [] \<longrightarrow> e \<noteq> None)
          | Inr (c, l) \<Rightarrow> conn q = lease_conn (l_state l) (conn p) \<and> \<not> l_released l)"
proof (cases "CheckPort (dp_Guard d) port = None \<and> CheckHost (dp_Guard d) host = None")
  case False
  then show ?thesis using assms(1) by (auto simp: connectUpstream_def split: option.splits)
next
  case True
  let ?loop = "connect_loop (\<lambda>i. Acquire (at_acq i) pol host)
     (\<lambda>l e i. NoteDialFailure (Some l) (Some e) (at_now i)) (\<lambda>l i p. snd (Release (at_now i) l p)) at_ctx
     (\<lambda>l i. dialOnce d l (at_dial i)) (nat (dp_DialAttempts d)) inp None p"
  obtain r q' where l: "?loop = (r, q')" by fastforce
  have "case r of Inl _ \<Rightarrow> conn q' = conn p
      | Inr (c, l) \<Rightarrow> conn q' = lease_conn (l_state l) (conn p) \<and> \<not> l_released l"
    by (rule upstream.loop_balance [OF assms(2) l])
  moreover have "r = Inl e \<Longrightarrow> 0 < dp_DialAttempts d \<Longrightarrow> inp \<noteq> [] \<Longrightarrow> e \<noteq> None" for e
    using upstream.loop_error [of pol host at_ctx "\<lambda>l i. dialOnce d l (at_dial i)"
      "nat (dp_DialAttempts d)" inp None p e q'] l by simp
  ultimately show ?thesis
    using assms(1) True l by (auto simp: connectUpstream_def split: sum.splits)
qed

definition demo_attempt :: "(pool_error + link \<times> string option) \<Rightarrow> attempt" where
  "demo_attempt r = \<lparr>at_ctx = None, at_acq = demo_input, at_dial = r, at_now = 30\<rparr>"

theorem connect_balance_witness:
  "let (res, q) = connectUpstream demo_deps [demo_attempt (Inl (Foreign ''*net.OpError''))] no_policy
     ''example.com'' 443 demo_pool
   in conn q = conn demo_pool \<and> \<not> is_ok res"
proof -
  let ?x = "connectUpstream demo_deps [demo_attempt (Inl (Foreign ''*net.OpError''))] no_policy
    ''example.com'' 443 demo_pool"
  have "honest_draws (demo_attempt (Inl (Foreign ''*net.OpError'')))"
    by (simp add: honest_draws_def demo_attempt_def demo_input_def)
  moreover obtain res q where x: "?x = (res, q)" by fastforce
  moreover have "\<not> is_ok res"
  proof -
    have "nat (dp_DialAttempts demo_deps) = Suc (Suc (Suc 0))"
      by (simp add: demo_deps_def deps_applyDefaults_def)
    then show ?thesis
      using x by (auto simp: connectUpstream_def demo_attempt_def dialOnce_def is_ok_iff
          split: option.splits prod.splits sum.splits)
  qed
  ultimately show ?thesis
    using connect_balance [OF x] unfolding x by (cases res) simp_all
qed

text \<open>
  C37: a destination whose name resolves into a denied range is refused after the dial, and the refusal
  is blamed on the exit: its slot is disabled and loses its tunnel, as if the exit had failed.
\<close>

theorem guard_refusal_blames_exit:
  assumes "CheckPort (dp_Guard d) port = None" and "CheckHost (dp_Guard d) host = None"
    and "0 < dp_DialAttempts d" and "at_ctx i = None"
    and "Acquire (at_acq i) pol host p = (Some (Inr l), p1)" and "\<not> l_Chained l" and "l_Entry l = []"
    and "at_dial i = Inr (c, Some peer)" and "CheckResolved (dp_Guard d) (Some peer) \<noteq> None"
    and "connectUpstream d [i] pol host port p = (res, q)"
  shows "\<not> is_ok res \<and> s_tunnel (p_heap q (l_state l)) = None \<and>
     s_failures (p_heap q (l_state l)) = Suc (s_failures (p_heap p1 (l_state l))) \<and>
     s_disabledUntil (p_heap q (l_state l)) = at_now i +
       backoff_after (FailureBackoff (p_opts p1)) (s_failures (p_heap p1 (l_state l))) (30 * minute)"
proof -
  obtain n where n: "nat (dp_DialAttempts d) = Suc n" using assms(3) by (cases "nat (dp_DialAttempts d)") auto
  let ?e = "Errorf ''netguard: destination is in denied range''"
  let ?q = "noteFailure ?e (at_now i) (l_state l) p1"
  have "dialOnce d l (at_dial i) = Inl ?e"
    using assms(6,8,9) by (auto simp: dialOnce_def)
  moreover have "NoteDialFailure (Some l) (Some ?e) (at_now i) p1 = ?q"
    using assms(7) by (simp add: NoteDialFailure_def)
  ultimately have "\<not> is_ok res" "q = snd (Release (at_now i) l ?q)"
    using assms(1,2,4,5,10) n by (cases n; auto simp: connectUpstream_def)+
  moreover have "s_tunnel (p_heap (snd (Release t l q)) r) = s_tunnel (p_heap q r)"
    "s_failures (p_heap (snd (Release t l q)) r) = s_failures (p_heap q r)"
    "s_disabledUntil (p_heap (snd (Release t l q)) r) = s_disabledUntil (p_heap q r)" for t q r
    by (simp_all add: Release_def Let_def)
  ultimately show ?thesis by (simp add: noteFailure_effect)
qed

definition demo_tunnel_policy :: policy where
  "demo_tunnel_policy = no_policy\<lparr>pol_Slot := ''a''\<rparr>"

definition demo_internal_attempt :: attempt where
  "demo_internal_attempt = \<lparr>at_ctx = None, at_acq = (\<lambda>i. (demo_input i)\<lparr>in_dial := Inr []\<rparr>),
     at_dial = Inr (demo_link [], Some ''127.0.0.1:443''), at_now = 30\<rparr>"

theorem guard_refusal_blames_exit_witness:
  "\<exists>l :: lease. s_failures (p_heap (snd (connectUpstream demo_deps [demo_internal_attempt] demo_tunnel_policy
     ''localtest.me'' 443 demo_pool)) (l_state l)) = 1"
proof -
  let ?a = "Acquire (at_acq demo_internal_attempt) demo_tunnel_policy ''localtest.me'' demo_pool"
  have "(case fst ?a of Some (Inr l) \<Rightarrow> \<not> l_Chained l \<and> l_Entry l = [] \<and>
      s_failures (p_heap (snd ?a) (l_state l)) = 0 | _ \<Rightarrow> False)" by code_simp
  then obtain l where l: "?a = (Some (Inr l), snd ?a)" "\<not> l_Chained l" "l_Entry l = []"
    "s_failures (p_heap (snd ?a) (l_state l)) = 0"
    by (auto simp: prod_eq_iff split: option.splits sum.splits)
  have "CheckPort (dp_Guard demo_deps) 443 = None" "CheckHost (dp_Guard demo_deps) ''localtest.me'' = None"
    "CheckResolved (dp_Guard demo_deps) (Some ''127.0.0.1:443'') \<noteq> None" "0 < dp_DialAttempts demo_deps"
    by code_simp+
  then have "s_failures (p_heap (snd (connectUpstream demo_deps [demo_internal_attempt] demo_tunnel_policy
     ''localtest.me'' 443 demo_pool)) (l_state l)) = Suc (s_failures (p_heap (snd ?a) (l_state l)))"
    using guard_refusal_blames_exit [OF _ _ _ _ l(1,2,3)]
    by (metis demo_internal_attempt_def attempt.select_convs(1,3) prod.collapse)
  then show ?thesis using l(4) by (intro exI [of _ l]) simp
qed

text \<open>A writer that keeps the contract of \<open>io.Writer\<close>: a short write comes with an error.\<close>

fun writer_ok :: "read list \<Rightarrow> written list \<Rightarrow> bool" where
  "writer_ok ((bs, re) # rs) ws =
     (if bs = [] then writer_ok rs ws
      else case ws of [] \<Rightarrow> True
           | (n, we) # ws \<Rightarrow> n \<le> length bs \<and> (we = None \<longrightarrow> n = length bs) \<and> writer_ok rs ws)"
| "writer_ok [] ws = True"

lemma copy_spec:
  assumes "writer_ok rs ws" and "copyWithIdle rs ws n0 out0 = Some ((n, err), out)"
  shows "\<exists>new. out = out0 @ new \<and> n = n0 + length new \<and> prefix new (concat (map fst rs)) \<and>
     (err = None \<longrightarrow> (\<exists>xs bs ys. rs = xs @ (bs, Some EOF) # ys \<and> new = concat (map fst xs) @ bs))"
  using assms
proof (induction rs ws n0 out0 rule: copyWithIdle.induct)
  case (2 bs re rs ws n0 out0)
  obtain k we ws' where w: "(if bs = [] then Some (0, None, ws)
      else case ws of [] \<Rightarrow> None | (n, we) # ws \<Rightarrow> Some (n, we, ws)) = Some (k, we, ws')"
    using 2(3) by (auto simp: Let_def split: option.splits if_splits)
  have ok: "k \<le> length bs" "we = None \<Longrightarrow> k = length bs" "writer_ok rs ws'"
    using 2(2) w by (auto split: if_splits list.splits)
  consider e where "we = Some e" "n = n0 + k" "err = Some e" "out = out0 @ take k bs"
    | "we = None" "re = Some EOF" "n = n0 + k" "err = None" "out = out0 @ bs"
    | e where "we = None" "re = Some (ReadError e)" "n = n0 + k" "err = Some e" "out = out0 @ bs"
    | "we = None" "re = None" "copyWithIdle rs ws' (n0 + k) (out0 @ bs) = Some ((n, err), out)"
    using 2(3) w ok by (auto simp: Let_def split: option.splits read_error.splits)
  then show ?case
  proof cases
    case 1
    then show ?thesis
      using ok by (intro exI [of _ "take k bs"]) (auto intro: prefix_order.trans [OF take_is_prefix])
  next
    case 2
    then show ?thesis using ok by (intro exI [of _ bs]) (auto intro!: exI [of _ "[] :: read list"])
  next
    case 3
    then show ?thesis using ok by (intro exI [of _ bs]) auto
  next
    case 4
    from "2.IH" [OF refl w refl refl refl refl] 4 ok
    have "\<exists>new. out = (out0 @ bs) @ new \<and> n = (n0 + k) + length new \<and> prefix new (concat (map fst rs)) \<and>
       (err = None \<longrightarrow> (\<exists>xs bs ys. rs = xs @ (bs, Some EOF) # ys \<and> new = concat (map fst xs) @ bs))"
      by simp
    then obtain new where new: "out = (out0 @ bs) @ new" "n = n0 + k + length new"
      "prefix new (concat (map fst rs))"
      "err = None \<Longrightarrow> \<exists>xs cs ys. rs = xs @ (cs, Some EOF) # ys \<and> new = concat (map fst xs) @ cs"
      by blast
    have "\<exists>xs cs ys. (bs, re) # rs = xs @ (cs, Some EOF) # ys \<and> bs @ new = concat (map fst xs) @ cs"
      if ok_end: "err = None"
    proof -
      obtain xs cs ys where "rs = xs @ (cs, Some EOF) # ys" "new = concat (map fst xs) @ cs"
        using new(4) [OF ok_end] by blast
      then show ?thesis by (intro exI [of _ "(bs, re) # xs"] exI [of _ cs] exI [of _ ys]) simp
    qed
    then show ?thesis using new ok 4 by (intro exI [of _ "bs @ new"]) auto
  qed
qed simp

text \<open>
  C38: the relay neither loses nor invents nor reorders bytes. Of each direction, the count that is
  accounted is the number of bytes delivered, these are the first bytes that were read, and when
  the direction ends without an error it ends at the end of the stream with every byte delivered.
\<close>

theorem relay_faithful:
  assumes "copy_dir cw rs ws = Some (n, h, out)" and "writer_ok rs ws"
  shows "n = length out \<and> prefix out (concat (map fst rs)) \<and>
     (\<exists>err. copyWithIdle rs ws 0 [] = Some ((n, err), out) \<and>
        (err = None \<longrightarrow> (\<exists>xs bs ys. rs = xs @ (bs, Some EOF) # ys \<and> out = concat (map fst xs) @ bs)))"
proof -
  obtain err where c: "copyWithIdle rs ws 0 [] = Some ((n, err), out)"
    using assms(1) by (auto simp: copy_dir_def)
  then show ?thesis using copy_spec [OF assms(2) c] by auto
qed

theorem relay_faithful_witness:
  "length (''GET'' @ ''/'') = 4 \<and>
   copy_dir True [(''GET'', None), (''/'', Some EOF)] [(3, None), (1, None)] = Some (4, CloseWrite, ''GET/'')"
proof -
  have c: "copy_dir True [(''GET'', None), (''/'', Some EOF)] [(3, None), (1, None)] =
      Some (4, CloseWrite, ''GET/'')" by code_simp
  then show ?thesis using relay_faithful [OF c] by simp
qed

end
