(* ===== verification/Socks5.thy ===== *)
theory Socks5
  imports Proxy
begin

text \<open>
  \<open>internal/proxy/socks5.go\<close>: the SOCKS5 listener. \<open>server_negotiate\<close> and \<open>readRequest\<close> read what the
  client sends, \<open>writeReply\<close> answers, and \<open>socks_handle\<close> is the handler of one connection. The
  theorems compose it with the client of \<open>Socksdial\<close> and with the pool.
\<close>

definition handshakeTimeout :: duration where
  "handshakeTimeout = 30 * second"

section \<open>The handshake\<close>

definition readUserPass :: "(string \<times> string) io" where
  "readUserPass =
     io_bind (read_full 2) (\<lambda>header.
       if header ! 0 \<noteq> auth_version then io_fail (Errorf ''unsupported auth version'')
       else
         io_bind (read_full (of_char (header ! 1))) (\<lambda>username.
         io_bind (read_full 1) (\<lambda>lengthByte.
         io_bind (read_full (of_char (lengthByte ! 0))) (\<lambda>password.
           io_return (username, password)))))"

text \<open>What is kept of an authorisation failure once it is an error of the connection.\<close>

definition auth_failure :: "auth_error \<Rightarrow> pool_error" where
  "auth_failure e =
     (case e of
        Unauthorized \<Rightarrow> Errorf ''proxy: unauthorized''
      | PolicyRequired \<Rightarrow> Errorf ''proxy: no selection policy supplied''
      | BadPolicy _ \<Rightarrow> Errorf ''policy'')"

abbreviation method_no_acceptable :: char where "method_no_acceptable \<equiv> CHR 0xFF"

definition server_negotiate :: "deps \<Rightarrow> policy io" where
  "server_negotiate d =
     io_bind (read_full 2) (\<lambda>header.
       if header ! 0 \<noteq> socks_version then io_fail (Errorf ''unsupported SOCKS version'')
       else
         io_bind (read_full (of_char (header ! 1))) (\<lambda>methods.
           if method_user_pass \<in> set methods then
             io_bind (write_all [socks_version, method_user_pass]) (\<lambda>_.
             io_bind readUserPass (\<lambda>(username, password).
               case authorize d username password True of
                 Inl e \<Rightarrow>
                   io_bind (try_write [auth_version, CHR 0x01]) (\<lambda>_. io_fail (auth_failure e))
               | Inr parsed \<Rightarrow>
                   io_bind (write_all [auth_version, CHR 0x00]) (\<lambda>_. io_return parsed)))
           else if method_no_auth \<in> set methods then
             (case authorize d [] [] False of
                Inl e \<Rightarrow>
                  io_bind (try_write [socks_version, method_no_acceptable]) (\<lambda>_. io_fail (auth_failure e))
              | Inr parsed \<Rightarrow>
                  io_bind (write_all [socks_version, method_no_auth]) (\<lambda>_. io_return parsed))
           else
             io_bind (try_write [socks_version, method_no_acceptable]) (\<lambda>_.
               io_fail (Errorf ''no acceptable authentication method''))))"

section \<open>Requests and replies\<close>

text \<open>
  \<open>bound\<close> is the local address of the upstream connection when it is a TCP address with an IP. An
  IPv4-mapped address is IPv4 to \<open>To4\<close>.
\<close>

definition reply_bytes :: "char \<Rightarrow> (addr \<times> int) option \<Rightarrow> string" where
  "reply_bytes code bound =
     (case bound of
        None \<Rightarrow> [socks_version, code, CHR 0x00, atyp_v4] @ replicate 6 CHR 0x00
      | Some (a, port) \<Rightarrow>
          (case unmap a of
             V4 w \<Rightarrow> [socks_version, code, CHR 0x00, atyp_v4] @ be_bytes 4 (unat w) @ put_uint16 port
           | V6 w _ \<Rightarrow> [socks_version, code, CHR 0x00, atyp_v6] @ be_bytes 16 (unat w) @ put_uint16 port))"

definition writeReply :: "char \<Rightarrow> (addr \<times> int) option \<Rightarrow> unit io" where
  "writeReply code bound = write_all (reply_bytes code bound)"

text \<open>\<open>net.IP.String\<close> of four or sixteen bytes.\<close>

definition ip_v4_string :: "string \<Rightarrow> string" where
  "ip_v4_string buf = addr_string (Some (V4 (word_of_nat (be_nat buf))))"

definition ip_v6_string :: "string \<Rightarrow> string" where
  "ip_v6_string buf = addr_string (Some (unmap (V6 (word_of_nat (be_nat buf)) [])))"

definition readPort :: "string \<Rightarrow> (string \<times> int) io" where
  "readPort host =
     io_bind (read_full 2) (\<lambda>portBuf.
       let port = int (be_nat portBuf)
       in if host = [] \<or> port = 0 then io_fail (Errorf ''empty destination'')
          else io_return (host, port))"

definition readRequest :: "(string \<times> int) io" where
  "readRequest =
     io_bind (read_full 4) (\<lambda>header.
       if header ! 0 \<noteq> socks_version then io_fail (Errorf ''unsupported SOCKS version'')
       else if header ! 1 \<noteq> CHR 0x01 then
         io_bind (try_write (reply_bytes repCommandNotSupported None)) (\<lambda>_.
           io_fail (Errorf ''unsupported command''))
       else if header ! 3 = atyp_v4 then
         io_bind (read_full 4) (\<lambda>buf. readPort (ip_v4_string buf))
       else if header ! 3 = atyp_v6 then
         io_bind (read_full 16) (\<lambda>buf. readPort (ip_v6_string buf))
       else if header ! 3 = atyp_domain then
         io_bind (read_full 1) (\<lambda>lengthByte.
         io_bind (read_full (of_char (lengthByte ! 0))) (\<lambda>buf. readPort buf))
       else
         io_bind (try_write (reply_bytes repAddrNotSupported None)) (\<lambda>_.
           io_fail (Errorf ''unsupported address type'')))"

section \<open>The handler\<close>

text \<open>What one connection meets besides its client: see \<open>connectUpstream\<close> and \<open>relay\<close>.\<close>

record meeting =
  mt_now :: time
  mt_took :: duration
  mt_attempts :: "attempt list"
  mt_bound :: "(addr \<times> int) option"
  mt_opErr :: "pool_error \<Rightarrow> bool option"
  mt_text :: "string \<Rightarrow> bool"
  mt_relayed :: "nat \<times> nat"
  mt_end :: time

definition observed :: "policy \<Rightarrow> lease option \<Rightarrow> string \<Rightarrow> string \<Rightarrow> duration \<Rightarrow> pool \<Rightarrow> pool" where
  "observed pol l result phase took p = the (observeRequestPhase pol l result phase took (Some p))"

text \<open>
  \<open>handle\<close>. The deferred calls run on every way out: the lease is released once it is held. The
  result is the client connection and the pool; \<open>mt_relayed\<close> are the counts that \<open>relay\<close> returns.
\<close>

definition socks_handle :: "deps \<Rightarrow> string \<Rightarrow> meeting \<Rightarrow> link \<Rightarrow> pool \<Rightarrow> link \<times> pool" where
  "socks_handle d remote m client p =
     (if checkClient d remote \<noteq> None then (client, p)
      else
        case server_negotiate d (client\<lparr>k_deadline := Some (mt_now m + handshakeTimeout)\<rparr>) of
          (Inl _, client) \<Rightarrow> (client, p)
        | (Inr pol, client) \<Rightarrow>
            (case readRequest client of
               (Inl _, client) \<Rightarrow> (client, p)
             | (Inr (host, port), client) \<Rightarrow>
                 (case connectUpstream d (mt_attempts m) pol host port p of
                    (Inl e, p) \<Rightarrow>
                      (snd (writeReply (replyCodeFor (mt_opErr m) (mt_text m) e) None client),
                       observed pol None (requestResult e) ''acquire'' (mt_took m) p)
                  | (Inr (up, l), p) \<Rightarrow>
                      let p = observed pol (Some l) ''success'' ''unknown'' (mt_took m) p
                      in (case writeReply repSuccess (mt_bound m) client of
                            (Inl _, client) \<Rightarrow> (client, snd (Release (mt_end m) l p))
                          | (Inr _, client) \<Rightarrow>
                              (client\<lparr>k_deadline := None\<rparr>,
                               snd (Release (mt_end m) l
                                 (RecordTraffic (Some l) (int (fst (mt_relayed m)))
                                    (int (snd (mt_relayed m))) p)))))))"

section \<open>Client and server\<close>

lemma reply_good: "good_connect_reply (reply_bytes repSuccess bound)"
proof -
  have "[socks_version, repSuccess, CHR 0x00, atyp_v4] @ rest =
      [socks_version, CHR 0x00, CHR 0x00, atyp_v4] @ rest" for rest
    by simp
  then show ?thesis
    unfolding good_connect_reply_def
    by (cases bound; cases "unmap (fst (the bound))") (auto simp: reply_bytes_def put_uint16_def)
qed

text \<open>The host as the server prints it: an address in its canonical form, a name as it is.\<close>

definition canonical_host :: "string \<Rightarrow> string" where
  "canonical_host host = (case parse_ip host of None \<Rightarrow> host | a \<Rightarrow> addr_string a)"

lemma be_nat_unat4: "word_of_nat (be_nat (be_bytes 4 (unat w))) = (w :: 32 word)"
proof -
  have "unat w < 256 ^ 4" using unsigned_less [of w, where ?'a = nat] by simp
  then show ?thesis by (simp add: be_nat_bytes)
qed

lemma be_nat_unat16: "word_of_nat (be_nat (be_bytes 16 (unat w))) = (w :: 128 word)"
proof -
  have "unat w < 256 ^ 16" using unsigned_less [of w, where ?'a = nat] by simp
  then show ?thesis by (simp add: be_nat_bytes)
qed

lemma parse_ip_unmapped: "parse_ip host = Some a \<Longrightarrow> unmap a = a \<and> \<not> has_zone a"
  by (auto simp: parse_ip_def dest: has_zone_unmap split: option.splits if_splits)

lemma readPort_reads:
  assumes "k_in l = put_uint16 port @ rest" and "1 \<le> port" and "port \<le> 65535" and "host \<noteq> []"
  shows "readPort host l = (Inr (host, port), l\<lparr>k_in := rest\<rparr>)"
proof -
  have "read_full 2 l = (Inr (put_uint16 port), l\<lparr>k_in := rest\<rparr>)"
    by (rule io_read) (simp_all add: put_uint16_def assms(1))
  moreover have "be_nat (put_uint16 port) = nat port"
    using assms(2,3) by (simp add: put_uint16_def be_nat_bytes del: be_bytes.simps)
  ultimately show ?thesis
    using assms(2,4) by (simp add: readPort_def io_bind_def io_return_def)
qed

lemma v6_string_nonempty: "v6_string w \<noteq> []"
proof -
  obtain a b gs where g: "v6_groups w = a # b # gs" by (simp add: v6_groups_def)
  obtain k l where b: "best_run 0 (v6_groups w) (0, 0) = (k, l)" by fastforce
  show ?thesis unfolding v6_string_def Let_def b prod.case by (simp add: g)
qed

lemma addr_string_nonempty: "addr_string (Some a) \<noteq> []"
  by (cases a) (auto simp: v4_string_def v6_string_nonempty Let_def)

lemma canonical_host_nonempty: "host \<noteq> [] \<Longrightarrow> canonical_host host \<noteq> []"
  using addr_string_nonempty by (simp add: canonical_host_def split: option.split)

text \<open>The server reads the request of the client.\<close>

lemma readRequest_reads:
  assumes "buildConnect host port = Inr request" and "k_in l = request @ rest"
    and "1 \<le> port" and "port \<le> 65535" and "host \<noteq> []"
  shows "readRequest l = (Inr (canonical_host host, port), l\<lparr>k_in := rest\<rparr>)"
proof -
  note rp = readPort_reads [OF _ assms(3,4)]
  note steps = io_bind_Inr io_read [of _ 4] io_read [of _ 16] io_read [of _ 1]
  show ?thesis
  proof (cases "parse_ip host")
    case None
    then have len: "length host \<le> 255" and req: "request = [socks_version, CHR 0x01, CHR 0x00, atyp_domain] @
        [char_of (length host)] @ host @ put_uint16 port"
      using assms(1) by (auto simp: buildConnect_def Let_def split: if_splits)
    have "canonical_host host = host" using None by (simp add: canonical_host_def)
    then show ?thesis
      using assms(2,5) len req rp [of "l\<lparr>k_in := put_uint16 port @ rest\<rparr>" rest host]
      by (simp add: readRequest_def io_bind_def read_full_def)
  next
    case (Some a)
    note u = parse_ip_unmapped [OF Some]
    have c: "canonical_host host = addr_string (Some a)" using Some by (simp add: canonical_host_def)
    show ?thesis
    proof (cases a)
      case (V4 w)
      have req: "request = [socks_version, CHR 0x01, CHR 0x00, atyp_v4] @ be_bytes 4 (unat w) @ put_uint16 port"
        using assms(1) Some V4 by (simp add: buildConnect_def Let_def del: be_bytes.simps)
      show ?thesis
        using assms(2) req c V4 rp [of "l\<lparr>k_in := put_uint16 port @ rest\<rparr>" rest "addr_string (Some a)"]
          addr_string_nonempty [of a]
        by (simp add: readRequest_def io_bind_def read_full_def ip_v4_string_def be_nat_unat4)
    next
      case (V6 w z)
      have z: "z = []" using u V6 by (auto split: if_splits)
      have nm: "drop_bit 32 w \<noteq> 0xFFFF" using u V6 by (auto split: if_splits)
      have req: "request = [socks_version, CHR 0x01, CHR 0x00, atyp_v6] @ be_bytes 16 (unat w) @ put_uint16 port"
        using assms(1) Some V6 by (simp add: buildConnect_def Let_def del: be_bytes.simps)
      show ?thesis
        using assms(2) req c V6 z nm rp [of "l\<lparr>k_in := put_uint16 port @ rest\<rparr>" rest "addr_string (Some a)"]
          addr_string_nonempty [of a]
        by (simp add: readRequest_def io_bind_def read_full_def ip_v6_string_def be_nat_unat16)
    qed
  qed
qed

text \<open>The server hears the method and the credentials of the client.\<close>

lemma server_negotiate_hears:
  assumes "has_credentials d \<Longrightarrow> \<not> bad_credentials d"
    and "authorize deps (sd_Username d) (sd_Password d) (has_credentials d) = Inr pol"
    and "k_in l = client_says d request @ rest" and "2 \<le> k_writes l"
  shows "server_negotiate deps l = (Inr pol, l\<lparr>k_in := request @ rest,
     k_out := k_out l @ good_method_reply d, k_writes := k_writes l - (if has_credentials d then 2 else 1)\<rparr>)"
proof (cases "has_credentials d")
  case False
  then have "sd_Username d = []" "sd_Password d = []" by (simp_all add: has_credentials_def)
  then show ?thesis
    using assms False
    by (simp add: server_negotiate_def client_says_def good_method_reply_def io_bind_def read_full_def
        write_all_def io_return_def link_order)
next
  case True
  then have len: "length (sd_Username d) \<le> 255" "length (sd_Password d) \<le> 255"
    using assms(1) by (simp_all add: bad_credentials_def)
  have rd: "readUserPass (k\<lparr>k_in := auth_message d @ x\<rparr>) = (Inr (sd_Username d, sd_Password d), k\<lparr>k_in := x\<rparr>)"
    for k x
    using len by (simp add: readUserPass_def auth_message_def io_bind_def read_full_def io_return_def)
  show ?thesis
    using assms(2-4) True rd [where k = "l\<lparr>k_out := k_out l @ [socks_version, method_user_pass], k_writes := k_writes l - 1\<rparr>"]
    by (simp add: server_negotiate_def client_says_def good_method_reply_def io_bind_def read_full_def
        write_all_def io_return_def link_order diff_diff_eq numeral_2_eq_2)
qed

text \<open>
  C23: the client of \<open>socksdial\<close> and the server of \<open>proxy\<close> agree on the protocol, with and without
  credentials. Fed what the client says, the server authorises exactly its credentials and reads its
  destination (an address in canonical form) and port, with the payload still unread; fed what the server
  answers, whatever address it is bound to, the client succeeds, with the payload still unread.
\<close>

theorem socks_roundtrip:
  assumes "has_credentials d \<Longrightarrow> \<not> bad_credentials d" and "buildConnect host port = Inr request"
    and "host \<noteq> []" and "1 \<le> port" and "port \<le> 65535"
    and "authorize deps (sd_Username d) (sd_Password d) (has_credentials d) = Inr pol"
    and "k_in s = client_says d request @ payload" and "3 \<le> k_writes s"
  shows "\<exists>s1 s2 s3. server_negotiate deps s = (Inr pol, s1) \<and>
     readRequest s1 = (Inr (canonical_host host, port), s2) \<and> k_in s2 = payload \<and>
     writeReply repSuccess bound s2 = (Inr (), s3) \<and>
     (\<forall>c answer rest. k_out s3 = k_out s @ answer \<and> k_in c = answer @ rest \<and> writes_needed d \<le> k_writes c \<longrightarrow>
        exchange d host port c = (Inr (), c\<lparr>k_in := rest, k_out := k_out c @ client_says d request,
          k_writes := k_writes c - writes_needed d\<rparr>))"
proof -
  let ?n = "if has_credentials d then 2 else 1 :: nat"
  let ?s1 = "s\<lparr>k_in := request @ payload, k_out := k_out s @ good_method_reply d, k_writes := k_writes s - ?n\<rparr>"
  let ?s2 = "?s1\<lparr>k_in := payload\<rparr>"
  let ?r = "reply_bytes repSuccess bound"
  let ?s3 = "?s2\<lparr>k_out := k_out ?s2 @ ?r, k_writes := k_writes ?s2 - 1\<rparr>"
  have 1: "server_negotiate deps s = (Inr pol, ?s1)"
    by (rule server_negotiate_hears) (use assms in auto)
  have 2: "readRequest ?s1 = (Inr (canonical_host host, port), ?s2)"
    by (rule readRequest_reads [OF assms(2)]) (use assms in auto)
  have 3: "writeReply repSuccess bound ?s2 = (Inr (), ?s3)"
    using assms(8) by (simp add: writeReply_def write_all_def)
  have 4: "exchange d host port c = (Inr (), c\<lparr>k_in := rest, k_out := k_out c @ client_says d request,
      k_writes := k_writes c - writes_needed d\<rparr>)"
    if "k_out ?s3 = k_out s @ answer" "k_in c = answer @ rest" "writes_needed d \<le> k_writes c" for c answer rest
    by (rule exchange_succeeds [OF assms(1,2) that(3) reply_good [of bound]]) (use that in simp_all)
  show ?thesis
    by (intro exI conjI) (rule 1, rule 2, simp, rule 3, use 4 in blast)
qed

definition demo_client :: socks_dialer where
  "demo_client = demo_dialer\<lparr>sd_Username := ''cc=jp'', sd_Password := ''secret''\<rparr>"

theorem socks_roundtrip_witness:
  "\<exists>pol s1 s2. server_negotiate demo_deps (demo_link (client_says demo_client
       ([CHR 0x05, CHR 0x01, CHR 0x00, CHR 0x03, CHR 0x05] @ ''h.net'' @ [CHR 0x01, CHR 0xBB]) @
       ''hello'')) = (Inr pol, s1) \<and>
     readRequest s1 = (Inr (''h.net'', 443), s2) \<and> k_in s2 = ''hello''"
proof -
  let ?req = "[CHR 0x05, CHR 0x01, CHR 0x00, CHR 0x03, CHR 0x05] @ ''h.net'' @ [CHR 0x01, CHR 0xBB]"
  let ?s = "demo_link (client_says demo_client ?req @ ''hello'')"
  have "is_ok (authorize demo_deps (sd_Username demo_client) (sd_Password demo_client) True)"
    "has_credentials demo_client" "\<not> bad_credentials demo_client"
    "buildConnect ''h.net'' 443 = Inr ?req" "canonical_host ''h.net'' = ''h.net''"
    by code_simp+
  moreover from this(1) obtain pol where
    "authorize demo_deps (sd_Username demo_client) (sd_Password demo_client) True = Inr pol"
    unfolding is_ok_iff by blast
  moreover have "k_in ?s = client_says demo_client ?req @ ''hello''" "3 \<le> k_writes ?s"
    by (simp_all add: demo_link_def)
  ultimately show ?thesis
    using socks_roundtrip [of demo_client "''h.net''" 443 ?req demo_deps pol ?s "''hello''" None]
    by (simp del: append_Cons) blast
qed

lemma observed_conn [simp]: "conn (observed pol l res ph took p) = conn p"
  by (simp add: observed_def observeRequestPhase_def ObserveRequest_def Let_def conn_def split_beta)

lemma RecordTraffic_conn [simp]: "conn (RecordTraffic l a b p) = conn p"
  using RecordTraffic_quiet [of p l a b p] by (simp add: quiet_def)

lemma Release_back:
  assumes "conn q = lease_conn (l_state l) c" and "\<not> l_released l"
  shows "conn (snd (Release t l q)) = c"
  using Release_conn(1) [OF assms(2), of t q] assms(1) by (metis free_lease_conn prod.collapse)

text \<open>
  C27: a SOCKS5 connection, however it goes, leaves no connection counted in the pool once its handler
  returns; and a client that is not on the list, or does not get through the negotiation, never
  reaches the pool.
\<close>

theorem socks_session_balance:
  assumes "\<And>i. i \<in> set (mt_attempts m) \<Longrightarrow> honest_draws i"
  shows "conn (snd (socks_handle d remote m c p)) = conn p \<and>
     (checkClient d remote \<noteq> None \<or>
      \<not> is_ok (fst (server_negotiate d (c\<lparr>k_deadline := Some (mt_now m + handshakeTimeout)\<rparr>))) \<longrightarrow>
        snd (socks_handle d remote m c p) = p)"
proof -
  obtain rn c1 where n: "server_negotiate d (c\<lparr>k_deadline := Some (mt_now m + handshakeTimeout)\<rparr>) = (rn, c1)"
    by fastforce
  show ?thesis
  proof (cases "checkClient d remote \<noteq> None \<or> \<not> is_ok rn")
    case True
    then show ?thesis using n by (cases rn) (auto simp: socks_handle_def)
  next
    case False
    then obtain pol where pol: "rn = Inr pol" by (auto simp: is_ok_iff)
    obtain rr c2 where rq: "readRequest c1 = (rr, c2)" by fastforce
    show ?thesis
    proof (cases rr)
      case (Inl e)
      then show ?thesis using False n pol rq by (simp add: socks_handle_def)
    next
      case (Inr hp)
      obtain host port where hp: "hp = (host, port)" by fastforce
      obtain res q where cu: "connectUpstream d (mt_attempts m) pol host port p = (res, q)" by fastforce
      have cc: "case res of Inl e \<Rightarrow> conn q = conn p
          | Inr (c, l) \<Rightarrow> conn q = lease_conn (l_state l) (conn p) \<and> \<not> l_released l"
        by (rule connectUpstream_conn [OF cu assms])
      have "conn (snd (socks_handle d remote m c p)) = conn p"
      proof (cases res)
        case (Inl e)
        then show ?thesis using False n pol rq \<open>rr = Inr hp\<close> hp cu cc by (simp add: socks_handle_def)
      next
        case (Inr ul)
        obtain up l where ul: "ul = (up, l)" by fastforce
        obtain rw c3 where w: "writeReply repSuccess (mt_bound m) c2 = (rw, c3)" by fastforce
        have gone: "conn (snd (Release t l q')) = conn p" if "conn q' = conn q" for t q'
          using Release_back [of q' l "conn p"] cc Inr ul that by simp
        show ?thesis
          using False n pol rq \<open>rr = Inr hp\<close> hp cu Inr ul w
          by (cases rw) (simp_all add: socks_handle_def gone)
      qed
      then show ?thesis using False n by simp
    qed
  qed
qed

definition demo_meeting :: meeting where
  "demo_meeting = \<lparr>mt_now = 5, mt_took = 0, mt_attempts = [demo_attempt (Inl (Foreign ''*net.OpError''))],
     mt_bound = None, mt_opErr = (\<lambda>_. None), mt_text = (\<lambda>_. False), mt_relayed = (0, 0), mt_end = 9\<rparr>"

theorem socks_session_balance_witness:
  "conn (snd (socks_handle demo_deps ''10.0.0.9:5000'' demo_meeting
     (demo_link (client_says demo_client
       ([CHR 0x05, CHR 0x01, CHR 0x00, CHR 0x03, CHR 0x05] @ ''h.net'' @ [CHR 0x01, CHR 0xBB])))
     demo_pool)) = conn demo_pool"
proof -
  have "i \<in> set (mt_attempts demo_meeting) \<Longrightarrow> honest_draws i" for i
    by (simp add: demo_meeting_def honest_draws_def demo_attempt_def demo_input_def)
  then show ?thesis using socks_session_balance by blast
qed

end
