(* ===== verification/Paths.thy ===== *)
theory Paths
  imports Netip
begin

text \<open>
  The part of \<open>path/filepath\<close> the program uses, on Unix, and \<open>first_problem\<close>, the shape of its validation
  routines: a sequence of checks that returns at the first one that fails. \<open>trim_brackets\<close> is \<open>strings.Trim\<close> with a cutset of brackets.
\<close>

section \<open>Paths\<close>

definition isAbs :: "string \<Rightarrow> bool" where
  "isAbs p \<longleftrightarrow> has_prefix ''/'' p"

text \<open>
  \<open>Clean\<close> on the parts between the separators; \<open>acc\<close> holds the parts that are kept, the last one first.
\<close>

fun clean_parts :: "bool \<Rightarrow> string list \<Rightarrow> string list \<Rightarrow> string list" where
  "clean_parts rooted [] acc = rev acc"
| "clean_parts rooted (w # ws) acc =
     (if w = [] \<or> w = ''.'' then clean_parts rooted ws acc
      else if w = ''..'' then
        (if acc \<noteq> [] \<and> hd acc \<noteq> ''..'' then clean_parts rooted ws (tl acc)
         else if rooted then clean_parts rooted ws acc
         else clean_parts rooted ws (w # acc))
      else clean_parts rooted ws (w # acc))"

definition path_clean :: "string \<Rightarrow> string" where
  "path_clean p =
     (let ws = clean_parts (isAbs p) (split_on CHR ''/'' p) []
      in if isAbs p then CHR ''/'' # join ''/'' ws
         else if ws = [] then ''.'' else join ''/'' ws)"

definition path_join :: "string \<Rightarrow> string \<Rightarrow> string" where
  "path_join a b =
     (if a = [] \<and> b = [] then []
      else path_clean (if a = [] then b else if b = [] then a else a @ ''/'' @ b))"

text \<open>The text up to and including the last separator, and the text after it.\<close>

definition last_slash :: "string \<Rightarrow> string \<times> string" where
  "last_slash p =
     (rev (dropWhile (\<lambda>c. c \<noteq> CHR ''/'') (rev p)), rev (takeWhile (\<lambda>c. c \<noteq> CHR ''/'') (rev p)))"

definition path_dir :: "string \<Rightarrow> string" where
  "path_dir p = path_clean (fst (last_slash p))"

definition path_base :: "string \<Rightarrow> string" where
  "path_base p =
     (if p = [] then ''.''
      else
        let q = rev (dropWhile (\<lambda>c. c = CHR ''/'') (rev p))
        in if q = [] then ''/'' else snd (last_slash q))"

text \<open>\<open>Ext\<close>: from the last dot of the last element on, or empty.\<close>

definition path_ext :: "string \<Rightarrow> string" where
  "path_ext p =
     (case cut CHR ''.'' (rev (snd (last_slash p))) of None \<Rightarrow> [] | Some (r, _) \<Rightarrow> CHR ''.'' # rev r)"

lemma last_slash_base: "CHR ''/'' \<notin> set (snd (last_slash p))"
  by (auto simp: last_slash_def dest: set_takeWhileD)

lemma path_base_no_slash: "path_base p \<noteq> ''/'' \<Longrightarrow> CHR ''/'' \<notin> set (path_base p)"
  using last_slash_base by (auto simp: path_base_def Let_def split: if_splits)

section \<open>Brackets and checks\<close>

text \<open>\<open>strings.Trim\<close> with the cutset \<open>[]\<close>.\<close>

definition trim_brackets :: "string \<Rightarrow> string" where
  "trim_brackets s =
     (let b = (\<lambda>c. c \<in> {CHR ''['', CHR '']''})
      in rev (dropWhile b (rev (dropWhile b s))))"


fun first_problem :: "(bool \<times> 'e) list \<Rightarrow> 'e option" where
  "first_problem [] = None"
| "first_problem ((bad, e) # cs) = (if bad then Some e else first_problem cs)"

lemma first_problem_None: "first_problem cs = None \<longleftrightarrow> list_all (\<lambda>(bad, e). \<not> bad) cs"
  by (induction cs rule: first_problem.induct) auto

lemma first_problem_Some: "first_problem cs = Some e \<Longrightarrow> (True, e) \<in> set cs"
  by (induction cs rule: first_problem.induct) (auto split: if_splits)

end
