(* ===== verification/Http.thy ===== *)
theory Http
  imports Socks5 Paths
begin

text \<open>
  \<open>internal/proxy/http.go\<close>: the HTTP listener. A header is a map from its canonical keys to their
  values. The server of \<open>net/http\<close>, the transport and the hijacked connection are outside: what they
  give is an argument. \<open>ServeHTTP\<close> decides, \<open>handleConnect\<close> and \<open>handleForward\<close> go to the pool.
\<close>

type_synonym header = "(string, string list) fmap"

section \<open>Headers\<close>

text \<open>
  \<open>CanonicalMIMEHeaderKey\<close>: capitals at the start and after a hyphen, small letters elsewhere; a key
  that holds a byte no header key may hold is left alone.
\<close>

definition upper_char :: "char \<Rightarrow> char" where
  "upper_char c = (if CHR ''a'' \<le> c \<and> c \<le> CHR ''z'' then char_of (of_char c - (32 :: nat)) else c)"

definition token_char :: "char \<Rightarrow> bool" where
  "token_char c \<longleftrightarrow>
     is_digit c \<or> (CHR ''a'' \<le> c \<and> c \<le> CHR ''z'') \<or> (CHR ''A'' \<le> c \<and> c \<le> CHR ''Z'') \<or>
     c \<in> set (CHR 0x27 # ''!#$%&*+-.^_`|~'')"

fun capitalise :: "bool \<Rightarrow> string \<Rightarrow> string" where
  "capitalise up [] = []"
| "capitalise up (c # cs) =
     (if up then upper_char c else lower_char c) # capitalise (c = CHR ''-'') cs"

definition canonical_key :: "string \<Rightarrow> string" where
  "canonical_key k = (if list_all token_char k then capitalise True k else k)"

definition header_get :: "header \<Rightarrow> string \<Rightarrow> string" where
  "header_get h k =
     (case fmlookup h (canonical_key k) of Some (v # _) \<Rightarrow> v | _ \<Rightarrow> [])"

definition header_del :: "string \<Rightarrow> header \<Rightarrow> header" where
  "header_del k h = fmdrop (canonical_key k) h"

definition header_add :: "string \<Rightarrow> string \<Rightarrow> header \<Rightarrow> header" where
  "header_add k v h = fmupd (canonical_key k) (fm_get [] h (canonical_key k) @ [v]) h"

definition hopByHopHeaders :: "string list" where
  "hopByHopHeaders =
     [''Connection'', ''Proxy-Connection'', ''Keep-Alive'', ''Proxy-Authenticate'',
      ''Proxy-Authorization'', ''Te'', ''Trailer'', ''Transfer-Encoding'', ''Upgrade'']"

definition isEgressHeader :: "string \<Rightarrow> bool" where
  "isEgressHeader k \<longleftrightarrow> has_prefix ''x-egress-'' (to_lower k)"

text \<open>\<open>keys\<close> is the order in which Go ranges over the map.\<close>

definition stripEgressHeaders :: "string list \<Rightarrow> header \<Rightarrow> header" where
  "stripEgressHeaders keys h =
     foldl (\<lambda>h k. if isEgressHeader k then header_del k h else h) h keys"

fun add_values :: "string \<Rightarrow> string list \<Rightarrow> header \<Rightarrow> header" where
  "add_values k [] h = h"
| "add_values k (v # vs) h = add_values k vs (header_add k v h)"

definition copyForwardResponseHeaders :: "string list \<Rightarrow> header \<Rightarrow> header \<Rightarrow> header" where
  "copyForwardResponseHeaders keys source destination =
     foldl (\<lambda>h k. if isEgressHeader k then h else add_values k (fm_get [] source k) h) destination keys"

definition outbound_header :: "string list \<Rightarrow> header \<Rightarrow> header" where
  "outbound_header keys h =
     stripEgressHeaders keys (foldl (\<lambda>h k. header_del k h) h hopByHopHeaders)"

section \<open>The response to CONNECT\<close>

definition validHeaderValue :: "string \<Rightarrow> bool" where
  "validHeaderValue value \<longleftrightarrow>
     list_all (\<lambda>c. c = CHR 0x09 \<or> (CHR '' '' \<le> c \<and> c \<noteq> CHR 0x7F)) value"

definition egressHeaders :: "lease \<Rightarrow> policy \<Rightarrow> (string, string) fmap" where
  "egressHeaders l pol =
     (let h = fmupd ''X-Egress-Policy'' (policy_string pol)
                (fmupd ''X-Egress-Slot'' (sp_ID (l_Slot l)) fmempty);
          h = (if sp_Country (l_Slot l) \<noteq> [] then fmupd ''X-Egress-Country'' (sp_Country (l_Slot l)) h else h);
          h = (if sp_City (l_Slot l) \<noteq> [] then fmupd ''X-Egress-City'' (sp_City (l_Slot l)) h else h);
          h = (if l_PublicIP l \<noteq> None then fmupd ''X-Egress-IP'' (addr_string (l_PublicIP l)) h else h)
      in if l_Session l \<noteq> [] then fmupd ''X-Egress-Session'' (l_Session l) h else h)"

definition egress_keys :: "string list" where
  "egress_keys =
     [''X-Egress-Slot'', ''X-Egress-Country'', ''X-Egress-City'', ''X-Egress-IP'',
      ''X-Egress-Session'', ''X-Egress-Policy'']"

definition crlf :: string where
  "crlf = [CHR 0x0D, CHR 0x0A]"

definition header_lines :: "(string, string) fmap \<Rightarrow> string list \<Rightarrow> string" where
  "header_lines h ks =
     concat (map (\<lambda>k. case fmlookup h k of
                        None \<Rightarrow> []
                      | Some v \<Rightarrow> if validHeaderValue v then k @ '': '' @ v @ crlf else []) ks)"

definition connect_established :: "lease \<Rightarrow> policy \<Rightarrow> string" where
  "connect_established l pol =
     ''HTTP/1.1 200 Connection Established'' @ crlf @
     header_lines (egressHeaders l pol) egress_keys @ crlf"

definition writeConnectEstablished :: "lease \<Rightarrow> policy \<Rightarrow> unit io" where
  "writeConnectEstablished l pol = write_all (connect_established l pol)"

section \<open>Credentials\<close>

text \<open>\<open>base64.StdEncoding\<close>: line ends are skipped, the padding is required.\<close>

definition b64_val :: "char \<Rightarrow> nat option" where
  "b64_val c =
     (if CHR ''A'' \<le> c \<and> c \<le> CHR ''Z'' then Some (of_char c - 65)
      else if CHR ''a'' \<le> c \<and> c \<le> CHR ''z'' then Some (of_char c - 71)
      else if is_digit c then Some (of_char c + 4)
      else if c = CHR ''+'' then Some 62
      else if c = CHR ''/'' then Some 63
      else None)"

definition b64_quad :: "nat \<Rightarrow> nat \<Rightarrow> nat \<Rightarrow> nat \<Rightarrow> nat" where
  "b64_quad a b c d = ((a * 64 + b) * 64 + c) * 64 + d"

fun b64_groups :: "string \<Rightarrow> string option" where
  "b64_groups [] = Some []"
| "b64_groups (a # b # c # d # rest) =
     (case (b64_val a, b64_val b) of
        (Some x, Some y) \<Rightarrow>
          if c = CHR ''='' \<and> d = CHR ''='' \<and> rest = [] then Some (take 1 (be_bytes 3 (b64_quad x y 0 0)))
          else
            (case b64_val c of
               None \<Rightarrow> None
             | Some z \<Rightarrow>
                 if d = CHR ''='' \<and> rest = [] then Some (take 2 (be_bytes 3 (b64_quad x y z 0)))
                 else (case (b64_val d, b64_groups rest) of
                         (Some w, Some s) \<Rightarrow> Some (be_bytes 3 (b64_quad x y z w) @ s)
                       | _ \<Rightarrow> None))
      | _ \<Rightarrow> None)"
| "b64_groups _ = None"

definition b64_decode :: "string \<Rightarrow> string option" where
  "b64_decode s = b64_groups (filter (\<lambda>c. c \<notin> {CHR 0x0D, CHR 0x0A}) s)"

definition proxyCredentials :: "header \<Rightarrow> string \<times> string \<times> bool" where
  "proxyCredentials h =
     (case cut CHR '' '' (header_get h ''Proxy-Authorization'') of
        None \<Rightarrow> ([], [], False)
      | Some (scheme, encoded) \<Rightarrow>
          if \<not> equal_fold scheme ''Basic'' then ([], [], False)
          else
            (case b64_decode (trim_space encoded) of
               None \<Rightarrow> ([], [], False)
             | Some raw \<Rightarrow>
                 (case cut CHR '':'' raw of
                    None \<Rightarrow> ([], [], False)
                  | Some (user, pass) \<Rightarrow> (user, pass, True))))"

section \<open>Targets and clients\<close>

datatype target_error = MissingHost | InvalidTargetPort

definition splitTargetHostPort :: "string \<Rightarrow> int \<Rightarrow> target_error + string \<times> int" where
  "splitTargetHostPort value defaultPort =
     (if value = [] then Inl MissingHost
      else
        case split_host_port value of
          None \<Rightarrow> Inr (trim_brackets value, defaultPort)
        | Some (host, portStr) \<Rightarrow>
            (case atoi portStr of
               None \<Rightarrow> Inl InvalidTargetPort
             | Some port \<Rightarrow>
                 if port < 1 \<or> port > 65535 then Inl InvalidTargetPort else Inr (host, port)))"

text \<open>\<open>addrFromString\<close>: the text of the TCP address; a host that is no IP address becomes empty.\<close>

definition addrFromString :: "string \<Rightarrow> string option" where
  "addrFromString value =
     (case split_host_port value of
        None \<Rightarrow> None
      | Some (host, portStr) \<Rightarrow>
          (case atoi portStr of
             None \<Rightarrow> None
           | Some port \<Rightarrow>
               Some (join_host_port (case parse_ip host of None \<Rightarrow> [] | a \<Rightarrow> addr_string a) (itoa port))))"

section \<open>The handlers\<close>

record request =
  rq_Method :: string
  rq_Host :: string
  rq_RemoteAddr :: string
  rq_IsAbs :: bool
  rq_Scheme :: string
  rq_URLHost :: string
  rq_Header :: header

text \<open>What the client gets: a status of the proxy itself, or the outcome of its request.\<close>

datatype response =
    Status int
  | AuthRequired
  | Established string
  | Dropped
  | Forwarded int header nat

definition forwardSchemeSupported :: "string \<Rightarrow> bool" where
  "forwardSchemeSupported scheme \<longleftrightarrow> scheme = ''http'' \<or> scheme = ''https''"

definition forwardDefaultPort :: "string \<Rightarrow> int" where
  "forwardDefaultPort scheme = (if scheme = ''https'' then 443 else 80)"

definition connect_status :: "connect_error option \<Rightarrow> int" where
  "connect_status e = (case e of None \<Rightarrow> 502 | Some e \<Rightarrow> statusCodeFor e)"

text \<open>
  What the hijacked connection gives: it cannot be hijacked, hijacking fails, or a connection with the
  number of pipelined bytes that were copied upstream and whether copying them failed.
\<close>

datatype hijack = NoHijacker | HijackFailed | Hijacked link nat bool

definition handleConnect :: "deps \<Rightarrow> meeting \<Rightarrow> hijack \<Rightarrow> request \<Rightarrow> policy \<Rightarrow> pool \<Rightarrow> response \<times> pool" where
  "handleConnect d m hj r pol p =
     (case splitTargetHostPort (rq_Host r) 443 of
        Inl _ \<Rightarrow> (Status 400, p)
      | Inr (host, port) \<Rightarrow>
          (case connectUpstream d (mt_attempts m) pol host port p of
             (Inl e, p) \<Rightarrow>
               (Status (connect_status e),
                observed pol None (requestResult e) ''acquire'' (mt_took m) p)
           | (Inr (up, l), p) \<Rightarrow>
               let p = observed pol (Some l) ''success'' ''unknown'' (mt_took m) p;
                   release = (\<lambda>p. snd (Release (mt_end m) l p))
               in (case hj of
                     NoHijacker \<Rightarrow> (Status 500, release p)
                   | HijackFailed \<Rightarrow> (Dropped, release p)
                   | Hijacked client pipelined failed \<Rightarrow>
                       (case writeConnectEstablished l pol client of
                          (Inl _, _) \<Rightarrow> (Dropped, release p)
                        | (Inr _, client) \<Rightarrow>
                            (Established (connect_established l pol),
                             release
                               (if failed then RecordTraffic (Some l) (int pipelined) 0 p
                                else RecordTraffic (Some l)
                                       (int (fst (mt_relayed m) + pipelined)) (int (snd (mt_relayed m))) p))))))"

text \<open>
  \<open>countingReader\<close> counts what it reads. The transport is an argument: given the outbound header, an
  error, or the status, header and body of the response with the bytes written to the client and the
  bytes of the request body that were read.
\<close>

definition counting_read :: "nat \<Rightarrow> string list \<Rightarrow> nat" where
  "counting_read n chunks = n + sum_list (map length chunks)"

record forward_result =
  fr_Status :: int
  fr_Header :: header
  fr_Written :: nat
  fr_Uploaded :: "string list"

definition handleForward ::
  "deps \<Rightarrow> meeting \<Rightarrow> (nat \<Rightarrow> acq_input) \<Rightarrow> (header \<Rightarrow> pool_error + forward_result) \<Rightarrow>
   string list \<Rightarrow> string list \<Rightarrow> request \<Rightarrow> policy \<Rightarrow> pool \<Rightarrow> response \<times> pool" where
  "handleForward d m acq transport inKeys outKeys r pol p =
     (if \<not> forwardSchemeSupported (rq_Scheme r) then (Status 400, p)
      else
        case splitTargetHostPort (rq_URLHost r) (forwardDefaultPort (rq_Scheme r)) of
          Inl _ \<Rightarrow> (Status 400, p)
        | Inr (host, port) \<Rightarrow>
            if CheckPort (dp_Guard d) port \<noteq> None then (Status 403, p)
            else if CheckHost (dp_Guard d) host \<noteq> None then (Status 403, p)
            else
              (case Acquire acq pol host p of
                 (Some (Inr l), p) \<Rightarrow>
                   let release = (\<lambda>p. snd (Release (mt_end m) l p))
                   in (case transport (outbound_header inKeys (rq_Header r)) of
                         Inl e \<Rightarrow>
                           (Status 502,
                            release (observed pol (Some l) (upstreamResult e) ''upstream'' (mt_took m) p))
                       | Inr f \<Rightarrow>
                           (Forwarded (fr_Status f)
                              (copyForwardResponseHeaders outKeys (fr_Header f) fmempty) (fr_Written f),
                            release (RecordTraffic (Some l) (int (counting_read 0 (fr_Uploaded f)))
                              (int (fr_Written f))
                              (observed pol (Some l) ''success'' ''unknown'' (mt_took m) p))))
               | (Some (Inl e), p) \<Rightarrow>
                   (Status (statusCodeFor (ConnectError e)),
                    observed pol None (requestResult (Some (ConnectError e))) ''acquire'' (mt_took m) p)
               | (None, p) \<Rightarrow> (Dropped, p)))"

datatype decision = Refuse response | Tunnel policy | Forward policy

definition http_decide :: "deps \<Rightarrow> request \<Rightarrow> decision" where
  "http_decide d r =
     (case addrFromString (rq_RemoteAddr r) of
        None \<Rightarrow> Refuse (Status 403)
      | Some remote \<Rightarrow>
          if checkClient d remote \<noteq> None then Refuse (Status 403)
          else
            let (username, password, hadCredentials) = proxyCredentials (rq_Header r)
            in (case authorize d username password hadCredentials of
                  Inl Unauthorized \<Rightarrow> Refuse AuthRequired
                | Inl PolicyRequired \<Rightarrow> Refuse AuthRequired
                | Inl (BadPolicy _) \<Rightarrow> Refuse (Status 400)
                | Inr pol \<Rightarrow>
                    if rq_Method r = ''CONNECT'' then Tunnel pol
                    else if \<not> rq_IsAbs r then Refuse (Status 400)
                    else Forward pol))"

section \<open>What the client is told\<close>

text \<open>The lines of the answer to \<open>CONNECT\<close>, without their ends.\<close>

definition header_line :: "(string, string) fmap \<Rightarrow> string \<Rightarrow> string list" where
  "header_line h k =
     (case fmlookup h k of
        None \<Rightarrow> []
      | Some v \<Rightarrow> if validHeaderValue v then [k @ '': '' @ v] else [])"

definition established_lines :: "lease \<Rightarrow> policy \<Rightarrow> string list" where
  "established_lines l pol =
     ''HTTP/1.1 200 Connection Established'' # concat (map (header_line (egressHeaders l pol)) egress_keys) @ [[]]"

definition clean_line :: "string \<Rightarrow> bool" where
  "clean_line w \<longleftrightarrow> CHR 0x0D \<notin> set w \<and> CHR 0x0A \<notin> set w"

lemma valid_clean: "validHeaderValue v \<Longrightarrow> clean_line v"
proof -
  have "\<not> validHeaderValue [CHR 0x0D]" "\<not> validHeaderValue [CHR 0x0A]" by code_simp+
  then show "validHeaderValue v \<Longrightarrow> clean_line v"
    unfolding validHeaderValue_def clean_line_def list_all_iff by fastforce
qed

lemma header_lines_concat:
  "header_lines h ks = concat (map (\<lambda>w. w @ crlf) (concat (map (header_line h) ks)))"
  by (induction ks) (auto simp: header_lines_def header_line_def split: option.split)

lemma split_lines:
  "list_all clean_line ws \<Longrightarrow>
     split_on CHR 0x0A (concat (map (\<lambda>w. w @ crlf) ws)) = map (\<lambda>w. w @ [CHR 0x0D]) ws @ [[]]"
proof (induction ws)
  case (Cons w ws)
  have "split_on CHR 0x0A ((w @ [CHR 0x0D]) @ CHR 0x0A # concat (map (\<lambda>w. w @ crlf) ws)) =
      (w @ [CHR 0x0D]) # split_on CHR 0x0A (concat (map (\<lambda>w. w @ crlf) ws))"
    by (rule split_on_append) (use Cons.prems in \<open>simp add: clean_line_def\<close>)
  then show ?case using Cons by (simp add: crlf_def)
qed simp

lemma egress_keys_clean: "list_all clean_line egress_keys"
  by code_simp

lemma egress_lines_clean:
  "list_all (\<lambda>w. clean_line w \<and> w \<noteq> []) (concat (map (header_line h) ks))" if "list_all clean_line ks"
  using that
  by (induction ks) (auto simp: header_line_def clean_line_def dest!: valid_clean split: option.split)

text \<open>
  Whatever the lease and the policy hold, the answer to \<open>CONNECT\<close> cannot be split. Cut at its line
  ends it is the status line, one line for each value that is there and is a valid header value, and the
  empty line that ends it, in this order; no line holds a carriage return or a line feed, and
  only the last one is empty, so a client reads exactly these headers and then the stream.
\<close>

theorem connect_answer_lines:
  "split_on CHR 0x0A (connect_established l pol) =
     map (\<lambda>w. w @ [CHR 0x0D]) (established_lines l pol) @ [[]] \<and>
   list_all clean_line (established_lines l pol) \<and>
   list_all (\<lambda>w. w \<noteq> []) (butlast (established_lines l pol)) \<and> last (established_lines l pol) = []"
proof -
  let ?ws = "concat (map (header_line (egressHeaders l pol)) egress_keys)"
  have ws: "list_all (\<lambda>w. clean_line w \<and> w \<noteq> []) ?ws"
    by (rule egress_lines_clean) (rule egress_keys_clean)
  have first: "clean_line ''HTTP/1.1 200 Connection Established''" by code_simp
  have c: "list_all clean_line (established_lines l pol)"
    using ws first by (auto simp: established_lines_def list_all_iff clean_line_def [of "[]"])
  have "connect_established l pol = concat (map (\<lambda>w. w @ crlf) (established_lines l pol))"
    by (simp add: connect_established_def established_lines_def header_lines_concat)
  then show ?thesis
    using ws c split_lines [OF c] by (auto simp: established_lines_def list_all_iff butlast_append)
qed

section \<open>Headers in transit\<close>

lemma foldl_del:
  "fmlookup (foldl (\<lambda>h k. header_del k h) h ks) j =
     (if j \<in> canonical_key ` set ks then None else fmlookup h j)"
  by (induction ks arbitrary: h) (auto simp: header_del_def)

lemma strip_lookup:
  "fmlookup (stripEgressHeaders keys h) j =
     (if \<exists>k\<in>set keys. isEgressHeader k \<and> canonical_key k = j then None else fmlookup h j)"
  by (induction keys arbitrary: h) (auto simp: stripEgressHeaders_def header_del_def)

lemma add_values_get:
  "fm_get [] (add_values k vs h) j = (if j = canonical_key k then fm_get [] h j @ vs else fm_get [] h j)"
  by (induction vs arbitrary: h) (auto simp: header_add_def)

lemma copyForward_get:
  "distinct keys \<Longrightarrow> map canonical_key keys = keys \<Longrightarrow>
     fm_get [] (copyForwardResponseHeaders keys source h) j =
       (if j \<in> set keys \<and> \<not> isEgressHeader j then fm_get [] h j @ fm_get [] source j else fm_get [] h j)"
  by (induction keys arbitrary: h) (auto simp: copyForwardResponseHeaders_def add_values_get)

lemma hop_canonical: "canonical_key ` set hopByHopHeaders = set hopByHopHeaders"
proof -
  have "map canonical_key hopByHopHeaders = hopByHopHeaders" by code_simp
  then show ?thesis by (metis set_map)
qed

text \<open>
  What crosses the proxy. Of the headers of a request, whose keys are canonical as \<open>net/http\<close> makes
  them, the origin gets all but the hop-by-hop ones (among them the credentials of the proxy) and
  the \<open>X-Egress-\<close> ones, unchanged; of the headers of the response the client gets all but the \<open>X-Egress-\<close>
  ones, with all their values, in whatever order the maps are walked.
\<close>

theorem headers_in_transit:
  assumes "set inKeys = fmdom' h" and "map canonical_key inKeys = inKeys"
    and "set outKeys = fmdom' r" and "distinct outKeys" and "map canonical_key outKeys = outKeys"
  shows "fmlookup (outbound_header inKeys h) k =
       (if k \<in> set hopByHopHeaders \<or> isEgressHeader k then None else fmlookup h k) \<and>
     fm_get [] (copyForwardResponseHeaders outKeys r fmempty) k =
       (if isEgressHeader k then [] else fm_get [] r k)"
proof -
  have can: "canonical_key j = j" if "j \<in> set inKeys" for j
    using that assms(2) by (metis map_eq_conv map_ident)
  have dom: "fmlookup h k = None" if "k \<notin> set inKeys"
    using that assms(1) by (metis fmdom'_notD)
  have "fm_get [] r k = []" if "k \<notin> set outKeys"
    using that assms(3) by (metis fm_get_def fmdom'_notD option.simps(4))
  then show ?thesis
    using can dom by (auto simp: outbound_header_def strip_lookup foldl_del hop_canonical
        copyForward_get [OF assms(4,5)])
qed

definition demo_request_header :: header where
  "demo_request_header = fmap_of_list
     [(''Authorization'', [''Bearer t'']), (''Proxy-Authorization'', [''Basic Y2M9anA6eA==''])]"

definition demo_response_header :: header where
  "demo_response_header = fmap_of_list [(''X-Egress-Ip'', [''6.6.6.6'']), (''Set-Cookie'', [''a'', ''b''])]"

theorem headers_in_transit_witness:
  "fmlookup (outbound_header [''Authorization'', ''Proxy-Authorization''] demo_request_header)
     ''Authorization'' = Some [''Bearer t''] \<and>
   fm_get [] (copyForwardResponseHeaders [''X-Egress-Ip'', ''Set-Cookie''] demo_response_header fmempty)
     ''Authorization'' = []"
proof -
  have "set [''Authorization'', ''Proxy-Authorization''] = fmdom' demo_request_header"
    "set [''X-Egress-Ip'', ''Set-Cookie''] = fmdom' demo_response_header"
    by (auto simp: demo_request_header_def demo_response_header_def)
  moreover have
    "map canonical_key [''Authorization'', ''Proxy-Authorization''] = [''Authorization'', ''Proxy-Authorization'']"
    "map canonical_key [''X-Egress-Ip'', ''Set-Cookie''] = [''X-Egress-Ip'', ''Set-Cookie'']"
    "''Authorization'' \<notin> set hopByHopHeaders" "\<not> isEgressHeader ''Authorization''"
    "fmlookup demo_request_header ''Authorization'' = Some [''Bearer t'']"
    "fm_get [] demo_response_header ''Authorization'' = []"
    by code_simp+
  moreover have "distinct [''X-Egress-Ip'', ''Set-Cookie'']" by simp
  ultimately show ?thesis
    using headers_in_transit [of "[''Authorization'', ''Proxy-Authorization'']" demo_request_header
        "[''X-Egress-Ip'', ''Set-Cookie'']" demo_response_header "''Authorization''"]
    by simp
qed

section \<open>Credentials on the wire\<close>

text \<open>What a client sends: \<open>base64\<close> with padding.\<close>

definition b64_char :: "nat \<Rightarrow> char" where
  "b64_char n = ''ABCDEFGHIJKLMNOPQRSTUVWXYZabcdefghijklmnopqrstuvwxyz0123456789+/'' ! n"

fun b64_encode :: "string \<Rightarrow> string" where
  "b64_encode [] = []"
| "b64_encode [a] =
     (let x = of_char a in [b64_char (x div 4), b64_char (x mod 4 * 16), CHR ''='', CHR ''=''])"
| "b64_encode [a, b] =
     (let x = of_char a; y = of_char b
      in [b64_char (x div 4), b64_char (x mod 4 * 16 + y div 16), b64_char (y mod 16 * 4), CHR ''=''])"
| "b64_encode (a # b # c # s) =
     (let x = of_char a; y = of_char b; z = of_char c
      in b64_char (x div 4) # b64_char (x mod 4 * 16 + y div 16) #
         b64_char (y mod 16 * 4 + z div 64) # b64_char (z mod 64) # b64_encode s)"

definition b64_text :: "string \<Rightarrow> bool" where
  "b64_text s \<longleftrightarrow> list_all (\<lambda>c. \<not> is_space c) s"

lemma b64_char_val: "n < 64 \<Longrightarrow> b64_val (b64_char n) = Some n \<and> b64_char n \<noteq> CHR ''='' \<and> \<not> is_space (b64_char n)"
proof -
  have "list_all (\<lambda>n. b64_val (b64_char n) = Some n \<and> b64_char n \<noteq> CHR ''='' \<and> \<not> is_space (b64_char n)) [0..<64]"
    by code_simp
  then show "n < 64 \<Longrightarrow> ?thesis" by (simp add: list_all_iff)
qed

lemma char_byte: "(of_char c :: nat) < 256"
  using nat_of_char_less_256 [of c] by simp

lemma b64_bytes:
  fixes x y z :: nat
  assumes "x < 256" and "y < 256" and "z < 256"
  shows "be_bytes 3 (b64_quad (x div 4) (x mod 4 * 16 + y div 16) (y mod 16 * 4 + z div 64) (z mod 64)) =
     [char_of x, char_of y, char_of z]"
proof -
  have "((a * 64 + (b * 16 + c)) * 64 + (d * 4 + e)) * 64 + f =
      ((4 * a + b) * 256 + (16 * c + d)) * 256 + (64 * e + f)" for a b c d e f :: nat
    by (simp add: algebra_simps)
  from this [of "x div 4" "x mod 4" "y div 16" "y mod 16" "z div 64" "z mod 64"]
  have "b64_quad (x div 4) (x mod 4 * 16 + y div 16) (y mod 16 * 4 + z div 64) (z mod 64) = (x * 256 + y) * 256 + z"
    by (simp only: b64_quad_def mult_div_mod_eq)
  moreover have "(a * 256 + b) div 256 = a" "(a * 256 + b) mod 256 = b" if "b < 256" for a b :: nat
    using that by simp_all
  from this [OF assms(3)] this [OF assms(2)] have "be_bytes 3 ((x * 256 + y) * 256 + z) =
      [char_of (x mod 256), char_of y, char_of z]"
    by (simp only: numeral_3_eq_3 be_bytes.simps append_Nil append_Cons)
  ultimately show ?thesis using assms(1) by simp
qed

lemma b64_bytes_1:
  assumes "x < 256"
  shows "take 1 (be_bytes 3 (b64_quad (x div 4) (x mod 4 * 16) 0 0)) = [char_of x]"
  using b64_bytes [OF assms, of 0 0] by simp

lemma b64_bytes_2:
  assumes "x < 256" and "y < 256"
  shows "take 2 (be_bytes 3 (b64_quad (x div 4) (x mod 4 * 16 + y div 16) (y mod 16 * 4) 0)) = [char_of x, char_of y]"
  using b64_bytes [OF assms, of 0] by simp

lemma b64_sizes:
  assumes "x < 256" and "y < 256" and "z < 256"
  shows "x div 4 < (64 :: nat)" "x mod 4 * 16 < (64 :: nat)" "x mod 4 * 16 + y div 16 < (64 :: nat)"
    "y mod 16 * 4 < (64 :: nat)" "y mod 16 * 4 + z div 64 < (64 :: nat)" "z mod 64 < (64 :: nat)"
proof -
  have "x mod 4 < 4" "y mod 16 < 16" "z mod 64 < 64" by simp_all
  then show "x div 4 < 64" "x mod 4 * 16 < 64" "x mod 4 * 16 + y div 16 < 64"
    "y mod 16 * 4 < 64" "y mod 16 * 4 + z div 64 < 64" "z mod 64 < 64"
    using assms by linarith+
qed

lemma b64_encode_decodes: "b64_groups (b64_encode s) = Some s \<and> b64_text (b64_encode s)"
proof (induction s rule: b64_encode.induct)
  case (2 a)
  note z = b64_sizes [OF char_byte [of a] char_byte [of a] char_byte [of a]]
  show ?case
    using b64_char_val [OF z(1)] b64_char_val [OF z(2)] b64_bytes_1 [OF char_byte [of a]]
    by (simp add: Let_def b64_text_def is_space_def del: be_bytes.simps)
next
  case (3 a b)
  note z = b64_sizes [OF char_byte [of a] char_byte [of b] char_byte [of a]]
  show ?case
    using b64_char_val [OF z(1)] b64_char_val [OF z(3)] b64_char_val [OF z(4)]
      b64_bytes_2 [OF char_byte [of a] char_byte [of b]]
    by (simp add: Let_def b64_text_def is_space_def del: be_bytes.simps)
next
  case (4 a b c s)
  note z = b64_sizes [OF char_byte [of a] char_byte [of b] char_byte [of c]]
  show ?case
    using b64_char_val [OF z(1)] b64_char_val [OF z(3)] b64_char_val [OF z(5)] b64_char_val [OF z(6)]
      b64_bytes [OF char_byte [of a] char_byte [of b] char_byte [of c]] 4
    by (simp add: Let_def b64_text_def del: be_bytes.simps)
qed (simp add: b64_text_def)

lemma b64_decode_encode: "b64_decode (b64_encode s) = Some s"
proof -
  have "filter (\<lambda>c. c \<notin> {CHR 0x0D, CHR 0x0A}) (b64_encode s) = b64_encode s"
  proof -
    have "is_space CHR 0x0D" "is_space CHR 0x0A" by code_simp+
    then show ?thesis
      using b64_encode_decodes [of s] by (auto simp: filter_id_conv b64_text_def list_all_iff)
  qed
  then show ?thesis using b64_encode_decodes [of s] by (simp add: b64_decode_def)
qed

lemma trim_b64: "trim_space (b64_encode s) = b64_encode s"
proof -
  have t: "trim_left w = w" if "b64_text w" for w
    using that by (cases w) (auto simp: trim_left_def b64_text_def)
  have "b64_text (rev (b64_encode s))" using b64_encode_decodes [of s] by (simp add: b64_text_def)
  then show ?thesis
    using t [of "b64_encode s"] t [of "rev (b64_encode s)"] b64_encode_decodes [of s]
    by (simp add: trim_space_def)
qed

lemma proxyCredentials_reads:
  assumes "header_get h ''Proxy-Authorization'' = scheme @ CHR '' '' # b64_encode (user @ CHR '':'' # pass)"
    and "equal_fold scheme ''Basic''" and "CHR '':'' \<notin> set user"
  shows "proxyCredentials h = (user, pass, True)"
proof -
  have b: "to_lower ''Basic'' = ''basic''" "lower_char CHR '' '' = CHR '' ''" by code_simp+
  have "lower_char CHR '' '' \<in> set (to_lower scheme)" if "CHR '' '' \<in> set scheme"
    using that unfolding to_lower_def by (simp only: list.set_map) (rule imageI)
  then have "CHR '' '' \<notin> set scheme"
    using assms(2) b by (auto simp: equal_fold_def)
  then show ?thesis
    using assms by (simp add: proxyCredentials_def cut_append trim_b64 b64_decode_encode)
qed

text \<open>
  The credentials of a proxy request arrive as they were sent. A client on the list that sends \<open>Basic\<close>
  credentials, in any spelling of the scheme and with any bytes in the password, is judged by
  \<open>authorize\<close> on exactly its user name and password, and only what \<open>authorize\<close> accepts is tunnelled or
  forwarded, under the policy it parsed.
\<close>

theorem http_credentials:
  assumes "header_get (rq_Header r) ''Proxy-Authorization'' =
      scheme @ CHR '' '' # b64_encode (user @ CHR '':'' # pass)"
    and "equal_fold scheme ''Basic''" and "CHR '':'' \<notin> set user"
    and "addrFromString (rq_RemoteAddr r) = Some remote" and "checkClient d remote = None"
  shows "http_decide d r =
     (case authorize d user pass True of
        Inl (BadPolicy _) \<Rightarrow> Refuse (Status 400)
      | Inl _ \<Rightarrow> Refuse AuthRequired
      | Inr pol \<Rightarrow>
          if rq_Method r = ''CONNECT'' then Tunnel pol
          else if rq_IsAbs r then Forward pol else Refuse (Status 400))"
  using proxyCredentials_reads [OF assms(1,2,3)] assms(4,5)
  by (auto simp: http_decide_def split: sum.split auth_error.split)

definition demo_connect :: request where
  "demo_connect = \<lparr>rq_Method = ''CONNECT'', rq_Host = ''h.net:443'', rq_RemoteAddr = ''10.0.0.9:5000'',
     rq_IsAbs = False, rq_Scheme = [], rq_URLHost = [],
     rq_Header = fmap_of_list [(''Proxy-Authorization'', [''bAsIc Y2M9anA6c2VjcmV0''])]\<rparr>"

theorem http_credentials_witness:
  "\<exists>pol. authorize demo_deps ''cc=jp'' ''secret'' True = Inr pol \<and> http_decide demo_deps demo_connect = Tunnel pol"
proof -
  have f: "header_get (rq_Header demo_connect) ''Proxy-Authorization'' =
      ''bAsIc'' @ CHR '' '' # b64_encode (''cc=jp'' @ CHR '':'' # ''secret'')"
    "equal_fold ''bAsIc'' ''Basic''" "CHR '':'' \<notin> set ''cc=jp''"
    "addrFromString (rq_RemoteAddr demo_connect) = Some ''10.0.0.9:5000''"
    "checkClient demo_deps ''10.0.0.9:5000'' = None"
    by code_simp+
  have "is_ok (authorize demo_deps ''cc=jp'' ''secret'' True)" "rq_Method demo_connect = ''CONNECT''"
    by code_simp+
  moreover from this(1) obtain pol where "authorize demo_deps ''cc=jp'' ''secret'' True = Inr pol"
    unfolding is_ok_iff by blast
  ultimately show ?thesis using http_credentials [OF f] by simp
qed

section \<open>Sessions\<close>

lemma handleConnect_conn:
  assumes "\<And>i. i \<in> set (mt_attempts m) \<Longrightarrow> honest_draws i"
  shows "conn (snd (handleConnect d m hj r pol p)) = conn p"
proof (cases "splitTargetHostPort (rq_Host r) 443")
  case (Inr hp)
  obtain host port where hp: "hp = (host, port)" by fastforce
  obtain res q where cu: "connectUpstream d (mt_attempts m) pol host port p = (res, q)" by fastforce
  have cc: "case res of Inl e \<Rightarrow> conn q = conn p
      | Inr (c, l) \<Rightarrow> conn q = lease_conn (l_state l) (conn p) \<and> \<not> l_released l"
    by (rule connectUpstream_conn [OF cu assms])
  show ?thesis
  proof (cases res)
    case (Inl e)
    then show ?thesis using Inr hp cu cc by (simp add: handleConnect_def)
  next
    case r: (Inr ul)
    obtain up l where ul: "ul = (up, l)" by fastforce
    have gone: "conn (snd (Release t l q')) = conn p" if "conn q' = conn q" for t q'
      using Release_back [of q' l "conn p"] cc r ul that by simp
    show ?thesis
    proof (cases hj)
      case (Hijacked client n failed)
      obtain rw c where "writeConnectEstablished l pol client = (rw, c)" by fastforce
      then show ?thesis
        using Inr hp cu r ul Hijacked by (cases rw) (simp_all add: handleConnect_def Let_def gone)
    qed (use Inr hp cu r ul in \<open>simp_all add: handleConnect_def Let_def gone\<close>)
  qed
qed (simp add: handleConnect_def)

lemma handleForward_conn:
  assumes "\<And>i n. 0 < n \<Longrightarrow> in_rnd (acq i) n < n"
  shows "conn (snd (handleForward d m acq tr ik ok r pol p)) = conn p"
proof (cases "splitTargetHostPort (rq_URLHost r) (forwardDefaultPort (rq_Scheme r))")
  case (Inr hp)
  obtain host port where hp: "hp = (host, port)" by fastforce
  obtain res q where ac: "Acquire acq pol host p = (Some res, q)" using Acquire_returns by blast
  note cc = Acquire_conn [OF assms ac]
  show ?thesis
  proof (cases res)
    case (Inl e)
    then show ?thesis using Inr hp ac cc by (simp add: handleForward_def)
  next
    case got: (Inr l)
    have gone: "conn (snd (Release t l q')) = conn p" if "conn q' = conn q" for t q'
      using Release_back [of q' l "conn p"] cc got that by simp
    show ?thesis
      using Inr hp ac got
      by (cases "tr (outbound_header ik (rq_Header r))") (simp_all add: handleForward_def Let_def gone)
  qed
qed (simp add: handleForward_def)

text \<open>
  C26: a request to the HTTP proxy, tunnelled or forwarded, leaves no connection counted in the pool
  once its handler returns, whatever fails on the way; and a forward to a port or host the guard
  denies is answered with 403 before the pool is touched at all.
\<close>

theorem http_session_balance:
  assumes "\<And>i. i \<in> set (mt_attempts m) \<Longrightarrow> honest_draws i" and "\<And>i n. 0 < n \<Longrightarrow> in_rnd (acq i) n < n"
  shows "conn (snd (handleConnect d m hj r pol p)) = conn p \<and>
     conn (snd (handleForward d m acq tr ik ok r pol p)) = conn p \<and>
     (\<forall>host port. forwardSchemeSupported (rq_Scheme r) \<and>
        splitTargetHostPort (rq_URLHost r) (forwardDefaultPort (rq_Scheme r)) = Inr (host, port) \<and>
        (CheckPort (dp_Guard d) port \<noteq> None \<or> CheckHost (dp_Guard d) host \<noteq> None) \<longrightarrow>
        handleForward d m acq tr ik ok r pol p = (Status 403, p))"
proof (intro conjI)
  show "conn (snd (handleConnect d m hj r pol p)) = conn p" by (rule handleConnect_conn [OF assms(1)])
  show "conn (snd (handleForward d m acq tr ik ok r pol p)) = conn p"
    by (rule handleForward_conn [OF assms(2)])
qed (auto simp: handleForward_def)

theorem http_session_balance_witness:
  "conn (snd (handleConnect demo_deps demo_meeting HijackFailed demo_connect no_policy demo_pool)) = conn demo_pool"
proof -
  have "i \<in> set (mt_attempts demo_meeting) \<Longrightarrow> honest_draws i" for i
    by (simp add: demo_meeting_def honest_draws_def demo_attempt_def demo_input_def)
  moreover have "0 < n \<Longrightarrow> in_rnd (demo_input i) n < n" for i n
    by (simp add: demo_input_def)
  ultimately show ?thesis by (rule http_session_balance [THEN conjunct1])
qed

end
