(* ===== verification/Config.thy ===== *)
theory Config
  imports Paths Netguard Proxy
begin

text \<open>
  \<open>internal/config\<close>: the configuration, its providers, its validation, and what \<open>cmd/global-egress/serve.go\<close>
  makes of it for the pool and the proxies. The TOML decoder, the parser of URLs and the file system
  are arguments: \<open>decode\<close> gives the decoded document over the defaults with the number of unknown keys,
  \<open>parse_url\<close> the parts of a URL, \<open>files\<close> the content of a file. The strings of the error messages are
  kept without the values they quote.
\<close>

section \<open>The configuration\<close>

text \<open>\<open>Mode\<close>, \<open>ProviderType\<close> and the levels of the log are strings in the file and stay strings.\<close>

definition ModeWireGuard :: string where "ModeWireGuard = ''wireguard''"
definition ModeRelaySocks :: string where "ModeRelaySocks = ''relay-socks''"
definition ProviderMullvad :: string where "ProviderMullvad = ''mullvad''"
definition ProviderSOCKS5 :: string where "ProviderSOCKS5 = ''socks5''"

record relay_config =
  rc_URL :: string
  rc_Cache :: string
  rc_Refresh :: duration

record entry_config =
  ec_Slots :: "string list"
  ec_Auto :: int

record listen_config =
  ls_SOCKS5 :: string
  ls_HTTP :: string
  ls_Control :: string

record access_config =
  ac_AllowedClients :: "string list"
  ac_Password :: string
  ac_PasswordFile :: string
  ac_RequireAuth :: bool
  ac_RequirePolicy :: bool
  ac_ControlToken :: string
  ac_ControlTokenFile :: string

record pool_config =
  pc_MaxActive :: int
  pc_Preopen :: int
  pc_MaxConnsPerExit :: int
  pc_MaxConcurrentConns :: int
  pc_SessionTTL :: duration
  pc_MaxSessionTTL :: duration
  pc_MaxSessions :: int
  pc_BatchTTL :: duration
  pc_MaxBatchTTL :: duration
  pc_MaxUniqueBatches :: int
  pc_Cooldown :: duration
  pc_PreferredTTL :: duration
  pc_PreferredMax :: int
  pc_IdleTimeout :: duration
  pc_HandshakeTimeout :: duration
  pc_DialAttempts :: int
  pc_FailureBackoff :: duration
  pc_NewTunnelsPerWindow :: int
  pc_NewTunnelWindow :: duration
  pc_EntryExploreRate :: rat
  pc_StableEntryRouting :: bool
  pc_DialTimeout :: duration
  pc_RelayIdleTimeout :: duration
  pc_IPCheckURL :: string
  pc_IPCheckTimeout :: duration
  pc_IPRefreshInterval :: duration
  pc_IPCheckConcurrency :: int

record destination_config =
  dc_DeniedCIDRs :: "string list option"
  dc_AllowedPorts :: "int list"

record mullvad_config =
  mc_Catalog :: string
  mc_Relays :: relay_config
  mc_Entries :: entry_config

text \<open>The parts of a \<open>*url.URL\<close>; the password of the user may be missing.\<close>

record url =
  u_Scheme :: string
  u_User :: "(string \<times> string option) option"
  u_Host :: string
  u_Path :: string
  u_RawQuery :: string
  u_Fragment :: string

record provider =
  pv_type :: string
  pv_enabled :: bool
  pv_id :: string
  pv_country :: string
  pv_city :: string
  pv_sessions :: int
  pv_proxyURL :: "url option"
  pv_mullvad :: "mullvad_config option"

record config =
  cf_Mode :: string
  cf_Relays :: relay_config
  cf_Entries :: entry_config
  cf_CatalogPath :: string
  cf_providers :: "provider list"
  cf_Listen :: listen_config
  cf_Access :: access_config
  cf_Pool :: pool_config
  cf_Destinations :: destination_config
  cf_StateDir :: string
  cf_LogLevel :: string
  cf_LogFormat :: string

datatype config_error = ConfigError string | BadGuard guard_error

definition no_provider :: provider where
  "no_provider = \<lparr>pv_type = [], pv_enabled = False, pv_id = [], pv_country = [], pv_city = [],
     pv_sessions = 0, pv_proxyURL = None, pv_mullvad = None\<rparr>"

definition Default :: config where
  "Default =
     \<lparr>cf_Mode = ModeRelaySocks,
      cf_Relays = \<lparr>rc_URL = ''https://api.mullvad.net/www/relays/wireguard/'', rc_Cache = ''relays.json'',
        rc_Refresh = 24 * hour\<rparr>,
      cf_Entries = \<lparr>ec_Slots = [], ec_Auto = 2\<rparr>,
      cf_CatalogPath = [],
      cf_providers = [no_provider\<lparr>pv_type := ProviderMullvad, pv_enabled := True, pv_id := ''mullvad''\<rparr>],
      cf_Listen = \<lparr>ls_SOCKS5 = ''127.0.0.1:1080'', ls_HTTP = ''127.0.0.1:3128'', ls_Control = ''127.0.0.1:8080''\<rparr>,
      cf_Access = \<lparr>ac_AllowedClients = [''127.0.0.1/32'', ''::1/128''], ac_Password = [], ac_PasswordFile = [],
        ac_RequireAuth = False, ac_RequirePolicy = False, ac_ControlToken = [], ac_ControlTokenFile = []\<rparr>,
      cf_Pool = \<lparr>pc_MaxActive = 25, pc_Preopen = 0, pc_MaxConnsPerExit = 8, pc_MaxConcurrentConns = 256,
        pc_SessionTTL = 10 * minute, pc_MaxSessionTTL = 24 * hour, pc_MaxSessions = 10000,
        pc_BatchTTL = 15 * minute, pc_MaxBatchTTL = 15 * minute, pc_MaxUniqueBatches = 10000,
        pc_Cooldown = 15 * minute, pc_PreferredTTL = 30 * minute, pc_PreferredMax = 8,
        pc_IdleTimeout = 10 * minute, pc_HandshakeTimeout = 12 * second, pc_DialAttempts = 3,
        pc_FailureBackoff = 30 * second, pc_NewTunnelsPerWindow = 120, pc_NewTunnelWindow = 10 * minute,
        pc_EntryExploreRate = 0, pc_StableEntryRouting = False, pc_DialTimeout = 30 * second,
        pc_RelayIdleTimeout = 5 * minute, pc_IPCheckURL = ''https://am.i.mullvad.net/ip'',
        pc_IPCheckTimeout = 15 * second, pc_IPRefreshInterval = 6 * hour, pc_IPCheckConcurrency = 4\<rparr>,
      cf_Destinations = \<lparr>dc_DeniedCIDRs = None, dc_AllowedPorts = []\<rparr>,
      cf_StateDir = ''/var/lib/global-egress'', cf_LogLevel = ''info'', cf_LogFormat = ''text''\<rparr>"

section \<open>Providers\<close>

record raw_socks5 =
  r5_URL :: string
  r5_Country :: string
  r5_City :: string
  r5_Sessions :: int

record raw_provider =
  rp_Type :: string
  rp_Enabled :: "bool option"
  rp_ID :: string
  rp_Catalog :: "string option"
  rp_Relays :: "relay_config option"
  rp_Entries :: "entry_config option"
  rp_SOCKS5 :: "raw_socks5 option"

definition is_lower :: "char \<Rightarrow> bool" where
  "is_lower c \<longleftrightarrow> CHR ''a'' \<le> c \<and> c \<le> CHR ''z''"

definition is_upper :: "char \<Rightarrow> bool" where
  "is_upper c \<longleftrightarrow> CHR ''A'' \<le> c \<and> c \<le> CHR ''Z''"

definition isProviderToken :: "string \<Rightarrow> bool" where
  "isProviderToken v \<longleftrightarrow>
     v \<noteq> [] \<and> length v \<le> 128 \<and>
     list_all (\<lambda>c. is_lower c \<or> is_upper c \<or> is_digit c \<or> c \<in> {CHR ''-'', CHR ''_'', CHR ''.''}) v"

definition isProviderCountry :: "string \<Rightarrow> bool" where
  "isProviderCountry v \<longleftrightarrow> length v = 2 \<and> list_all is_lower v"

definition parseSOCKS5Provider ::
  "(string \<Rightarrow> url option) \<Rightarrow> raw_socks5 \<Rightarrow> config_error + string \<times> string \<times> int \<times> url" where
  "parseSOCKS5Provider parse_url entry =
     (case parse_url (r5_URL entry) of
        None \<Rightarrow> Inl (ConfigError ''socks5 provider url is invalid'')
      | Some u \<Rightarrow>
          if u_Scheme u \<noteq> ''socks5'' \<and> u_Scheme u \<noteq> ''socks5h'' \<or> u_Host u = [] \<or> u_Path u \<noteq> [] \<or>
             u_RawQuery u \<noteq> [] \<or> u_Fragment u \<noteq> [] \<or> u_User u = None
          then Inl (ConfigError ''socks5 provider url is invalid'')
          else
            let (username, password) = the (u_User u)
            in if username = [] \<or> password = None \<or> password = Some []
               then Inl (ConfigError ''socks5 provider url needs username and password'')
               else
                 (case split_host_port (u_Host u) of
                    None \<Rightarrow> Inl (ConfigError ''socks5 provider url needs a host and port'')
                  | Some (_, port) \<Rightarrow>
                      if (case atoi port of None \<Rightarrow> True | Some n \<Rightarrow> n < 1 \<or> n > 65535)
                      then Inl (ConfigError ''socks5 provider url has an invalid port'')
                      else
                        let country = to_lower (r5_Country entry); city = to_lower (r5_City entry)
                        in if country \<noteq> [] \<and> \<not> isProviderCountry country
                           then Inl (ConfigError ''socks5 provider country is invalid'')
                           else if city \<noteq> [] \<and> \<not> isProviderToken city
                           then Inl (ConfigError ''socks5 provider city is invalid'')
                           else if r5_Sessions entry < 0 \<or> r5_Sessions entry > 10000
                           then Inl (ConfigError ''socks5 provider sessions must be between 0 and 10000'')
                           else Inr (country, city, r5_Sessions entry, u)))"

text \<open>One provider; the flag tells whether a Mullvad provider has been seen.\<close>

definition normalizeProvider ::
  "(string \<Rightarrow> url option) \<Rightarrow> bool \<Rightarrow> raw_provider \<Rightarrow> config_error + provider" where
  "normalizeProvider parse_url mullvadSeen entry =
     (let p = no_provider\<lparr>pv_id := rp_ID entry, pv_enabled := the (rp_Enabled entry), pv_type := rp_Type entry\<rparr>
      in if rp_Type entry = ProviderMullvad then
           (if mullvadSeen then Inl (ConfigError ''only one Mullvad provider is supported'')
            else case (rp_Catalog entry, rp_Relays entry, rp_Entries entry) of
                   (Some c, Some r, Some e) \<Rightarrow>
                     Inr (p\<lparr>pv_mullvad := Some \<lparr>mc_Catalog = c, mc_Relays = r, mc_Entries = e\<rparr>\<rparr>)
                 | _ \<Rightarrow> Inl (ConfigError ''Mullvad provider needs catalog, relays, and entries''))
         else if rp_Type entry = ProviderSOCKS5 then
           (case rp_SOCKS5 entry of
              None \<Rightarrow> Inl (ConfigError ''socks5 provider needs socks5 settings'')
            | Some s \<Rightarrow>
                (case parseSOCKS5Provider parse_url s of
                   Inl e \<Rightarrow> Inl e
                 | Inr (country, city, sessions, u) \<Rightarrow>
                     Inr (p\<lparr>pv_country := country, pv_city := city, pv_sessions := sessions,
                            pv_proxyURL := Some u\<rparr>)))
         else Inl (ConfigError ''unsupported provider type''))"

fun normalize_loop ::
  "(string \<Rightarrow> url option) \<Rightarrow> string list \<Rightarrow> bool \<Rightarrow> raw_provider list \<Rightarrow> config_error + provider list" where
  "normalize_loop parse_url seen mullvadSeen [] = Inr []"
| "normalize_loop parse_url seen mullvadSeen (entry # raw) =
     (if rp_Enabled entry = None then Inl (ConfigError ''provider enabled is required'')
      else if rp_ID entry = [] \<or> \<not> isProviderToken (rp_ID entry) then Inl (ConfigError ''provider id is invalid'')
      else if rp_ID entry \<in> set seen then Inl (ConfigError ''duplicate provider id'')
      else
        case normalizeProvider parse_url mullvadSeen entry of
          Inl e \<Rightarrow> Inl e
        | Inr p \<Rightarrow>
            (case normalize_loop parse_url (rp_ID entry # seen)
                    (mullvadSeen \<or> rp_Type entry = ProviderMullvad) raw of
               Inl e \<Rightarrow> Inl e
             | Inr ps \<Rightarrow> Inr (p # ps)))"

definition normalizeProviders ::
  "(string \<Rightarrow> url option) \<Rightarrow> raw_provider list \<Rightarrow> config_error + provider list" where
  "normalizeProviders parse_url raw =
     (if raw = [] then Inl (ConfigError ''providers must contain at least one provider'')
      else
        case normalize_loop parse_url [] False raw of
          Inl e \<Rightarrow> Inl e
        | Inr ps \<Rightarrow>
            if list_ex pv_enabled ps then Inr ps
            else Inl (ConfigError ''providers needs an enabled provider''))"

definition Mullvad :: "provider \<Rightarrow> mullvad_config option" where
  "Mullvad p = pv_mullvad p"

section \<open>Validation\<close>

definition mullvadEnabled :: "config \<Rightarrow> bool" where
  "mullvadEnabled c = list_ex (\<lambda>p. pv_enabled p \<and> pv_type p = ProviderMullvad) (cf_providers c)"

fun parse_clients :: "string list \<Rightarrow> config_error + prefix list" where
  "parse_clients [] = Inr []"
| "parse_clients (raw # raws) =
     (case parse_prefix (trim_space raw) of
        None \<Rightarrow> Inl (ConfigError ''invalid access.allowed_clients entry'')
      | Some p \<Rightarrow> (case parse_clients raws of Inl e \<Rightarrow> Inl e | Inr ps \<Rightarrow> Inr (masked p # ps)))"

definition AllowedClientPrefixes :: "config \<Rightarrow> config_error + prefix list" where
  "AllowedClientPrefixes c = parse_clients (ac_AllowedClients (cf_Access c))"

definition left_of :: "'e + 'a \<Rightarrow> 'e \<Rightarrow> 'e" where
  "left_of r d = (case r of Inl e \<Rightarrow> e | Inr _ \<Rightarrow> d)"

definition Validate :: "config \<Rightarrow> config_error option" where
  "Validate c =
     (let p = cf_Pool c;
          clients = AllowedClientPrefixes c;
          guard = new_guard (dc_DeniedCIDRs (cf_Destinations c)) (dc_AllowedPorts (cf_Destinations c))
      in first_problem
        [(cf_providers c = [], ConfigError ''providers must contain at least one provider''),
         (cf_Mode c \<noteq> ModeWireGuard \<and> cf_Mode c \<noteq> ModeRelaySocks, ConfigError ''mode''),
         (cf_Mode c = ModeRelaySocks \<and> mullvadEnabled c \<and> ec_Slots (cf_Entries c) = [] \<and>
            ec_Auto (cf_Entries c) \<le> 0, ConfigError ''relay-socks mode needs entries.slots or entries.auto''),
         (cf_Mode c = ModeRelaySocks \<and> rc_Refresh (cf_Relays c) < 0,
            ConfigError ''relays.refresh must not be negative''),
         (ls_SOCKS5 (cf_Listen c) = [] \<and> ls_HTTP (cf_Listen c) = [],
            ConfigError ''at least one of listen.socks5 or listen.http must be set''),
         (\<not> is_ok clients, left_of clients (ConfigError [])),
         (ac_RequireAuth (cf_Access c) \<and> trim_space (ac_Password (cf_Access c)) = [],
            ConfigError ''access.require_auth needs a non-empty password''),
         (\<not> is_ok guard, BadGuard (left_of guard InvalidAddress)),
         (pc_MaxActive p < 0, ConfigError ''pool.max_active must not be negative''),
         (pc_Preopen p < 0, ConfigError ''pool.preopen must not be negative''),
         (pc_MaxConnsPerExit p < 0, ConfigError ''pool.max_conns_per_exit must not be negative''),
         (pc_MaxConcurrentConns p < 0, ConfigError ''pool.max_concurrent_conns must not be negative''),
         (pc_MaxUniqueBatches p \<le> 0, ConfigError ''pool.max_unique_batches must be positive''),
         (pc_MaxSessions p \<le> 0, ConfigError ''pool.max_sessions must be positive''),
         (pc_SessionTTL p \<le> 0, ConfigError ''pool.session_ttl must be positive''),
         (pc_MaxSessionTTL p < pc_SessionTTL p,
            ConfigError ''pool.max_session_ttl must be at least pool.session_ttl''),
         (pc_BatchTTL p \<le> 0, ConfigError ''pool.batch_ttl must be positive''),
         (pc_MaxBatchTTL p < pc_BatchTTL p, ConfigError ''pool.max_batch_ttl must be at least pool.batch_ttl''),
         (pc_EntryExploreRate p < 0 \<or> pc_EntryExploreRate p \<ge> 1,
            ConfigError ''pool.entry_explore_rate must be in [0, 1)''),
         (pc_NewTunnelsPerWindow p < 0, ConfigError ''pool.new_tunnels_per_window must not be negative''),
         (pc_NewTunnelWindow p < 0, ConfigError ''pool.new_tunnel_window must not be negative''),
         (pc_MaxActive p > 0 \<and> pc_Preopen p > pc_MaxActive p, ConfigError ''pool.preopen exceeds pool.max_active''),
         (to_lower (cf_LogLevel c) \<notin> {''debug'', ''info'', ''warn'', ''error''}, ConfigError ''log.level''),
         (to_lower (cf_LogFormat c) \<notin> {''text'', ''json''}, ConfigError ''log.format'')])"

section \<open>Loading\<close>

definition resolvePath :: "string \<Rightarrow> string \<Rightarrow> string" where
  "resolvePath baseDir path = (if path = [] \<or> isAbs path then path else path_join baseDir path)"

definition readSecret :: "(string \<Rightarrow> string option) \<Rightarrow> string \<Rightarrow> config_error + string" where
  "readSecret files path =
     (case files path of None \<Rightarrow> Inl (ConfigError ''read secret'') | Some raw \<Rightarrow> Inr (trim_space raw))"

text \<open>A secret is read from its file when one is named, and kept as it is otherwise.\<close>

definition secret_from :: "(string \<Rightarrow> string option) \<Rightarrow> string \<Rightarrow> string \<Rightarrow> string \<Rightarrow> config_error + string" where
  "secret_from files baseDir path old =
     (if path \<noteq> [] then readSecret files (resolvePath baseDir path) else Inr old)"

definition finalize :: "(string \<Rightarrow> string option) \<Rightarrow> string \<Rightarrow> config \<Rightarrow> config_error + config" where
  "finalize files baseDir c =
     (let a = cf_Access c
      in case secret_from files baseDir (ac_PasswordFile a) (ac_Password a) of
           Inl e \<Rightarrow> Inl e
         | Inr password \<Rightarrow>
             (case secret_from files baseDir (ac_ControlTokenFile a) (ac_ControlToken a) of
                Inl e \<Rightarrow> Inl e
              | Inr token \<Rightarrow>
                  let c = c\<lparr>cf_Access := a\<lparr>ac_Password := password, ac_ControlToken := token\<rparr>,
                            cf_CatalogPath := resolvePath baseDir (cf_CatalogPath c),
                            cf_StateDir := resolvePath baseDir (cf_StateDir c)\<rparr>
                  in (case Validate c of Some e \<Rightarrow> Inl e | None \<Rightarrow> Inr c)))"

record raw_config =
  rw_Mode :: string
  rw_Listen :: listen_config
  rw_Access :: access_config
  rw_Pool :: pool_config
  rw_Destinations :: destination_config
  rw_StateDir :: string
  rw_LogLevel :: string
  rw_LogFormat :: string
  rw_Providers :: "raw_provider list"

definition raw_defaults :: raw_config where
  "raw_defaults =
     \<lparr>rw_Mode = cf_Mode Default, rw_Listen = cf_Listen Default, rw_Access = cf_Access Default,
      rw_Pool = cf_Pool Default, rw_Destinations = cf_Destinations Default, rw_StateDir = cf_StateDir Default,
      rw_LogLevel = cf_LogLevel Default, rw_LogFormat = cf_LogFormat Default, rw_Providers = []\<rparr>"

text \<open>The settings of the Mullvad provider, the first provider of this type, enabled or not.\<close>

definition adopt_mullvad :: "provider list \<Rightarrow> config \<Rightarrow> config" where
  "adopt_mullvad ps c =
     (case find (\<lambda>p. pv_type p = ProviderMullvad) ps of
        None \<Rightarrow> c
      | Some p \<Rightarrow>
          (case Mullvad p of
             None \<Rightarrow> c
           | Some m \<Rightarrow> c\<lparr>cf_CatalogPath := mc_Catalog m, cf_Relays := mc_Relays m, cf_Entries := mc_Entries m\<rparr>))"

definition Load ::
  "(string \<Rightarrow> string option) \<Rightarrow> (string \<Rightarrow> raw_config \<Rightarrow> (raw_config \<times> nat) option) \<Rightarrow> (string \<Rightarrow> url option)
     \<Rightarrow> string \<Rightarrow> config_error + config" where
  "Load files decode parse_url path =
     (case files path of
        None \<Rightarrow> Inl (ConfigError ''read'')
      | Some raw \<Rightarrow>
          (case decode raw raw_defaults of
             None \<Rightarrow> Inl (ConfigError ''parse'')
           | Some (inp, undecoded) \<Rightarrow>
               if undecoded \<noteq> 0 then Inl (ConfigError ''unknown field'')
               else
                 (case normalizeProviders parse_url (rw_Providers inp) of
                    Inl e \<Rightarrow> Inl e
                  | Inr ps \<Rightarrow>
                      finalize files (path_dir path)
                        (adopt_mullvad ps
                          (Default\<lparr>cf_Mode := rw_Mode inp, cf_providers := ps, cf_Listen := rw_Listen inp,
                             cf_Access := rw_Access inp, cf_Pool := rw_Pool inp,
                             cf_Destinations := rw_Destinations inp, cf_StateDir := rw_StateDir inp,
                             cf_LogLevel := rw_LogLevel inp, cf_LogFormat := rw_LogFormat inp\<rparr>)))))"

definition RelayCachePath :: "config \<Rightarrow> string" where
  "RelayCachePath c =
     (let cache = rc_Cache (cf_Relays c)
      in if cache = [] then [] else if isAbs cache then cache
         else if cf_StateDir c = [] then cache else path_join (cf_StateDir c) cache)"

definition InventoryPath :: "config \<Rightarrow> string" where
  "InventoryPath c = (if cf_StateDir c = [] then [] else path_join (cf_StateDir c) ''inventory.json'')"

section \<open>What the service makes of it\<close>

definition poolOptionsFrom :: "config \<Rightarrow> options" where
  "poolOptionsFrom c =
     (let p = cf_Pool c
      in \<lparr>MaxActive = pc_MaxActive p, MaxConnsPerExit = pc_MaxConnsPerExit p,
          MaxConcurrentConns = pc_MaxConcurrentConns p, SessionTTL = pc_SessionTTL p,
          MaxSessionTTL = pc_MaxSessionTTL p, MaxSessions = pc_MaxSessions p, BatchTTL = pc_BatchTTL p,
          MaxBatchTTL = pc_MaxBatchTTL p, MaxUniqueBatches = pc_MaxUniqueBatches p, Cooldown = pc_Cooldown p,
          PreferredTTL = pc_PreferredTTL p, PreferredMax = pc_PreferredMax p, IdleTimeout = pc_IdleTimeout p,
          HandshakeTimeout = pc_HandshakeTimeout p, DialAttempts = pc_DialAttempts p,
          FailureBackoff = pc_FailureBackoff p, NewTunnelBudget = pc_NewTunnelsPerWindow p,
          NewTunnelWindow = pc_NewTunnelWindow p, EntryExploreRate = pc_EntryExploreRate p,
          DisableEntryExploration = pc_StableEntryRouting p, IPCheckURL = pc_IPCheckURL p,
          IPCheckTimeout = pc_IPCheckTimeout p, IPRefreshInterval = pc_IPRefreshInterval p,
          IPCheckConcurrency = pc_IPCheckConcurrency p\<rparr>)"

definition proxyDepsFrom :: "guard \<Rightarrow> prefix list \<Rightarrow> config \<Rightarrow> deps" where
  "proxyDepsFrom g clients c =
     \<lparr>dp_Guard = g, dp_AllowedClients = clients, dp_Password = ac_Password (cf_Access c),
      dp_RequireAuth = ac_RequireAuth (cf_Access c), dp_RequirePolicy = ac_RequirePolicy (cf_Access c),
      dp_DialTimeout = pc_DialTimeout (cf_Pool c), dp_DialAttempts = pc_DialAttempts (cf_Pool c),
      dp_IdleTimeout = pc_RelayIdleTimeout (cf_Pool c)\<rparr>"

section \<open>Providers that are accepted\<close>

text \<open>A complete SOCKS5 URL, and settings in range.\<close>

definition socks5_ok :: "provider \<Rightarrow> bool" where
  "socks5_ok p \<longleftrightarrow>
     (\<exists>u user pass host port n. pv_proxyURL p = Some u \<and> (u_Scheme u = ''socks5'' \<or> u_Scheme u = ''socks5h'') \<and>
        u_User u = Some (user, Some pass) \<and> user \<noteq> [] \<and> pass \<noteq> [] \<and>
        split_host_port (u_Host u) = Some (host, port) \<and> atoi port = Some n \<and> 1 \<le> n \<and> n \<le> 65535) \<and>
     (pv_country p = [] \<or> isProviderCountry (pv_country p)) \<and>
     (pv_city p = [] \<or> isProviderToken (pv_city p)) \<and> 0 \<le> pv_sessions p \<and> pv_sessions p \<le> 10000"

definition provider_ok :: "provider \<Rightarrow> bool" where
  "provider_ok p \<longleftrightarrow>
     isProviderToken (pv_id p) \<and>
     (pv_type p = ProviderMullvad \<and> pv_mullvad p \<noteq> None \<or> pv_type p = ProviderSOCKS5 \<and> socks5_ok p)"

lemma parseSOCKS5_ok:
  assumes "parseSOCKS5Provider parse_url e = Inr (country, city, sessions, u)"
    and "pv_country p = country" and "pv_city p = city" and "pv_sessions p = sessions" and "pv_proxyURL p = Some u"
  shows "socks5_ok p"
proof -
  obtain v where v: "parse_url (r5_URL e) = Some v"
    using assms(1) by (auto simp: parseSOCKS5Provider_def split: option.splits)
  obtain user pw where user: "u_User v = Some (user, pw)"
    using assms(1) v by (cases "u_User v") (auto simp: parseSOCKS5Provider_def split: if_splits)
  obtain pass where pass: "pw = Some pass" "user \<noteq> []" "pass \<noteq> []"
    using assms(1) v user by (cases pw) (auto simp: parseSOCKS5Provider_def split: if_splits)
  obtain host port where hp: "split_host_port (u_Host v) = Some (host, port)"
    using assms(1) v user pass by (cases "split_host_port (u_Host v)") (auto simp: parseSOCKS5Provider_def split: if_splits)
  obtain n where n: "atoi port = Some n" "1 \<le> n" "n \<le> 65535"
    using assms(1) v user pass hp by (cases "atoi port") (auto simp: parseSOCKS5Provider_def split: if_splits)
  have "u = v" "u_Scheme v = ''socks5'' \<or> u_Scheme v = ''socks5h''"
    "pv_country p = [] \<or> isProviderCountry (pv_country p)" "pv_city p = [] \<or> isProviderToken (pv_city p)"
    "0 \<le> pv_sessions p" "pv_sessions p \<le> 10000"
    using assms v user pass hp n by (auto simp: parseSOCKS5Provider_def Let_def split: if_splits)
  then show ?thesis using assms(5) user pass hp n by (auto simp: socks5_ok_def)
qed

lemma normalizeProvider_ok:
  assumes "normalizeProvider parse_url seen e = Inr p" and "isProviderToken (rp_ID e)"
  shows "provider_ok p \<and> pv_id p = rp_ID e \<and> pv_type p = rp_Type e \<and> pv_enabled p = the (rp_Enabled e) \<and>
     \<not> (seen \<and> pv_type p = ProviderMullvad)"
  using assms
  by (auto simp: normalizeProvider_def provider_ok_def Let_def no_provider_def intro: parseSOCKS5_ok
      split: if_splits option.splits sum.splits prod.splits)

lemma normalize_loop_ok:
  assumes "normalize_loop parse_url used seen raw = Inr ps"
  shows "list_all provider_ok ps \<and> map pv_id ps = map rp_ID raw \<and> distinct (map pv_id ps) \<and>
     set used \<inter> set (map pv_id ps) = {} \<and> map (Some \<circ> pv_enabled) ps = map rp_Enabled raw \<and>
     length (filter (\<lambda>p. pv_type p = ProviderMullvad) ps) \<le> (if seen then 0 else 1)"
  using assms
proof (induction raw arbitrary: used seen ps)
  case (Cons e raw)
  then obtain p qs where p: "normalizeProvider parse_url seen e = Inr p" and ps: "ps = p # qs"
    and rest: "normalize_loop parse_url (rp_ID e # used) (seen \<or> rp_Type e = ProviderMullvad) raw = Inr qs"
    and e: "isProviderToken (rp_ID e)" "rp_ID e \<notin> set used" "rp_Enabled e \<noteq> None"
    by (auto split: if_splits sum.splits)
  note ih = Cons.IH [OF rest]
  have "rp_ID x \<in> pv_id ` set qs" if "x \<in> set raw" for x
    using ih that by (metis image_eqI image_set)
  then show ?case
    using ih normalizeProvider_ok [OF p e(1)] e(2,3) by (auto simp: ps split: if_splits)
qed simp

text \<open>
  What \<open>normalizeProviders\<close> accepts. The providers are the entries of the file in their order, each
  with a valid name of its own; at most one is Mullvad, with all its settings, at least one is enabled, and
  every SOCKS5 provider has a scheme, a user, a password and a port that can be dialled, and a number
  of sessions between 0 and 10000.
\<close>

theorem providers_accepted:
  assumes "normalizeProviders parse_url raw = Inr ps"
  shows "list_all provider_ok ps \<and> map pv_id ps = map rp_ID raw \<and> distinct (map pv_id ps) \<and>
     map (Some \<circ> pv_enabled) ps = map rp_Enabled raw \<and> (\<exists>p\<in>set ps. pv_enabled p) \<and>
     length (filter (\<lambda>p. pv_type p = ProviderMullvad) ps) \<le> 1"
  using assms normalize_loop_ok [of parse_url "[]" False raw ps]
  by (auto simp: normalizeProviders_def list_ex_iff split: if_splits sum.splits)

definition demo_url :: url where
  "demo_url = \<lparr>u_Scheme = ''socks5'', u_User = Some (''u'', Some ''p''), u_Host = ''h.net:1080'', u_Path = [],
     u_RawQuery = [], u_Fragment = []\<rparr>"

definition demo_raw_providers :: "raw_provider list" where
  "demo_raw_providers =
     [\<lparr>rp_Type = ''mullvad'', rp_Enabled = Some False, rp_ID = ''m'', rp_Catalog = Some ''cat'',
       rp_Relays = Some (cf_Relays Default), rp_Entries = Some (cf_Entries Default), rp_SOCKS5 = None\<rparr>,
      \<lparr>rp_Type = ''socks5'', rp_Enabled = Some True, rp_ID = ''ext'', rp_Catalog = None, rp_Relays = None,
       rp_Entries = None,
       rp_SOCKS5 = Some \<lparr>r5_URL = ''url'', r5_Country = ''JP'', r5_City = [], r5_Sessions = 2\<rparr>\<rparr>]"

theorem providers_accepted_witness:
  "\<exists>ps. normalizeProviders (\<lambda>_. Some demo_url) demo_raw_providers = Inr ps \<and> map pv_id ps = [''m'', ''ext'']"
proof -
  have "is_ok (normalizeProviders (\<lambda>_. Some demo_url) demo_raw_providers)" by code_simp
  then obtain ps where ps: "normalizeProviders (\<lambda>_. Some demo_url) demo_raw_providers = Inr ps"
    unfolding is_ok_iff by blast
  then show ?thesis using providers_accepted [OF ps] by (simp add: demo_raw_providers_def)
qed

section \<open>Limits\<close>

lemma Validate_None:
  assumes "Validate c = None"
  shows "cf_Mode c \<in> {ModeWireGuard, ModeRelaySocks}"
    and "ac_RequireAuth (cf_Access c) \<Longrightarrow> trim_space (ac_Password (cf_Access c)) \<noteq> []"
    and "0 \<le> pc_MaxActive (cf_Pool c)" and "0 \<le> pc_MaxConnsPerExit (cf_Pool c)"
    and "0 \<le> pc_MaxConcurrentConns (cf_Pool c)" and "0 < pc_MaxUniqueBatches (cf_Pool c)"
    and "0 < pc_MaxSessions (cf_Pool c)" and "0 < pc_SessionTTL (cf_Pool c)"
    and "pc_SessionTTL (cf_Pool c) \<le> pc_MaxSessionTTL (cf_Pool c)" and "0 < pc_BatchTTL (cf_Pool c)"
    and "pc_BatchTTL (cf_Pool c) \<le> pc_MaxBatchTTL (cf_Pool c)" and "0 \<le> pc_EntryExploreRate (cf_Pool c)"
    and "pc_EntryExploreRate (cf_Pool c) < 1" and "0 \<le> pc_NewTunnelsPerWindow (cf_Pool c)"
    and "0 \<le> pc_NewTunnelWindow (cf_Pool c)"
  using assms unfolding Validate_def Let_def first_problem_None by auto

text \<open>
  The limits an operator configures are the limits the pool enforces. For a configuration that passes
  validation, the defaults the pool applies on its own change none of the limits on tunnels, connections,
  sessions, batches and the tunnel rate, and the options are consistent: lifetimes are positive and below
  their caps, the exploration rate is a proper fraction, everything the pool divides by or waits for is positive.
\<close>

theorem limits_enforced:
  assumes "Validate c = None"
  shows "let p = cf_Pool c; opts = applyDefaults (poolOptionsFrom c) in
     MaxActive opts = pc_MaxActive p \<and> MaxConnsPerExit opts = pc_MaxConnsPerExit p \<and>
     MaxConcurrentConns opts = pc_MaxConcurrentConns p \<and> MaxSessions opts = pc_MaxSessions p \<and>
     SessionTTL opts = pc_SessionTTL p \<and> MaxSessionTTL opts = pc_MaxSessionTTL p \<and>
     BatchTTL opts = pc_BatchTTL p \<and> MaxBatchTTL opts = pc_MaxBatchTTL p \<and>
     MaxUniqueBatches opts = pc_MaxUniqueBatches p \<and> NewTunnelBudget opts = pc_NewTunnelsPerWindow p \<and>
     0 < SessionTTL opts \<and> SessionTTL opts \<le> MaxSessionTTL opts \<and>
     0 < BatchTTL opts \<and> BatchTTL opts \<le> MaxBatchTTL opts \<and> 0 < MaxSessions opts \<and> 0 < MaxUniqueBatches opts \<and>
     0 \<le> MaxActive opts \<and> 0 \<le> NewTunnelBudget opts \<and> 0 < NewTunnelWindow opts \<and> 0 < DialAttempts opts \<and>
     0 \<le> EntryExploreRate opts \<and> EntryExploreRate opts < 1"
  using Validate_None(3-) [OF assms]
  by (simp add: Let_def applyDefaults_def default_to_def poolOptionsFrom_def)

theorem limits_enforced_witness:
  "MaxActive (applyDefaults (poolOptionsFrom Default)) = 25 \<and>
   NewTunnelBudget (applyDefaults (poolOptionsFrom Default)) = 120"
proof -
  have "Validate Default = None" by code_simp
  from limits_enforced [OF this] show ?thesis by (simp add: Let_def Default_def)
qed

section \<open>Secrets\<close>

lemma finalize_Inr:
  assumes "finalize files dir c0 = Inr c"
  shows "Validate c = None"
    and "secret_from files dir (ac_PasswordFile (cf_Access c0)) (ac_Password (cf_Access c0)) =
      Inr (ac_Password (cf_Access c))"
  using assms by (auto simp: finalize_def Let_def split: sum.splits option.splits)

lemma Load_Inr:
  assumes "Load files decode parse_url path = Inr c"
  obtains raw inp c0 where "files path = Some raw" "decode raw raw_defaults = Some (inp, 0)"
    "cf_Access c0 = rw_Access inp" "finalize files (path_dir path) c0 = Inr c"
proof -
  obtain raw inp ps where "files path = Some raw" "decode raw raw_defaults = Some (inp, 0)"
    and f: "finalize files (path_dir path)
        (adopt_mullvad ps
          (Default\<lparr>cf_Mode := rw_Mode inp, cf_providers := ps, cf_Listen := rw_Listen inp,
             cf_Access := rw_Access inp, cf_Pool := rw_Pool inp,
             cf_Destinations := rw_Destinations inp, cf_StateDir := rw_StateDir inp,
             cf_LogLevel := rw_LogLevel inp, cf_LogFormat := rw_LogFormat inp\<rparr>)) = Inr c"
    using assms by (auto simp: Load_def split: option.splits sum.splits if_splits)
  moreover have "cf_Access (adopt_mullvad ps c1) = cf_Access c1" for c1
    by (simp add: adopt_mullvad_def split: option.split)
  ultimately show ?thesis by (intro that [OF _ _ _ f]) simp_all
qed

text \<open>
  C3: \<open>require_auth\<close> means what it says. When a configuration that sets it loads, the proxies built from it
  accept a request only with credentials whose password is the configured one, and that password is
  not blank.
\<close>

theorem require_auth_effective:
  assumes "Load files decode parse_url path = Inr c" and "ac_RequireAuth (cf_Access c)"
    and "authorize (deps_applyDefaults (proxyDepsFrom g clients c)) user pass had = Inr pol"
  shows "had \<and> pass = ac_Password (cf_Access c) \<and> trim_space pass \<noteq> []"
proof -
  have "Validate c = None" using Load_Inr [OF assms(1)] finalize_Inr(1) by metis
  then have "trim_space (ac_Password (cf_Access c)) \<noteq> []" by (rule Validate_None(2)) (rule assms(2))
  moreover from this have "ac_Password (cf_Access c) \<noteq> []" by (auto simp: trim_space_def trim_left_def)
  ultimately show ?thesis
    using assms(3) by (auto simp: authorize_def deps_applyDefaults_def proxyDepsFrom_def split: if_splits)
qed

definition demo_files :: "string \<Rightarrow> string option" where
  "demo_files = map_of [(''/e/c.toml'', ''x''), (''/e/pw'', '' secret ''), (''/e/blank'', '' '')]"

definition demo_document :: "string \<Rightarrow> bool \<Rightarrow> raw_config" where
  "demo_document pw require =
     raw_defaults\<lparr>rw_Access := (rw_Access raw_defaults)\<lparr>ac_PasswordFile := pw, ac_RequireAuth := require\<rparr>,
       rw_Providers := demo_raw_providers\<rparr>"

definition demo_load :: "string \<Rightarrow> bool \<Rightarrow> config_error + config" where
  "demo_load pw require =
     Load demo_files (\<lambda>_ _. Some (demo_document pw require, 0)) (\<lambda>_. Some demo_url) ''/e/c.toml''"

theorem require_auth_effective_witness:
  "\<exists>c pol. demo_load ''pw'' True = Inr c \<and>
     authorize (deps_applyDefaults (proxyDepsFrom \<lparr>g_denied = [], g_allowed_port = None\<rparr> [] c))
       ''cc=jp'' ''secret'' True = Inr pol \<and> ''secret'' = ac_Password (cf_Access c)"
proof -
  have "(case demo_load ''pw'' True of Inl _ \<Rightarrow> False
    | Inr c \<Rightarrow> ac_RequireAuth (cf_Access c) \<and>
        is_ok (authorize (deps_applyDefaults (proxyDepsFrom \<lparr>g_denied = [], g_allowed_port = None\<rparr> [] c))
          ''cc=jp'' ''secret'' True))" by code_simp
  then obtain c pol where "demo_load ''pw'' True = Inr c" "ac_RequireAuth (cf_Access c)"
    "authorize (deps_applyDefaults (proxyDepsFrom \<lparr>g_denied = [], g_allowed_port = None\<rparr> [] c))
       ''cc=jp'' ''secret'' True = Inr pol"
    unfolding is_ok_iff by (auto split: sum.splits)
  then show ?thesis using require_auth_effective [of _ _ _ _ c] unfolding demo_load_def by blast
qed

text \<open>
  A password file that holds nothing but white space turns authentication off. The configuration
  loads without a complaint, and whatever a client presents, or nothing, makes no difference.
\<close>

theorem blank_password_file:
  assumes "Load files decode parse_url path = Inr c" and "files path = Some raw"
    and "decode raw raw_defaults = Some (inp, 0)" and "ac_PasswordFile (rw_Access inp) \<noteq> []"
    and "files (resolvePath (path_dir path) (ac_PasswordFile (rw_Access inp))) = Some content"
    and "trim_space content = []"
  shows "ac_Password (cf_Access c) = [] \<and> \<not> ac_RequireAuth (cf_Access c) \<and>
     authorize (deps_applyDefaults (proxyDepsFrom g clients c)) user pass had =
       authorize (deps_applyDefaults (proxyDepsFrom g clients c)) user [] False"
proof -
  obtain c0 where f: "cf_Access c0 = rw_Access inp" "finalize files (path_dir path) c0 = Inr c"
    using assms(2,3) by (auto intro: Load_Inr [OF assms(1)])
  have p: "ac_Password (cf_Access c) = []"
    using finalize_Inr(2) [OF f(2)] assms(4-6) f(1) by (simp add: secret_from_def readSecret_def)
  moreover have "trim_space [] = []" by (simp add: trim_space_def trim_left_def)
  ultimately have r: "\<not> ac_RequireAuth (cf_Access c)"
    using Validate_None(2) [OF finalize_Inr(1) [OF f(2)]] by auto
  then show ?thesis
    using p by (simp add: authorize_def deps_applyDefaults_def proxyDepsFrom_def)
qed

theorem blank_password_file_witness:
  "\<exists>c. demo_load ''blank'' False = Inr c \<and> ac_Password (cf_Access c) = [] \<and>
     authorize (deps_applyDefaults (proxyDepsFrom \<lparr>g_denied = [], g_allowed_port = None\<rparr> [] c))
       ''cc=jp'' ''wrong'' True =
     authorize (deps_applyDefaults (proxyDepsFrom \<lparr>g_denied = [], g_allowed_port = None\<rparr> [] c))
       ''cc=jp'' [] False"
proof -
  have f: "ac_PasswordFile (rw_Access (demo_document ''blank'' False)) = ''blank''"
    "demo_files (resolvePath (path_dir ''/e/c.toml'') ''blank'') = Some '' ''"
    "demo_files ''/e/c.toml'' = Some ''x''" "trim_space '' '' = []" "is_ok (demo_load ''blank'' False)"
    by code_simp+
  obtain c where c: "demo_load ''blank'' False = Inr c" using f(5) unfolding is_ok_iff by blast
  have "ac_PasswordFile (rw_Access (demo_document ''blank'' False)) \<noteq> []" by (simp add: f(1))
  from blank_password_file [OF c [unfolded demo_load_def] f(3) refl this, unfolded f(1), OF f(2,4)]
  show ?thesis using c by blast
qed

end
