(* ===== verification/Catalog.thy ===== *)
theory Catalog
  imports Paths PoolState
begin

text \<open>
  \<open>internal/catalog/catalog.go\<close>: the bundle of WireGuard configuration files. The two regular expressions
  are matched by hand. A directory is its list of entries in the order \<open>os.ReadDir\<close> gives them, an archive
  its list of members; reading an entry is an argument that gives its content or fails.
\<close>

definition DefaultMTU :: int where
  "DefaultMTU = 1420"

datatype conf_error =
    MalformedLine string | BadMTU | MTUOutOfRange | BadEndpoint | BadAllowedIPs string
  | BadAddress string | NoAddresses | LineTooLong | Problems "string list"

section \<open>Values\<close>

definition splitList :: "string \<Rightarrow> string list" where
  "splitList value =
     filter (\<lambda>f. f \<noteq> []) (map trim_space (fields_func (\<lambda>c. c \<in> {CHR '','', CHR '' '', CHR 0x09}) value))"

fun parse_addrs :: "string list \<Rightarrow> conf_error + netaddr list" where
  "parse_addrs [] = Inr []"
| "parse_addrs (field # flds) =
     (case (case parse_prefix field of
              Some p \<Rightarrow> Some (pfx_addr p)
            | None \<Rightarrow> parse_addr field) of
        None \<Rightarrow> Inl (BadAddress field)
      | Some a \<Rightarrow> (case parse_addrs flds of Inl e \<Rightarrow> Inl e | Inr as \<Rightarrow> Inr (Some a # as)))"

definition parseAddrList :: "string \<Rightarrow> conf_error + netaddr list" where
  "parseAddrList value =
     (case parse_addrs (splitList value) of
        Inl e \<Rightarrow> Inl e
      | Inr as \<Rightarrow> if as = [] then Inl NoAddresses else Inr as)"

definition splitHostPort :: "string \<Rightarrow> (string \<times> string) option" where
  "splitHostPort value =
     (case split_host_port value of
        None \<Rightarrow> None
      | Some (host, port) \<Rightarrow>
          if host = [] then None
          else (case atoi port of
                  None \<Rightarrow> None
                | Some n \<Rightarrow> if n < 1 \<or> n > 65535 then None else Some (host, port)))"

definition EndpointHost :: "wg_slot \<Rightarrow> string" where
  "EndpointHost s = (case splitHostPort (c_Endpoint s) of None \<Rightarrow> c_Endpoint s | Some (host, _) \<Rightarrow> host)"

definition bit_len :: "addr \<Rightarrow> nat" where
  "bit_len a = (if is_4 a then 32 else 128)"

text \<open>A bare address is a host route.\<close>

definition parse_route :: "string \<Rightarrow> prefix option" where
  "parse_route field =
     (case parse_prefix field of
        Some p \<Rightarrow> Some (masked p)
      | None \<Rightarrow>
          (case parse_addr field of None \<Rightarrow> None | Some a \<Rightarrow> Some (masked (Prefix a (bit_len a)))))"

fun parse_routes :: "string list \<Rightarrow> conf_error + prefix list" where
  "parse_routes [] = Inr []"
| "parse_routes (field # flds) =
     (case parse_route field of
        None \<Rightarrow> Inl (BadAllowedIPs field)
      | Some p \<Rightarrow> (case parse_routes flds of Inl e \<Rightarrow> Inl e | Inr ps \<Rightarrow> Inr (p # ps)))"

section \<open>Fields\<close>

definition setInterfaceField :: "string \<Rightarrow> string \<Rightarrow> wg_slot \<Rightarrow> conf_error + wg_slot" where
  "setInterfaceField key value s =
     (if key = ''privatekey'' then Inr (s\<lparr>c_PrivateKey := value\<rparr>)
      else if key = ''address'' then
        (case parseAddrList value of Inl e \<Rightarrow> Inl e | Inr as \<Rightarrow> Inr (s\<lparr>c_Addresses := c_Addresses s @ as\<rparr>))
      else if key = ''dns'' then
        (case parseAddrList value of Inl e \<Rightarrow> Inl e | Inr as \<Rightarrow> Inr (s\<lparr>c_DNS := c_DNS s @ as\<rparr>))
      else if key = ''mtu'' then
        (case atoi value of
           None \<Rightarrow> Inl BadMTU
         | Some mtu \<Rightarrow> if mtu < 576 \<or> mtu > 65535 then Inl MTUOutOfRange else Inr (s\<lparr>c_MTU := mtu\<rparr>))
      else Inr s)"

definition setPeerField :: "string \<Rightarrow> string \<Rightarrow> wg_slot \<Rightarrow> conf_error + wg_slot" where
  "setPeerField key value s =
     (if key = ''publickey'' then Inr (s\<lparr>c_PeerPublicKey := value\<rparr>)
      else if key = ''presharedkey'' then Inr (s\<lparr>c_PeerPresharedKey := value\<rparr>)
      else if key = ''endpoint'' then
        (if splitHostPort value = None then Inl BadEndpoint else Inr (s\<lparr>c_Endpoint := value\<rparr>))
      else if key = ''allowedips'' then
        (case parse_routes (splitList value) of
           Inl e \<Rightarrow> Inl e
         | Inr ps \<Rightarrow> Inr (s\<lparr>c_AllowedIPs := c_AllowedIPs s @ ps\<rparr>))
      else Inr s)"

definition slot_problems :: "wg_slot \<Rightarrow> string list" where
  "slot_problems s =
     (if c_ID s = [] then [''empty slot id''] else []) @
     (if c_PrivateKey s = [] then [''missing [Interface] PrivateKey''] else []) @
     (if c_Addresses s = [] then [''missing [Interface] Address''] else []) @
     (if c_PeerPublicKey s = [] then [''missing [Peer] PublicKey''] else []) @
     (if c_Endpoint s = [] then [''missing [Peer] Endpoint''] else [])"

section \<open>Names and comments\<close>

definition trim_suffix :: "string \<Rightarrow> string \<Rightarrow> string" where
  "trim_suffix q s = (if has_suffix q s then take (length s - length q) s else s)"

definition replace_all :: "char \<Rightarrow> char \<Rightarrow> string \<Rightarrow> string" where
  "replace_all a b s = map (\<lambda>c. if c = a then b else c) s"

definition az :: "char \<Rightarrow> bool" where
  "az c \<longleftrightarrow> CHR ''a'' \<le> c \<and> c \<le> CHR ''z''"

definition city_char :: "char \<Rightarrow> bool" where
  "city_char c \<longleftrightarrow> az c \<or> is_digit c \<or> c = CHR ''_''"

text \<open>\<open>^([a-z]{2})-([a-z0-9_]+)-\<close>: the two groups.\<close>

fun slotNameRe :: "string \<Rightarrow> (string \<times> string) option" where
  "slotNameRe (a # b # d # rest) =
     (if az a \<and> az b \<and> d = CHR ''-'' then
        (let city = takeWhile city_char rest
         in if city \<noteq> [] \<and> has_prefix ''-'' (drop (length city) rest) then Some ([a, b], city) else None)
      else None)"
| "slotNameRe _ = None"

text \<open>
  \<open>(?i)^#\s*device\s*:\s*(.+?)\s*$\<close> on a line without surrounding white space: the group. \<open>\s\<close> is
  without the vertical tab.
\<close>

definition re_space :: "char \<Rightarrow> bool" where
  "re_space c \<longleftrightarrow> c \<in> {CHR 0x09, CHR 0x0A, CHR 0x0C, CHR 0x0D, CHR '' ''}"

definition deviceRe :: "string \<Rightarrow> string option" where
  "deviceRe line =
     (if \<not> has_prefix ''#'' line then None
      else
        let r = dropWhile re_space (tl line);
            c = dropWhile re_space (drop 6 r);
            v = dropWhile re_space (tl c)
        in if to_lower (take 6 r) = ''device'' \<and> has_prefix '':'' c \<and> v \<noteq> []
           then Some (rev (dropWhile re_space (rev v))) else None)"

definition isConfName :: "string \<Rightarrow> bool" where
  "isConfName name \<longleftrightarrow> equal_fold (path_ext name) ''.conf''"

definition conf_start :: "string \<Rightarrow> wg_slot" where
  "conf_start name =
     (let sid = trim_suffix ''.CONF'' (trim_suffix ''.conf'' name);
          s = no_wg\<lparr>c_ID := sid, c_MTU := DefaultMTU\<rparr>
      in case slotNameRe sid of
           None \<Rightarrow> s
         | Some (country, city) \<Rightarrow>
             s\<lparr>c_Country := country, c_City := country @ ''-'' @ replace_all CHR ''_'' CHR ''-'' city\<rparr>)"

section \<open>A configuration file\<close>

text \<open>What a line of the file means: nothing, a comment, a section or a setting.\<close>

datatype conf_line = Blank | Remark string | Header string | Setting string string | Malformed string

definition strip_comment :: "string \<Rightarrow> string" where
  "strip_comment value =
     (let v = takeWhile (\<lambda>c. c \<notin> {CHR ''#'', CHR '';''}) value
      in if length v < length value then trim_space v else value)"

definition classify :: "string \<Rightarrow> conf_line" where
  "classify text =
     (let line = trim_space text
      in if line = [] then Blank
         else if has_prefix ''#'' line \<or> has_prefix '';'' line then Remark line
         else if has_prefix ''['' line \<and> has_suffix '']'' line then Header (to_lower (trim_brackets line))
         else (case cut CHR ''='' line of
                 None \<Rightarrow> Malformed line
               | Some (key, value) \<Rightarrow>
                   Setting (to_lower (trim_space key)) (strip_comment (trim_space value))))"

definition set_field :: "string \<Rightarrow> string \<Rightarrow> string \<Rightarrow> wg_slot \<Rightarrow> conf_error + wg_slot" where
  "set_field sect key value s =
     (if sect = ''interface'' then setInterfaceField key value s
      else if sect = ''peer'' then setPeerField key value s
      else Inr s)"

text \<open>The loop over the lines; the scanner gives up at a line that does not fit its buffer of 1 MiB.\<close>

fun parse_lines :: "string \<Rightarrow> wg_slot \<Rightarrow> string list \<Rightarrow> conf_error + wg_slot" where
  "parse_lines sect s [] = Inr s"
| "parse_lines sect s (text # lines) =
     (if 1048576 \<le> int (length text) then Inl LineTooLong
      else
        case classify text of
          Blank \<Rightarrow> parse_lines sect s lines
        | Remark c \<Rightarrow>
            parse_lines sect
              (case deviceRe c of
                 Some d \<Rightarrow> if c_Device s = [] then s\<lparr>c_Device := d\<rparr> else s
               | None \<Rightarrow> s) lines
        | Header sect \<Rightarrow> parse_lines sect s lines
        | Malformed l \<Rightarrow> Inl (MalformedLine l)
        | Setting key value \<Rightarrow>
            (case set_field sect key value s of
               Inl e \<Rightarrow> Inl e
             | Inr s \<Rightarrow> parse_lines sect s lines))"

definition default_routes :: "prefix list" where
  "default_routes = [Prefix (V4 0) 0, Prefix (V6 0 []) 0]"

definition ParseConf :: "string \<Rightarrow> string \<Rightarrow> conf_error + wg_slot" where
  "ParseConf name raw =
     (case parse_lines [] (conf_start name) (split_on CHR 0x0A raw) of
        Inl e \<Rightarrow> Inl e
      | Inr s \<Rightarrow>
          if slot_problems s \<noteq> [] then Inl (Problems (slot_problems s))
          else if c_AllowedIPs s = [] then Inr (s\<lparr>c_AllowedIPs := default_routes\<rparr>)
          else Inr s)"

section \<open>Bundles\<close>

record conf_bundle =
  bn_Slots :: "wg_slot list"
  bn_Devices :: "string list"
  bn_DistinctKeys :: nat

datatype bundle_error =
    NoConfFiles | DuplicateSlot string | Unreadable string | BadConf string conf_error
  | SuspiciousName string | CannotWrite string | NotABundle

fun first_dup :: "string list \<Rightarrow> string list \<Rightarrow> string option" where
  "first_dup seen [] = None"
| "first_dup seen (x # xs) = (if x \<in> set seen then Some x else first_dup (x # seen) xs)"

definition newBundle :: "wg_slot list \<Rightarrow> bundle_error + conf_bundle" where
  "newBundle slots =
     (if slots = [] then Inl NoConfFiles
      else
        let ss = sort_key c_ID slots
        in case first_dup [] (map c_ID ss) of
             Some i \<Rightarrow> Inl (DuplicateSlot i)
           | None \<Rightarrow>
               Inr \<lparr>bn_Slots = ss,
                    bn_Devices = sorted_list_of_set (set (filter (\<lambda>d. d \<noteq> []) (map c_Device ss))),
                    bn_DistinctKeys = card (set (map c_PrivateKey ss))\<rparr>)"

definition distinct_keys :: "(wg_slot \<Rightarrow> string) \<Rightarrow> wg_slot list \<Rightarrow> string list" where
  "distinct_keys key slots = sorted_list_of_set (set (filter (\<lambda>v. v \<noteq> []) (map key slots)))"

definition Countries :: "conf_bundle \<Rightarrow> string list" where
  "Countries b = distinct_keys c_Country (bn_Slots b)"

definition Cities :: "conf_bundle \<Rightarrow> string list" where
  "Cities b = distinct_keys c_City (bn_Slots b)"

text \<open>An entry of a directory or a member of an archive: its name, whether it is a directory, its content.\<close>

type_synonym entry_file = "string \<times> bool \<times> string option"

fun load_files :: "(string \<Rightarrow> string) \<Rightarrow> (string \<Rightarrow> string) \<Rightarrow> entry_file list \<Rightarrow> bundle_error + wg_slot list" where
  "load_files base src [] = Inr []"
| "load_files base src ((name, isDir, content) # es) =
     (if isDir \<or> \<not> isConfName name then load_files base src es
      else
        case content of
          None \<Rightarrow> Inl (Unreadable name)
        | Some raw \<Rightarrow>
            (case ParseConf (base name) raw of
               Inl e \<Rightarrow> Inl (BadConf name e)
             | Inr s \<Rightarrow>
                 (case load_files base src es of
                    Inl e \<Rightarrow> Inl e
                  | Inr ss \<Rightarrow> Inr (s\<lparr>c_Source := src name\<rparr> # ss))))"

definition LoadDir :: "string \<Rightarrow> entry_file list option \<Rightarrow> bundle_error + conf_bundle" where
  "LoadDir dir entries =
     (case entries of
        None \<Rightarrow> Inl (Unreadable dir)
      | Some es \<Rightarrow>
          (case load_files (\<lambda>n. n) (path_join dir) es of Inl e \<Rightarrow> Inl e | Inr ss \<Rightarrow> newBundle ss))"

text \<open>The read of a member is cut off after 1 MiB.\<close>

definition read_member :: "entry_file \<Rightarrow> entry_file" where
  "read_member m = (case m of (name, isDir, content) \<Rightarrow> (name, isDir, map_option (take 1048576) content))"

definition LoadZip :: "string \<Rightarrow> entry_file list option \<Rightarrow> bundle_error + conf_bundle" where
  "LoadZip path members =
     (case members of
        None \<Rightarrow> Inl (Unreadable path)
      | Some ms \<Rightarrow>
          (case load_files path_base (\<lambda>n. n) (map read_member ms) of Inl e \<Rightarrow> Inl e | Inr ss \<Rightarrow> newBundle ss))"

text \<open>\<open>stat\<close> tells whether the path is a directory, if it exists.\<close>

definition Load_bundle ::
  "(string \<Rightarrow> bool option) \<Rightarrow> (string \<Rightarrow> entry_file list option) \<Rightarrow> (string \<Rightarrow> entry_file list option)
     \<Rightarrow> string \<Rightarrow> bundle_error + conf_bundle" where
  "Load_bundle stat dirs zips path =
     (case stat path of
        None \<Rightarrow> Inl (Unreadable path)
      | Some isDir \<Rightarrow>
          if isDir then LoadDir path (dirs path)
          else if equal_fold (path_ext path) ''.zip'' then LoadZip path (zips path)
          else Inl NotABundle)"

text \<open>
  \<open>ExtractZip\<close>: the files written, with their names under the directory, and the error or the count.
  \<open>write\<close> tells whether a file can be written.
\<close>

fun extract_loop ::
  "(string \<Rightarrow> bool) \<Rightarrow> (string \<times> string) list \<Rightarrow> entry_file list
     \<Rightarrow> bundle_error option \<times> (string \<times> string) list" where
  "extract_loop write out [] = (None, out)"
| "extract_loop write out ((member, isDir, content) # ms) =
     (if isDir \<or> \<not> isConfName member then extract_loop write out ms
      else
        let name = path_base member
        in if name = ''.'' \<or> name = ''..'' \<or> CHR ''/'' \<in> set name then (Some (SuspiciousName member), out)
           else
             case content of
               None \<Rightarrow> (Some (Unreadable member), out)
             | Some raw \<Rightarrow>
                 (case ParseConf name raw of
                    Inl e \<Rightarrow> (Some (BadConf member e), out)
                  | Inr _ \<Rightarrow>
                      if \<not> write name then (Some (CannotWrite name), out)
                      else extract_loop write (out @ [(name, raw)]) ms))"

definition ExtractZip ::
  "bool \<Rightarrow> (string \<Rightarrow> bool) \<Rightarrow> entry_file list option \<Rightarrow> (bundle_error + nat) \<times> (string \<times> string) list" where
  "ExtractZip mkdir write members =
     (case members of
        None \<Rightarrow> (Inl (Unreadable []), [])
      | Some ms \<Rightarrow>
          if \<not> mkdir then (Inl (CannotWrite []), [])
          else
            (case extract_loop write [] (map read_member ms) of
               (Some e, out) \<Rightarrow> (Inl e, out)
             | (None, out) \<Rightarrow> if out = [] then (Inl NoConfFiles, []) else (Inr (length out), out)))"

section \<open>What a file declares\<close>

text \<open>The settings of a file with the section each stands in, and the values given for a key, in order.\<close>

fun conf_settings :: "string \<Rightarrow> string list \<Rightarrow> (string \<times> string \<times> string) list" where
  "conf_settings sect [] = []"
| "conf_settings sect (text # lines) =
     (case classify text of
        Header h \<Rightarrow> conf_settings h lines
      | Setting key value \<Rightarrow> (sect, key, value) # conf_settings sect lines
      | _ \<Rightarrow> conf_settings sect lines)"

definition values_of :: "(string \<times> string \<times> string) list \<Rightarrow> string \<Rightarrow> string \<Rightarrow> string list" where
  "values_of sts sect key = map (snd \<circ> snd) (filter (\<lambda>(a, b, _). a = sect \<and> b = key) sts)"

definition devices_of :: "string list \<Rightarrow> string list" where
  "devices_of lines =
     concat (map (\<lambda>text. case classify text of
                           Remark c \<Rightarrow> (case deviceRe c of None \<Rightarrow> [] | Some d \<Rightarrow> [d])
                         | _ \<Rightarrow> []) lines)"

definition first_nonempty :: "string list \<Rightarrow> string" where
  "first_nonempty ws = (case find (\<lambda>w. w \<noteq> []) ws of None \<Rightarrow> [] | Some w \<Rightarrow> w)"

definition the_ok :: "'e + 'a list \<Rightarrow> 'a list" where
  "the_ok r = (case r of Inl _ \<Rightarrow> [] | Inr xs \<Rightarrow> xs)"

text \<open>The slot that a list of settings makes of an earlier one: of a scalar the last value counts, lists add up.\<close>

definition declared :: "(string \<times> string \<times> string) list \<Rightarrow> wg_slot \<Rightarrow> wg_slot \<Rightarrow> bool" where
  "declared sts s s' \<longleftrightarrow>
     c_PrivateKey s' = last (c_PrivateKey s # values_of sts ''interface'' ''privatekey'') \<and>
     c_PeerPublicKey s' = last (c_PeerPublicKey s # values_of sts ''peer'' ''publickey'') \<and>
     c_PeerPresharedKey s' = last (c_PeerPresharedKey s # values_of sts ''peer'' ''presharedkey'') \<and>
     c_Endpoint s' = last (c_Endpoint s # values_of sts ''peer'' ''endpoint'') \<and>
     c_MTU s' = last (c_MTU s # map (the \<circ> atoi) (values_of sts ''interface'' ''mtu'')) \<and>
     c_Addresses s' = c_Addresses s @ concat (map (the_ok \<circ> parseAddrList) (values_of sts ''interface'' ''address'')) \<and>
     c_DNS s' = c_DNS s @ concat (map (the_ok \<circ> parseAddrList) (values_of sts ''interface'' ''dns'')) \<and>
     c_AllowedIPs s' =
       c_AllowedIPs s @ concat (map (the_ok \<circ> parse_routes \<circ> splitList) (values_of sts ''peer'' ''allowedips'')) \<and>
     c_ID s' = c_ID s \<and> c_Country s' = c_Country s \<and> c_City s' = c_City s \<and> c_Source s' = c_Source s"

lemma values_of_Cons:
  "values_of ((a, b, v) # sts) sect key =
     (if a = sect \<and> b = key then v # values_of sts sect key else values_of sts sect key)"
  by (simp add: values_of_def)

lemma values_of_Nil [simp]: "values_of [] sect key = []"
  by (simp add: values_of_def)

lemma values_of_append: "values_of (xs @ ys) sect key = values_of xs sect key @ values_of ys sect key"
  by (simp add: values_of_def)

lemma last_append_last: "last (x # xs @ ys) = last (last (x # xs) # ys)"
  by (cases ys) simp_all

lemma declared_trans:
  assumes "declared xs s s1" and "declared ys s1 s2"
  shows "declared (xs @ ys) s s2"
  using assms
  by (simp only: declared_def values_of_append last_append_last map_append concat_append append_assoc)

lemma interface_declared:
  assumes "setInterfaceField key value s = Inr s'"
  shows "declared [(''interface'', key, value)] s s'"
proof -
  have d: "declared [(''interface'', k, v)] s s'"
    if "k \<noteq> ''privatekey''" "k \<noteq> ''address''" "k \<noteq> ''dns''" "k \<noteq> ''mtu''" "s' = s" for k v
    using that by (simp add: declared_def values_of_Cons)
  consider "key = ''privatekey''" | "key = ''address''" | "key = ''dns''" | "key = ''mtu''"
    | "key \<noteq> ''privatekey''" "key \<noteq> ''address''" "key \<noteq> ''dns''" "key \<noteq> ''mtu''" by blast
  then show ?thesis
  proof cases
    case 1
    with assms show ?thesis by (auto simp: setInterfaceField_def declared_def values_of_Cons)
  next
    case 2
    with assms obtain as where "parseAddrList value = Inr as" "s' = s\<lparr>c_Addresses := c_Addresses s @ as\<rparr>"
      by (auto simp: setInterfaceField_def split: sum.splits)
    with 2 show ?thesis by (simp add: declared_def values_of_Cons the_ok_def)
  next
    case 3
    with assms obtain as where "parseAddrList value = Inr as" "s' = s\<lparr>c_DNS := c_DNS s @ as\<rparr>"
      by (auto simp: setInterfaceField_def split: sum.splits)
    with 3 show ?thesis by (simp add: declared_def values_of_Cons the_ok_def)
  next
    case 4
    with assms obtain n where "atoi value = Some n" "s' = s\<lparr>c_MTU := n\<rparr>"
      by (auto simp: setInterfaceField_def split: option.splits if_splits)
    with 4 show ?thesis by (simp add: declared_def values_of_Cons)
  next
    case 5
    with assms show ?thesis by (intro d) (simp_all add: setInterfaceField_def)
  qed
qed

lemma peer_declared:
  assumes "setPeerField key value s = Inr s'"
  shows "declared [(''peer'', key, value)] s s'"
proof -
  have d: "declared [(''peer'', k, v)] s s'"
    if "k \<noteq> ''publickey''" "k \<noteq> ''presharedkey''" "k \<noteq> ''endpoint''" "k \<noteq> ''allowedips''" "s' = s" for k v
    using that by (simp add: declared_def values_of_Cons)
  consider "key = ''publickey''" | "key = ''presharedkey''" | "key = ''endpoint''" | "key = ''allowedips''"
    | "key \<noteq> ''publickey''" "key \<noteq> ''presharedkey''" "key \<noteq> ''endpoint''" "key \<noteq> ''allowedips''" by blast
  then show ?thesis
  proof cases
    case 4
    with assms obtain ps where "parse_routes (splitList value) = Inr ps" "s' = s\<lparr>c_AllowedIPs := c_AllowedIPs s @ ps\<rparr>"
      by (auto simp: setPeerField_def split: sum.splits)
    with 4 show ?thesis by (simp add: declared_def values_of_Cons the_ok_def)
  next
    case 5
    with assms show ?thesis by (intro d) (simp_all add: setPeerField_def)
  qed (use assms in \<open>auto simp: setPeerField_def declared_def values_of_Cons split: if_splits\<close>)
qed

lemma set_field_declared:
  assumes "set_field sect key value s = Inr s'"
  shows "declared [(sect, key, value)] s s'"
proof -
  consider "sect = ''interface''" | "sect = ''peer''" | "sect \<noteq> ''interface''" "sect \<noteq> ''peer''" by blast
  then show ?thesis
  proof cases
    case 3
    with assms show ?thesis by (simp add: set_field_def declared_def values_of_Cons)
  qed (use assms interface_declared peer_declared in \<open>simp_all add: set_field_def\<close>)
qed

lemma declared_Device [simp]: "declared sts (s\<lparr>c_Device := d\<rparr>) s' = declared sts s s'"
  by (simp add: declared_def)

lemma parse_lines_declared: "parse_lines sect s lines = Inr s' \<Longrightarrow> declared (conf_settings sect lines) s s'"
proof (induction lines arbitrary: sect s)
  case Nil
  then show ?case by (simp add: declared_def)
next
  case (Cons w lines)
  show ?case
  proof (cases "classify w")
    case (Remark c)
    have "parse_lines sect (s\<lparr>c_Device :=
        (case deviceRe c of Some d \<Rightarrow> if c_Device s = [] then d else c_Device s | None \<Rightarrow> c_Device s)\<rparr>) lines = Inr s'"
      using Cons.prems Remark by (auto split: if_splits option.splits)
    then obtain d where "parse_lines sect (s\<lparr>c_Device := d\<rparr>) lines = Inr s'" by blast
    then show ?thesis using Cons.IH [of sect "s\<lparr>c_Device := d\<rparr>"] Remark by simp
  next
    case (Setting key v)
    then obtain s1 where "set_field sect key v s = Inr s1" "parse_lines sect s1 lines = Inr s'"
      using Cons.prems by (auto split: if_splits sum.splits)
    then show ?thesis
      using Setting Cons.IH set_field_declared declared_trans [of "[(sect, key, v)]"] by fastforce
  qed (use Cons in \<open>auto split: if_splits\<close>)
qed

lemma parse_lines_device:
  "parse_lines sect s lines = Inr s' \<Longrightarrow> c_Device s' = first_nonempty (c_Device s # devices_of lines)"
proof (induction lines arbitrary: sect s)
  case (Cons w lines)
  show ?case
  proof (cases "classify w")
    case (Setting key v)
    then obtain s1 where f: "set_field sect key v s = Inr s1" and l: "parse_lines sect s1 lines = Inr s'"
      using Cons.prems by (auto split: if_splits sum.splits)
    have "c_Device s1 = c_Device s"
      using f unfolding set_field_def setInterfaceField_def setPeerField_def
      by (auto split: if_splits sum.splits option.splits)
    then show ?thesis using Cons.IH [OF l] Setting by (simp add: devices_of_def)
  qed (use Cons in \<open>auto simp: devices_of_def first_nonempty_def split: if_splits option.splits\<close>)
qed (simp add: devices_of_def first_nonempty_def)

text \<open>
  C18: \<open>ParseConf\<close> reads a file as what it declares. Of the private key, the peer's keys, the endpoint and the
  MTU the last value in the right section counts (or the default), the addresses, resolvers and routes of all
  lines add up (all traffic when there are none), the device is the first one named in a comment,
  and the name of the file gives the rest; nothing else in the file matters.
\<close>

theorem conf_declares:
  assumes "ParseConf name raw = Inr s"
  shows "let lines = split_on CHR 0x0A raw; sts = conf_settings [] lines;
         routes = concat (map (the_ok \<circ> parse_routes \<circ> splitList) (values_of sts ''peer'' ''allowedips''))
     in c_PrivateKey s = last ([] # values_of sts ''interface'' ''privatekey'') \<and>
        c_PeerPublicKey s = last ([] # values_of sts ''peer'' ''publickey'') \<and>
        c_PeerPresharedKey s = last ([] # values_of sts ''peer'' ''presharedkey'') \<and>
        c_Endpoint s = last ([] # values_of sts ''peer'' ''endpoint'') \<and>
        c_MTU s = last (DefaultMTU # map (the \<circ> atoi) (values_of sts ''interface'' ''mtu'')) \<and>
        c_Addresses s = concat (map (the_ok \<circ> parseAddrList) (values_of sts ''interface'' ''address'')) \<and>
        c_DNS s = concat (map (the_ok \<circ> parseAddrList) (values_of sts ''interface'' ''dns'')) \<and>
        c_AllowedIPs s = (if routes = [] then default_routes else routes) \<and>
        c_Device s = first_nonempty (devices_of lines) \<and>
        c_ID s = c_ID (conf_start name) \<and> c_Country s = c_Country (conf_start name) \<and>
        c_City s = c_City (conf_start name)"
proof -
  obtain s0 where l: "parse_lines [] (conf_start name) (split_on CHR 0x0A raw) = Inr s0"
    and s: "s = (if c_AllowedIPs s0 = [] then s0\<lparr>c_AllowedIPs := default_routes\<rparr> else s0)"
    using assms by (auto simp: ParseConf_def split: sum.splits if_splits)
  have start: "c_PrivateKey (conf_start name) = []" "c_PeerPublicKey (conf_start name) = []"
    "c_PeerPresharedKey (conf_start name) = []" "c_Endpoint (conf_start name) = []"
    "c_MTU (conf_start name) = DefaultMTU" "c_Addresses (conf_start name) = []" "c_DNS (conf_start name) = []"
    "c_AllowedIPs (conf_start name) = []" "c_Device (conf_start name) = []"
    by (simp_all add: conf_start_def no_wg_def Let_def split: option.split)
  have "c_Device s0 = first_nonempty (devices_of (split_on CHR 0x0A raw))"
    using parse_lines_device [OF l] by (simp add: start first_nonempty_def)
  then show ?thesis
    using parse_lines_declared [OF l] unfolding declared_def s by (simp only: start Let_def append_Nil) simp
qed

definition demo_conf :: string where
  "demo_conf = concat (map (\<lambda>l. l @ [CHR 0x0A])
     [''# Device: Happy Fox'', ''[Interface]'', ''PrivateKey = k1='', ''Address = 10.64.0.2'',
      ''[Peer]'', ''PublicKey = p1= # comment'', ''AllowedIPs = 10.0.0.1'', ''Endpoint = 1.2.3.4:51820''])"

theorem conf_declares_witness:
  "\<exists>s. ParseConf ''us-lax-wg-001.conf'' demo_conf = Inr s \<and> c_PrivateKey s = ''k1='' \<and>
     c_PeerPublicKey s = ''p1='' \<and> c_Device s = ''Happy Fox'' \<and> c_City s = ''us-lax''"
proof -
  have f: "is_ok (ParseConf ''us-lax-wg-001.conf'' demo_conf)"
    "last ([] # values_of (conf_settings [] (split_on CHR 0x0A demo_conf)) ''interface'' ''privatekey'') = ''k1=''"
    "last ([] # values_of (conf_settings [] (split_on CHR 0x0A demo_conf)) ''peer'' ''publickey'') = ''p1=''"
    "first_nonempty (devices_of (split_on CHR 0x0A demo_conf)) = ''Happy Fox''"
    "c_City (conf_start ''us-lax-wg-001.conf'') = ''us-lax''"
    by code_simp+
  then obtain s where "ParseConf ''us-lax-wg-001.conf'' demo_conf = Inr s" unfolding is_ok_iff by blast
  from conf_declares [OF this] this f show ?thesis by (simp only: Let_def) blast
qed

section \<open>Slots and bundles\<close>

definition wf_conf :: "wg_slot \<Rightarrow> bool" where
  "wf_conf s \<longleftrightarrow>
     c_ID s \<noteq> [] \<and> c_PrivateKey s \<noteq> [] \<and> c_PeerPublicKey s \<noteq> [] \<and> c_Addresses s \<noteq> [] \<and>
     None \<notin> set (c_Addresses s) \<union> set (c_DNS s) \<and> 576 \<le> c_MTU s \<and> c_MTU s \<le> 65535 \<and>
     splitHostPort (c_Endpoint s) \<noteq> None \<and> c_AllowedIPs s \<noteq> [] \<and>
     list_all (\<lambda>p. masked p = p) (c_AllowedIPs s) \<and>
     (c_Country s = [] \<and> c_City s = [] \<or>
      length (c_Country s) = 2 \<and> list_all az (c_Country s) \<and> has_prefix (c_Country s @ ''-'') (c_City s))"

definition wf_fields :: "wg_slot \<Rightarrow> bool" where
  "wf_fields s \<longleftrightarrow>
     None \<notin> set (c_Addresses s) \<union> set (c_DNS s) \<and> 576 \<le> c_MTU s \<and> c_MTU s \<le> 65535 \<and>
     (c_Endpoint s = [] \<or> splitHostPort (c_Endpoint s) \<noteq> None) \<and> list_all (\<lambda>p. masked p = p) (c_AllowedIPs s)"

lemma push_drop_idem:
  "push_bit k (drop_bit k (push_bit k (drop_bit k w))) = push_bit k (drop_bit k (w :: 'a :: len word))"
  by (rule bit_eqI) (auto simp: bit_simps dest: bit_imp_le_length)

lemma masked_masked [simp]: "masked (masked p) = masked p"
  by (cases p rule: masked.cases) (simp_all add: push_drop_idem)

lemma parse_addrs_Some: "parse_addrs ws = Inr as \<Longrightarrow> None \<notin> set as"
  by (induction ws arbitrary: as) (auto split: option.splits sum.splits)

lemma parse_routes_masked: "parse_routes ws = Inr ps \<Longrightarrow> list_all (\<lambda>p. masked p = p) ps"
  by (induction ws arbitrary: ps) (auto simp: parse_route_def split: option.splits sum.splits)

lemma set_field_wf: "set_field sect key v s = Inr s' \<Longrightarrow> wf_fields s \<Longrightarrow> wf_fields s'"
  unfolding set_field_def setInterfaceField_def setPeerField_def wf_fields_def parseAddrList_def
  by (auto split: if_splits sum.splits option.splits dest: parse_addrs_Some parse_routes_masked)

lemma parse_lines_wf: "parse_lines sect s lines = Inr s' \<Longrightarrow> wf_fields s \<Longrightarrow> wf_fields s'"
proof (induction sect s lines rule: parse_lines.induct)
  case (2 sect s w lines)
  have "wf_fields (s\<lparr>c_Device := d\<rparr>)" for d using 2(6) by (simp add: wf_fields_def)
  then show ?case
    using 2 by (auto split: if_splits conf_line.splits sum.splits option.splits dest: set_field_wf)
qed simp

lemma slotNameRe_Some:
  "slotNameRe w = Some (country, city) \<Longrightarrow> length country = 2 \<and> list_all az country"
  by (cases w rule: slotNameRe.cases) (auto simp: Let_def split: if_splits)

lemma has_prefix_append [simp]: "has_prefix p (p @ s)"
  by (simp add: has_prefix_def)

lemma conf_start_labels:
  "let s = conf_start name in c_Country s = [] \<and> c_City s = [] \<or>
     length (c_Country s) = 2 \<and> list_all az (c_Country s) \<and> has_prefix (c_Country s @ ''-'') (c_City s)"
  using slotNameRe_Some has_prefix_append [of "c @ ''-''" for c]
  by (auto simp: conf_start_def no_wg_def Let_def split: option.split)

lemma default_routes_ok: "default_routes \<noteq> [] \<and> list_all (\<lambda>p. masked p = p) default_routes"
  by (simp add: default_routes_def)

lemma ParseConf_wf:
  assumes "ParseConf name raw = Inr s"
  shows "wf_conf s"
proof -
  obtain s0 where l: "parse_lines [] (conf_start name) (split_on CHR 0x0A raw) = Inr s0"
    and p: "slot_problems s0 = []"
    and s: "s = (if c_AllowedIPs s0 = [] then s0\<lparr>c_AllowedIPs := default_routes\<rparr> else s0)"
    using assms by (auto simp: ParseConf_def split: sum.splits if_splits)
  have "wf_fields (conf_start name)"
    by (auto simp: wf_fields_def conf_start_def no_wg_def DefaultMTU_def Let_def split: option.split)
  then have w: "wf_fields s0" by (rule parse_lines_wf [OF l])
  have "c_Country s0 = c_Country (conf_start name)" "c_City s0 = c_City (conf_start name)"
    using parse_lines_declared [OF l] by (simp_all add: declared_def)
  then have "wf_conf s0 \<or> c_AllowedIPs s0 = [] \<and> wf_conf (s0\<lparr>c_AllowedIPs := default_routes\<rparr>)"
    using w p conf_start_labels [of name] default_routes_ok
    by (cases "c_AllowedIPs s0 = []")
      (auto simp: wf_conf_def wf_fields_def slot_problems_def Let_def split: if_splits)
  then show ?thesis using s by (auto simp: wf_conf_def)
qed

lemma first_dup_None: "first_dup seen xs = None \<longleftrightarrow> distinct xs \<and> set xs \<inter> set seen = {}"
  by (induction xs arbitrary: seen) auto

lemma newBundle_Inr:
  assumes "newBundle slots = Inr b"
  shows "bn_Slots b = sort_key c_ID slots \<and> slots \<noteq> [] \<and> distinct (map c_ID (bn_Slots b)) \<and>
     bn_DistinctKeys b = card (c_PrivateKey ` set slots)"
  using assms by (auto simp: newBundle_def Let_def first_dup_None split: if_splits option.splits)

lemma load_files_wf:
  "load_files base src es = Inr ss \<Longrightarrow>
     list_all wf_conf ss \<and> length ss = length (filter (\<lambda>(n, isDir, c). \<not> isDir \<and> isConfName n) es)"
proof (induction base src es arbitrary: ss rule: load_files.induct)
  case (2 base src name isDir content es)
  have "wf_conf (s\<lparr>c_Source := x\<rparr>)" if "ParseConf n raw = Inr s" for s x n raw
    using ParseConf_wf [OF that] by (simp add: wf_conf_def)
  then show ?case using 2 by (auto split: if_splits option.splits sum.splits)
qed simp

lemma add_specs_total:
  "distinct (map sp_ID sps) \<Longrightarrow> (\<And>sp. sp \<in> set sps \<Longrightarrow> sp_ID sp |\<notin>| fmdom (p_slots p)) \<Longrightarrow>
     \<exists>q. add_specs sps p = Inr q \<and> p_order q = p_order p @ map sp_ID sps"
proof (induction sps arbitrary: p)
  case (Cons sp sps)
  let ?p = "(alloc_slot sp p)\<lparr>p_slots := fmupd (sp_ID sp) (p_nextRef p) (p_slots p),
      p_order := p_order p @ [sp_ID sp]\<rparr>"
  have "\<exists>q. add_specs sps ?p = Inr q \<and> p_order q = p_order ?p @ map sp_ID sps"
  proof (rule Cons.IH)
    show "distinct (map sp_ID sps)" using Cons.prems(1) by simp
    fix sp' assume "sp' \<in> set sps"
    then have "sp_ID sp' \<noteq> sp_ID sp" "sp_ID sp' |\<notin>| fmdom (p_slots p)"
      using Cons.prems by (auto simp: rev_image_eqI)
    then show "sp_ID sp' |\<notin>| fmdom (p_slots ?p)" by (simp add: alloc_slot_def)
  qed
  then show ?case using Cons.prems by auto
qed simp

lemma New_total:
  assumes "slots \<noteq> []" and "distinct (map c_ID slots)" and "sorted (map c_ID slots)"
  shows "\<exists>p. New (Some slots) opts = Inr p \<and> p_order p = map c_ID slots"
proof -
  let ?sps = "SpecsFromBundle slots"
  have ids: "map sp_ID ?sps = map c_ID slots" "?sps \<noteq> []"
    using assms(1) by (simp_all add: SpecsFromBundle_def comp_def)
  obtain q where "add_specs ?sps (empty_pool (applyDefaults opts) []) = Inr q" "p_order q = map c_ID slots"
    using add_specs_total [of ?sps "empty_pool (applyDefaults opts) []"] assms(2) ids(1)
    by (auto simp: empty_pool_def)
  moreover have "\<not> list_ex (\<lambda>sp. sp_Kind sp = KindRelaySocks) ?sps"
    by (simp add: SpecsFromBundle_def list_ex_iff)
  ultimately show ?thesis
    using assms(1,3) ids(2) by (auto simp: New_def NewWithSpecs_def sorted_sort_id)
qed

text \<open>
  A directory that loads is a usable catalogue. There is one slot for each configuration file, every
  slot is complete and in range (keys, addresses, a dialable endpoint, an MTU between 576 and 65535, routes in
  canonical form, labels that fit together), the names are distinct and sorted, and the pool is built
  from it without an error, with these slots in this order.
\<close>

theorem bundle_usable:
  assumes "LoadDir dir (Some es) = Inr b"
  shows "list_all wf_conf (bn_Slots b) \<and> sorted (map c_ID (bn_Slots b)) \<and> distinct (map c_ID (bn_Slots b)) \<and>
     length (bn_Slots b) = length (filter (\<lambda>(n, isDir, c). \<not> isDir \<and> isConfName n) es) \<and>
     bn_DistinctKeys b = card (c_PrivateKey ` set (bn_Slots b)) \<and>
     (\<exists>p. New (Some (bn_Slots b)) opts = Inr p \<and> p_order p = map c_ID (bn_Slots b))"
proof -
  obtain ss where l: "load_files (\<lambda>n. n) (path_join dir) es = Inr ss" and b: "newBundle ss = Inr b"
    using assms by (auto simp: LoadDir_def split: sum.splits)
  note w = load_files_wf [OF l] and n = newBundle_Inr [OF b]
  have s: "sorted (map c_ID (bn_Slots b))" using n by simp
  have ne: "bn_Slots b \<noteq> []" using n by (metis length_0_conv length_sort)
  have d: "distinct (map c_ID (bn_Slots b))" using n by blast
  have "set (bn_Slots b) = set ss" "length (bn_Slots b) = length ss" using n by simp_all
  then show ?thesis using w n s d New_total [OF ne d s, of opts] by (simp add: list_all_iff)
qed

definition demo_dir :: "entry_file list" where
  "demo_dir = [(''us-lax-wg-002.conf'', False, Some demo_conf), (''README'', False, None),
     (''us-lax-wg-001.conf'', False, Some demo_conf)]"

theorem bundle_usable_witness:
  "\<exists>b. LoadDir ''/c'' (Some demo_dir) = Inr b \<and> length (bn_Slots b) = 2 \<and> list_all wf_conf (bn_Slots b)"
proof -
  have "is_ok (LoadDir ''/c'' (Some demo_dir))"
    "length (filter (\<lambda>(n, isDir, c). \<not> isDir \<and> isConfName n) demo_dir) = 2"
    by code_simp+
  then obtain b where "LoadDir ''/c'' (Some demo_dir) = Inr b" unfolding is_ok_iff by blast
  from bundle_usable [OF this] this show ?thesis
    using \<open>length (filter (\<lambda>(n, isDir, c). \<not> isDir \<and> isConfName n) demo_dir) = 2\<close> by auto
qed

section \<open>Extraction\<close>

lemma last_slash_plain: "CHR ''/'' \<notin> set w \<Longrightarrow> snd (last_slash w) = w"
proof -
  assume "CHR ''/'' \<notin> set w"
  then have "takeWhile (\<lambda>c. c \<noteq> CHR ''/'') (rev w) = rev w" by (auto simp: takeWhile_eq_all_conv)
  then show ?thesis by (simp only: last_slash_def snd_conv rev_rev_ident)
qed

lemma path_base_conf:
  assumes "isConfName member"
  shows "path_base member = snd (last_slash member)" and "isConfName (path_base member)"
    and "path_base member \<notin> {[], ''.'', ''..''}" and "CHR ''/'' \<notin> set (path_base member)"
proof -
  have ne: "snd (last_slash member) \<noteq> []"
  proof
    assume "snd (last_slash member) = []"
    then have "path_ext member = []" by (simp add: path_ext_def)
    moreover have "\<not> equal_fold [] ''.conf''" by code_simp
    ultimately show False using assms by (simp add: isConfName_def)
  qed
  then obtain c w where w: "rev member = c # w" "c \<noteq> CHR ''/''"
    by (cases "rev member") (auto simp: last_slash_def split: if_splits)
  then have "dropWhile (\<lambda>c. c = CHR ''/'') (rev member) = rev member" by simp
  then show b: "path_base member = snd (last_slash member)"
    using w by (auto simp: path_base_def Let_def)
  show s: "CHR ''/'' \<notin> set (path_base member)" using b last_slash_base by simp
  have "snd (last_slash (path_base member)) = path_base member"
    by (rule last_slash_plain [OF s])
  then show i: "isConfName (path_base member)"
    using assms b by (simp add: isConfName_def path_ext_def)
  have "\<not> isConfName ''.''" "\<not> isConfName ''..''" "\<not> isConfName []" by code_simp+
  then show "path_base member \<notin> {[], ''.'', ''..''}" using i by auto
qed

text \<open>What is written: plain names of configuration files, with contents that parse.\<close>

definition written_ok :: "string \<times> string \<Rightarrow> bool" where
  "written_ok f \<longleftrightarrow>
     (case f of (name, raw) \<Rightarrow>
        isConfName name \<and> name \<notin> {[], ''.'', ''..''} \<and> CHR ''/'' \<notin> set name \<and> is_ok (ParseConf name raw))"

lemma extract_loop_ok:
  "extract_loop write out ms = (e, out') \<Longrightarrow> list_all written_ok out \<Longrightarrow>
     list_all written_ok out' \<and> (\<forall>m. e \<noteq> Some (SuspiciousName m))"
proof (induction "write" out ms rule: extract_loop.induct)
  case (2 "write" out member isDir content ms)
  show ?case
  proof (cases "isDir \<or> \<not> isConfName member")
    case True
    then show ?thesis using 2 by simp
  next
    case False
    note b = path_base_conf [of member]
    have "written_ok (path_base member, raw)" if "ParseConf (path_base member) raw = Inr s" for raw s
      using b False that by (simp add: written_ok_def)
    then show ?thesis
      using 2 False b by (auto simp: Let_def split: if_splits option.splits sum.splits)
  qed
qed simp

text \<open>
  An archive cannot write outside the directory it is extracted into, whatever the names of its members
  are: every file written has a plain name, with no separator and not \<open>.\<close> or \<open>..\<close>, that the loader will
  pick up, and a content that parses, even when the extraction fails half way. The guard
  against suspicious names is never reached, and success means that something was written.
\<close>

theorem extract_confined:
  "list_all written_ok (snd (ExtractZip mkdir write members)) \<and>
   (\<nexists>m. fst (ExtractZip mkdir write members) = Inl (SuspiciousName m)) \<and>
   (case fst (ExtractZip mkdir write members) of
      Inl _ \<Rightarrow> True
    | Inr n \<Rightarrow> 0 < n \<and> n = length (snd (ExtractZip mkdir write members)))"
proof (cases members)
  case (Some ms)
  obtain e out where l: "extract_loop write [] (map read_member ms) = (e, out)" by fastforce
  then show ?thesis using extract_loop_ok [OF l] Some by (cases e) (auto simp: ExtractZip_def)
qed (simp add: ExtractZip_def)

end
