(* ===== verification/Relays.thy ===== *)
theory Relays
  imports Paths Reconcile
begin

text \<open>
  \<open>internal/mullvad/relays.go\<close> and \<open>cmd/global-egress/relay_refresh.go\<close>: the relay list of the provider, its
  cache, and the refresh of the relay slots of the pool. A file that holds a list is the list with the
  time of its modification; the network and the success of writing the cache are arguments. Sorting by
  slot names is stable here, where \<open>sort.Slice\<close> leaves the order of equal names open; the pool
  refuses a list with two equal names.
\<close>

definition DefaultSocksPort :: int where
  "DefaultSocksPort = 1080"

record relay =
  ry_Hostname :: string
  ry_Country :: string
  ry_CityCode :: string
  ry_CityName :: string
  ry_SocksName :: string
  ry_SocksPort :: int
  ry_Active :: bool
  ry_Owned :: bool
  ry_IPv4AddrIn :: string

definition relay_City :: "relay \<Rightarrow> string" where
  "relay_City r = (if ry_Country r = [] \<or> ry_CityCode r = [] then [] else ry_Country r @ ''-'' @ ry_CityCode r)"

text \<open>\<open>fmt.Sscanf\<close> with \<open>%d\<close> succeeds: spaces, a sign, and digits whose value fits an \<open>int\<close>; what follows is ignored.\<close>

definition scans_int :: "string \<Rightarrow> bool" where
  "scans_int s \<longleftrightarrow>
     (let t = dropWhile (\<lambda>c. c \<in> {CHR '' '', CHR 0x09}) s;
          sign = (if has_prefix ''-'' t \<or> has_prefix ''+'' t then take 1 t else []);
          ds = takeWhile is_digit (drop (length sign) t)
      in ds \<noteq> [] \<and> atoi (sign @ ds) \<noteq> None)"

definition SocksAddr :: "relay \<Rightarrow> string" where
  "SocksAddr r =
     (let port = (if ry_SocksPort r = 0 then DefaultSocksPort else ry_SocksPort r);
          host = ry_SocksName r;
          host = (case cut CHR '':'' (rev host) of
                    Some (after, prior) \<Rightarrow>
                      if prior \<noteq> [] \<and> scans_int (rev after) then rev prior else host
                  | None \<Rightarrow> host)
      in host @ '':'' @ itoa port)"

text \<open>The part of a host name before its first dot, unless the dot is its first character.\<close>

definition host_label :: "string \<Rightarrow> string" where
  "host_label host = (case cut CHR ''.'' host of Some (l, _) \<Rightarrow> if l \<noteq> [] then l else host | None \<Rightarrow> host)"

definition relay_SlotID :: "relay \<Rightarrow> string" where
  "relay_SlotID r =
     (let host = host_label (ry_SocksName r) in if host = [] then ry_Hostname r @ ''-socks'' else host)"

definition Usable_relays :: "relay list \<Rightarrow> relay list" where
  "Usable_relays rs = sort_key relay_SlotID (filter (\<lambda>r. ry_Active r \<and> ry_SocksName r \<noteq> []) rs)"

definition relay_Countries :: "relay list \<Rightarrow> string list" where
  "relay_Countries rs = sorted_list_of_set (set (map ry_Country (Usable_relays rs)))"

definition relay_Cities :: "relay list \<Rightarrow> string list" where
  "relay_Cities rs = sorted_list_of_set (set (filter (\<lambda>c. c \<noteq> []) (map relay_City (Usable_relays rs))))"

section \<open>The cache\<close>

text \<open>
  \<open>parse\<close> refuses an empty list; \<open>LoadFile\<close> takes the time of the file; \<open>Save\<close> writes a temporary file and
  renames it. \<open>LoadOrFetch\<close> gives the list with the flag that tells that the network was used, and the cache.
\<close>

type_synonym 'r cache_files = "(string, 'r list \<times> time) fmap"

datatype list_error = NoList | EmptyList | FetchFailed string

definition parse_list :: "'r list option \<Rightarrow> list_error + 'r list" where
  "parse_list decoded =
     (case decoded of None \<Rightarrow> Inl NoList | Some rs \<Rightarrow> if rs = [] then Inl EmptyList else Inr rs)"

definition LoadFile :: "'r cache_files \<Rightarrow> string \<Rightarrow> list_error + 'r list \<times> time" where
  "LoadFile fs path =
     (case fmlookup fs path of
        None \<Rightarrow> Inl NoList
      | Some (rs, t) \<Rightarrow> (case parse_list (Some rs) of Inl e \<Rightarrow> Inl e | Inr rs \<Rightarrow> Inr (rs, t)))"

definition Save_list :: "bool \<Rightarrow> 'r list \<Rightarrow> time \<Rightarrow> string \<Rightarrow> 'r cache_files \<Rightarrow> bool \<times> 'r cache_files" where
  "Save_list ok rs now path fs = (if ok then (True, fmupd path (rs, now) fs) else (False, fs))"

definition LoadOrFetch ::
  "(list_error + 'r list) \<Rightarrow> bool \<Rightarrow> time \<Rightarrow> string \<Rightarrow> duration \<Rightarrow> 'r cache_files
     \<Rightarrow> (list_error + ('r list \<times> time) \<times> bool) \<times> 'r cache_files" where
  "LoadOrFetch fetch writable now cachePath maxAge fs =
     (let cached = LoadFile fs cachePath;
          fresh = (cachePath \<noteq> [] \<and> maxAge > 0 \<and>
                   (case cached of Inr (_, t) \<Rightarrow> now - t < maxAge | Inl _ \<Rightarrow> False))
      in if fresh then (case cached of Inr l \<Rightarrow> (Inr (l, False), fs) | Inl e \<Rightarrow> (Inl e, fs))
         else
           case fetch of
             Inr rs \<Rightarrow>
               (Inr ((rs, now), True),
                if cachePath \<noteq> [] then snd (Save_list writable rs now cachePath fs) else fs)
           | Inl e \<Rightarrow>
               (case (if cachePath \<noteq> [] then cached else Inl e) of
                  Inr l \<Rightarrow> (Inr (l, False), fs)
                | Inl _ \<Rightarrow> (Inl e, fs)))"

section \<open>The refresh\<close>

definition exitsFromRelays :: "relay list \<Rightarrow> exit_spec list" where
  "exitsFromRelays rs =
     map (\<lambda>r. \<lparr>x_ID = relay_SlotID r, x_Country = ry_Country r, x_City = relay_City r,
            x_Provider = ''mullvad'', x_SocksAddr = SocksAddr r\<rparr>) rs"

datatype refresh_error = RefreshFetch | NoRelayList | NoUsableRelays | RefreshPool pool_error | CacheUpdate

text \<open>The list may be \<open>nil\<close>. A failure to write the cache comes with the result of the reconciliation.\<close>

definition refreshRelaySlots ::
  "(list_error + relay list option) \<Rightarrow> bool \<Rightarrow> time \<Rightarrow> string \<Rightarrow> string list \<Rightarrow> pool \<Rightarrow> relay cache_files
     \<Rightarrow> (refresh_error option \<times> reconcileResult option) \<times> pool \<times> relay cache_files" where
  "refreshRelaySlots fetch writable now cachePath ord p fs =
     (case fetch of
        Inl _ \<Rightarrow> ((Some RefreshFetch, None), p, fs)
      | Inr None \<Rightarrow> ((Some NoRelayList, None), p, fs)
      | Inr (Some rs) \<Rightarrow>
          let relays = Usable_relays rs
          in if relays = [] then ((Some NoUsableRelays, None), p, fs)
             else
               case ReconcileRelaySlots ord (SpecsFromExits (exitsFromRelays relays)) p of
                 (Inl e, p) \<Rightarrow> ((Some (RefreshPool e), None), p, fs)
               | (Inr res, p) \<Rightarrow>
                   if cachePath = [] then ((None, Some res), p, fs)
                   else
                     (case Save_list writable rs now cachePath fs of
                        (True, fs) \<Rightarrow> ((None, Some res), p, fs)
                      | (False, fs) \<Rightarrow> ((Some CacheUpdate, Some res), p, fs)))"

end
