(* ===== verification/Refresh.thy ===== *)
theory Refresh
  imports Relays Samples
begin

text \<open>
  What a refresh of the relay slots does to the pool, and what the cache of a list promises.
\<close>

section \<open>The reconciliation, exactly\<close>

text \<open>How the slot stored under a name of the new list comes about from the pool before.\<close>

definition merged_slot :: "pool \<Rightarrow> pool \<Rightarrow> spec \<Rightarrow> ref \<Rightarrow> bool" where
  "merged_slot p q sp r \<longleftrightarrow>
     (case fmlookup (p_slots p) (sp_ID sp) of
        Some x \<Rightarrow> r = x \<and> p_heap q r = (p_heap p r)\<lparr>s_spec := sp\<rparr>
      | None \<Rightarrow> p_nextRef p \<le> r \<and> p_heap q r = new_slot_state sp)"

lemma named_apart:
  "named m p \<Longrightarrow> fmlookup m i = Some x \<Longrightarrow> fmlookup m j = Some x \<Longrightarrow> i = j"
  by (metis named_def)

lemma merge_exact:
  assumes "merge_specs m ord res nxt p = (Inr (res', nxt'), q)" and "distinct ord"
    and "\<And>i. i \<in> set ord \<Longrightarrow> \<exists>sp. fmlookup m i = Some sp \<and> sp_ID sp = i"
    and "named (p_slots p) p"
  shows "(\<forall>i\<in>set ord. \<exists>r. fmlookup nxt' i = Some r \<and> merged_slot p q (the (fmlookup m i)) r) \<and>
     (\<forall>i. i \<notin> set ord \<longrightarrow> fmlookup nxt' i = fmlookup nxt i) \<and>
     (\<forall>x. x < p_nextRef p \<longrightarrow> (\<forall>i\<in>set ord. fmlookup (p_slots p) i \<noteq> Some x) \<longrightarrow> p_heap q x = p_heap p x) \<and>
     rc_Retained res' = rc_Retained res + int (length (filter (\<lambda>i. i |\<in>| fmdom (p_slots p)) ord)) \<and>
     rc_Added res' = rc_Added res + int (length (filter (\<lambda>i. i |\<notin>| fmdom (p_slots p)) ord))"
  using assms
proof (induction ord arbitrary: res nxt p)
  case Nil
  then show ?case by simp
next
  case (Cons i ord)
  obtain sp where sp: "fmlookup m i = Some sp" "sp_ID sp = i" using Cons.prems(3) by auto
  have ni: "i \<notin> set ord" "distinct ord" using Cons.prems(2) by auto
  have keys: "\<exists>sp. fmlookup m j = Some sp \<and> sp_ID sp = j" if "j \<in> set ord" for j
    using Cons.prems(3) that by simp
  define p1 where "p1 = (case fmlookup (p_slots p) i of
      Some r \<Rightarrow> upd_slot r (\<lambda>s. s\<lparr>s_spec := sp\<rparr>) p | None \<Rightarrow> alloc_slot sp p)"
  define r1 where "r1 = (case fmlookup (p_slots p) i of Some r \<Rightarrow> r | None \<Rightarrow> p_nextRef p)"
  obtain res1 where mg: "merge_specs m ord res1 (fmupd i r1 nxt) p1 = (Inr (res', nxt'), q)"
    and res1: "rc_Retained res1 = rc_Retained res + (if i |\<in>| fmdom (p_slots p) then 1 else 0)"
      "rc_Added res1 = rc_Added res + (if i |\<in>| fmdom (p_slots p) then 0 else 1)"
  proof (cases "fmlookup (p_slots p) i")
    case None
    then show ?thesis
      using Cons.prems(1) sp that [of "res\<lparr>rc_Added := rc_Added res + 1\<rparr>"]
      by (simp add: p1_def r1_def Let_def fmlookup_dom_iff)
  next
    case (Some r)
    then show ?thesis
      using Cons.prems(1) sp that [of "res\<lparr>rc_Retained := rc_Retained res + 1\<rparr>"]
      by (simp add: p1_def r1_def Let_def fmlookup_dom_iff split: if_splits)
  qed
  have nm: "slot_ID (p_heap p r) = j" "r < p_nextRef p" if "fmlookup (p_slots p) j = Some r" for j r
    using Cons.prems(4) that by (auto simp: named_def)
  have sl: "p_slots p1 = p_slots p" and nr: "p_nextRef p \<le> p_nextRef p1"
    by (simp_all add: p1_def alloc_slot_def upd_slot_def split: option.split)
  have same: "p_heap p1 x = p_heap p x" if "x < p_nextRef p" "fmlookup (p_slots p) i \<noteq> Some x" for x
    using that by (auto simp: p1_def alloc_slot_def upd_slot_def split: option.split)
  have r1: "merged_slot p p1 sp r1" "r1 < p_nextRef p1"
    using sp nm by (auto simp: merged_slot_def p1_def r1_def alloc_slot_def upd_slot_def split: option.split)
  have n1: "named (p_slots p1) p1"
    unfolding named_def sl
  proof (intro allI impI)
    fix j x assume l: "fmlookup (p_slots p) j = Some x"
    show "slot_ID (p_heap p1 x) = j \<and> x < p_nextRef p1"
    proof (cases "j = i")
      case True
      then show ?thesis using l sp nr nm [OF l] by (auto simp: p1_def upd_slot_def slot_ID_def)
    next
      case False
      then have "fmlookup (p_slots p) i \<noteq> Some x" using l nm by blast
      then show ?thesis using same nm [OF l] nr by simp
    qed
  qed
  have keep: "\<forall>j\<in>set ord. fmlookup (p_slots p) j \<noteq> Some r1"
  proof (intro ballI notI)
    fix j assume j: "j \<in> set ord" "fmlookup (p_slots p) j = Some r1"
    then have "fmlookup (p_slots p) i = Some r1"
      using nm(2) [OF j(2)] by (auto simp: r1_def split: option.splits)
    then have "i = j" using j nm by metis
    then show False using j ni by simp
  qed
  note IH = Cons.IH [OF mg ni(2) keys n1]
  have head: "fmlookup nxt' i = Some r1 \<and> merged_slot p q sp r1"
    using IH ni r1 keep by (auto simp: sl merged_slot_def split: option.splits)
  have tail: "merged_slot p q (the (fmlookup m j)) r"
    if "j \<in> set ord" "merged_slot p1 q (the (fmlookup m j)) r" for j r
  proof -
    have "fmlookup (p_slots p) i \<noteq> Some x" if "fmlookup (p_slots p) j = Some x" for x
      using that \<open>j \<in> set ord\<close> ni nm by metis
    then show ?thesis
      using that keys [OF \<open>j \<in> set ord\<close>] nr same nm(2)
      by (auto simp: merged_slot_def sl split: option.splits)
  qed
  show ?case
    using IH head tail sp res1 sl nr same ni by (auto simp: less_le_trans)
qed

lemma check_specs_map:
  "check_specs sps m = Inr m' \<Longrightarrow> distinct (map sp_ID sps) \<and>
     (\<forall>sp\<in>set sps. fmlookup m' (sp_ID sp) = Some sp) \<and>
     (\<forall>i. i \<notin> set (map sp_ID sps) \<longrightarrow> fmlookup m' i = fmlookup m i) \<and>
     (\<forall>sp\<in>set sps. sp_ID sp |\<notin>| fmdom m)"
proof (induction sps arbitrary: m)
  case (Cons sp sps)
  have r: "check_specs sps (fmupd (sp_ID sp) sp m) = Inr m'" "sp_ID sp |\<notin>| fmdom m"
    using Cons.prems by (auto split: if_splits)
  have "sp_ID sp \<notin> set (map sp_ID sps)" using Cons.IH [OF r(1)] by auto
  moreover from this have "fmlookup m' (sp_ID sp) = Some sp" using Cons.IH [OF r(1)] by simp
  ultimately show ?case using Cons.IH [OF r(1)] r(2) by auto
qed simp

definition is_relay :: "pool \<Rightarrow> string \<Rightarrow> bool" where
  "is_relay p i \<longleftrightarrow>
     (case fmlookup (p_slots p) i of None \<Rightarrow> False | Some r \<Rightarrow> sp_Kind (s_spec (p_heap p r)) = KindRelaySocks)"

text \<open>The pool after a successful refresh with these specifications.\<close>

definition refreshed :: "spec list \<Rightarrow> pool \<Rightarrow> reconcileResult \<Rightarrow> pool \<Rightarrow> bool" where
  "refreshed specs p res q \<longleftrightarrow>
     distinct (map sp_ID specs) \<and>
     (\<forall>sp\<in>set specs. \<exists>r. fmlookup (p_slots q) (sp_ID sp) = Some r \<and> merged_slot p q sp r) \<and>
     (\<forall>i. i \<notin> set (map sp_ID specs) \<longrightarrow>
        (if is_relay p i then fmlookup (p_slots q) i = None
         else fmlookup (p_slots q) i = fmlookup (p_slots p) i \<and>
           (\<forall>r. fmlookup (p_slots p) i = Some r \<longrightarrow> p_heap q r = p_heap p r))) \<and>
     (\<forall>n se. fmlookup (p_sessions q) n = Some se \<longleftrightarrow>
        fmlookup (p_sessions p) n = Some se \<and> se_slotID se |\<in>| fmdom (p_slots q)) \<and>
     rc_Added res + rc_Retained res = int (length specs) \<and>
     rc_Removed res + rc_Retained res = int (fcard (ffilter (is_relay p) (fmdom (p_slots p))))"

lemma filter_split: "length (filter P xs) + length (filter (\<lambda>x. \<not> P x) xs) = length xs"
  by (induction xs) auto

lemma reconcile_exact:
  assumes rc: "ReconcileRelaySlots ord specs p = (Inr res, q)" and ok: "ids_ok (ids p)"
    and ord: "set ord = set (map sp_ID specs)" "distinct ord"
  shows "refreshed specs p res q"
proof -
  let ?relay = "\<lambda>i. sp_Kind (s_spec (p_heap p (the (fmlookup (p_slots p) i)))) = KindRelaySocks"
  let ?nxt = "fmfilter (\<lambda>i. \<not> ?relay i) (p_slots p)"
  obtain m where m: "check_specs specs fmempty = Inr m"
    using rc by (auto simp: ReconcileRelaySlots_def split: sum.splits if_splits)
  obtain res' nxt p' where mg: "merge_specs m ord \<lparr>rc_Added = 0, rc_Removed = 0, rc_Retained = 0\<rparr> ?nxt p
      = (Inr (res', nxt), p')"
    and q: "q = p'\<lparr>p_slots := nxt, p_order := sorted_list_of_fset (fmdom nxt),
         p_sessions := fm_keep (\<lambda>se. se_slotID se |\<in>| fmdom nxt) (p_sessions p')\<rparr>"
    and res: "res = res'\<lparr>rc_Removed := int (fcard (ffilter ?relay (fmdom (p_slots p)))) - rc_Retained res'\<rparr>"
    using rc m by (auto simp: ReconcileRelaySlots_def Let_def split: sum.splits if_splits prod.splits)
  have n: "named (p_slots p) p" by (rule named_iff [OF ok])
  note cm = check_specs_map [OF m]
  have keys: "\<exists>sp. fmlookup m i = Some sp \<and> sp_ID sp = i" if "i \<in> set ord" for i
    using cm ord that by auto
  note ex = merge_exact [OF mg ord(2) keys n]
  have relay: "is_relay p i \<longleftrightarrow> ?relay i" if "i |\<in>| fmdom (p_slots p)" for i
    using that by (auto simp: is_relay_def fmlookup_dom_iff)
  have rel: "ffilter ?relay (fmdom (p_slots p)) = ffilter (is_relay p) (fmdom (p_slots p))"
    using relay by auto
  have "grown p p'" using merge_specs_spec [OF mg _ n] check_specs_ids [OF m] ord n
    by (auto simp: named_def)
  then have ses: "p_sessions p' = p_sessions p" by (simp add: grown_def)
  have len: "length ord = length specs"
    using ord cm distinct_card [of ord] distinct_card [of "map sp_ID specs"] by simp
  have "\<exists>r. fmlookup (p_slots q) (sp_ID sp) = Some r \<and> merged_slot p q sp r" if "sp \<in> set specs" for sp
  proof -
    have i: "sp_ID sp \<in> set ord" "fmlookup m (sp_ID sp) = Some sp" using cm ord that by auto
    obtain r where "fmlookup nxt (sp_ID sp) = Some r" "merged_slot p p' sp r"
      using bspec [OF conjunct1 [OF ex] i(1)] i(2) by auto
    then show ?thesis by (simp add: q merged_slot_def split: option.splits)
  qed
  moreover have "if is_relay p i then fmlookup (p_slots q) i = None
         else fmlookup (p_slots q) i = fmlookup (p_slots p) i \<and>
           (\<forall>r. fmlookup (p_slots p) i = Some r \<longrightarrow> p_heap q r = p_heap p r)"
    if "i \<notin> set (map sp_ID specs)" for i
  proof -
    have "fmlookup nxt i = fmlookup ?nxt i" using ex ord that by simp
    moreover have "p_heap p' r = p_heap p r" if "fmlookup (p_slots p) i = Some r" for r
      using ex ord that \<open>i \<notin> set (map sp_ID specs)\<close> n named_apart [OF n that]
      by (metis (no_types, lifting) named_def)
    ultimately show ?thesis
      by (auto simp: q is_relay_def split: option.splits)
  qed
  moreover have "rc_Added res + rc_Retained res = int (length specs)"
    using ex len filter_split [of "\<lambda>i. i |\<in>| fmdom (p_slots p)" ord]
    by (simp add: res flip: of_nat_add)
  moreover have "rc_Removed res + rc_Retained res = int (fcard (ffilter (is_relay p) (fmdom (p_slots p))))"
    by (simp add: res rel)
  moreover have "fmlookup (p_sessions q) n = Some se \<longleftrightarrow>
      fmlookup (p_sessions p) n = Some se \<and> se_slotID se |\<in>| fmdom (p_slots q)" for n se
    by (auto simp: q ses split: option.splits)
  ultimately show ?thesis using cm unfolding refreshed_def by blast
qed

text \<open>The usable relays of a fetched list.\<close>

definition fetched_specs :: "(list_error + relay list option) \<Rightarrow> spec list" where
  "fetched_specs fetch =
     (case fetch of Inr (Some rs) \<Rightarrow> SpecsFromExits (exitsFromRelays (Usable_relays rs)) | _ \<Rightarrow> [])"

text \<open>
  The pool after a refresh it refused: as before, unless a relay of the list has the name of a slot that is no relay. The loop
  may have met other relays first; then retained ones already have their new specification, and states were made that
  no slot uses.
\<close>

definition collides :: "spec list \<Rightarrow> pool \<Rightarrow> bool" where
  "collides specs p \<longleftrightarrow> (\<exists>sp\<in>set specs. sp_ID sp |\<in>| fmdom (p_slots p) \<and> \<not> is_relay p (sp_ID sp))"

definition rewritten :: "spec list \<Rightarrow> pool \<Rightarrow> pool \<Rightarrow> bool" where
  "rewritten specs p q \<longleftrightarrow>
     q = p\<lparr>p_heap := p_heap q, p_nextRef := p_nextRef q\<rparr> \<and> p_nextRef p \<le> p_nextRef q \<and>
     (\<forall>r. p_heap q r = p_heap p r \<or>
          (\<exists>sp\<in>set specs. is_relay p (sp_ID sp) \<and> fmlookup (p_slots p) (sp_ID sp) = Some r \<and>
             p_heap q r = (p_heap p r)\<lparr>s_spec := sp\<rparr>) \<or>
          p_nextRef p \<le> r \<and> (\<exists>sp\<in>set specs. p_heap q r = new_slot_state sp))"

definition refused :: "spec list \<Rightarrow> pool \<Rightarrow> pool \<Rightarrow> bool" where
  "refused specs p q \<longleftrightarrow> q = p \<or> collides specs p \<and> rewritten specs p q"

lemma is_relay_retain:
  assumes "fmlookup (p_slots p) i = Some r" and "sp_Kind (s_spec (p_heap p r)) = KindRelaySocks"
    and "sp_Kind sp = KindRelaySocks"
  shows "is_relay (upd_slot r (\<lambda>s. s\<lparr>s_spec := sp\<rparr>) p) = is_relay p"
  using assms by (auto simp: is_relay_def upd_slot_def fun_eq_iff split: option.splits)

lemma is_relay_alloc: "named (p_slots p) p \<Longrightarrow> is_relay (alloc_slot sp p) = is_relay p"
  by (auto simp: is_relay_def alloc_slot_def named_def fun_eq_iff split: option.splits)

lemma rewritten_alloc:
  assumes "rewritten specs (alloc_slot sp p) q" and "named (p_slots p) p" and "sp \<in> set specs"
  shows "rewritten specs p q"
proof -
  let ?p = "alloc_slot sp p"
  have f: "p_slots ?p = p_slots p" "p_nextRef ?p = Suc (p_nextRef p)"
    "p_heap ?p = (p_heap p)(p_nextRef p := new_slot_state sp)" by (simp_all add: alloc_slot_def)
  have low: "fmlookup (p_slots p) j = Some r \<Longrightarrow> r < p_nextRef p" for j r
    using assms(2) by (auto simp: named_def)
  have a: "q = ?p\<lparr>p_heap := p_heap q, p_nextRef := p_nextRef q\<rparr>" "p_nextRef ?p \<le> p_nextRef q"
    using assms(1) unfolding rewritten_def by blast+
  have h: "p_heap q r = p_heap ?p r \<or>
      (\<exists>sp\<in>set specs. is_relay p (sp_ID sp) \<and> fmlookup (p_slots p) (sp_ID sp) = Some r \<and>
         p_heap q r = (p_heap ?p r)\<lparr>s_spec := sp\<rparr>) \<or>
      Suc (p_nextRef p) \<le> r \<and> (\<exists>sp\<in>set specs. p_heap q r = new_slot_state sp)" for r
    using assms(1) unfolding rewritten_def is_relay_alloc [OF assms(2)] f(1,2) by blast
  have "?p\<lparr>p_heap := h, p_nextRef := n\<rparr> = p\<lparr>p_heap := h, p_nextRef := n\<rparr>" for h n by (simp add: alloc_slot_def)
  then have "q = p\<lparr>p_heap := p_heap q, p_nextRef := p_nextRef q\<rparr>" using a(1) by metis
  moreover have "p_heap q r = p_heap p r \<or>
      (\<exists>sp\<in>set specs. is_relay p (sp_ID sp) \<and> fmlookup (p_slots p) (sp_ID sp) = Some r \<and>
         p_heap q r = (p_heap p r)\<lparr>s_spec := sp\<rparr>) \<or>
      p_nextRef p \<le> r \<and> (\<exists>sp\<in>set specs. p_heap q r = new_slot_state sp)" for r
  proof (cases "r = p_nextRef p")
    case True
    then have "fmlookup (p_slots p) j \<noteq> Some r" for j using low by fastforce
    then show ?thesis using h [of r] assms(3) True by (auto simp: f)
  next
    case False
    then have "p_heap ?p r = p_heap p r" by (simp add: f)
    then show ?thesis using h [of r] by (auto dest: Suc_leD)
  qed
  ultimately show ?thesis using a(2) f(2) unfolding rewritten_def by auto
qed

lemma rewritten_retain:
  assumes "rewritten specs (upd_slot r0 (\<lambda>s. s\<lparr>s_spec := sp\<rparr>) p) q" and "fmlookup (p_slots p) (sp_ID sp) = Some r0"
    and "sp_Kind (s_spec (p_heap p r0)) = KindRelaySocks" "sp_Kind sp = KindRelaySocks" and "sp \<in> set specs"
  shows "rewritten specs p q"
proof -
  let ?p = "upd_slot r0 (\<lambda>s. s\<lparr>s_spec := sp\<rparr>) p"
  have f: "p_slots ?p = p_slots p" "p_nextRef ?p = p_nextRef p"
    "p_heap ?p = (p_heap p)(r0 := (p_heap p r0)\<lparr>s_spec := sp\<rparr>)" by (simp_all add: upd_slot_def)
  have a: "q = ?p\<lparr>p_heap := p_heap q, p_nextRef := p_nextRef q\<rparr>" "p_nextRef p \<le> p_nextRef q"
    using assms(1) unfolding rewritten_def f(2) by blast+
  have h: "p_heap q r = p_heap ?p r \<or>
      (\<exists>sp\<in>set specs. is_relay p (sp_ID sp) \<and> fmlookup (p_slots p) (sp_ID sp) = Some r \<and>
         p_heap q r = (p_heap ?p r)\<lparr>s_spec := sp\<rparr>) \<or>
      p_nextRef p \<le> r \<and> (\<exists>sp\<in>set specs. p_heap q r = new_slot_state sp)" for r
    using assms(1) unfolding rewritten_def is_relay_retain [OF assms(2-4)] f(1,2) by blast
  have "?p\<lparr>p_heap := h, p_nextRef := n\<rparr> = p\<lparr>p_heap := h, p_nextRef := n\<rparr>" for h n by (simp add: upd_slot_def)
  then have "q = p\<lparr>p_heap := p_heap q, p_nextRef := p_nextRef q\<rparr>" using a(1) by metis
  moreover have "is_relay p (sp_ID sp)" using assms(2,3) by (simp add: is_relay_def)
  then have "p_heap q r = p_heap p r \<or>
      (\<exists>sp\<in>set specs. is_relay p (sp_ID sp) \<and> fmlookup (p_slots p) (sp_ID sp) = Some r \<and>
         p_heap q r = (p_heap p r)\<lparr>s_spec := sp\<rparr>) \<or>
      p_nextRef p \<le> r \<and> (\<exists>sp\<in>set specs. p_heap q r = new_slot_state sp)" for r
    using h [of r] assms(2,5) unfolding f(3) by (cases "r = r0") auto
  ultimately show ?thesis using a(2) unfolding rewritten_def by blast
qed

lemma merge_refused:
  assumes "merge_specs m ord res nxt p = (Inl e, q)" and "named (p_slots p) p"
    and "\<And>i. i \<in> set ord \<Longrightarrow> \<exists>sp\<in>set specs. fmlookup m i = Some sp \<and> sp_ID sp = i \<and> sp_Kind sp = KindRelaySocks"
  shows "collides specs p \<and> rewritten specs p q"
  using assms
proof (induction ord arbitrary: res nxt p)
  case (Cons i ord)
  obtain sp where sp: "sp \<in> set specs" "fmlookup m i = Some sp" "sp_ID sp = i" "sp_Kind sp = KindRelaySocks"
    using Cons.prems(3) by auto
  have keys: "\<exists>sp\<in>set specs. fmlookup m j = Some sp \<and> sp_ID sp = j \<and> sp_Kind sp = KindRelaySocks" if "j \<in> set ord" for j
    using Cons.prems(3) that by simp
  show ?case
  proof (cases "fmlookup (p_slots p) i")
    case None
    let ?p = "alloc_slot sp p"
    have sl: "p_slots ?p = p_slots p" by (simp add: alloc_slot_def)
    have n: "named (p_slots ?p) ?p"
      using named_grown [OF grown_alloc [OF sp(4), of p] Cons.prems(2)] unfolding sl .
    obtain res1 where "merge_specs m ord res1 (fmupd i (p_nextRef p) nxt) ?p = (Inl e, q)"
      using Cons.prems(1) None sp by (simp add: Let_def)
    from Cons.IH [OF this n keys] show ?thesis
      using rewritten_alloc [OF _ Cons.prems(2) sp(1)] unfolding collides_def sl is_relay_alloc [OF Cons.prems(2)] by blast
  next
    case (Some r0)
    show ?thesis
    proof (cases "sp_Kind (s_spec (p_heap p r0)) = KindRelaySocks")
      case False
      then have "q = p" using Cons.prems(1) Some sp by simp
      moreover have "sp_ID sp |\<in>| fmdom (p_slots p) \<and> \<not> is_relay p (sp_ID sp)"
        using False Some sp by (simp add: is_relay_def fmdomI)
      ultimately show ?thesis using sp(1) by (auto simp: collides_def rewritten_def)
    next
      case True
      let ?p = "upd_slot r0 (\<lambda>s. s\<lparr>s_spec := sp\<rparr>) p"
      have sl: "p_slots ?p = p_slots p" by (simp add: upd_slot_def)
      have nm: "slot_ID (p_heap p r0) = i" "r0 < p_nextRef p" using Cons.prems(2) Some by (auto simp: named_def)
      have "grown p ?p" using nm sp True by (intro grown_retain) auto
      then have n: "named (p_slots ?p) ?p" using named_grown Cons.prems(2) sl by metis
      have l: "fmlookup (p_slots p) (sp_ID sp) = Some r0" using Some sp(3) by simp
      obtain res1 where "merge_specs m ord res1 (fmupd i r0 nxt) ?p = (Inl e, q)"
        using Cons.prems(1) Some True sp by (simp add: Let_def)
      from Cons.IH [OF this n keys] show ?thesis
        using rewritten_retain [OF _ l True sp(4,1)] unfolding collides_def sl is_relay_retain [OF Some True sp(4)] by blast
    qed
  qed
qed simp

lemma reconcile_refused:
  assumes rc: "ReconcileRelaySlots ord specs p = (Inl e, q)" and ok: "ids_ok (ids p)"
    and ord: "set ord = set (map sp_ID specs)"
  shows "refused specs p q"
proof (cases "specs = [] \<or> p_closing p \<or> (\<exists>e. check_specs specs fmempty = Inl e)")
  case True
  then show ?thesis
    using rc by (auto simp: ReconcileRelaySlots_def refused_def split: sum.splits if_splits)
next
  case False
  then obtain m where m: "check_specs specs fmempty = Inr m"
    by (cases "check_specs specs fmempty") auto
  obtain res nxt where mg: "merge_specs m ord res nxt p = (Inl e, q)"
    using rc False m by (auto simp: ReconcileRelaySlots_def Let_def split: sum.splits prod.splits)
  have "\<exists>sp\<in>set specs. fmlookup m i = Some sp \<and> sp_ID sp = i \<and> sp_Kind sp = KindRelaySocks" if "i \<in> set ord" for i
  proof -
    have "i \<in> sp_ID ` set specs" using ord that by simp
    then obtain sp where "sp \<in> set specs" "sp_ID sp = i" by blast
    then show ?thesis
      using check_specs_map [OF m] check_specs_ids [OF m] ord that by fastforce
  qed
  then show ?thesis unfolding refused_def using merge_refused [OF mg named_iff [OF ok]] by blast
qed


definition demo_relay :: "string \<Rightarrow> bool \<Rightarrow> relay" where
  "demo_relay n active = \<lparr>ry_Hostname = n @ ''-wg'', ry_Country = ''se'', ry_CityCode = ''got'',
     ry_CityName = ''Gothenburg'', ry_SocksName = n @ ''.relays.mullvad.net'', ry_SocksPort = 0, ry_Active = active,
     ry_Owned = True, ry_IPv4AddrIn = ''1.2.3.4''\<rparr>"

definition demo_relay_specs :: "spec list" where
  "demo_relay_specs =
     [demo_spec ''b'' KindDirectSocks, demo_spec ''se-1'' KindRelaySocks, demo_spec ''se-9'' KindRelaySocks]"

definition demo_relay_pool :: pool where
  "demo_relay_pool = (case NewWithSpecs demo_relay_specs [no_wg] demo_opts of
      Inr p \<Rightarrow> p | Inl _ \<Rightarrow> empty_pool demo_opts [])"

definition demo_relay_list :: "relay list" where
  "demo_relay_list = [demo_relay ''se-3'' True, demo_relay ''se-2'' False, demo_relay ''se-1'' True]"


section \<open>The cache\<close>

text \<open>Later loads of the same cache, one after the other: network, writability, time and maximal age.\<close>

fun cache_run ::
  "string \<Rightarrow> ((list_error + 'r list) \<times> bool \<times> time \<times> duration) list \<Rightarrow> 'r cache_files \<Rightarrow> 'r cache_files" where
  "cache_run path [] fs = fs"
| "cache_run path ((fetch, writable, now, age) # calls) fs =
     cache_run path calls (snd (LoadOrFetch fetch writable now path age fs))"

definition serves :: "string \<Rightarrow> 'r cache_files \<Rightarrow> bool" where
  "serves path fs \<longleftrightarrow> (\<exists>rs t. fmlookup fs path = Some (rs, t) \<and> rs \<noteq> [])"

lemma LoadFile_serves: "serves path fs \<Longrightarrow> \<exists>l. LoadFile fs path = Inr l"
  by (auto simp: serves_def LoadFile_def parse_list_def)

lemma LoadOrFetch_serves:
  assumes "serves path fs" and "path \<noteq> []" and "fetch \<noteq> Inr []"
  shows "serves path (snd (LoadOrFetch fetch writable now path age fs)) \<and>
     is_ok (fst (LoadOrFetch fetch writable now path age fs))"
proof -
  obtain l where "LoadFile fs path = Inr l" using LoadFile_serves [OF assms(1)] by blast
  then show ?thesis
    using assms
    by (cases fetch) (auto simp: LoadOrFetch_def Save_list_def serves_def Let_def split: prod.splits)
qed

lemma cache_run_serves:
  "serves path fs \<Longrightarrow> path \<noteq> [] \<Longrightarrow> list_all (\<lambda>(f, _). f \<noteq> Inr []) calls \<Longrightarrow> serves path (cache_run path calls fs)"
  by (induction path calls fs rule: cache_run.induct) (auto simp: LoadOrFetch_serves)

text \<open>
  C15: once a list has been fetched and cached, loading never fails again, whatever the network
  does, however often it fails and whether or not the cache can be written, as long as nothing else touches the
  file; and while the cached list is younger than the maximal age, it is returned as it is and the network is not used.
\<close>

theorem cache_serves:
  assumes "path \<noteq> []" and "rs \<noteq> []"
    and "LoadOrFetch (Inr rs) True t path age fs = (Inr ((rs, t), True), fs1)"
    and "list_all (\<lambda>(f, _). f \<noteq> Inr []) calls" and "fetch \<noteq> Inr []"
  shows "is_ok (fst (LoadOrFetch fetch writable now path age' (cache_run path calls fs1))) \<and>
     (now - t < age' \<longrightarrow> 0 < age' \<longrightarrow>
        LoadOrFetch fetch writable now path age' fs1 = (Inr ((rs, t), False), fs1))"
proof -
  have l: "fmlookup fs1 path = Some (rs, t)"
    using assms(1,3) by (auto simp: LoadOrFetch_def Save_list_def Let_def split: if_splits sum.splits)
  then have "serves path fs1" using assms(2) by (simp add: serves_def)
  then have "serves path (cache_run path calls fs1)" by (rule cache_run_serves) (use assms in auto)
  then show ?thesis
    using LoadOrFetch_serves [of path _ fetch] assms l
    by (simp add: LoadOrFetch_def LoadFile_def parse_list_def Let_def)
qed

theorem cache_serves_witness:
  "is_ok (fst (LoadOrFetch (Inl NoList) False 99 ''/c'' 5
     (cache_run ''/c'' [(Inl NoList, True, 50, 5)] (snd (LoadOrFetch (Inr [''r'']) True 3 ''/c'' 5 fmempty)))))"
  using cache_serves [of "''/c''" "[''r'']" 3 5 fmempty "snd (LoadOrFetch (Inr [''r'']) True 3 ''/c'' 5 fmempty)"
      "[(Inl NoList, True, 50, 5)]" "Inl NoList" False 99 5]
  by (simp add: LoadOrFetch_def LoadFile_def Save_list_def Let_def)

end
