(* ===== verification/Nordvpn.thy ===== *)
theory Nordvpn
  imports Catalog Refresh
begin

text \<open>
  \<open>internal/nordvpn\<close>: the server list of NordVPN (\<open>servers.go\<close>), the slots made of it (\<open>slots.go\<close>) and its cache
  (\<open>fetch.go\<close>). JSON texts are values here: what \<open>json.Unmarshal\<close> yields for the provider's nested
  schema, and what \<open>json.Marshal\<close> is given, are records. Sorting is stable, as in \<open>Relays\<close>.
\<close>

definition DefaultPort :: int where
  "DefaultPort = 51820"

definition wireGuardTechnology :: string where
  "wireGuardTechnology = ''wireguard_udp''"

definition publicKeyMetadata :: string where
  "publicKeyMetadata = ''public_key''"

definition groupDedicatedIP :: string where
  "groupDedicatedIP = ''Dedicated IP''"

definition groupStandard :: string where
  "groupStandard = ''Standard VPN servers''"

section \<open>Servers\<close>

record nord_server =
  nv_Hostname :: string
  nv_Station :: string
  nv_Status :: string
  nv_Load :: int
  nv_PublicKey :: string
  nv_Country :: string
  nv_CityName :: string
  nv_groups :: "string list"

text \<open>The provider's schema. A location is its country, a group its title, a metadata entry a name and a value.\<close>

record city_json =
  cj_DNSName :: string
  cj_Name :: string

record country_json =
  oj_Code :: string
  oj_City :: city_json

record technology_json =
  tj_Identifier :: string
  tj_Status :: string
  tj_Metadata :: "(string \<times> string) list"

record server_json =
  sj_Hostname :: string
  sj_Station :: string
  sj_Status :: string
  sj_Load :: int
  sj_Locations :: "country_json list"
  sj_Groups :: "string list"
  sj_Technologies :: "technology_json list"

definition replace_spaces :: "string \<Rightarrow> string" where
  "replace_spaces = replace_all CHR '' '' CHR ''-''"

fun metadata_key :: "string \<Rightarrow> (string \<times> string) list \<Rightarrow> string" where
  "metadata_key key [] = key"
| "metadata_key key ((name, val) # ms) = metadata_key (if name = publicKeyMetadata then val else key) ms"

fun technology_key :: "string \<Rightarrow> technology_json list \<Rightarrow> string" where
  "technology_key key [] = key"
| "technology_key key (t # ts) =
     (if tj_Identifier t \<noteq> wireGuardTechnology then technology_key key ts
      else if tj_Status t \<noteq> [] \<and> tj_Status t \<noteq> ''online'' then technology_key key ts
      else technology_key (metadata_key key (tj_Metadata t)) ts)"

definition UnmarshalJSON :: "server_json \<Rightarrow> nord_server" where
  "UnmarshalJSON raw =
     (let (country, city) =
            (case sj_Locations raw of
               [] \<Rightarrow> ([], [])
             | l # _ \<Rightarrow>
                 (to_lower (oj_Code l),
                  let city = cj_DNSName (oj_City l);
                      city = (if city = [] then to_lower (replace_spaces (cj_Name (oj_City l))) else city)
                  in replace_all CHR ''_'' CHR ''-'' city))
      in \<lparr>nv_Hostname = sj_Hostname raw, nv_Station = sj_Station raw, nv_Status = sj_Status raw,
          nv_Load = sj_Load raw, nv_PublicKey = technology_key [] (sj_Technologies raw),
          nv_Country = country, nv_CityName = city, nv_groups = sj_Groups raw\<rparr>)"

definition MarshalJSON :: "nord_server \<Rightarrow> server_json" where
  "MarshalJSON s =
     \<lparr>sj_Hostname = nv_Hostname s, sj_Station = nv_Station s, sj_Status = nv_Status s, sj_Load = nv_Load s,
      sj_Locations = [\<lparr>oj_Code = nv_Country s, oj_City = \<lparr>cj_DNSName = nv_CityName s, cj_Name = []\<rparr>\<rparr>],
      sj_Groups = nv_groups s,
      sj_Technologies =
        (if nv_PublicKey s \<noteq> []
         then [\<lparr>tj_Identifier = wireGuardTechnology, tj_Status = ''online'',
                tj_Metadata = [(publicKeyMetadata, nv_PublicKey s)]\<rparr>]
         else [])\<rparr>"

definition hasGroup :: "nord_server \<Rightarrow> string \<Rightarrow> bool" where
  "hasGroup s title \<longleftrightarrow> title \<in> set (nv_groups s)"

definition nord_City :: "nord_server \<Rightarrow> string" where
  "nord_City s = (if nv_Country s = [] \<or> nv_CityName s = [] then [] else nv_Country s @ ''-'' @ nv_CityName s)"

definition nord_SlotID :: "nord_server \<Rightarrow> string" where
  "nord_SlotID s = host_label (nv_Hostname s)"

definition nord_Endpoint :: "nord_server \<Rightarrow> string" where
  "nord_Endpoint s = nv_Station s @ '':'' @ itoa DefaultPort"

definition server_usable :: "nord_server \<Rightarrow> bool" where
  "server_usable s \<longleftrightarrow>
     \<not> (nv_Status s \<noteq> [] \<and> nv_Status s \<noteq> ''online'') \<and>
     \<not> (nv_PublicKey s = [] \<or> nv_Station s = []) \<and>
     \<not> (hasGroup s groupDedicatedIP \<or> \<not> hasGroup s groupStandard)"

definition Usable_servers :: "nord_server list \<Rightarrow> nord_server list" where
  "Usable_servers ss = sort_key nord_SlotID (filter server_usable ss)"

definition nord_Countries :: "nord_server list \<Rightarrow> string list" where
  "nord_Countries ss = sorted_list_of_set (set (filter (\<lambda>c. c \<noteq> []) (map nv_Country (Usable_servers ss))))"

definition nord_Cities :: "nord_server list \<Rightarrow> string list" where
  "nord_Cities ss = sorted_list_of_set (set (filter (\<lambda>c. c \<noteq> []) (map nord_City (Usable_servers ss))))"

section \<open>Slots\<close>

definition nordDNS :: "netaddr list" where
  "nordDNS = [parse_addr ''103.86.96.100'', parse_addr ''103.86.99.100'']"

definition tunnelAddress :: string where
  "tunnelAddress = ''10.5.0.2''"

datatype nord_error = NoPrivateKey | NoUsableServers | BadTunnelAddress | EmptySlotID | DuplicateSlotID string

definition nord_slot :: "string \<Rightarrow> addr \<Rightarrow> nord_server \<Rightarrow> wg_slot" where
  "nord_slot privateKey address s = no_wg\<lparr>
     c_ID := nord_SlotID s, c_Country := nv_Country s, c_City := nord_City s, c_PrivateKey := privateKey,
     c_Addresses := [Some address], c_DNS := nordDNS, c_MTU := DefaultMTU, c_PeerPublicKey := nv_PublicKey s,
     c_Endpoint := nord_Endpoint s, c_AllowedIPs := default_routes, c_Source := nv_Hostname s\<rparr>"

fun slots_loop ::
  "string \<Rightarrow> addr \<Rightarrow> string list \<Rightarrow> nord_server list \<Rightarrow> nord_error + wg_slot list" where
  "slots_loop key address seen [] = Inr []"
| "slots_loop key address seen (s # ss) =
     (if nord_SlotID s = [] then Inl EmptySlotID
      else if nord_SlotID s \<in> set seen then Inl (DuplicateSlotID (nord_SlotID s))
      else
        case slots_loop key address (nord_SlotID s # seen) ss of
          Inl e \<Rightarrow> Inl e
        | Inr slots \<Rightarrow> Inr (nord_slot key address s # slots))"

definition nord_Slots :: "string \<Rightarrow> nord_server list \<Rightarrow> nord_error + wg_slot list" where
  "nord_Slots privateKey servers =
     (if privateKey = [] then Inl NoPrivateKey
      else
        let usable = Usable_servers servers
        in if usable = [] then Inl NoUsableServers
           else
             case parse_addr tunnelAddress of
               None \<Rightarrow> Inl BadTunnelAddress
             | Some address \<Rightarrow> slots_loop privateKey address [] usable)"

section \<open>The cache\<close>

record load_options =
  lo_CachePath :: string
  lo_MaxAge :: duration
  lo_AllowStale :: bool

text \<open>A file holds the marshalled servers.\<close>

definition nord_Save ::
  "bool \<Rightarrow> nord_server list \<Rightarrow> time \<Rightarrow> string \<Rightarrow> server_json cache_files \<Rightarrow> bool \<times> server_json cache_files" where
  "nord_Save ok servers now path fs = Save_list ok (map MarshalJSON servers) now path fs"

definition nord_LoadFile ::
  "server_json cache_files \<Rightarrow> string \<Rightarrow> list_error + nord_server list \<times> time" where
  "nord_LoadFile fs path =
     (case fmlookup fs path of
        None \<Rightarrow> Inl NoList
      | Some (raws, t) \<Rightarrow>
          (case parse_list (Some (map UnmarshalJSON raws)) of
             Inl e \<Rightarrow> Inl e
           | Inr servers \<Rightarrow> Inr (servers, t)))"

definition nord_LoadOrFetch ::
  "(list_error + nord_server list) \<Rightarrow> bool \<Rightarrow> time \<Rightarrow> load_options \<Rightarrow> server_json cache_files
     \<Rightarrow> (list_error + (nord_server list \<times> time) \<times> bool) \<times> server_json cache_files" where
  "nord_LoadOrFetch fetch writable now options fs =
     (let path = lo_CachePath options; cached = nord_LoadFile fs path;
          fresh = (path \<noteq> [] \<and> lo_MaxAge options > 0 \<and>
                   (case cached of Inr (_, t) \<Rightarrow> now - t < lo_MaxAge options | Inl _ \<Rightarrow> False))
      in if fresh then (case cached of Inr l \<Rightarrow> (Inr (l, False), fs) | Inl e \<Rightarrow> (Inl e, fs))
         else
           case fetch of
             Inr servers \<Rightarrow>
               (Inr ((servers, now), True),
                if path \<noteq> [] then snd (nord_Save writable servers now path fs) else fs)
           | Inl e \<Rightarrow>
               (case (if lo_AllowStale options \<and> path \<noteq> [] then cached else Inl e) of
                  Inr l \<Rightarrow> (Inr (l, False), fs)
                | Inl _ \<Rightarrow> (Inl e, fs)))"

section \<open>Round trips\<close>

lemma replace_all_idem [simp]: "replace_all CHR ''_'' CHR ''-'' (replace_all CHR ''_'' CHR ''-'' s) =
    replace_all CHR ''_'' CHR ''-'' s"
  by (simp add: replace_all_def)

lemma replace_all_Nil [simp]: "replace_all a b s = [] \<longleftrightarrow> s = []" "replace_spaces s = [] \<longleftrightarrow> s = []"
  by (simp_all add: replace_all_def replace_spaces_def)

lemma to_lower_Nil [simp]: "to_lower s = [] \<longleftrightarrow> s = []"
  by (simp add: to_lower_def)

definition settled :: "nord_server \<Rightarrow> bool" where
  "settled s \<longleftrightarrow> UnmarshalJSON (MarshalJSON s) = s"

lemma settled_iff:
  "settled s \<longleftrightarrow> to_lower (nv_Country s) = nv_Country s \<and>
     replace_all CHR ''_'' CHR ''-'' (nv_CityName s) = nv_CityName s"
  by (cases s) (auto simp: settled_def UnmarshalJSON_def MarshalJSON_def replace_all_def to_lower_def
      replace_spaces_def Let_def)

lemma settled_Unmarshal [simp]: "settled (UnmarshalJSON raw)"
  by (auto simp: settled_iff UnmarshalJSON_def Let_def replace_all_def split: list.split)

lemma map_settled: "list_all settled ss \<Longrightarrow> map UnmarshalJSON (map MarshalJSON ss) = ss"
  by (induction ss) (auto simp: settled_def)

text \<open>
  Saving the server list and loading it again changes nothing: the provider's nested shape, which the cache
  file has, carries everything the flat records hold. The country code keeps its case, the city its spelling, the key
  its technology and the groups their order.
\<close>

theorem server_cache_roundtrip:
  assumes "raws \<noteq> []"
  shows "nord_LoadFile (snd (nord_Save True (map UnmarshalJSON raws) now path fs)) path =
     Inr (map UnmarshalJSON raws, now)"
proof -
  have "list_all settled (map UnmarshalJSON raws)" by (simp add: list_all_iff)
  from map_settled [OF this] show ?thesis
    using assms by (simp add: nord_LoadFile_def nord_Save_def Save_list_def parse_list_def comp_def)
qed

definition demo_server :: "string \<Rightarrow> server_json" where
  "demo_server h = \<lparr>sj_Hostname = h @ ''.nordvpn.com'', sj_Station = ''1.2.3.4'', sj_Status = ''online'', sj_Load = 3,
     sj_Locations = [\<lparr>oj_Code = ''US'', oj_City = \<lparr>cj_DNSName = [], cj_Name = ''New York''\<rparr>\<rparr>],
     sj_Groups = [groupStandard],
     sj_Technologies =
       [\<lparr>tj_Identifier = ''openvpn_udp'', tj_Status = ''online'', tj_Metadata = []\<rparr>,
        \<lparr>tj_Identifier = wireGuardTechnology, tj_Status = [], tj_Metadata = [(publicKeyMetadata, ''k='')]\<rparr>]\<rparr>"

theorem server_cache_roundtrip_witness:
  "nord_LoadFile (snd (nord_Save True [UnmarshalJSON (demo_server ''us1'')] 5 ''/c'' fmempty)) ''/c'' =
     Inr ([UnmarshalJSON (demo_server ''us1'')], 5) \<and>
   nord_City (UnmarshalJSON (demo_server ''us1'')) = ''us-new-york''"
proof -
  have "nord_City (UnmarshalJSON (demo_server ''us1'')) = ''us-new-york''" by code_simp
  then show ?thesis using server_cache_roundtrip [of "[demo_server ''us1'']" 5 "''/c''" fmempty] by simp
qed

text \<open>The cache of flat records that a cache file stands for.\<close>

definition flat_cache :: "server_json cache_files \<Rightarrow> nord_server cache_files" where
  "flat_cache fs = fmmap (\<lambda>(raws, t). (map UnmarshalJSON raws, t)) fs"

lemma LoadFile_flat: "LoadFile (flat_cache fs) path = nord_LoadFile fs path"
  by (auto simp: LoadFile_def nord_LoadFile_def flat_cache_def split: option.split)

lemma Save_flat:
  "list_all settled ss \<Longrightarrow>
     flat_cache (snd (nord_Save ok ss now path fs)) = snd (Save_list ok ss now path (flat_cache fs))"
  by (auto simp: nord_Save_def Save_list_def flat_cache_def map_settled simp del: map_map
      intro!: fmap_ext)

text \<open>
  C12: the NordVPN cache refines the Mullvad cache. With \<open>AllowStale\<close> it answers and stores exactly as
  \<open>LoadOrFetch\<close> of the Mullvad package does on the flat view of its files, so what is known of the one
  holds of the other; without it, what it returns comes from the network or is younger than the maximal age.
\<close>

theorem nord_cache_refines:
  assumes "nord_LoadOrFetch fetch writable now options fs = (res, fs')"
    and "case fetch of Inr servers \<Rightarrow> list_all settled servers | Inl _ \<Rightarrow> True"
  shows "if lo_AllowStale options
     then LoadOrFetch fetch writable now (lo_CachePath options) (lo_MaxAge options) (flat_cache fs)
       = (res, flat_cache fs')
     else (case res of
        Inr ((servers, t), True) \<Rightarrow> fetch = Inr servers \<and> t = now
      | Inr ((servers, t), False) \<Rightarrow>
          now - t < lo_MaxAge options \<and> fs' = fs \<and> nord_LoadFile fs (lo_CachePath options) = Inr (servers, t)
      | Inl e \<Rightarrow> fetch = Inl e \<and> fs' = fs)"
  using assms Save_flat
  by (cases fetch)
    (auto simp: nord_LoadOrFetch_def LoadOrFetch_def LoadFile_flat Let_def split: sum.splits if_splits prod.splits)

theorem nord_cache_refines_witness:
  "\<exists>res fs'. nord_LoadOrFetch (Inr [UnmarshalJSON (demo_server ''us1'')]) True 5
       \<lparr>lo_CachePath = ''/c'', lo_MaxAge = 3, lo_AllowStale = True\<rparr> fmempty = (res, fs') \<and>
     LoadOrFetch (Inr [UnmarshalJSON (demo_server ''us1'')]) True 5 ''/c'' 3 (flat_cache fmempty) = (res, flat_cache fs')"
proof -
  let ?o = "\<lparr>lo_CachePath = ''/c'', lo_MaxAge = 3, lo_AllowStale = True\<rparr>"
  obtain res fs' where
    "nord_LoadOrFetch (Inr [UnmarshalJSON (demo_server ''us1'')]) True 5 ?o fmempty = (res, fs')"
    by fastforce
  then show ?thesis using nord_cache_refines [of _ True 5 ?o fmempty res fs'] by fastforce
qed

end
