(* ===== verification/NordCatalog.thy ===== *)
theory NordCatalog
  imports Nordvpn
begin

text \<open>
  \<open>cmd/global-egress/nordvpn_catalog.go\<close>: the server list written as a directory of WireGuard configuration
  files. The disk is a map from the paths of the directories to the entries they have when they are listed; the entry
  of a directory in the one above it is not kept. What a call of the file system does is an argument: whether it
  succeeds, the path \<open>os.MkdirTemp\<close> makes up, and what a call that fails leaves behind. A failed
  \<open>os.MkdirAll\<close> leaves the parents it has made, a failed \<open>os.WriteFile\<close> or rename may leave a
  temporary file, and a failed \<open>os.RemoveAll\<close> has removed any part of its directory. The deferred
  \<open>os.RemoveAll\<close> of the staging directory runs on every return after its creation, and its error is ignored.
\<close>

datatype file_node = Subdir | Plain string

type_synonym catalog_dir = "(string, file_node) fmap"
type_synonym catalog_fs = "(string, catalog_dir) fmap"

text \<open>
  \<open>dk_mkdir\<close>: None when \<open>os.MkdirAll\<close> makes all the directories, else how many of them, from the
  outermost one on, are there when it fails. \<open>dk_write\<close>: None when a file is written, else what is left
  in its temporary file, if that is left. \<open>dk_remove\<close>: None when \<open>os.RemoveAll\<close> removes the
  directory, else the entries that are left.
\<close>

record disk =
  dk_readdir :: bool
  dk_mkdir :: "nat option"
  dk_stage :: "string option"
  dk_chmod :: bool
  dk_write :: "string \<Rightarrow> string option option"
  dk_stat :: bool
  dk_rename :: "string \<Rightarrow> string \<Rightarrow> bool"
  dk_remove :: "string \<Rightarrow> (string \<Rightarrow> bool) option"

datatype catalog_error =
    SuspiciousEntry | ReadCatalog | NoOwnership | InvalidManifest | UnownedEntries | CreateParent | CreateStage
  | SecureStage | WriteEntry | StatCatalog | InstallFailed | PreserveFailed | RollbackFailed | CleanupFailed

definition nordVPNManifestName :: string where
  "nordVPNManifestName = ''.global-egress-nordvpn''"

definition nordVPNManifestHeader :: string where
  "nordVPNManifestHeader = ''global-egress-provider=nordvpn''"

section \<open>Names and texts\<close>

fun dotdot :: "string \<Rightarrow> bool" where
  "dotdot (a # b # s) = (a = CHR ''.'' \<and> b = CHR ''.'' \<or> dotdot (b # s))"
| "dotdot _ = False"

definition trim_prefix :: "string \<Rightarrow> string \<Rightarrow> string" where
  "trim_prefix p s = (if has_prefix p s then drop (length p) s else s)"

definition catalog_base :: "wg_slot \<Rightarrow> string" where
  "catalog_base s =
     (if c_Country s \<noteq> [] \<and> c_City s \<noteq> [] then
        c_Country s @ ''-'' @ replace_all CHR ''-'' CHR ''_'' (trim_prefix (c_Country s @ ''-'') (c_City s)) @
        ''-'' @ c_ID s
      else c_ID s)"

definition catalogFileName :: "wg_slot \<Rightarrow> catalog_error + string" where
  "catalogFileName s =
     (let base = catalog_base s; name = base @ ''.conf''
      in if name \<noteq> path_base name \<or> dotdot base \<or> CHR ''/'' \<in> set base then Inl SuspiciousEntry else Inr name)"

fun prefix_string :: "prefix \<Rightarrow> string" where
  "prefix_string (Prefix a n) = addr_string (Some a) @ ''/'' @ itoa (int n)"

definition conf_lines :: "wg_slot \<Rightarrow> string list" where
  "conf_lines s =
     [''# Server: '' @ c_Source s, ''[Interface]'', ''PrivateKey = '' @ c_PrivateKey s,
      ''Address = '' @ join '', '' (map addr_string (c_Addresses s)),
      ''DNS = '' @ join '', '' (map addr_string (c_DNS s)), ''MTU = '' @ itoa (c_MTU s), [],
      ''[Peer]'', ''PublicKey = '' @ c_PeerPublicKey s,
      ''AllowedIPs = '' @ join '', '' (map prefix_string (c_AllowedIPs s)), ''Endpoint = '' @ c_Endpoint s]"

definition renderConf :: "wg_slot \<Rightarrow> string" where
  "renderConf s = concat (map (\<lambda>l. l @ [CHR 0x0A]) (conf_lines s))"

definition manifest_text :: "string list \<Rightarrow> string" where
  "manifest_text names = nordVPNManifestHeader @ [CHR 0x0A] @ join [CHR 0x0A] (sort names) @ [CHR 0x0A]"

section \<open>Operations\<close>

definition unowned :: "string list \<Rightarrow> string \<times> file_node \<Rightarrow> bool" where
  "unowned owned e =
     (case e of (name, node) \<Rightarrow> name \<noteq> nordVPNManifestName \<and> (node = Subdir \<or> name \<notin> set owned))"

definition dir_list :: "catalog_dir \<Rightarrow> (string \<times> file_node) list" where
  "dir_list d = map (\<lambda>n. (n, the (fmlookup d n))) (sorted_list_of_fset (fmdom d))"

definition validateCatalogOwnership :: "disk \<Rightarrow> string \<Rightarrow> catalog_fs \<Rightarrow> catalog_error option" where
  "validateCatalogOwnership dk dir fs =
     (case fmlookup fs dir of
        None \<Rightarrow> None
      | Some d \<Rightarrow>
          if \<not> dk_readdir dk then Some ReadCatalog
          else if dir_list d = [] then None
          else
            case fmlookup d nordVPNManifestName of
              Some (Plain manifest) \<Rightarrow>
                (case split_on CHR 0x0A (trim_space manifest) of
                   [] \<Rightarrow> Some InvalidManifest
                 | l # owned \<Rightarrow>
                     if l \<noteq> nordVPNManifestHeader then Some InvalidManifest
                     else if list_ex (unowned owned) (dir_list d) then Some UnownedEntries else None)
            | _ \<Rightarrow> Some NoOwnership)"

text \<open>The directories \<open>os.MkdirAll\<close> of the parent goes through, the outermost one first.\<close>

definition parents :: "string \<Rightarrow> string list" where
  "parents dir =
     (let ws = split_on CHR ''/'' (path_dir (path_clean dir))
      in filter (\<lambda>p. p \<notin> {[], ''/'', ''.'', ''..''})
           (map (\<lambda>n. join ''/'' (take n ws)) [1..<length ws + 1]))"

fun make_dirs :: "string list \<Rightarrow> catalog_fs \<Rightarrow> catalog_fs" where
  "make_dirs [] fs = fs"
| "make_dirs (d # ds) fs = make_dirs ds (if fmlookup fs d = None then fmupd d fmempty fs else fs)"

definition remove_all :: "disk \<Rightarrow> string \<Rightarrow> catalog_fs \<Rightarrow> bool \<times> catalog_fs" where
  "remove_all dk path fs =
     (case fmlookup fs path of
        None \<Rightarrow> (True, fs)
      | Some d \<Rightarrow>
          (case dk_remove dk path of
             None \<Rightarrow> (True, fmdrop path fs)
           | Some keep \<Rightarrow> (False, fmupd path (fmfilter keep d) fs)))"

text \<open>A directory is moved to a path where nothing is.\<close>

definition rename_dir :: "disk \<Rightarrow> string \<Rightarrow> string \<Rightarrow> catalog_fs \<Rightarrow> catalog_fs option" where
  "rename_dir dk old new fs =
     (case fmlookup fs old of
        None \<Rightarrow> None
      | Some d \<Rightarrow> if dk_rename dk old new then Some (fmupd new d (fmdrop old fs)) else None)"

definition replaceCatalogSnapshot ::
  "disk \<Rightarrow> string \<Rightarrow> string \<Rightarrow> catalog_fs \<Rightarrow> catalog_error option \<times> catalog_fs" where
  "replaceCatalogSnapshot dk dir stage fs =
     (if fmlookup fs dir = None then
        (case rename_dir dk stage dir fs of None \<Rightarrow> (Some InstallFailed, fs) | Some fs \<Rightarrow> (None, fs))
      else if \<not> dk_stat dk then (Some StatCatalog, fs)
      else
        let backup = stage @ ''.previous''
        in case rename_dir dk dir backup fs of
             None \<Rightarrow> (Some PreserveFailed, fs)
           | Some fs \<Rightarrow>
               (case rename_dir dk stage dir fs of
                  None \<Rightarrow>
                    (case rename_dir dk backup dir fs of
                       None \<Rightarrow> (Some RollbackFailed, fs)
                     | Some fs \<Rightarrow> (Some InstallFailed, fs))
                | Some fs \<Rightarrow>
                    (case remove_all dk backup fs of
                       (True, fs) \<Rightarrow> (None, fs)
                     | (False, fs) \<Rightarrow> (Some CleanupFailed, fs))))"

fun file_names :: "wg_slot list \<Rightarrow> catalog_error + string list" where
  "file_names [] = Inr []"
| "file_names (s # ss) =
     (case catalogFileName s of
        Inl e \<Rightarrow> Inl e
      | Inr n \<Rightarrow> (case file_names ss of Inl e \<Rightarrow> Inl e | Inr ns \<Rightarrow> Inr (n # ns)))"

text \<open>The files go into the staging directory one after another, up to the first that cannot be written.\<close>

fun write_files ::
  "(string \<Rightarrow> string option option) \<Rightarrow> (string \<times> string) list \<Rightarrow> catalog_dir \<Rightarrow> bool \<times> catalog_dir"
where
  "write_files wr [] d = (True, d)"
| "write_files wr ((name, content) # fs) d =
     (case wr name of
        None \<Rightarrow> write_files wr fs (fmupd name (Plain content) d)
      | Some None \<Rightarrow> (False, d)
      | Some (Some part) \<Rightarrow> (False, fmupd (name @ ''.tmp'') (Plain part) d))"

definition snapshot_files :: "wg_slot list \<Rightarrow> string list \<Rightarrow> (string \<times> string) list" where
  "snapshot_files slots names =
     zip names (map renderConf slots) @ [(nordVPNManifestName, manifest_text names)]"

text \<open>What happens between the creation of the staging directory and the deferred removal.\<close>

definition fill_stage ::
  "disk \<Rightarrow> string \<Rightarrow> wg_slot list \<Rightarrow> string list \<Rightarrow> string \<Rightarrow> catalog_fs \<Rightarrow> (catalog_error + nat) \<times> catalog_fs"
where
  "fill_stage dk dir slots names stage fs =
     (if \<not> dk_chmod dk then (Inl SecureStage, fs)
      else
        case write_files (dk_write dk) (snapshot_files slots names) fmempty of
          (False, d) \<Rightarrow> (Inl WriteEntry, fmupd stage d fs)
        | (True, d) \<Rightarrow>
            (case replaceCatalogSnapshot dk dir stage (fmupd stage d fs) of
               (Some e, fs) \<Rightarrow> (Inl e, fs)
             | (None, fs) \<Rightarrow> (Inr (length slots), fs)))"

definition writeCatalog ::
  "disk \<Rightarrow> string \<Rightarrow> wg_slot list \<Rightarrow> catalog_fs \<Rightarrow> (catalog_error + nat) \<times> catalog_fs" where
  "writeCatalog dk dir slots fs =
     (case file_names slots of
        Inl e \<Rightarrow> (Inl e, fs)
      | Inr names \<Rightarrow>
          case validateCatalogOwnership dk dir fs of
            Some e \<Rightarrow> (Inl e, fs)
          | None \<Rightarrow>
              (case dk_mkdir dk of
                 Some k \<Rightarrow> (Inl CreateParent, make_dirs (take k (parents dir)) fs)
               | None \<Rightarrow>
                   let fs = make_dirs (parents dir) fs
                   in case dk_stage dk of
                        None \<Rightarrow> (Inl CreateStage, fs)
                      | Some stage \<Rightarrow>
                          (case fill_stage dk dir slots names stage (fmupd stage fmempty fs) of
                             (res, fs) \<Rightarrow> (res, snd (remove_all dk stage fs)))))"

section \<open>The snapshot is installed as a whole\<close>

text \<open>The complete content of the new directory.\<close>

definition snapshot_of :: "wg_slot list \<Rightarrow> catalog_dir \<Rightarrow> bool" where
  "snapshot_of slots d \<longleftrightarrow>
     (case file_names slots of
        Inl e \<Rightarrow> False
      | Inr names \<Rightarrow> write_files (\<lambda>n. None) (snapshot_files slots names) fmempty = (True, d))"

lemma write_files_all:
  "write_files wr fs d = (True, d') \<Longrightarrow> write_files (\<lambda>n. None) fs d = (True, d')"
  by (induction wr fs d rule: write_files.induct) (auto split: option.splits)

text \<open>What was in the directory belongs to this program: the manifest, and files the manifest lists.\<close>

definition owned_dir :: "catalog_dir \<Rightarrow> bool" where
  "owned_dir d \<longleftrightarrow>
     d = fmempty \<or>
     (\<exists>manifest owned. fmlookup d nordVPNManifestName = Some (Plain manifest) \<and>
        split_on CHR 0x0A (trim_space manifest) = nordVPNManifestHeader # owned \<and>
        (\<forall>n node. fmlookup d n = Some node \<longrightarrow> n = nordVPNManifestName \<or> node \<noteq> Subdir \<and> n \<in> set owned))"

lemma dir_list_iff: "(n, node) \<in> set (dir_list d) \<longleftrightarrow> fmlookup d n = Some node"
  by (auto simp: dir_list_def fmlookup_dom_iff image_iff)

lemma dir_list_Nil: "dir_list d = [] \<longleftrightarrow> d = fmempty"
proof
  assume n: "dir_list d = []"
  have "fmlookup d i = None" for i
    using dir_list_iff [of i _ d] n by (cases "fmlookup d i") auto
  then show "d = fmempty" by (intro fmap_ext) simp
qed (simp add: dir_list_def sorted_list_of_fset.rep_eq)

lemma validate_owned:
  assumes "validateCatalogOwnership dk dir fs = None" and "fmlookup fs dir = Some d"
  shows "owned_dir d"
proof (cases "d = fmempty")
  case True
  then show ?thesis by (simp add: owned_dir_def)
next
  case False
  then show ?thesis
    using assms
    by (auto simp: validateCatalogOwnership_def owned_dir_def dir_list_Nil list_ex_iff unowned_def dir_list_iff
        split: option.splits file_node.splits if_splits list.splits)
qed

lemma file_names_error: "file_names ss = Inl e \<Longrightarrow> e = SuspiciousEntry"
  by (induction ss) (auto simp: catalogFileName_def Let_def split: sum.splits if_splits)

text \<open>The disk is the same, but for one directory.\<close>

definition same_but :: "string \<Rightarrow> catalog_fs \<Rightarrow> catalog_fs \<Rightarrow> bool" where
  "same_but stage fs fs' \<longleftrightarrow> (\<forall>x. x \<noteq> stage \<longrightarrow> fmlookup fs' x = fmlookup fs x)"

text \<open>
  What \<open>writeCatalog\<close> leaves behind. \<open>made\<close> is the disk with the parents that were made.
\<close>

definition outcome_on ::
  "string \<Rightarrow> string \<Rightarrow> wg_slot list \<Rightarrow> catalog_fs \<Rightarrow> catalog_fs \<Rightarrow> catalog_error + nat \<Rightarrow> catalog_fs \<Rightarrow> bool"
where
  "outcome_on stage dir slots fs made res fs' \<longleftrightarrow>
     (case res of
        Inr n \<Rightarrow>
          n = length slots \<and> made = make_dirs (parents dir) fs \<and>
          (\<exists>d. snapshot_of slots d \<and> fs' = fmupd dir d made) \<and>
          (\<forall>old. fmlookup made dir = Some old \<longrightarrow> owned_dir old)
      | Inl CleanupFailed \<Rightarrow>
          (\<exists>d old keep. snapshot_of slots d \<and> fmlookup made dir = Some old \<and> owned_dir old \<and>
             fs' = fmupd (stage @ ''.previous'') (fmfilter keep old) (fmupd dir d made))
      | Inl RollbackFailed \<Rightarrow>
          (\<exists>old. fmlookup made dir = Some old \<and> owned_dir old \<and>
             same_but stage (fmupd (stage @ ''.previous'') old (fmdrop dir made)) fs')
      | Inl e \<Rightarrow> same_but stage made fs')"

definition catalog_outcome ::
  "string \<Rightarrow> string \<Rightarrow> wg_slot list \<Rightarrow> catalog_fs \<Rightarrow> catalog_error + nat \<Rightarrow> catalog_fs \<Rightarrow> bool" where
  "catalog_outcome stage dir slots fs res fs' \<longleftrightarrow>
     (\<exists>k. outcome_on stage dir slots fs (make_dirs (take k (parents dir)) fs) res fs')"

lemma make_dirs_lookup:
  "fmlookup (make_dirs ds fs) x =
     (case fmlookup fs x of None \<Rightarrow> if x \<in> set ds then Some fmempty else None | Some d \<Rightarrow> Some d)"
  by (induction ds fs rule: make_dirs.induct) (auto split: option.splits)

lemma remove_all_same: "same_but stage fs fs' \<Longrightarrow> same_but stage fs (snd (remove_all dk stage fs'))"
  by (auto simp: same_but_def remove_all_def split: option.splits)

lemma same_but_upd: "same_but stage fs (fmupd stage d fs)"
  by (simp add: same_but_def)

lemma replace_snapshot:
  assumes "replaceCatalogSnapshot dk dir stage (fmupd stage d fs) = (e, fs')"
    and "fmlookup fs stage = None" "fmlookup fs (stage @ ''.previous'') = None"
    and "stage \<noteq> dir" "stage @ ''.previous'' \<noteq> dir"
  shows "(case e of
       None \<Rightarrow> fs' = fmupd dir d fs
     | Some CleanupFailed \<Rightarrow>
         \<exists>old keep. fmlookup fs dir = Some old \<and>
           fs' = fmupd (stage @ ''.previous'') (fmfilter keep old) (fmupd dir d fs)
     | Some RollbackFailed \<Rightarrow>
         \<exists>old. fmlookup fs dir = Some old \<and> same_but stage (fmupd (stage @ ''.previous'') old (fmdrop dir fs)) fs'
     | Some er \<Rightarrow> same_but stage fs fs')"
  using assms
  by (auto simp: replaceCatalogSnapshot_def rename_dir_def remove_all_def same_but_def Let_def
      split: if_splits option.splits intro!: fmap_ext [of _ "fmupd dir d fs"])
    (intro exI fmap_ext, auto)

lemma writeCatalog_outcome:
  assumes "writeCatalog dk dir slots fs = (res, fs')" and "dk_stage dk = Some stage"
    and "stage \<noteq> dir" "stage @ ''.previous'' \<noteq> dir"
    and "fmlookup (make_dirs (parents dir) fs) stage = None"
    and "fmlookup (make_dirs (parents dir) fs) (stage @ ''.previous'') = None"
  shows "catalog_outcome stage dir slots fs res fs'"
proof (cases "\<exists>names. file_names slots = Inr names \<and> validateCatalogOwnership dk dir fs = None \<and> dk_mkdir dk = None")
  case False
  then have "\<exists>e. res = Inl e \<and> e \<noteq> CleanupFailed \<and> e \<noteq> RollbackFailed \<and>
      (fs' = fs \<or> (\<exists>k. fs' = make_dirs (take k (parents dir)) fs))"
    using assms(1)
    by (auto simp: writeCatalog_def validateCatalogOwnership_def
        split: sum.splits option.splits if_splits file_node.splits list.splits
        dest!: file_names_error)
  then have "\<exists>k e. res = Inl e \<and> e \<noteq> CleanupFailed \<and> e \<noteq> RollbackFailed \<and> fs' = make_dirs (take k (parents dir)) fs"
    by (metis make_dirs.simps(1) take_0)
  then show ?thesis
    by (auto simp: catalog_outcome_def outcome_on_def same_but_def Let_def split: catalog_error.split)
next
  case True
  let ?fs0 = "make_dirs (parents dir) fs"
  obtain names where ok: "file_names slots = Inr names" "validateCatalogOwnership dk dir fs = None" "dk_mkdir dk = None"
    using True by blast
  obtain res' fs1 where f: "fill_stage dk dir slots names stage (fmupd stage fmempty ?fs0) = (res', fs1)" by fastforce
  have out: "res = res'" "fs' = snd (remove_all dk stage fs1)"
    using assms(1,2) ok f by (auto simp: writeCatalog_def Let_def)
  have all: "take (length (parents dir)) (parents dir) = parents dir" by simp
  show ?thesis
  proof (cases "dk_chmod dk \<and> fst (write_files (dk_write dk) (snapshot_files slots names) fmempty)")
    case False
    then have "res = Inl SecureStage \<or> res = Inl WriteEntry" "same_but stage ?fs0 fs1"
      using f out(1) by (auto simp: fill_stage_def same_but_def split: if_splits prod.splits bool.splits)
    then show ?thesis
      using remove_all_same [of stage ?fs0 fs1 dk]
      by (auto simp: catalog_outcome_def outcome_on_def Let_def out(2) intro!: exI [of _ "length (parents dir)"])
  next
    case True
    then obtain d where d: "write_files (dk_write dk) (snapshot_files slots names) fmempty = (True, d)" "dk_chmod dk"
      by (metis prod.collapse)
    have snap: "snapshot_of slots d" using ok(1) write_files_all [OF d(1)] by (simp add: snapshot_of_def)
    obtain e where r: "replaceCatalogSnapshot dk dir stage (fmupd stage d ?fs0) = (e, fs1)"
      and e: "res = (case e of None \<Rightarrow> Inr (length slots) | Some e \<Rightarrow> Inl e)"
      using f d out(1) by (auto simp: fill_stage_def split: prod.splits option.splits)
    note o = replace_snapshot [OF r assms(5,6,3,4)]
    have own: "owned_dir old" if "fmlookup ?fs0 dir = Some old" for old
      using that validate_owned [OF ok(2)]
      by (auto simp: make_dirs_lookup owned_dir_def split: option.splits if_splits)
    have gone: "fs' = fs1" if "fmlookup fs1 stage = None" using that by (simp add: out(2) remove_all_def)
    show ?thesis
      using o snap own assms(3,5) gone remove_all_same [of stage _ fs1 dk] e
      by (auto simp: catalog_outcome_def outcome_on_def Let_def out(2) split: option.splits catalog_error.splits
          intro!: exI [of _ "length (parents dir)"]) (use snap in blast)
  qed
qed

lemma writeCatalog_stage:
  assumes "writeCatalog dk dir slots fs = (res, fs')" and "dk_stage dk = Some stage"
    and "fmlookup (make_dirs (parents dir) fs) stage = None" and "dk_remove dk stage = None"
  shows "fmlookup fs' stage = None"
proof -
  have "fmlookup fs stage = None \<and> stage \<notin> set (parents dir)"
    using assms(3) by (auto simp: make_dirs_lookup split: option.splits if_splits)
  then have "fmlookup (make_dirs (take k (parents dir)) fs) stage = None" for k
    by (auto simp: make_dirs_lookup dest: in_set_takeD)
  moreover have "fmlookup (snd (remove_all dk stage fs1)) stage = None" for fs1
    using assms(4) by (auto simp: remove_all_def split: option.splits)
  ultimately show ?thesis
    using assms(1,2,3) \<open>fmlookup fs stage = None \<and> _\<close>
    by (auto simp: writeCatalog_def Let_def split: sum.splits option.splits prod.splits)
qed

text \<open>
  C8: writing the catalogue replaces the directory as a whole or not at all. \<open>made\<close> is the disk with the
  directories above it that had to be created. On success the directory holds exactly one file per slot and the
  manifest, nothing else has changed, and what was there before was empty or owned by this program. When only the cleanup of
  the old catalogue fails, the new one is installed although an error is returned, and what could not be removed of the old one
  is beside it. When an installation fails and its rollback too, the directory is gone and the old catalogue is beside
  it, complete. After every other error the directory is as it was. The staging directory is gone too, unless its removal fails, an
  error the code ignores: then a part of it stays.
\<close>

theorem catalog_replaced_whole:
  assumes "writeCatalog dk dir slots fs = (res, fs')"
    and "dk_stage dk = Some stage" and "stage \<noteq> dir" "stage @ ''.previous'' \<noteq> dir"
    and "fmlookup (make_dirs (parents dir) fs) stage = None"
    and "fmlookup (make_dirs (parents dir) fs) (stage @ ''.previous'') = None"
  shows "(\<exists>made k. made = make_dirs (take k (parents dir)) fs \<and>
      (case res of
         Inr n \<Rightarrow>
           n = length slots \<and> made = make_dirs (parents dir) fs \<and>
           (\<exists>d. snapshot_of slots d \<and> fs' = fmupd dir d made) \<and>
           (\<forall>old. fmlookup made dir = Some old \<longrightarrow> owned_dir old)
       | Inl CleanupFailed \<Rightarrow>
           (\<exists>d old keep. snapshot_of slots d \<and> fmlookup made dir = Some old \<and> owned_dir old \<and>
              fs' = fmupd (stage @ ''.previous'') (fmfilter keep old) (fmupd dir d made))
       | Inl RollbackFailed \<Rightarrow>
           (\<exists>old. fmlookup made dir = Some old \<and> owned_dir old \<and>
              (\<forall>x. x \<noteq> stage \<longrightarrow>
                 fmlookup fs' x = fmlookup (fmupd (stage @ ''.previous'') old (fmdrop dir made)) x))
       | Inl e \<Rightarrow> (\<forall>x. x \<noteq> stage \<longrightarrow> fmlookup fs' x = fmlookup made x))) \<and>
    (dk_remove dk stage = None \<longrightarrow> fmlookup fs' stage = None)"
  (is "(\<exists>made k. made = _ k \<and> ?outcome made) \<and> _")
proof (intro conjI impI)
  obtain k where k: "\<And>made. made = make_dirs (take k (parents dir)) fs \<Longrightarrow> outcome_on stage dir slots fs made res fs'"
    using writeCatalog_outcome [OF assms] unfolding catalog_outcome_def by blast
  show "\<exists>made k. made = make_dirs (take k (parents dir)) fs \<and> ?outcome made"
    by (rule exI, rule exI, rule conjI, rule refl) (rule k [OF refl, unfolded outcome_on_def same_but_def])
  show "fmlookup fs' stage = None" if "dk_remove dk stage = None"
    by (rule writeCatalog_stage [OF assms(1,2,5) that])
qed

definition demo_disk :: disk where
  "demo_disk = \<lparr>dk_readdir = True, dk_mkdir = None, dk_stage = Some ''/.c.nordvpn-stage-1'', dk_chmod = True,
     dk_write = (\<lambda>_. None), dk_stat = True, dk_rename = (\<lambda>_ _. True), dk_remove = (\<lambda>_. None)\<rparr>"

definition demo_nord_slots :: "wg_slot list" where
  "demo_nord_slots =
     (case nord_Slots ''key='' [UnmarshalJSON (demo_server ''us2''), UnmarshalJSON (demo_server ''us1'')] of
        Inr ss \<Rightarrow> ss | Inl _ \<Rightarrow> [])"

text \<open>A disk on which the old catalogue is removed only in part.\<close>

definition demo_old_fs :: catalog_fs where
  "demo_old_fs = snd (writeCatalog demo_disk ''/c'' demo_nord_slots fmempty)"

definition demo_stuck_disk :: disk where
  "demo_stuck_disk = demo_disk\<lparr>dk_remove := (\<lambda>_. Some (\<lambda>n. n \<noteq> nordVPNManifestName))\<rparr>"

theorem catalog_replaced_whole_witness:
  "\<exists>fs' d. writeCatalog demo_stuck_disk ''/c'' demo_nord_slots demo_old_fs = (Inl CleanupFailed, fs') \<and>
     snapshot_of demo_nord_slots d \<and> fmlookup fs' ''/c'' = Some d \<and>
     fmlookup fs' ''/.c.nordvpn-stage-1.previous'' \<noteq> None"
proof -
  let ?out = "writeCatalog demo_stuck_disk ''/c'' demo_nord_slots demo_old_fs"
  obtain res fs' where o: "?out = (res, fs')" by fastforce
  have "fst ?out = Inl CleanupFailed" by code_simp
  then have r: "res = Inl CleanupFailed" using o by simp
  have "fmlookup (make_dirs (parents ''/c'') demo_old_fs) ''/.c.nordvpn-stage-1'' = None"
    "fmlookup (make_dirs (parents ''/c'') demo_old_fs) ''/.c.nordvpn-stage-1.previous'' = None"
    by code_simp+
  then show ?thesis
    using catalog_replaced_whole [OF o, of "''/.c.nordvpn-stage-1''"] o r
    by (auto simp: demo_stuck_disk_def demo_disk_def)
qed

end
