(* ===== verification/NordReload.thy ===== *)
theory NordReload
  imports NordCatalog
begin

text \<open>
  The catalogue the command writes is read back by \<open>catalog.LoadDir\<close>: rendering and parsing a configuration
  file, and the names of the files.
\<close>

section \<open>Lines\<close>

definition tidy_char :: "char \<Rightarrow> bool" where
  "tidy_char c \<longleftrightarrow> CHR '' '' < c \<and> c \<le> CHR ''~'' \<and> c \<notin> {CHR ''#'', CHR '';''}"

text \<open>A text that fits on a line of a configuration file.\<close>

definition tidy_text :: "string \<Rightarrow> bool" where
  "tidy_text s \<longleftrightarrow> s \<noteq> [] \<and> list_all tidy_char s \<and> int (length s) \<le> 1000000"

lemma tidy_not_space: "tidy_char c \<Longrightarrow> \<not> is_space c"
  by (auto simp: tidy_char_def is_space_def less_char_def less_eq_char_def)

lemma tidy_char_not: "tidy_char c \<Longrightarrow> c \<noteq> CHR 0x0A \<and> c \<noteq> CHR ''#'' \<and> c \<noteq> CHR '';''"
  by (auto simp: tidy_char_def less_char_def)

lemma trim_space_id:
  assumes "s \<noteq> []" and "\<not> is_space (hd s)" and "\<not> is_space (last s)"
  shows "trim_space s = s"
proof -
  have l: "trim_left t = t" if "t \<noteq> []" "\<not> is_space (hd t)" for t
    using that by (cases t) (auto simp: trim_left_def)
  have "trim_left (rev s) = rev s" using assms by (intro l) (simp_all add: hd_rev)
  then show ?thesis using l [OF assms(1,2)] by (simp add: trim_space_def)
qed

lemma tidy_trim: "tidy_text v \<Longrightarrow> trim_space v = v"
  by (rule trim_space_id) (auto simp: tidy_text_def list_all_iff tidy_not_space)

lemma strip_tidy: "tidy_text v \<Longrightarrow> strip_comment v = v"
proof -
  assume "tidy_text v"
  then have "takeWhile (\<lambda>c. c \<notin> {CHR ''#'', CHR '';''}) v = v"
    by (auto simp: takeWhile_eq_all_conv tidy_text_def list_all_iff dest: tidy_char_not)
  then show ?thesis by (simp only: strip_comment_def Let_def less_irrefl if_False)
qed

lemma classify_setting:
  assumes v: "tidy_text v" and k: "k \<noteq> []" "list_all (\<lambda>c. az (lower_char c)) k"
  shows "classify (k @ '' = '' @ v) = Setting (to_lower k) v"
proof -
  have kc: "\<not> is_space c \<and> c \<noteq> CHR ''='' \<and> c \<noteq> CHR ''#'' \<and> c \<noteq> CHR '';'' \<and> c \<noteq> CHR ''[''" if "c \<in> set k" for c
  proof -
    have "az (lower_char c)" using k that by (simp add: list_all_iff)
    then show ?thesis
      by (auto simp: is_space_def az_def lower_char_def less_eq_char_def split: if_splits)
  qed
  have vn: "v \<noteq> []" "\<not> is_space (last v)"
    using v by (auto simp: tidy_text_def list_all_iff tidy_not_space)
  let ?line = "k @ '' = '' @ v"
  obtain h t where h: "k = h # t" using k by (cases k) auto
  have line: "trim_space ?line = ?line" by (rule trim_space_id) (use kc vn h in auto)
  have c: "cut CHR ''='' ?line = Some (k @ '' '', '' '' @ v)"
    using cut_append [of "CHR ''=''" "k @ '' ''" "'' '' @ v"] kc by auto
  have tk: "trim_space (k @ '' '') = k"
  proof -
    have "trim_left (k @ '' '') = k @ '' ''" using kc h by (simp add: trim_left_def)
    moreover have "trim_left (rev (k @ '' '')) = rev k"
      using trim_space_id [of "rev k"] kc k(1)
      by (cases "rev k") (auto simp: trim_left_def is_space_def [of "CHR '' ''"] dest: arg_cong [where f = set])
    ultimately show ?thesis by (simp add: trim_space_def)
  qed
  have tv: "trim_space ('' '' @ v) = v"
  proof -
    have "trim_left ('' '' @ v) = trim_left v" by (simp add: trim_left_def is_space_def)
    then show ?thesis using tidy_trim [OF v] by (simp add: trim_space_def)
  qed
  have "\<not> has_prefix ''#'' ?line \<and> \<not> has_prefix '';'' ?line \<and> \<not> has_prefix ''['' ?line"
    using kc h by (auto simp: has_prefix_def)
  then show ?thesis
    using k(1) by (simp add: classify_def line c tk tv strip_tidy [OF v] Let_def del: append.simps append_assoc)
qed

section \<open>A configuration file\<close>

lemma nord_texts:
  "addr_string (parse_addr tunnelAddress) = ''10.5.0.2''"
  "join '', '' (map addr_string nordDNS) = ''103.86.96.100, 103.86.99.100''"
  "join '', '' (map prefix_string default_routes) = ''0.0.0.0/0, ::/0''"
  "itoa DefaultMTU = ''1420''"
  by code_simp+

lemma nord_values:
  "parseAddrList ''10.5.0.2'' = Inr [parse_addr tunnelAddress]"
  "parseAddrList ''103.86.96.100, 103.86.99.100'' = Inr nordDNS"
  "parse_routes (splitList ''0.0.0.0/0, ::/0'') = Inr default_routes"
  "atoi ''1420'' = Some 1420"
  by code_simp+

lemma nord_lines:
  "classify ''[Interface]'' = Header ''interface''" "classify ''[Peer]'' = Header ''peer''" "classify [] = Blank"
  "classify ''Address = 10.5.0.2'' = Setting ''address'' ''10.5.0.2''"
  "classify ''DNS = 103.86.96.100, 103.86.99.100'' = Setting ''dns'' ''103.86.96.100, 103.86.99.100''"
  "classify ''MTU = 1420'' = Setting ''mtu'' ''1420''"
  "classify ''AllowedIPs = 0.0.0.0/0, ::/0'' = Setting ''allowedips'' ''0.0.0.0/0, ::/0''"
  by code_simp+

lemma nord_settings:
  assumes "tidy_text v"
  shows "classify (''PrivateKey = '' @ v) = Setting ''privatekey'' v"
    and "classify (''PublicKey = '' @ v) = Setting ''publickey'' v"
    and "classify (''Endpoint = '' @ v) = Setting ''endpoint'' v"
proof -
  have k: "list_all (\<lambda>c. az (lower_char c)) ''PrivateKey''" "to_lower ''PrivateKey'' = ''privatekey''"
    "list_all (\<lambda>c. az (lower_char c)) ''PublicKey''" "to_lower ''PublicKey'' = ''publickey''"
    "list_all (\<lambda>c. az (lower_char c)) ''Endpoint''" "to_lower ''Endpoint'' = ''endpoint''"
    by code_simp+
  show "classify (''PrivateKey = '' @ v) = Setting ''privatekey'' v"
    using classify_setting [OF assms _ k(1)] k(2) by simp
  show "classify (''PublicKey = '' @ v) = Setting ''publickey'' v"
    using classify_setting [OF assms _ k(3)] k(4) by simp
  show "classify (''Endpoint = '' @ v) = Setting ''endpoint'' v"
    using classify_setting [OF assms _ k(5)] k(6) by simp
qed

lemma nord_remark:
  assumes "tidy_text v"
  shows "classify (''# Server: '' @ v) = Remark (''# Server: '' @ v)" and "deviceRe (''# Server: '' @ v) = None"
proof -
  have "\<not> is_space (last v)" "v \<noteq> []"
    using assms by (auto simp: tidy_text_def list_all_iff tidy_not_space)
  moreover have "\<not> is_space CHR ''#''" by code_simp
  ultimately have "trim_space (''# Server: '' @ v) = ''# Server: '' @ v" by (intro trim_space_id) auto
  then show "classify (''# Server: '' @ v) = Remark (''# Server: '' @ v)"
    by (simp add: classify_def has_prefix_def)
  have "to_lower ''Server'' \<noteq> ''device''" by code_simp
  then show "deviceRe (''# Server: '' @ v) = None"
    by (simp add: deviceRe_def has_prefix_def re_space_def Let_def)
qed

text \<open>What the provider's list has to look like for its catalogue to survive the file format.\<close>

definition name_char :: "char \<Rightarrow> bool" where
  "name_char c \<longleftrightarrow> tidy_char c \<and> c \<noteq> CHR ''.'' \<and> c \<noteq> CHR ''/''"

definition tidy_server :: "nord_server \<Rightarrow> bool" where
  "tidy_server s \<longleftrightarrow>
     length (nv_Country s) = 2 \<and> list_all az (nv_Country s) \<and>
     nv_CityName s \<noteq> [] \<and> list_all (\<lambda>c. az c \<or> is_digit c \<or> c = CHR ''-'') (nv_CityName s) \<and>
     nord_SlotID s \<noteq> [] \<and> list_all name_char (nord_SlotID s) \<and>
     tidy_text (nv_Hostname s) \<and> tidy_text (nv_PublicKey s) \<and> tidy_text (nord_Endpoint s) \<and>
     splitHostPort (nord_Endpoint s) \<noteq> None"

lemma tidy_line:
  "tidy_text v \<Longrightarrow> length k < 40 \<Longrightarrow> CHR 0x0A \<notin> set k \<Longrightarrow>
     int (length (k @ v)) < 1048576 \<and> CHR 0x0A \<notin> set (k @ v)"
  by (auto simp: tidy_text_def list_all_iff dest: tidy_char_not)

lemma nord_conf_lines:
  assumes "parse_addr tunnelAddress = Some a"
  shows "conf_lines (nord_slot key a s) @ [[]] =
     [''# Server: '' @ nv_Hostname s, ''[Interface]'', ''PrivateKey = '' @ key, ''Address = 10.5.0.2'',
      ''DNS = 103.86.96.100, 103.86.99.100'', ''MTU = 1420'', [], ''[Peer]'', ''PublicKey = '' @ nv_PublicKey s,
      ''AllowedIPs = 0.0.0.0/0, ::/0'', ''Endpoint = '' @ nord_Endpoint s, []]"
  using nord_texts assms by (simp add: conf_lines_def nord_slot_def)

text \<open>The loop over the meanings of lines that fit the scanner's buffer.\<close>

fun run_lines :: "string \<Rightarrow> wg_slot \<Rightarrow> conf_line list \<Rightarrow> conf_error + wg_slot" where
  "run_lines sect z [] = Inr z"
| "run_lines sect z (Blank # ls) = run_lines sect z ls"
| "run_lines sect z (Remark c # ls) =
     run_lines sect
       (case deviceRe c of Some d \<Rightarrow> if c_Device z = [] then z\<lparr>c_Device := d\<rparr> else z | None \<Rightarrow> z) ls"
| "run_lines sect z (Header sect' # ls) = run_lines sect' z ls"
| "run_lines sect z (Malformed l # ls) = Inl (MalformedLine l)"
| "run_lines sect z (Setting k v # ls) =
     (case set_field sect k v z of Inl e \<Rightarrow> Inl e | Inr z \<Rightarrow> run_lines sect z ls)"

lemma parse_lines_run:
  "list_all (\<lambda>l. int (length l) < 1048576) ls \<Longrightarrow> parse_lines sect z ls = run_lines sect z (map classify ls)"
  by (induction sect z ls rule: parse_lines.induct) (auto split: conf_line.split sum.split)

lemma parse_render_lines:
  assumes s: "tidy_server s" and key: "tidy_text key" and a: "parse_addr tunnelAddress = Some a"
    and z: "c_Addresses z = []" "c_DNS z = []" "c_AllowedIPs z = []"
  shows "parse_lines [] z (split_on CHR 0x0A (renderConf (nord_slot key a s))) =
     Inr (z\<lparr>c_PrivateKey := key, c_Addresses := [Some a], c_DNS := nordDNS, c_MTU := 1420,
           c_PeerPublicKey := nv_PublicKey s, c_AllowedIPs := default_routes, c_Endpoint := nord_Endpoint s\<rparr>)"
proof -
  let ?ls = "conf_lines (nord_slot key a s) @ [[]]"
  have t: "tidy_text (nv_Hostname s)" "tidy_text (nv_PublicKey s)" "tidy_text (nord_Endpoint s)"
    "splitHostPort (nord_Endpoint s) \<noteq> None"
    using s by (auto simp: tidy_server_def)
  have w: "int (length (''# Server: '' @ nv_Hostname s)) < 1048576 \<and> CHR 0x0A \<notin> set (''# Server: '' @ nv_Hostname s)"
    "int (length (''PrivateKey = '' @ key)) < 1048576 \<and> CHR 0x0A \<notin> set (''PrivateKey = '' @ key)"
    "int (length (''PublicKey = '' @ nv_PublicKey s)) < 1048576 \<and> CHR 0x0A \<notin> set (''PublicKey = '' @ nv_PublicKey s)"
    "int (length (''Endpoint = '' @ nord_Endpoint s)) < 1048576 \<and> CHR 0x0A \<notin> set (''Endpoint = '' @ nord_Endpoint s)"
    by (rule tidy_line; use t key in simp)+
  then have ok: "list_all (\<lambda>l. int (length l) < 1048576 \<and> CHR 0x0A \<notin> set l) ?ls"
    by (simp add: nord_conf_lines [OF a])
  have "split_on CHR 0x0A (renderConf (nord_slot key a s)) = ?ls"
    unfolding renderConf_def by (rule split_line_list) (use ok in \<open>simp add: list_all_iff\<close>)
  moreover have "parse_lines [] z ?ls = run_lines [] z (map classify ?ls)"
    by (rule parse_lines_run) (use ok in \<open>simp add: list_all_iff\<close>)
  moreover have "map classify ?ls =
      [Remark (''# Server: '' @ nv_Hostname s), Header ''interface'', Setting ''privatekey'' key,
       Setting ''address'' ''10.5.0.2'', Setting ''dns'' ''103.86.96.100, 103.86.99.100'', Setting ''mtu'' ''1420'',
       Blank, Header ''peer'', Setting ''publickey'' (nv_PublicKey s),
       Setting ''allowedips'' ''0.0.0.0/0, ::/0'', Setting ''endpoint'' (nord_Endpoint s), Blank]"
    by (simp only: nord_conf_lines [OF a] list.map nord_lines nord_remark(1) [OF t(1)]
        nord_settings(1) [OF key] nord_settings(2) [OF t(2)] nord_settings(3) [OF t(3)])
  ultimately show ?thesis
    using nord_values a z t(4)
    by (simp add: nord_remark(2) [OF t(1), simplified] set_field_def setInterfaceField_def setPeerField_def)
qed

section \<open>Names\<close>

definition city_part :: "nord_server \<Rightarrow> string" where
  "city_part s = replace_all CHR ''-'' CHR ''_'' (nv_CityName s)"

lemma tidy_city:
  assumes "tidy_server s"
  shows "list_all city_char (city_part s)" and "city_part s \<noteq> []"
    and "replace_all CHR ''_'' CHR ''-'' (city_part s) = nv_CityName s"
proof -
  have c: "list_all (\<lambda>c. az c \<or> is_digit c \<or> c = CHR ''-'') (nv_CityName s)" "nv_CityName s \<noteq> []"
    using assms by (auto simp: tidy_server_def)
  show "list_all city_char (city_part s)" "city_part s \<noteq> []"
    using c by (auto simp: city_part_def replace_all_def city_char_def list_all_iff)
  have "\<not> az CHR ''_''" "\<not> is_digit CHR ''_''" by code_simp+
  then have "c \<noteq> CHR ''_''" if "c \<in> set (nv_CityName s)" for c using c(1) that by (auto simp: list_all_iff)
  then show "replace_all CHR ''_'' CHR ''-'' (city_part s) = nv_CityName s"
    by (auto simp: city_part_def replace_all_def intro!: map_idI)
qed

lemma nord_base:
  assumes "tidy_server s"
  shows "catalog_base (nord_slot key a s) = nv_Country s @ ''-'' @ city_part s @ ''-'' @ nord_SlotID s"
proof -
  have "nv_Country s \<noteq> []" "nv_CityName s \<noteq> []" using assms by (auto simp: tidy_server_def)
  then show ?thesis
    by (simp add: catalog_base_def nord_slot_def nord_City_def trim_prefix_def has_prefix_def city_part_def)
qed

lemma takeWhile_run: "list_all P u \<Longrightarrow> \<not> P c \<Longrightarrow> takeWhile P (u @ c # v) = u"
  by (induction u) auto

lemma nord_base_re:
  assumes "tidy_server s"
  shows "slotNameRe (nv_Country s @ ''-'' @ city_part s @ ''-'' @ i) = Some (nv_Country s, city_part s)"
proof -
  obtain x y where c: "nv_Country s = [x, y]" "az x" "az y"
    using assms by (auto simp: tidy_server_def length_Suc_conv numeral_2_eq_2)
  have "\<not> city_char CHR ''-''" by code_simp
  then have "takeWhile city_char (city_part s @ ''-'' @ i) = city_part s"
    using takeWhile_run [OF tidy_city(1) [OF assms]] by simp
  then show ?thesis using c tidy_city(2) [OF assms] by (simp add: has_prefix_def)
qed

lemma nord_base_chars:
  assumes "tidy_server s"
  shows "list_all (\<lambda>c. c \<noteq> CHR ''.'' \<and> c \<noteq> CHR ''/'') (catalog_base (nord_slot key a s))"
proof -
  have "\<not> az CHR ''.''" "\<not> az CHR ''/''" "\<not> city_char CHR ''.''" "\<not> city_char CHR ''/''" by code_simp+
  then show ?thesis
    using assms tidy_city(1) [OF assms]
    by (auto simp: nord_base [OF assms] tidy_server_def name_char_def list_all_iff)
qed

lemma dotdot_dots: "CHR ''.'' \<notin> set s \<Longrightarrow> \<not> dotdot s"
  by (induction s rule: dotdot.induct) auto

lemma conf_name:
  assumes "b \<noteq> []" and "list_all (\<lambda>c. c \<noteq> CHR ''.'' \<and> c \<noteq> CHR ''/'') b"
  shows "isConfName (b @ ''.conf'')" and "path_base (b @ ''.conf'') = b @ ''.conf''"
    and "trim_suffix ''.CONF'' (trim_suffix ''.conf'' (b @ ''.conf'')) = b"
proof -
  have n: "CHR ''/'' \<notin> set (b @ ''.conf'')" "CHR ''.'' \<notin> set b" using assms(2) by (auto simp: list_all_iff)
  have l: "snd (last_slash (b @ ''.conf'')) = b @ ''.conf''" by (rule last_slash_plain [OF n(1)])
  have "cut CHR ''.'' (rev (b @ ''.conf'')) = Some (''fnoc'', rev b)" by simp
  then have "path_ext (b @ ''.conf'') = ''.conf''" by (simp add: path_ext_def l)
  then show "isConfName (b @ ''.conf'')" by (simp add: isConfName_def)
  then show "path_base (b @ ''.conf'') = b @ ''.conf''" using path_base_conf(1) l by metis
  have "\<not> has_suffix ''.CONF'' b"
  proof
    assume "has_suffix ''.CONF'' b"
    then have "take (length ''FNOC.'') (rev b) = ''FNOC.''" by (simp add: has_suffix_def has_prefix_def)
    then have "CHR ''.'' \<in> set (take (length ''FNOC.'') (rev b))" by simp
    then show False using n(2) by (auto dest: in_set_takeD)
  qed
  then show "trim_suffix ''.CONF'' (trim_suffix ''.conf'' (b @ ''.conf'')) = b"
    by (simp add: trim_suffix_def has_suffix_def has_prefix_def)
qed

lemma nord_file_name:
  assumes "tidy_server s"
  shows "catalogFileName (nord_slot key a s) = Inr (catalog_base (nord_slot key a s) @ ''.conf'')"
    and "isConfName (catalog_base (nord_slot key a s) @ ''.conf'')"
proof -
  let ?b = "catalog_base (nord_slot key a s)"
  have b: "?b \<noteq> []" by (simp add: nord_base [OF assms])
  note n = conf_name [OF b nord_base_chars [OF assms]]
  have "CHR ''.'' \<notin> set ?b" "CHR ''/'' \<notin> set ?b"
    using nord_base_chars [OF assms, of key a] by (auto simp: list_all_iff)
  then show "catalogFileName (nord_slot key a s) = Inr (?b @ ''.conf'')"
    using n(2) by (simp add: catalogFileName_def Let_def dotdot_dots)
  show "isConfName (?b @ ''.conf'')" by (rule n(1))
qed

text \<open>The slot as it is read back: its name is that of the file, its source is not in the file.\<close>

definition reloaded :: "wg_slot \<Rightarrow> wg_slot" where
  "reloaded z = z\<lparr>c_ID := catalog_base z, c_Source := []\<rparr>"

lemma parse_render:
  assumes s: "tidy_server s" and key: "tidy_text key" and a: "parse_addr tunnelAddress = Some a"
  shows "ParseConf (catalog_base (nord_slot key a s) @ ''.conf'') (renderConf (nord_slot key a s)) =
     Inr (reloaded (nord_slot key a s))"
proof -
  let ?b = "catalog_base (nord_slot key a s)"
  have b: "?b \<noteq> []" by (simp add: nord_base [OF s])
  have city: "nord_City s = nv_Country s @ ''-'' @ nv_CityName s"
    using s by (auto simp: nord_City_def tidy_server_def)
  have start: "conf_start (?b @ ''.conf'') =
      no_wg\<lparr>c_ID := ?b, c_MTU := DefaultMTU, c_Country := nv_Country s, c_City := nord_City s\<rparr>"
    unfolding conf_start_def conf_name(3) [OF b nord_base_chars [OF s]] Let_def
    by (simp add: nord_base [OF s] nord_base_re [OF s, simplified] tidy_city(3) [OF s] city)
  have "nv_PublicKey s \<noteq> []" "key \<noteq> []" "nord_Endpoint s \<noteq> []" "default_routes \<noteq> []"
    using s key default_routes_ok by (auto simp: tidy_server_def tidy_text_def)
  then show ?thesis
    using b
    by (simp add: ParseConf_def parse_render_lines [OF s key a] start no_wg_def slot_problems_def reloaded_def)
      (simp add: nord_slot_def no_wg_def DefaultMTU_def)
qed

section \<open>The directory\<close>

lemma write_success:
  assumes "writeCatalog dk dir slots fs = (Inr n, fs')" and "dk_stage dk = Some stage"
    and "stage \<noteq> dir" "stage @ ''.previous'' \<noteq> dir"
  shows "n = length slots \<and> (\<exists>d. fmlookup fs' dir = Some d \<and> snapshot_of slots d)"
proof -
  obtain names d fs0 fs1 where n: "file_names slots = Inr names"
    and d: "write_files (dk_write dk) (snapshot_files slots names) fmempty = (True, d)"
    and r: "replaceCatalogSnapshot dk dir stage (fmupd stage d fs0) = (None, fs1)"
    and o: "n = length slots" "fs' = snd (remove_all dk stage fs1)"
    using assms(1,2)
    by (auto simp: writeCatalog_def fill_stage_def Let_def
        split: sum.splits option.splits if_splits prod.splits bool.splits)
  have "fmlookup fs1 dir = Some d"
    using r assms(3,4)
    by (auto simp: replaceCatalogSnapshot_def rename_dir_def remove_all_def Let_def
        split: if_splits option.splits prod.splits bool.splits)
  then have "fmlookup fs' dir = Some d"
    using o(2) assms(3) by (auto simp: remove_all_def split: option.splits)
  then show ?thesis using n o(1) write_files_all [OF d] by (auto simp: snapshot_of_def)
qed

lemma slots_loop_Inr:
  "slots_loop key a seen ss = Inr slots \<Longrightarrow>
     slots = map (nord_slot key a) ss \<and> distinct (map nord_SlotID ss) \<and>
     set (map nord_SlotID ss) \<inter> set seen = {}"
  by (induction key a seen ss arbitrary: slots rule: slots_loop.induct) (auto split: if_splits sum.splits)

lemma Slots_Inr:
  assumes "nord_Slots key servers = Inr slots"
  obtains a where "parse_addr tunnelAddress = Some a" "slots = map (nord_slot key a) (Usable_servers servers)"
    "distinct (map nord_SlotID (Usable_servers servers))" "Usable_servers servers \<noteq> []"
  using assms by (auto simp: nord_Slots_def Let_def split: if_splits option.splits dest: slots_loop_Inr)

definition conf_file :: "wg_slot \<Rightarrow> string" where
  "conf_file z = catalog_base z @ ''.conf''"

lemma nord_files_distinct:
  assumes "distinct (map nord_SlotID ss)" and "list_all tidy_server ss"
  shows "distinct (map (\<lambda>s. conf_file (nord_slot key a s)) ss)"
proof -
  have "inj_on (\<lambda>s. conf_file (nord_slot key a s)) (set ss)"
  proof (rule inj_onI)
    fix s t assume m: "s \<in> set ss" "t \<in> set ss"
      and e: "conf_file (nord_slot key a s) = conf_file (nord_slot key a t)"
    have td: "tidy_server s" "tidy_server t" using m assms(2) by (auto simp: list_all_iff)
    have b: "nv_Country s @ ''-'' @ city_part s @ ''-'' @ nord_SlotID s =
        nv_Country t @ ''-'' @ city_part t @ ''-'' @ nord_SlotID t"
      using e by (simp only: conf_file_def append_same_eq nord_base [OF td(1)] nord_base [OF td(2)])
    then have "nv_Country s = nv_Country t \<and> city_part s = city_part t"
      using nord_base_re [OF td(1), of "nord_SlotID s"] nord_base_re [OF td(2), of "nord_SlotID t"] by simp
    then have "nord_SlotID s = nord_SlotID t" using b by simp
    then show "s = t" using m assms(1) by (auto simp: distinct_map inj_on_def)
  qed
  then show ?thesis using assms(1) by (auto simp: distinct_map)
qed

lemma file_names_nord:
  "list_all tidy_server ss \<Longrightarrow>
     file_names (map (nord_slot key a) ss) = Inr (map (\<lambda>s. conf_file (nord_slot key a s)) ss)"
  by (induction ss) (simp_all add: nord_file_name conf_file_def)

lemma write_files_lookup:
  "write_files (\<lambda>n. None) fs d = (True, d') \<Longrightarrow> distinct (map fst fs) \<Longrightarrow>
     fmlookup d' n = (case map_of fs n of Some c \<Rightarrow> Some (Plain c) | None \<Rightarrow> fmlookup d n)"
  by (induction fs arbitrary: d) (auto split: option.split if_splits dest!: map_of_SomeD simp: image_iff)

text \<open>The entries as \<open>os.ReadDir\<close> and \<open>os.ReadFile\<close> give them.\<close>

definition dir_files :: "catalog_dir \<Rightarrow> entry_file list" where
  "dir_files d =
     map (\<lambda>(n, node). (n, node = Subdir, case node of Subdir \<Rightarrow> None | Plain c \<Rightarrow> Some c)) (dir_list d)"

lemma load_files_all:
  "(\<And>n isDir c. (n, isDir, c) \<in> set es \<Longrightarrow> \<not> isDir \<Longrightarrow> isConfName n \<Longrightarrow>
      \<exists>raw. c = Some raw \<and> ParseConf n raw = Inr (f n)) \<Longrightarrow>
   load_files (\<lambda>n. n) src es =
     Inr (map (\<lambda>(n, isDir, c). (f n)\<lparr>c_Source := src n\<rparr>) (filter (\<lambda>(n, isDir, c). \<not> isDir \<and> isConfName n) es))"
proof (induction es)
  case (Cons e es)
  obtain n isDir c where e: "e = (n, isDir, c)" by (cases e)
  have "load_files (\<lambda>n. n) src es =
     Inr (map (\<lambda>(n, isDir, c). (f n)\<lparr>c_Source := src n\<rparr>) (filter (\<lambda>(n, isDir, c). \<not> isDir \<and> isConfName n) es))"
    by (rule Cons.IH) (use Cons.prems in auto)
  then show ?case using Cons.prems [of n isDir c] e by auto
qed simp

lemma newBundle_total:
  assumes "ss \<noteq> []" and "distinct (map c_ID ss)"
  obtains b where "newBundle ss = Inr b" "bn_Slots b = sort_key c_ID ss"
proof -
  have "distinct (map c_ID (sort_key c_ID ss))"
    using assms(2) by (metis distinct_map distinct_sort set_sort)
  then have "first_dup [] (map c_ID (sort_key c_ID ss)) = None" by (simp add: first_dup_None)
  then show thesis using assms(1) that by (simp add: newBundle_def Let_def)
qed

lemma snapshot_lookup:
  assumes snap: "snapshot_of slots d" and names: "file_names slots = Inr (map conf_file slots)"
    and dist: "distinct (map conf_file slots)" and conf: "\<And>z. z \<in> set slots \<Longrightarrow> isConfName (conf_file z)"
  shows "fmlookup d n = Some node \<and> isConfName n \<longleftrightarrow>
     (\<exists>z\<in>set slots. n = conf_file z \<and> node = Plain (renderConf z))"
proof -
  let ?fs = "map (\<lambda>z. (conf_file z, renderConf z)) slots"
  have zip: "zip (map conf_file slots) (map renderConf slots) = ?fs"
    by (simp add: zip_map_map zip_same_conv_map)
  have nm: "\<not> isConfName nordVPNManifestName" by code_simp
  have fst: "map fst ?fs = map conf_file slots" by simp
  let ?all = "?fs @ [(nordVPNManifestName, manifest_text (map conf_file slots))]"
  have "map fst ?all = map conf_file slots @ [nordVPNManifestName]" by simp
  moreover have "nordVPNManifestName \<notin> set (map conf_file slots)" using nm conf by fastforce
  ultimately have da: "distinct (map fst ?all)" using dist by (simp only: distinct_append) simp
  have "write_files (\<lambda>n. None) ?all fmempty = (True, d)"
    using snap by (simp add: snapshot_of_def snapshot_files_def names zip)
  from write_files_lookup [OF this da, of n]
  have l: "fmlookup d n = map_option Plain (map_of ?all n)" by (simp split: option.split)
  have "map_of ?all n = Some c \<longleftrightarrow> (n, c) \<in> set ?all" for c by (rule map_of_eq_Some_iff [OF da])
  then show ?thesis using l nm conf by auto
qed

lemma dir_files_iff:
  "(n, isDir, c) \<in> set (dir_files d) \<longleftrightarrow>
     (\<exists>node. fmlookup d n = Some node \<and> isDir = (node = Subdir) \<and>
        c = (case node of Subdir \<Rightarrow> None | Plain c \<Rightarrow> Some c))"
  by (simp add: dir_files_def image_iff Bex_def split_paired_Ex dir_list_iff)

lemma dir_files_names: "map fst (dir_files d) = sorted_list_of_fset (fmdom d)"
  by (simp add: dir_files_def dir_list_def comp_def split_beta)

text \<open>The slot of a file in the bundle that is loaded from the directory.\<close>

definition loaded :: "string \<Rightarrow> wg_slot \<Rightarrow> wg_slot" where
  "loaded dir z = (reloaded z)\<lparr>c_Source := path_join dir (conf_file z)\<rparr>"

lemma load_snapshot:
  assumes snap: "snapshot_of slots d" and names: "file_names slots = Inr (map conf_file slots)"
    and dist: "distinct (map conf_file slots)" and conf: "\<And>z. z \<in> set slots \<Longrightarrow> isConfName (conf_file z)"
    and parse: "\<And>z. z \<in> set slots \<Longrightarrow> ParseConf (conf_file z) (renderConf z) = Inr (reloaded z)"
    and ne: "slots \<noteq> []"
  obtains b where "LoadDir dir (Some (dir_files d)) = Inr b" "set (bn_Slots b) = loaded dir ` set slots"
    "distinct (map c_ID (bn_Slots b))" "length (bn_Slots b) = length slots"
proof -
  let ?slot = "\<lambda>n. the (map_of (map (\<lambda>z. (conf_file z, z)) slots) n)"
  have slot: "?slot (conf_file z) = z" if "z \<in> set slots" for z
  proof -
    have "distinct (map fst (map (\<lambda>z. (conf_file z, z)) slots))" using dist by (simp add: comp_def)
    then have "map_of (map (\<lambda>z. (conf_file z, z)) slots) (conf_file z) = Some z"
      by (rule map_of_is_SomeI) (use that in auto)
    then show ?thesis by simp
  qed
  let ?keep = "\<lambda>(n, isDir, c). \<not> isDir \<and> isConfName n"
  let ?es = "filter ?keep (dir_files d)"
  let ?ss = "map (\<lambda>(n, isDir, c). (reloaded (?slot n))\<lparr>c_Source := path_join dir n\<rparr>) ?es"
  note look = snapshot_lookup [OF snap names dist conf]
  have es: "(n, isDir, c) \<in> set ?es \<longleftrightarrow> \<not> isDir \<and> (\<exists>z\<in>set slots. n = conf_file z \<and> c = Some (renderConf z))"
    for n isDir c
  proof -
    have "(n, isDir, c) \<in> set ?es \<longleftrightarrow>
        \<not> isDir \<and> (\<exists>raw. (fmlookup d n = Some (Plain raw) \<and> isConfName n) \<and> c = Some raw)"
      by (auto simp: dir_files_iff split: file_node.splits) (metis file_node.exhaust)
    moreover have "fmlookup d n = Some (Plain raw) \<and> isConfName n \<longleftrightarrow>
        (\<exists>z\<in>set slots. n = conf_file z \<and> raw = renderConf z)" for raw
      using look [of n "Plain raw"] by simp
    ultimately show ?thesis by blast
  qed
  have l: "load_files (\<lambda>n. n) (path_join dir) (dir_files d) = Inr ?ss"
  proof (rule load_files_all)
    fix n isDir c
    assume "(n, isDir, c) \<in> set (dir_files d)" "\<not> isDir" "isConfName n"
    then have "\<exists>z\<in>set slots. n = conf_file z \<and> c = Some (renderConf z)"
      using es [of n isDir c] by simp
    then show "\<exists>raw. c = Some raw \<and> ParseConf n raw = Inr (reloaded (?slot n))"
      using slot parse by auto
  qed
  have set_ss: "set ?ss = loaded dir ` set slots"
  proof (intro equalityI subsetI)
    fix x assume "x \<in> set ?ss"
    then obtain n isDir c where "(n, isDir, c) \<in> set ?es"
      "x = (reloaded (?slot n))\<lparr>c_Source := path_join dir n\<rparr>" by auto
    then show "x \<in> loaded dir ` set slots" using es slot by (auto simp: loaded_def)
  next
    fix x assume "x \<in> loaded dir ` set slots"
    then obtain z where z: "z \<in> set slots" "x = loaded dir z" by auto
    then have "(conf_file z, False, Some (renderConf z)) \<in> set ?es" using es by blast
    moreover have "x = (case (conf_file z, False, Some (renderConf z)) of
        (n, isDir, c) \<Rightarrow> (reloaded (?slot n))\<lparr>c_Source := path_join dir n\<rparr>)"
      using z slot by (simp add: loaded_def)
    ultimately show "x \<in> set ?ss" unfolding set_map by (rule rev_image_eqI)
  qed
  have "map (\<lambda>x. c_ID x @ ''.conf'') ?ss = map fst ?es"
    using es slot by (auto simp: reloaded_def conf_file_def)
  moreover have "distinct (map fst ?es)"
    using dir_files_names [of d] by (intro distinct_map_filter) (simp add: sorted_list_of_fset.rep_eq)
  ultimately have "distinct (map (\<lambda>x. c_ID x @ ''.conf'') ?ss)" by (simp only:)
  then have "distinct (map (\<lambda>w. w @ ''.conf'') (map c_ID ?ss))" by (simp only: map_map comp_def)
  then have ids: "distinct (map c_ID ?ss)" by (rule distinct_map [THEN iffD1, THEN conjunct1])
  have inj: "inj_on (loaded dir) (set slots)"
  proof (rule inj_onI)
    fix y z assume m: "y \<in> set slots" "z \<in> set slots" and "loaded dir y = loaded dir z"
    then have "c_ID (loaded dir y) = c_ID (loaded dir z)" by simp
    then have "conf_file y = conf_file z" by (simp add: loaded_def reloaded_def conf_file_def)
    then show "y = z" using dist m by (auto simp: distinct_map dest: inj_onD)
  qed
  have "distinct slots" using dist by (simp add: distinct_map)
  then have "card (set ?ss) = length slots"
    by (simp only: set_ss card_image [OF inj] distinct_card)
  moreover have "distinct ?ss" using ids by (rule distinct_map [THEN iffD1, THEN conjunct1])
  ultimately have len: "length ?ss = length slots" by (simp only: distinct_card)
  have "?ss \<noteq> []" by (rule length_greater_0_conv [THEN iffD1]) (simp only: len length_greater_0_conv ne not_False_eq_True)
  from newBundle_total [OF this ids] obtain b where b: "newBundle ?ss = Inr b" "bn_Slots b = sort_key c_ID ?ss" .
  have "LoadDir dir (Some (dir_files d)) = Inr b" by (simp only: LoadDir_def option.case l sum.case b(1))
  moreover have "distinct (map c_ID (bn_Slots b))"
    using ids unfolding b(2) distinct_map distinct_sort set_sort .
  moreover have "set (bn_Slots b) = loaded dir ` set slots" "length (bn_Slots b) = length slots"
    by (simp_all only: b(2) set_sort length_sort set_ss len)
  ultimately show thesis using that by blast
qed

text \<open>
  C10: the catalogue written for the server list loads again, completely. When every usable server has a tidy
  entry (a two-letter country, a city of letters, digits and hyphens, texts without comment signs and line breaks), the
  directory that \<open>nordvpn catalog\<close> leaves behind is loaded without an error into one slot per server, with the keys, the
  endpoint, the address, the resolvers, the routes, the MTU and the labels of the server, under the name of its file.
\<close>

theorem catalog_reloads:
  assumes "nord_Slots key servers = Inr slots" and "tidy_text key" and "list_all tidy_server (Usable_servers servers)"
    and "writeCatalog dk dir slots fs = (Inr n, fs')" and "dk_stage dk = Some stage"
    and "stage \<noteq> dir" "stage @ ''.previous'' \<noteq> dir"
  shows "\<exists>d b. fmlookup fs' dir = Some d \<and> LoadDir dir (Some (dir_files d)) = Inr b \<and>
     set (bn_Slots b) = loaded dir ` set slots \<and> distinct (map c_ID (bn_Slots b)) \<and>
     length (bn_Slots b) = length (Usable_servers servers) \<and> n = length (Usable_servers servers)"
proof -
  obtain d where d: "n = length slots" "fmlookup fs' dir = Some d" "snapshot_of slots d"
    using write_success [OF assms(4-7)] by blast
  obtain a where a: "parse_addr tunnelAddress = Some a" "slots = map (nord_slot key a) (Usable_servers servers)"
    "distinct (map nord_SlotID (Usable_servers servers))" "Usable_servers servers \<noteq> []"
    using Slots_Inr [OF assms(1)] by blast
  have tidy: "tidy_server s" if "s \<in> set (Usable_servers servers)" for s
    using assms(3) that by (simp add: list_all_iff)
  show ?thesis
  proof (rule load_snapshot [OF d(3), of dir])
    show "file_names slots = Inr (map conf_file slots)"
      using file_names_nord [OF assms(3)] by (simp add: a(2) comp_def)
    show "distinct (map conf_file slots)"
      using nord_files_distinct [OF a(3) assms(3)] by (simp add: a(2) comp_def)
    show "isConfName (conf_file z)" if "z \<in> set slots" for z
      using that tidy nord_file_name(2) by (auto simp: a(2) conf_file_def)
    show "ParseConf (conf_file z) (renderConf z) = Inr (reloaded z)" if "z \<in> set slots" for z
      using that tidy parse_render [OF _ assms(2) a(1)] by (auto simp: a(2) conf_file_def)
    show "slots \<noteq> []" using a by simp
  next
    fix b
    assume "LoadDir dir (Some (dir_files d)) = Inr b" "set (bn_Slots b) = loaded dir ` set slots"
      "distinct (map c_ID (bn_Slots b))" "length (bn_Slots b) = length slots"
    then show ?thesis using d a(2) by auto
  qed
qed

definition demo_servers :: "nord_server list" where
  "demo_servers = map UnmarshalJSON [demo_server ''us2'', demo_server ''us1'']"

theorem catalog_reloads_witness:
  "\<exists>fs' d b. writeCatalog demo_disk ''/c'' demo_nord_slots fmempty = (Inr 2, fs') \<and> fmlookup fs' ''/c'' = Some d \<and>
     LoadDir ''/c'' (Some (dir_files d)) = Inr b \<and> length (bn_Slots b) = 2"
proof -
  let ?out = "writeCatalog demo_disk ''/c'' demo_nord_slots fmempty"
  obtain res fs' where o: "?out = (res, fs')" by fastforce
  have f: "is_ok (fst ?out)" "length demo_nord_slots = 2" "is_ok (nord_Slots ''key='' demo_servers)"
    "length (Usable_servers demo_servers) = 2" "list_all tidy_server (Usable_servers demo_servers)"
    "list_all tidy_char ''key=''"
    by code_simp+
  have s: "nord_Slots ''key='' demo_servers = Inr demo_nord_slots"
    using f(3) by (cases "nord_Slots ''key='' demo_servers") (simp_all add: demo_nord_slots_def demo_servers_def)
  obtain n where n: "?out = (Inr n, fs')" using f(1) o by (cases res) auto
  have "tidy_text ''key=''" using f(6) by (simp add: tidy_text_def)
  then show ?thesis
    using catalog_reloads [OF s _ f(5) n, of "''/.c.nordvpn-stage-1''"] n f(4) by (auto simp: demo_disk_def)
qed

end
