(* ===== verification/Control.thy ===== *)
theory Control
  imports Health Http
begin

text \<open>
  \<open>internal/control/control.go\<close>: the management API. A request carries what \<open>net/http\<close> and \<open>encoding/json\<close> make of
  its bytes: the decoded path, its segments when it is in the canonical form (the multiplexer redirects
  any other), the query, and the decoded body (\<open>None\<close> when it is no JSON, has an unknown field or exceeds 64
  KiB). An answer is the status with the value that is encoded.
\<close>

record ctl_opts =
  co_Clients :: "prefix list"
  co_Token :: string
  co_Version :: string
  co_StartedAt :: time

record reportRequest =
  rq_Session :: string
  rq_Slot :: string
  rq_PublicIP :: string
  rq_Scope :: string
  rq_Reason :: string
  rq_Cooldown :: string

record preferRequest =
  pq_Slot :: string
  pq_PublicIP :: string
  pq_Scope :: string
  pq_TTL :: string

record ctl_request =
  cq_Remote :: string
  cq_Method :: string
  cq_Path :: string
  cq_Segments :: "string list option"
  cq_Query :: "(string \<times> string) list"
  cq_Header :: header
  cq_Report :: "reportRequest option"
  cq_Prefer :: "preferRequest option"

datatype ctl_answer =
    Healthy | Info string time string nat | StatsAnswer stats | MetricsAnswer metricsSnapshot
  | Countries "(string \<times> 64 word) list" | SlotsAnswer "slotInfo list" | EntriesAnswer "entryInfo list"
  | IPsAnswer "string list" | SessionAnswer sessionInfo | Rotated string bool
  | ReportAnswer reportResult | PreferAnswer preferResult | Problem string | Mux

type_synonym reply = "int \<times> ctl_answer"

section \<open>Access\<close>

definition client_host :: "string \<Rightarrow> string" where
  "client_host remote = (case split_host_port remote of Some (h, _) \<Rightarrow> h | None \<Rightarrow> remote)"

definition ctl_checkClient :: "ctl_opts \<Rightarrow> string \<Rightarrow> client_error option" where
  "ctl_checkClient opts remote =
     (if co_Clients opts = [] then None
      else
        case parse_addr (client_host remote) of
          None \<Rightarrow> Some UnparsableClient
        | Some a \<Rightarrow>
            let a = unmap a
            in if is_loopback a then None
               else if list_ex (\<lambda>p. is_4 (pfx_addr p) = is_4 a \<and> contains p a) (co_Clients opts) then None
               else Some ClientNotAllowed)"

definition loopbackClient :: "string \<Rightarrow> bool" where
  "loopbackClient remote = (case parse_addr (client_host remote) of None \<Rightarrow> False | Some a \<Rightarrow> is_loopback a)"

definition requiresMutationAuth :: "ctl_request \<Rightarrow> bool" where
  "requiresMutationAuth r \<longleftrightarrow>
     (cq_Method r = ''POST'' \<or> cq_Method r = ''DELETE'') \<and>
     (cq_Path r = ''/v1/report'' \<or> cq_Path r = ''/v1/prefer'' \<or> has_suffix ''/rotate'' (cq_Path r) \<or>
      has_prefix ''/v1/sessions/'' (cq_Path r) \<and> cq_Method r = ''DELETE'')"

definition tokenOK :: "ctl_opts \<Rightarrow> ctl_request \<Rightarrow> bool" where
  "tokenOK opts r \<longleftrightarrow>
     co_Token opts \<noteq> [] \<and>
     (case cut CHR '' '' (header_get (cq_Header r) ''Authorization'') of
        None \<Rightarrow> False
      | Some (scheme, v) \<Rightarrow> equal_fold scheme ''Bearer'' \<and> trim_space v = co_Token opts)"

section \<open>Routes\<close>

datatype route =
    RHealth | RInfo | RStats | RMetrics | RCountries | RSlots | REntries | RIPs | RWhoami
  | RSession string | RRotate string | RReport | RPrefer

text \<open>The patterns that match the segments of a path, each with its method; a wildcard matches no empty segment.\<close>

fun path_routes :: "string list \<Rightarrow> (string \<times> route) list" where
  "path_routes [a] = (if a = ''healthz'' then [(''GET'', RHealth)] else [])"
| "path_routes [v, a] =
     (if v \<noteq> ''v1'' then []
      else if a = ''info'' then [(''GET'', RInfo)]
      else if a = ''stats'' then [(''GET'', RStats)]
      else if a = ''metrics'' then [(''GET'', RMetrics)]
      else if a = ''country-acquisitions'' then [(''GET'', RCountries)]
      else if a = ''slots'' then [(''GET'', RSlots)]
      else if a = ''entries'' then [(''GET'', REntries)]
      else if a = ''ips'' then [(''GET'', RIPs)]
      else if a = ''whoami'' then [(''GET'', RWhoami)]
      else if a = ''report'' then [(''POST'', RReport)]
      else if a = ''prefer'' then [(''POST'', RPrefer)]
      else [])"
| "path_routes [v, a, name] =
     (if v = ''v1'' \<and> a = ''sessions'' \<and> name \<noteq> []
      then [(''GET'', RSession name), (''DELETE'', RRotate name)] else [])"
| "path_routes [v, a, name, b] =
     (if v = ''v1'' \<and> a = ''sessions'' \<and> name \<noteq> [] \<and> b = ''rotate'' then [(''POST'', RRotate name)] else [])"
| "path_routes _ = []"

text \<open>The multiplexer: the handler, or the status of its own answer. A \<open>GET\<close> pattern also serves \<open>HEAD\<close>.\<close>

definition mux_route :: "string \<Rightarrow> string list option \<Rightarrow> int + route" where
  "mux_route method segments =
     (case segments of
        None \<Rightarrow> Inl 301
      | Some segs \<Rightarrow>
          (case filter (\<lambda>(m, _). m = method \<or> m = ''GET'' \<and> method = ''HEAD'') (path_routes segs) of
             (_, r) # _ \<Rightarrow> Inr r
           | [] \<Rightarrow> if path_routes segs = [] then Inl 404 else Inl 405))"

section \<open>Handlers\<close>

text \<open>\<open>Duration.Round\<close> to a second: to the nearest, half away from zero; here it does not overflow.\<close>

definition round_second :: "duration \<Rightarrow> duration" where
  "round_second d = (if d < 0 then - ((- d + second div 2) div second * second)
                     else (d + second div 2) div second * second)"

definition handleInfo :: "ctl_opts \<Rightarrow> time \<Rightarrow> pool \<Rightarrow> reply" where
  "handleInfo opts now p =
     (200, Info (co_Version opts) (co_StartedAt opts) (duration_string (round_second (now - co_StartedAt opts)))
             (length (p_order p)))"

text \<open>\<open>Query().Get\<close>: the first value, or empty.\<close>

definition query_get :: "(string \<times> string) list \<Rightarrow> string \<Rightarrow> string" where
  "query_get q k = (case map_of q k of None \<Rightarrow> [] | Some v \<Rightarrow> v)"

definition is_set :: "string \<Rightarrow> bool" where
  "is_set v \<longleftrightarrow> v = ''1'' \<or> v = ''true''"

definition handleSlots :: "ctl_request \<Rightarrow> time \<Rightarrow> pool \<Rightarrow> reply" where
  "handleSlots r now p =
     (let q = query_get (cq_Query r);
          f = \<lparr>sf_Country = q ''country'', sf_City = q ''city'', sf_OpenOnly = is_set (q ''open''),
               sf_WithIP = is_set (q ''with_ip'')\<rparr>;
          slots = Slots f now p
      in if q ''limit'' = [] then (200, SlotsAnswer slots)
         else
           case atoi (q ''limit'') of
             None \<Rightarrow> (400, Problem ''limit must be a non-negative integer'')
           | Some n \<Rightarrow>
               if n < 0 then (400, Problem ''limit must be a non-negative integer'')
               else if n < int (length slots) then (200, SlotsAnswer (take (nat n) slots))
               else (200, SlotsAnswer slots))"

definition writeSession :: "string \<Rightarrow> time \<Rightarrow> pool \<Rightarrow> reply" where
  "writeSession name now p =
     (case Session name now p of
        None \<Rightarrow> (404, Problem ''session is not bound'')
      | Some info \<Rightarrow> (200, SessionAnswer info))"

definition handleWhoami :: "ctl_request \<Rightarrow> time \<Rightarrow> pool \<Rightarrow> reply" where
  "handleWhoami r now p =
     (let name = query_get (cq_Query r) ''sess''
      in if name = [] then (400, Problem ''query parameter sess is required'') else writeSession name now p)"

definition handleRotate :: "string \<Rightarrow> pool \<Rightarrow> reply \<times> pool" where
  "handleRotate name p =
     (if name = [] then ((400, Problem ''session name is required''), p)
      else case Rotate name p of (rotated, p) \<Rightarrow> ((200, Rotated name rotated), p))"

definition scope_char :: "char \<Rightarrow> bool" where
  "scope_char c \<longleftrightarrow>
     CHR ''a'' \<le> c \<and> c \<le> CHR ''z'' \<or> CHR ''0'' \<le> c \<and> c \<le> CHR ''9'' \<or>
     c = CHR ''-'' \<or> c = CHR ''_'' \<or> c = CHR ''.''"

definition normalizeHealthScope :: "string \<Rightarrow> string" where
  "normalizeHealthScope scope =
     (let s = to_lower (trim_space scope)
      in if s = [] \<or> length s > 128 then [] else if list_all scope_char s then s else [])"

text \<open>A duration the caller may override: absent is zero.\<close>

definition optional_duration :: "string \<Rightarrow> duration option" where
  "optional_duration v =
     (if v = [] then Some 0
      else case parse_duration v of None \<Rightarrow> None | Some d \<Rightarrow> if d < 0 then None else Some d)"

definition feedback_status :: "pool_error \<Rightarrow> int" where
  "feedback_status e = (if e = Wrapped ErrIdentityMismatch then 409 else 404)"

definition handleReport :: "reportRequest option \<Rightarrow> time \<Rightarrow> pool \<Rightarrow> reply \<times> pool" where
  "handleReport decoded now p =
     (case decoded of
        None \<Rightarrow> ((400, Problem ''invalid JSON body''), p)
      | Some b \<Rightarrow>
          if rq_Session b = [] \<and> rq_Slot b = [] then ((400, Problem ''either session or slot is required''), p)
          else
            let scope = normalizeHealthScope (rq_Scope b)
            in if scope = [] then ((400, Problem ''scope is required and must be a safe opaque token''), p)
               else
                 case parse_addr (trim_space (rq_PublicIP b)) of
                   None \<Rightarrow> ((400, Problem ''public_ip must be an IP address''), p)
                 | Some a \<Rightarrow>
                     (case optional_duration (rq_Cooldown b) of
                        None \<Rightarrow> ((400, Problem ''cooldown must be a duration''), p)
                      | Some cooldown \<Rightarrow>
                          (case Report \<lparr>ri_Session = rq_Session b, ri_Slot = rq_Slot b, ri_PublicIP = Some a,
                                  ri_Target = scope, ri_Cooldown = cooldown\<rparr> now p of
                             (Inl e, p) \<Rightarrow> ((feedback_status e, Problem ''report''), p)
                           | (Inr res, p) \<Rightarrow> ((200, ReportAnswer res), p))))"

definition handlePrefer :: "preferRequest option \<Rightarrow> time \<Rightarrow> pool \<Rightarrow> reply \<times> pool" where
  "handlePrefer decoded now p =
     (case decoded of
        None \<Rightarrow> ((400, Problem ''invalid JSON body''), p)
      | Some b \<Rightarrow>
          let scope = normalizeHealthScope (pq_Scope b)
          in if pq_Slot b = [] \<or> scope = [] then ((400, Problem ''slot and scope are required''), p)
             else
               case parse_addr (trim_space (pq_PublicIP b)) of
                 None \<Rightarrow> ((400, Problem ''public_ip must be an IP address''), p)
               | Some a \<Rightarrow>
                   (case optional_duration (pq_TTL b) of
                      None \<Rightarrow> ((400, Problem ''ttl must be a duration''), p)
                    | Some ttl \<Rightarrow>
                        (case Prefer \<lparr>pi_Slot = pq_Slot b, pi_PublicIP = Some a, pi_Target = scope, pi_TTL = ttl\<rparr>
                                now p of
                           (Inl e, p) \<Rightarrow> ((feedback_status e, Problem ''prefer''), p)
                         | (Inr res, p) \<Rightarrow> ((200, PreferAnswer res), p))))"

definition ctl_handle :: "ctl_opts \<Rightarrow> time \<Rightarrow> ctl_request \<Rightarrow> route \<Rightarrow> pool \<Rightarrow> reply \<times> pool" where
  "ctl_handle opts now r rt p =
     (case rt of
        RHealth \<Rightarrow> ((200, Healthy), p)
      | RInfo \<Rightarrow> (handleInfo opts now p, p)
      | RStats \<Rightarrow> (case Stats now p of (st, p) \<Rightarrow> ((200, StatsAnswer st), p))
      | RMetrics \<Rightarrow> ((200, MetricsAnswer (Metrics_snapshot now p)), p)
      | RCountries \<Rightarrow> ((200, Countries (CountryAcquisitions p)), p)
      | RSlots \<Rightarrow> (handleSlots r now p, p)
      | REntries \<Rightarrow> ((200, EntriesAnswer (Entries_list p)), p)
      | RIPs \<Rightarrow> ((200, IPsAnswer (UniquePublicIPs p)), p)
      | RWhoami \<Rightarrow> (handleWhoami r now p, p)
      | RSession name \<Rightarrow> (writeSession name now p, p)
      | RRotate name \<Rightarrow> handleRotate name p
      | RReport \<Rightarrow> handleReport (cq_Report r) now p
      | RPrefer \<Rightarrow> handlePrefer (cq_Prefer r) now p)"

text \<open>The gate in front of the multiplexer: the status of a refusal.\<close>

definition ctl_gate :: "ctl_opts \<Rightarrow> ctl_request \<Rightarrow> int option" where
  "ctl_gate opts r =
     (if ctl_checkClient opts (cq_Remote r) \<noteq> None then Some 403
      else if (requiresMutationAuth r \<and> \<not> loopbackClient (cq_Remote r) \<or> co_Token opts \<noteq> []) \<and> \<not> tokenOK opts r
      then Some 401 else None)"

definition ctl_ServeHTTP :: "ctl_opts \<Rightarrow> time \<Rightarrow> ctl_request \<Rightarrow> pool \<Rightarrow> reply \<times> pool" where
  "ctl_ServeHTTP opts now r p =
     (case ctl_gate opts r of
        Some status \<Rightarrow> ((status, Problem ''refused''), p)
      | None \<Rightarrow>
          (case mux_route (cq_Method r) (cq_Segments r) of
             Inl status \<Rightarrow> ((status, Mux), p)
           | Inr rt \<Rightarrow> ctl_handle opts now r rt p))"

section \<open>Normalising a target\<close>

text \<open>\<open>strings.Index\<close> of \<open>://\<close> and the text after it.\<close>

fun after_scheme :: "string \<Rightarrow> string option" where
  "after_scheme [] = None"
| "after_scheme (c # s) = (if has_prefix ''://'' (c # s) then Some (drop 3 (c # s)) else after_scheme s)"

definition normalizeTarget :: "string \<Rightarrow> string" where
  "normalizeTarget target =
     (let t = trim_space target
      in if t = [] then []
         else
           let t = (case after_scheme t of None \<Rightarrow> t | Some u \<Rightarrow> u);
               t = takeWhile (\<lambda>c. c \<notin> {CHR ''/'', CHR ''?'', CHR ''#''}) t;
               t = (case split_host_port t of Some (h, _) \<Rightarrow> h | None \<Rightarrow> t)
           in to_lower (trim_brackets t))"

section \<open>The gate\<close>

definition url_path :: "string list \<Rightarrow> string" where
  "url_path segs = concat (map (\<lambda>s. CHR ''/'' # s) segs)"

text \<open>The segments of a request are those of its path.\<close>

definition wf_ctl :: "ctl_request \<Rightarrow> bool" where
  "wf_ctl r \<longleftrightarrow> (case cq_Segments r of Some segs \<Rightarrow> cq_Path r = url_path segs | None \<Rightarrow> True)"

definition changing :: "route \<Rightarrow> bool" where
  "changing rt \<longleftrightarrow> (case rt of RRotate name \<Rightarrow> True | RReport \<Rightarrow> True | RPrefer \<Rightarrow> True | _ \<Rightarrow> False)"

lemma path_routes_changing:
  assumes "(m, rt) \<in> set (path_routes segs)" and "changing rt"
  shows "m = ''POST'' \<and> (url_path segs = ''/v1/report'' \<or> url_path segs = ''/v1/prefer'' \<or>
        has_suffix ''/rotate'' (url_path segs)) \<or>
     m = ''DELETE'' \<and> has_prefix ''/v1/sessions/'' (url_path segs)"
  using assms
  by (cases segs rule: path_routes.cases)
    (auto simp: changing_def url_path_def has_suffix_def has_prefix_def split: if_splits)

lemma mux_changing:
  assumes "mux_route (cq_Method r) (cq_Segments r) = Inr rt" and "changing rt" and "wf_ctl r"
  shows "requiresMutationAuth r"
proof -
  obtain segs m where s: "cq_Segments r = Some segs" "(m, rt) \<in> set (path_routes segs)"
    and m: "m = cq_Method r \<or> m = ''GET''"
  proof -
    obtain segs where "cq_Segments r = Some segs"
      using assms(1) by (auto simp: mux_route_def split: option.splits)
    moreover from this obtain m rest where
      f: "filter (\<lambda>(m, _). m = cq_Method r \<or> m = ''GET'' \<and> cq_Method r = ''HEAD'') (path_routes segs) = (m, rt) # rest"
      using assms(1) by (auto simp: mux_route_def split: list.splits if_splits)
    moreover from f have "(m, rt) \<in> set (path_routes segs) \<and> (m = cq_Method r \<or> m = ''GET'')"
      using list.set_intros(1) [of "(m, rt)" rest] unfolding f [symmetric] by auto
    ultimately show thesis using that by blast
  qed
  then have "cq_Path r = url_path segs" using assms(3) by (simp add: wf_ctl_def)
  then show ?thesis using path_routes_changing [OF s(2) assms(2)] m by (auto simp: requiresMutationAuth_def)
qed

lemma report_error_same: "Report inp now p = (Inl e, q) \<Longrightarrow> q = p"
  by (auto simp: Report_def split: option.splits if_splits prod.splits)

lemma prefer_error_same: "Prefer inp now p = (Inl e, q) \<Longrightarrow> q = p"
  by (auto simp: Prefer_def Let_def split: option.splits if_splits)

lemma handleReport_same: "handleReport d now p = ((st, a), q) \<Longrightarrow> st \<noteq> 200 \<Longrightarrow> q = p"
  by (auto simp: handleReport_def Let_def split: option.splits if_splits prod.splits sum.splits
      dest: report_error_same)

lemma handlePrefer_same: "handlePrefer d now p = ((st, a), q) \<Longrightarrow> st \<noteq> 200 \<Longrightarrow> q = p"
  by (auto simp: handlePrefer_def Let_def split: option.splits if_splits prod.splits sum.splits
      dest: prefer_error_same)

lemma ctl_handle_same:
  assumes "ctl_handle opts now r rt p = ((st, a), q)" and "st \<noteq> 200 \<or> \<not> changing rt \<and> rt \<noteq> RStats"
  shows "q = p"
  using assms
  by (cases rt) (auto simp: ctl_handle_def changing_def handleRotate_def split: if_splits prod.splits
      dest: handleReport_same handlePrefer_same)

text \<open>
  C2: nobody changes the pool through the control API without the right to. A client outside the list gets
  403, one that does not present the configured token gets 401, and both leave the pool as it is. Whatever else happens,
  the pool can only have changed, but for the old tunnel openings a reader of the statistics forgets, if the request
  carried the configured token, or if no token is configured and it came from the host itself; and an
  answer other than 200 has changed nothing. In particular no path reaches a changing handler around the check of the path.
\<close>

theorem control_guarded:
  assumes "wf_ctl r" and "ctl_ServeHTTP opts now r p = ((status, ans), q)"
  shows "(ctl_checkClient opts (cq_Remote r) \<noteq> None \<longrightarrow> status = 403 \<and> q = p) \<and>
     (ctl_checkClient opts (cq_Remote r) = None \<and> co_Token opts \<noteq> [] \<and> \<not> tokenOK opts r \<longrightarrow> status = 401 \<and> q = p) \<and>
     (q = p \<or> q = snd (Stats now p) \<or> tokenOK opts r \<or> co_Token opts = [] \<and> loopbackClient (cq_Remote r)) \<and>
     (status \<noteq> 200 \<longrightarrow> q = p)"
proof (cases "ctl_gate opts r")
  case (Some st)
  then show ?thesis using assms(2) by (auto simp: ctl_ServeHTTP_def ctl_gate_def split: if_splits)
next
  case None
  then have gate: "ctl_checkClient opts (cq_Remote r) = None" "co_Token opts \<noteq> [] \<Longrightarrow> tokenOK opts r"
    "requiresMutationAuth r \<Longrightarrow> loopbackClient (cq_Remote r) \<or> tokenOK opts r"
    by (auto simp: ctl_gate_def split: if_splits)
  show ?thesis
  proof (cases "mux_route (cq_Method r) (cq_Segments r)")
    case (Inl st)
    then show ?thesis using assms(2) None gate by (auto simp: ctl_ServeHTTP_def)
  next
    case (Inr rt)
    then have h: "ctl_handle opts now r rt p = ((status, ans), q)"
      using assms(2) None by (simp add: ctl_ServeHTTP_def)
    have "q = snd (Stats now p)" if "rt = RStats"
      using h that by (auto simp: ctl_handle_def split: prod.splits)
    then show ?thesis
      using ctl_handle_same [OF h] mux_changing [OF Inr _ assms(1)] gate by blast
  qed
qed

definition demo_ctl :: "string \<Rightarrow> ctl_opts" where
  "demo_ctl token = \<lparr>co_Clients = [], co_Token = token, co_Version = ''v1'', co_StartedAt = 0\<rparr>"

definition demo_rotate :: "string \<Rightarrow> ctl_request" where
  "demo_rotate remote = \<lparr>cq_Remote = remote, cq_Method = ''POST'', cq_Path = ''/v1/sessions/x/rotate'',
     cq_Segments = Some [''v1'', ''sessions'', ''x'', ''rotate''], cq_Query = [], cq_Header = fmempty, cq_Report = None,
     cq_Prefer = None\<rparr>"

theorem control_guarded_witness:
  "ctl_ServeHTTP (demo_ctl ''secret'') 5 (demo_rotate ''10.0.0.9:4000'') demo_pool = ((401, Problem ''refused''), demo_pool)"
proof -
  have f: "wf_ctl (demo_rotate ''10.0.0.9:4000'')" "\<not> tokenOK (demo_ctl ''secret'') (demo_rotate ''10.0.0.9:4000'')"
    "ctl_checkClient (demo_ctl ''secret'') ''10.0.0.9:4000'' = None" "co_Token (demo_ctl ''secret'') \<noteq> []"
    "snd (fst (ctl_ServeHTTP (demo_ctl ''secret'') 5 (demo_rotate ''10.0.0.9:4000'') demo_pool)) = Problem ''refused''"
    by code_simp+
  obtain st a q where "ctl_ServeHTTP (demo_ctl ''secret'') 5 (demo_rotate ''10.0.0.9:4000'') demo_pool = ((st, a), q)"
    by (metis surj_pair)
  then show ?thesis using control_guarded [OF f(1), of "demo_ctl ''secret''" 5 demo_pool st a q] f
    by (simp add: demo_rotate_def)
qed

section \<open>Reports\<close>

lemma handleReport_200:
  assumes "handleReport (Some b) now p = ((200, ans), q)"
  obtains a d res where "normalizeHealthScope (rq_Scope b) \<noteq> []" "parse_addr (trim_space (rq_PublicIP b)) = Some a"
    "optional_duration (rq_Cooldown b) = Some d" "ans = ReportAnswer res"
    "Report \<lparr>ri_Session = rq_Session b, ri_Slot = rq_Slot b, ri_PublicIP = Some a,
       ri_Target = normalizeHealthScope (rq_Scope b), ri_Cooldown = d\<rparr> now p = (Inr res, q)"
  using assms
  by (auto simp: handleReport_def Let_def feedback_status_def split: option.splits if_splits prod.splits sum.splits)

text \<open>A report the handler refuses by its fields alone, and the slot a report is about.\<close>

definition bad_report :: "reportRequest \<Rightarrow> bool" where
  "bad_report b \<longleftrightarrow>
     rq_Session b = [] \<and> rq_Slot b = [] \<or> normalizeHealthScope (rq_Scope b) = [] \<or>
     parse_addr (trim_space (rq_PublicIP b)) = None \<or> optional_duration (rq_Cooldown b) = None"

definition reported_slot :: "reportRequest \<Rightarrow> pool \<Rightarrow> ref option" where
  "reported_slot b p =
     (case (if rq_Slot b = [] then map_option se_slotID (fmlookup (p_sessions p) (rq_Session b)) else Some (rq_Slot b)) of
        None \<Rightarrow> None
      | Some i \<Rightarrow> fmlookup (p_slots p) i)"

text \<open>
  The status of a report tells what was wrong: 400 exactly for a body that is no report (no slot and no session,
  a scope that is no token, an address or a duration that does not parse), 409 exactly when the slot is known and
  its measured address is not the reported one, 404 when the slot or the session is unknown. On success the report concerns
  the slot that had the reported address, under the normalised scope.
\<close>

theorem report_statuses:
  "fst (fst (handleReport (Some b) now p)) =
     (if bad_report b then 400
      else
        case reported_slot b p of
          None \<Rightarrow> 404
        | Some r \<Rightarrow> if s_publicIP (p_heap p r) = parse_addr (trim_space (rq_PublicIP b)) then 200 else 409)"
  by (auto simp: handleReport_def bad_report_def reported_slot_def Report_def feedback_status_def Let_def
      split: option.splits if_splits prod.splits)

text \<open>A token of the policy survives the normalisation of the API exactly when it has no capital letter.\<close>

lemma safe_lower:
  assumes "safe_char c" and "lower_char c = c"
  shows "scope_char c"
proof (cases "CHR ''A'' \<le> c \<and> c \<le> CHR ''Z''")
  case True
  let ?n = "of_char c :: nat"
  have "?n \<le> 90" using True by (simp add: less_eq_char_def)
  then have "of_char (lower_char c) = ?n + 32" using True by (simp add: lower_char_def)
  then show ?thesis using assms(2) by simp
next
  case False
  then show ?thesis using assms(1) by (auto simp: safe_char_def scope_char_def)
qed

lemma safe_not_space: "safe_char c \<Longrightarrow> \<not> is_space c"
  by (auto simp: safe_char_def is_space_def less_eq_char_def)

lemma normalize_safe:
  assumes "isSafeOpaqueToken s" and "to_lower s = s"
  shows "normalizeHealthScope s = s"
proof (cases "s = []")
  case True
  then show ?thesis by (simp add: normalizeHealthScope_def trim_space_def trim_left_def to_lower_def)
next
  case False
  have c: "safe_char c \<and> lower_char c = c" if "c \<in> set s" for c
    using assms that by (auto simp: isSafeOpaqueToken_def list_all_iff to_lower_def map_idI dest: map_eq_conv [THEN iffD1, of _ s id, simplified])
  have "dropWhile is_space s = s" "dropWhile is_space (rev s) = rev s"
    using c False safe_not_space by (auto simp: dropWhile_eq_self_iff hd_rev)
  then have "trim_space s = s" by (simp add: trim_space_def trim_left_def)
  moreover have "list_all scope_char s" using c safe_lower by (auto simp: list_all_iff)
  ultimately show ?thesis
    using assms by (simp add: normalizeHealthScope_def isSafeOpaqueToken_def maxOpaqueTokenLen_def)
qed

lemma normalize_lower: "to_lower (normalizeHealthScope s) = normalizeHealthScope s"
  by (simp add: normalizeHealthScope_def Let_def) (simp add: to_lower_def)

text \<open>
  C36: feedback reaches a destination only when its name has no capital letter. The policy keeps the case of \<open>health=\<close>, the
  API lowers it. So when a client reports under the very token it selects with, the reported slot is out of the choice
  until the cooldown ends if the token is in lower case; otherwise the report succeeds and has no effect on any
  request for this token.
\<close>

theorem feedback_reaches:
  assumes "handleReport (Some b) now p = ((200, ReportAnswer res), q)"
    and "0 < rr_Until res" and "fmlookup (p_slots p) (rr_Slot res) = Some r"
    and "isSafeOpaqueToken (rq_Scope b)"
  shows "if to_lower (rq_Scope b) = rq_Scope b
     then \<forall>pol at. at < rr_Until res \<longrightarrow> \<not> eligible q pol (rq_Scope b) at r
     else \<forall>pol at r'. eligible p pol (rq_Scope b) at r' \<longrightarrow> eligible q pol (rq_Scope b) at r'"
proof -
  obtain a d where n: "normalizeHealthScope (rq_Scope b) \<noteq> []"
    and rep: "Report \<lparr>ri_Session = rq_Session b, ri_Slot = rq_Slot b, ri_PublicIP = Some a,
       ri_Target = normalizeHealthScope (rq_Scope b), ri_Cooldown = d\<rparr> now p = (Inr res, q)"
    using handleReport_200 [OF assms(1)] by (metis ctl_answer.inject(10))
  note e = report_eligible [OF rep _ assms(2,3), simplified, OF n]
  show ?thesis
  proof (cases "to_lower (rq_Scope b) = rq_Scope b")
    case True
    then show ?thesis using e normalize_safe [OF assms(4) True] by auto
  next
    case False
    then have "rq_Scope b \<noteq> normalizeHealthScope (rq_Scope b)" using normalize_lower by metis
    then show ?thesis using e False by auto
  qed
qed

definition demo_report_body :: "string \<Rightarrow> reportRequest" where
  "demo_report_body scope = \<lparr>rq_Session = [], rq_Slot = ''b'', rq_PublicIP = addr_string demo_ip, rq_Scope = scope,
     rq_Reason = ''http_403'', rq_Cooldown = []\<rparr>"

theorem feedback_reaches_witness:
  "eligible (snd (handleReport (Some (demo_report_body ''OpenAI'')) 5 demo_measured)) no_policy ''OpenAI'' 6 0 \<and>
   \<not> eligible (snd (handleReport (Some (demo_report_body ''openai'')) 5 demo_measured)) no_policy ''openai'' 6 0"
proof -
  let ?x = "\<lambda>s. handleReport (Some (demo_report_body s)) 5 demo_measured"
  have f: "fst (fst (?x ''OpenAI'')) = 200 \<and> (case snd (fst (?x ''OpenAI'')) of
        ReportAnswer res \<Rightarrow> rr_Until res > 6 \<and> rr_Slot res = ''b'' | _ \<Rightarrow> False)"
    "fst (fst (?x ''openai'')) = 200 \<and> (case snd (fst (?x ''openai'')) of
        ReportAnswer res \<Rightarrow> rr_Until res > 6 \<and> rr_Slot res = ''b'' | _ \<Rightarrow> False)"
    "fmlookup (p_slots demo_measured) ''b'' = Some 0" "eligible demo_measured no_policy ''OpenAI'' 6 0"
    "isSafeOpaqueToken ''OpenAI''" "isSafeOpaqueToken ''openai''" "to_lower ''openai'' = ''openai''"
    "to_lower ''OpenAI'' \<noteq> ''OpenAI''"
    by code_simp+
  obtain r1 where "?x ''OpenAI'' = ((200, ReportAnswer r1), snd (?x ''OpenAI''))" "rr_Until r1 > 6" "rr_Slot r1 = ''b''"
    using f(1) by (cases "?x ''OpenAI''") (auto split: prod.splits ctl_answer.splits if_splits)
  then have 1: "eligible (snd (?x ''OpenAI'')) no_policy ''OpenAI'' 6 0"
    using feedback_reaches [of "demo_report_body ''OpenAI''" 5 demo_measured r1 "snd (?x ''OpenAI'')" 0] f
    by (simp add: demo_report_body_def)
  obtain r2 where "?x ''openai'' = ((200, ReportAnswer r2), snd (?x ''openai''))" "rr_Until r2 > 6" "rr_Slot r2 = ''b''"
    using f(2) by (cases "?x ''openai''") (auto split: prod.splits ctl_answer.splits if_splits)
  then show ?thesis
    using 1 feedback_reaches [of "demo_report_body ''openai''" 5 demo_measured r2 "snd (?x ''openai'')" 0] f
    by (simp add: demo_report_body_def)
qed

end
