(* ===== verification/Serve.thy ===== *)
theory Serve
  imports Config Catalog Refresh Georoute
begin

text \<open>
  How \<open>serve\<close> and \<open>probe\<close> assemble the slots and the entry tunnels of the pool: \<open>cmd/global-egress/serve.go\<close>,
  \<open>entries.go\<close>, and the parts of \<open>catalog_cmds.go\<close> and \<open>relay_refresh.go\<close> that compute. A bundle is its list of
  slots. Go's map from regions to slots is a function, and its keys are a sorted list.
\<close>

section \<open>Entries\<close>

datatype serve_error =
    NotInCatalog string | NoUsableNames | NoEntriesConfigured | ServeRelayList list_error | ServeNoRelays
  | ExternalProvider string pool_error | NoUsableProviders | BadProbeMode

fun region_name :: "region \<Rightarrow> string" where
  "region_name Unknown = []"
| "region_name EastAsia = ''east-asia''"
| "region_name SouthAsia = ''south-asia''"
| "region_name Oceania = ''oceania''"
| "region_name Europe = ''europe''"
| "region_name MiddleEast = ''middle-east''"
| "region_name Africa = ''africa''"
| "region_name NorthAmerica = ''north-america''"
| "region_name SouthAmerica = ''south-america''"

text \<open>The slots of a region, the lowest name first.\<close>

definition region_slots :: "wg_slot list \<Rightarrow> region \<Rightarrow> wg_slot list" where
  "region_slots slots r = sort_key c_ID (filter (\<lambda>s. RegionOf (c_Country s) = r) slots)"

text \<open>The regions that have slots, the largest first, by name among equals.\<close>

definition regions_of :: "wg_slot list \<Rightarrow> region list" where
  "regions_of slots =
     sort_key (\<lambda>r. - int (length (region_slots slots r)))
       (sort_key region_name (remdups (map (\<lambda>s. RegionOf (c_Country s)) slots)))"

text \<open>One round over the regions: the result, whether it has grown, and whether it is complete.\<close>

fun auto_round :: "nat \<Rightarrow> nat \<Rightarrow> 'a list list \<Rightarrow> 'a list \<Rightarrow> bool \<Rightarrow> 'a list \<times> bool \<times> bool" where
  "auto_round cnt k [] out progressed = (out, progressed, False)"
| "auto_round cnt k (g # gs) out progressed =
     (if length g \<le> k then auto_round cnt k gs out progressed
      else if Suc (length out) = cnt then (out @ [g ! k], True, True)
      else auto_round cnt k gs (out @ [g ! k]) True)"

lemma auto_round_grows:
  "auto_round cnt k gs out b = (out', b', d) \<Longrightarrow>
     length out \<le> length out' \<and> (b' \<longrightarrow> b \<or> length out < length out')"
  by (induction cnt k gs out b rule: auto_round.induct) (fastforce split: if_splits)+

function auto_loop :: "nat \<Rightarrow> nat \<Rightarrow> 'a list list \<Rightarrow> 'a list \<Rightarrow> 'a list" where
  "auto_loop cnt k gs out =
     (if cnt \<le> length out then out
      else
        case auto_round cnt k gs out False of
          (out', progressed, complete) \<Rightarrow>
            if complete \<or> \<not> progressed then out' else auto_loop cnt (Suc k) gs out')"
  by pat_completeness auto
termination
  by (relation "measure (\<lambda>(cnt, k, gs, out). cnt - length out)") (auto dest!: auto_round_grows [OF sym])

declare auto_loop.simps [simp del]

definition autoEntries :: "wg_slot list \<Rightarrow> int \<Rightarrow> wg_slot list" where
  "autoEntries slots cnt = auto_loop (nat cnt) 0 (map (region_slots slots) (regions_of slots)) []"

text \<open>The slot stored last under a name.\<close>

definition by_id :: "wg_slot list \<Rightarrow> string \<Rightarrow> wg_slot option" where
  "by_id slots = map_of (rev (map (\<lambda>s. (c_ID s, s)) slots))"

fun named_entries :: "wg_slot list \<Rightarrow> string list \<Rightarrow> string list \<Rightarrow> serve_error + wg_slot list" where
  "named_entries slots seen [] = Inr []"
| "named_entries slots seen (raw # names) =
     (let name = trim_space raw
      in if name = [] then named_entries slots seen names
         else
           case by_id slots name of
             None \<Rightarrow> Inl (NotInCatalog name)
           | Some s \<Rightarrow>
               if name \<in> set seen then named_entries slots seen names
               else
                 (case named_entries slots (name # seen) names of
                    Inl e \<Rightarrow> Inl e
                  | Inr ss \<Rightarrow> Inr (s # ss)))"

definition resolveEntries :: "wg_slot list \<Rightarrow> string list \<Rightarrow> int \<Rightarrow> serve_error + wg_slot list" where
  "resolveEntries slots names auto =
     (if names \<noteq> [] then
        (case named_entries slots [] names of
           Inl e \<Rightarrow> Inl e
         | Inr ss \<Rightarrow> if ss = [] then Inl NoUsableNames else Inr ss)
      else if auto \<le> 0 then Inl NoEntriesConfigured
      else Inr (autoEntries slots auto))"

section \<open>Slots\<close>

text \<open>\<open>%03d\<close>\<close>

definition pad3 :: "int \<Rightarrow> string" where
  "pad3 n = (let ds = itoa n in replicate (3 - length ds) CHR ''0'' @ ds)"

definition direct_options_of :: "provider \<Rightarrow> int \<Rightarrow> int \<Rightarrow> direct_options" where
  "direct_options_of p cnt i =
     \<lparr>d_ID = (if cnt > 1 then pv_id p @ ''-session-'' @ pad3 (i + 1) else pv_id p),
      d_Provider = pv_id p, d_Country = pv_country p, d_City = pv_city p,
      d_Session = (if cnt > 1 then ''ge'' @ pad3 (i + 1) else []),
      d_Rotating = (cnt = 1 \<and> pv_sessions p = 0),
      d_URL = map_option (\<lambda>u. (u_User u, u_Host u)) (pv_proxyURL p)\<rparr>"

fun direct_loop :: "provider \<Rightarrow> int \<Rightarrow> int list \<Rightarrow> serve_error + spec list" where
  "direct_loop p cnt [] = Inr []"
| "direct_loop p cnt (i # is) =
     (case NewDirectSocksSpec (direct_options_of p cnt i) of
        Inl e \<Rightarrow> Inl (ExternalProvider (pv_id p) e)
      | Inr sp \<Rightarrow> (case direct_loop p cnt is of Inl e \<Rightarrow> Inl e | Inr sps \<Rightarrow> Inr (sp # sps)))"

definition directSocksSpecs :: "provider \<Rightarrow> serve_error + spec list" where
  "directSocksSpecs p =
     (let cnt = (if pv_sessions p \<le> 0 then 1 else pv_sessions p) in direct_loop p cnt [0..cnt - 1])"

fun direct_all :: "provider list \<Rightarrow> serve_error + spec list" where
  "direct_all [] = Inr []"
| "direct_all (p # ps) =
     (if pv_type p \<noteq> ProviderSOCKS5 \<or> \<not> pv_enabled p then direct_all ps
      else
        case directSocksSpecs p of
          Inl e \<Rightarrow> Inl e
        | Inr direct \<Rightarrow> (case direct_all ps of Inl e \<Rightarrow> Inl e | Inr sps \<Rightarrow> Inr (direct @ sps)))"

text \<open>Loading the relay list, from its cache or the network, with the cache it leaves behind.\<close>

type_synonym relay_loader =
  "string \<Rightarrow> duration \<Rightarrow> relay cache_files \<Rightarrow> (list_error + (relay list \<times> time) \<times> bool) \<times> relay cache_files"

fun build_loop ::
  "relay_loader \<Rightarrow> config \<Rightarrow> provider list \<Rightarrow> spec list \<Rightarrow> bool \<Rightarrow> relay cache_files
     \<Rightarrow> (serve_error + spec list \<times> bool) \<times> relay cache_files" where
  "build_loop load cfg [] specs enabled fs = (Inr (specs, enabled), fs)"
| "build_loop load cfg (p # ps) specs enabled fs =
     (if pv_type p = ProviderMullvad \<and> pv_enabled p then
        (case load (RelayCachePath cfg) (rc_Refresh (cf_Relays cfg)) fs of
           (Inl e, fs) \<Rightarrow> (Inl (ServeRelayList e), fs)
         | (Inr ((rs, t), fetched), fs) \<Rightarrow>
             if Usable_relays rs = [] then (Inl ServeNoRelays, fs)
             else build_loop load cfg ps (specs @ SpecsFromExits (exitsFromRelays (Usable_relays rs))) True fs)
      else if pv_type p = ProviderSOCKS5 \<and> pv_enabled p then
        (case directSocksSpecs p of
           Inl e \<Rightarrow> (Inl e, fs)
         | Inr direct \<Rightarrow> build_loop load cfg ps (specs @ direct) enabled fs)
      else build_loop load cfg ps specs enabled fs)"

definition buildSlots ::
  "relay_loader \<Rightarrow> config \<Rightarrow> wg_slot list \<Rightarrow> relay cache_files
     \<Rightarrow> (serve_error + spec list \<times> wg_slot list) \<times> relay cache_files" where
  "buildSlots load cfg bundle fs =
     (if cf_Mode cfg = ModeWireGuard then
        (case direct_all (cf_providers cfg) of
           Inl e \<Rightarrow> (Inl e, fs)
         | Inr direct \<Rightarrow>
             if SpecsFromBundle bundle @ direct = [] then (Inl NoUsableProviders, fs)
             else (Inr (SpecsFromBundle bundle @ direct, []), fs))
      else
        case build_loop load cfg (cf_providers cfg) [] False fs of
          (Inl e, fs) \<Rightarrow> (Inl e, fs)
        | (Inr (specs, enabled), fs) \<Rightarrow>
            (case (if enabled then resolveEntries bundle (ec_Slots (cf_Entries cfg)) (ec_Auto (cf_Entries cfg))
                   else Inr []) of
               Inl e \<Rightarrow> (Inl e, fs)
             | Inr entries \<Rightarrow>
                 if specs = [] then (Inl NoUsableProviders, fs) else (Inr (specs, entries), fs)))"

definition mullvadConfigured :: "config \<Rightarrow> bool" where
  "mullvadConfigured cfg = list_ex (\<lambda>p. pv_enabled p \<and> pv_type p = ProviderMullvad) (cf_providers cfg)"

definition direct_slots :: "spec list \<Rightarrow> string list" where
  "direct_slots specs = map sp_ID (filter (\<lambda>sp. sp_Kind sp = KindDirectSocks) specs)"

text \<open>The ticks of the refresh: each with what the network, the cache and Go's map iteration do.\<close>

fun maintainRelaySlots ::
  "string \<Rightarrow> ((list_error + relay list option) \<times> bool \<times> time \<times> string list) list \<Rightarrow> pool \<times> relay cache_files
     \<Rightarrow> pool \<times> relay cache_files" where
  "maintainRelaySlots cachePath [] s = s"
| "maintainRelaySlots cachePath ((fetch, writable, now, ord) # ticks) (p, fs) =
     maintainRelaySlots cachePath ticks (snd (refreshRelaySlots fetch writable now cachePath ord p fs))"

section \<open>Probing\<close>

definition probeSlots ::
  "relay_loader \<Rightarrow> string \<Rightarrow> wg_slot list \<Rightarrow> string \<Rightarrow> string \<Rightarrow> relay cache_files
     \<Rightarrow> (serve_error + spec list \<times> wg_slot list) \<times> relay cache_files" where
  "probeSlots load mode bundle entryNames relayCache fs =
     (if mode = ''wireguard'' then (Inr (SpecsFromBundle bundle, []), fs)
      else if mode \<noteq> ''relay-socks'' then (Inl BadProbeMode, fs)
      else
        case load relayCache (24 * hour) fs of
          (Inl e, fs) \<Rightarrow> (Inl (ServeRelayList e), fs)
        | (Inr ((rs, t), fetched), fs) \<Rightarrow>
            (case resolveEntries bundle
                    (if trim_space entryNames \<noteq> [] then split_on CHR '','' entryNames else []) 2 of
               Inl e \<Rightarrow> (Inl e, fs)
             | Inr entries \<Rightarrow> (Inr (SpecsFromExits (exitsFromRelays (Usable_relays rs)), entries), fs)))"

text \<open>The file is read when it is named; \<open>None\<close> when that fails.\<close>

definition collectSlotIDs :: "string \<Rightarrow> string option option \<Rightarrow> string list option" where
  "collectSlotIDs inline file =
     (case (case file of
              None \<Rightarrow> Some inline
            | Some None \<Rightarrow> None
            | Some (Some blob) \<Rightarrow> Some ((if inline \<noteq> [] then inline @ '','' else inline) @ blob)) of
        None \<Rightarrow> None
      | Some raw \<Rightarrow>
          if trim_space raw = [] then Some []
          else
            Some (filter (\<lambda>f. f \<noteq> [])
              (map trim_space (fields_func (\<lambda>c. c \<in> {CHR '','', CHR 0x0A, CHR 0x0D, CHR '' '', CHR 0x09}) raw))))"

definition firstLine :: "string \<Rightarrow> string" where
  "firstLine v =
     (let v = takeWhile (\<lambda>c. c \<noteq> CHR 0x0A) v in if length v > 90 then take 90 v @ ''...'' else v)"

section \<open>Automatic entries are a round robin\<close>

definition column :: "nat \<Rightarrow> 'a list list \<Rightarrow> 'a list" where
  "column k gs = map (\<lambda>g. g ! k) (filter (\<lambda>g. k < length g) gs)"

lemma column_simps [simp]:
  "column k [] = []" "column k (g # gs) = (if k < length g then g ! k # column k gs else column k gs)"
  by (simp_all add: column_def)

lemma auto_round_column:
  "length out < cnt \<Longrightarrow> auto_round cnt k gs out b =
     (if length out + length (column k gs) < cnt then (out @ column k gs, b \<or> column k gs \<noteq> [], False)
      else (take cnt (out @ column k gs), True, True))"
  by (induction cnt k gs out b rule: auto_round.induct) (auto simp: not_less_eq_eq)

lemma column_Nil: "column k gs = [] \<longleftrightarrow> foldr (\<lambda>g. max (length g)) gs 0 \<le> k"
  by (induction gs) auto

lemma auto_loop_columns:
  "length out \<le> cnt \<Longrightarrow> auto_loop cnt k gs out =
     take cnt (out @ concat (map (\<lambda>j. column j gs) [k..<foldr (\<lambda>g. max (length g)) gs 0]))"
proof (induction cnt k gs out rule: auto_loop.induct)
  case (1 cnt k gs out)
  let ?m = "foldr (\<lambda>g. max (length g)) gs 0"
  show ?case
  proof (cases "cnt \<le> length out")
    case True
    then show ?thesis using 1(2) by (subst auto_loop.simps) simp
  next
    case False
    note r = auto_round_column [of out cnt k gs False]
    show ?thesis
    proof (cases "column k gs = []")
      case True
      then show ?thesis
        using False r column_Nil [of k gs] by (simp add: auto_loop.simps [of cnt k gs out])
    next
      case ne: False
      then have k: "k < ?m" using column_Nil [of k gs] by simp
      have cat: "concat (map (\<lambda>j. column j gs) [k..<?m]) = column k gs @ concat (map (\<lambda>j. column j gs) [Suc k..<?m])"
        using k by (simp add: upt_conv_Cons)
      show ?thesis
      proof (cases "length out + length (column k gs) < cnt")
        case True
        then have "auto_loop cnt (Suc k) gs (out @ column k gs) =
            take cnt ((out @ column k gs) @ concat (map (\<lambda>j. column j gs) [Suc k..<?m]))"
          using False r ne by (intro 1(1)) auto
        then show ?thesis using False r ne True cat by (simp add: auto_loop.simps [of cnt k gs out])
      next
        case full: False
        then show ?thesis using False r ne cat by (simp add: auto_loop.simps [of cnt k gs out])
      qed
    qed
  qed
qed

lemma transpose_columns:
  "transpose gs = map (\<lambda>j. column j gs) [0..<foldr (\<lambda>g. max (length g)) gs 0]"
proof (rule nth_equalityI)
  show "length (transpose gs) = length (map (\<lambda>j. column j gs) [0..<foldr (\<lambda>g. max (length g)) gs 0])"
    by (simp add: length_transpose)
  show "transpose gs ! i = map (\<lambda>j. column j gs) [0..<foldr (\<lambda>g. max (length g)) gs 0] ! i"
    if "i < length (transpose gs)" for i
    using that nth_transpose [OF that] by (simp add: length_transpose column_def)
qed

lemma autoEntries_transpose:
  "autoEntries slots cnt =
     take (nat cnt) (concat (transpose (map (region_slots slots) (regions_of slots))))"
  by (simp add: autoEntries_def auto_loop_columns transpose_columns)

lemma set_regions: "set (regions_of slots) = (\<lambda>s. RegionOf (c_Country s)) ` set slots"
  by (simp add: regions_of_def)

lemma distinct_regions: "distinct (regions_of slots)"
  by (simp add: regions_of_def)

lemma set_region_slots: "set (region_slots slots r) = {s \<in> set slots. RegionOf (c_Country s) = r}"
  by (simp add: region_slots_def)

lemma region_slots_ne: "r \<in> set (regions_of slots) \<Longrightarrow> region_slots slots r \<noteq> []"
  using set_region_slots [of slots r] by (auto simp: set_regions)

lemma column_heads:
  assumes "\<And>r. r \<in> set rs \<Longrightarrow> f r \<noteq> []"
  shows "column 0 (map f rs) = map (\<lambda>r. hd (f r)) rs"
  using assms by (induction rs) (auto simp: hd_conv_nth)

lemma set_columns: "x \<in> set (column k gs) \<Longrightarrow> \<exists>g\<in>set gs. x \<in> set g"
  by (auto simp: column_def intro!: bexI nth_mem)

lemma autoEntries_first:
  assumes "nat cnt \<le> length (regions_of slots)"
  shows "autoEntries slots cnt = map (\<lambda>r. hd (region_slots slots r)) (take (nat cnt) (regions_of slots))"
proof (cases "regions_of slots")
  case Nil
  then show ?thesis by (simp add: autoEntries_transpose)
next
  case (Cons r rs)
  let ?gs = "map (region_slots slots) (regions_of slots)"
  have c: "column 0 ?gs = map (\<lambda>r. hd (region_slots slots r)) (regions_of slots)"
    by (rule column_heads) (rule region_slots_ne)
  then have "column 0 ?gs \<noteq> []" using Cons by (simp only: list.map) simp
  then have "0 < foldr (\<lambda>g. max (length g)) ?gs 0" unfolding column_Nil by linarith
  then have "concat (transpose ?gs) = column 0 ?gs @ concat (map (\<lambda>j. column j ?gs) [1..<foldr (\<lambda>g. max (length g)) ?gs 0])"
    by (simp add: transpose_columns upt_conv_Cons)
  then show ?thesis using assms c by (simp add: autoEntries_transpose take_map)
qed

lemma auto_entries_sub: "set (autoEntries slots cnt) \<subseteq> set slots"
proof
  fix s assume "s \<in> set (autoEntries slots cnt)"
  then have "s \<in> set (concat (transpose (map (region_slots slots) (regions_of slots))))"
    unfolding autoEntries_transpose by (rule in_set_takeD)
  then obtain j where "s \<in> set (column j (map (region_slots slots) (regions_of slots)))"
    by (auto simp: transpose_columns)
  then show "s \<in> set slots" using set_columns set_region_slots by fastforce
qed

text \<open>
  C13: the nested loops that pick the entries are a round robin over the regions: the first slots of all
  regions, then the second ones, and so on, cut off at the wanted number. So as long as there are regions enough, no two
  entries share a region, and every entry is the slot of its region with the lowest name.
\<close>

theorem auto_entries_spread:
  "autoEntries slots cnt = take (nat cnt) (concat (transpose (map (region_slots slots) (regions_of slots)))) \<and>
   (nat cnt \<le> length (regions_of slots) \<longrightarrow>
      distinct (map (\<lambda>s. RegionOf (c_Country s)) (autoEntries slots cnt)) \<and> length (autoEntries slots cnt) = nat cnt) \<and>
   set (autoEntries slots cnt) \<subseteq> set slots"
proof (intro conjI)
  show "autoEntries slots cnt = take (nat cnt) (concat (transpose (map (region_slots slots) (regions_of slots))))"
    by (rule autoEntries_transpose)
  show "set (autoEntries slots cnt) \<subseteq> set slots" by (rule auto_entries_sub)
  show "nat cnt \<le> length (regions_of slots) \<longrightarrow>
      distinct (map (\<lambda>s. RegionOf (c_Country s)) (autoEntries slots cnt)) \<and> length (autoEntries slots cnt) = nat cnt"
  proof
    assume le: "nat cnt \<le> length (regions_of slots)"
    have "RegionOf (c_Country (hd (region_slots slots r))) = r" if "r \<in> set (regions_of slots)" for r
      using hd_in_set [OF region_slots_ne [OF that]] by (simp add: set_region_slots)
    then have "map (\<lambda>s. RegionOf (c_Country s)) (autoEntries slots cnt) = take (nat cnt) (regions_of slots)"
      by (auto simp: autoEntries_first [OF le] comp_def intro!: map_idI dest: in_set_takeD)
    then show "distinct (map (\<lambda>s. RegionOf (c_Country s)) (autoEntries slots cnt)) \<and>
        length (autoEntries slots cnt) = nat cnt"
      using le distinct_regions [of slots] by (simp add: autoEntries_first [OF le])
  qed
qed

definition demo_entry :: "string \<Rightarrow> string \<Rightarrow> wg_slot" where
  "demo_entry i cc = no_wg\<lparr>c_ID := i, c_Country := cc\<rparr>"

definition demo_bundle :: "wg_slot list" where
  "demo_bundle = [demo_entry ''us-2'' ''us'', demo_entry ''us-1'' ''us'', demo_entry ''jp-1'' ''jp'']"

theorem auto_entries_spread_witness:
  "distinct (map (\<lambda>s. RegionOf (c_Country s)) (autoEntries demo_bundle 2)) \<and> length (autoEntries demo_bundle 2) = 2 \<and>
   map c_ID (autoEntries demo_bundle 3) = [''us-1'', ''jp-1'', ''us-2'']"
proof -
  have "nat 2 \<le> length (regions_of demo_bundle)" by code_simp
  then have "distinct (map (\<lambda>s. RegionOf (c_Country s)) (autoEntries demo_bundle 2)) \<and>
      length (autoEntries demo_bundle 2) = nat 2"
    using auto_entries_spread [of demo_bundle 2] by blast
  moreover have "map c_ID (take (nat 3) (concat (transpose (map (region_slots demo_bundle) (regions_of demo_bundle))))) =
      [''us-1'', ''jp-1'', ''us-2'']"
    by code_simp
  ultimately show ?thesis
    using auto_entries_spread [of demo_bundle 3, THEN conjunct1] by simp
qed

section \<open>What the service builds\<close>

lemma named_entries_sub:
  "named_entries slots seen names = Inr ss \<Longrightarrow> set ss \<subseteq> set slots"
proof (induction slots seen names arbitrary: ss rule: named_entries.induct)
  case (2 slots seen raw names)
  have "s \<in> set slots" if "by_id slots n = Some s" for n s
    using map_of_SomeD [of "rev (map (\<lambda>s. (c_ID s, s)) slots)" n s] that by (auto simp: by_id_def)
  then show ?case using 2 by (auto simp: Let_def split: if_splits option.splits sum.splits) blast+
qed simp

lemma autoEntries_ne:
  assumes "slots \<noteq> []" and "0 < cnt"
  shows "autoEntries slots cnt \<noteq> []"
proof -
  obtain r rs where r: "regions_of slots = r # rs"
    using set_regions [of slots] assms(1) by (cases "regions_of slots") auto
  have "concat (transpose (map (region_slots slots) (regions_of slots))) \<noteq> []"
  proof
    assume n: "concat (transpose (map (region_slots slots) (regions_of slots))) = []"
    have c: "column 0 (map (region_slots slots) (regions_of slots)) \<noteq> []"
      using column_heads [of "regions_of slots" "region_slots slots"] region_slots_ne r by fastforce
    then have "0 < foldr (\<lambda>g. max (length g)) (map (region_slots slots) (regions_of slots)) 0"
      unfolding column_Nil by linarith
    then have "column 0 (map (region_slots slots) (regions_of slots)) \<in>
        set (transpose (map (region_slots slots) (regions_of slots)))"
      unfolding transpose_columns by (auto simp del: list.map)
    then show False using n c by (metis concat_eq_Nil_conv)
  qed
  then show ?thesis using assms(2) by (simp add: autoEntries_transpose)
qed

lemma resolveEntries_ne:
  "resolveEntries slots names auto = Inr ss \<Longrightarrow> slots \<noteq> [] \<Longrightarrow> ss \<noteq> []"
  using autoEntries_ne by (auto simp: resolveEntries_def split: if_splits sum.splits)

lemma direct_kind: "NewDirectSocksSpec d = Inr sp \<Longrightarrow> sp_Kind sp = KindDirectSocks"
  by (auto simp: NewDirectSocksSpec_def split: option.splits prod.splits if_splits)

lemma direct_loop_kind: "direct_loop p cnt is = Inr sps \<Longrightarrow> sp \<in> set sps \<Longrightarrow> sp_Kind sp = KindDirectSocks"
  by (induction "is" arbitrary: sps) (auto split: sum.splits dest: direct_kind)

lemma directSocks_kind: "directSocksSpecs p = Inr sps \<Longrightarrow> sp \<in> set sps \<Longrightarrow> sp_Kind sp = KindDirectSocks"
  by (auto simp: directSocksSpecs_def Let_def dest: direct_loop_kind)

lemma direct_all_kind: "direct_all ps = Inr sps \<Longrightarrow> sp \<in> set sps \<Longrightarrow> sp_Kind sp = KindDirectSocks"
  by (induction ps arbitrary: sps) (auto split: if_splits sum.splits dest: directSocks_kind)

lemma exits_kind: "sp \<in> set (SpecsFromExits (exitsFromRelays rs)) \<Longrightarrow> sp_Kind sp = KindRelaySocks"
  by (auto simp: SpecsFromExits_def exitsFromRelays_def)

definition relay_kinds :: "spec list \<Rightarrow> bool" where
  "relay_kinds specs = list_ex (\<lambda>sp. sp_Kind sp = KindRelaySocks) specs"

lemma build_loop_kinds:
  "build_loop load cfg ps specs enabled fs = (Inr (specs', enabled'), fs') \<Longrightarrow>
     list_all (\<lambda>sp. sp_Kind sp \<noteq> KindWireGuard) specs \<Longrightarrow> enabled = relay_kinds specs \<Longrightarrow>
     list_all (\<lambda>sp. sp_Kind sp \<noteq> KindWireGuard) specs' \<and> enabled' = relay_kinds specs' \<and>
     enabled' = (enabled \<or> list_ex (\<lambda>p. pv_type p = ProviderMullvad \<and> pv_enabled p) ps)"
proof (induction load cfg ps specs enabled fs rule: build_loop.induct)
  case (2 load cfg p ps specs enabled fs)
  have relays: "list_all (\<lambda>sp. sp_Kind sp \<noteq> KindWireGuard) (SpecsFromExits (exitsFromRelays rs)) \<and>
      relay_kinds (specs @ SpecsFromExits (exitsFromRelays rs))" if "rs \<noteq> []" for rs
    using that by (cases rs) (auto simp: relay_kinds_def list_all_iff SpecsFromExits_def exitsFromRelays_def)
  have direct_d: "list_all (\<lambda>sp. sp_Kind sp \<noteq> KindWireGuard) sps \<and> relay_kinds (specs @ sps) = relay_kinds specs"
    if "directSocksSpecs p = Inr sps" for sps
    using directSocks_kind [OF that] by (auto simp: relay_kinds_def list_all_iff list_ex_iff)
  have pv: "ProviderSOCKS5 \<noteq> ProviderMullvad" by (simp add: ProviderSOCKS5_def ProviderMullvad_def)
  consider (mullvad) "pv_type p = ProviderMullvad" "pv_enabled p"
    | (socks) "pv_type p = ProviderSOCKS5" "pv_enabled p"
    | (other) "\<not> (pv_type p = ProviderMullvad \<and> pv_enabled p)" "\<not> (pv_type p = ProviderSOCKS5 \<and> pv_enabled p)"
    by blast
  then show ?case
  proof cases
    case mullvad
    obtain rs t fetched fs1 where l: "load (RelayCachePath cfg) (rc_Refresh (cf_Relays cfg)) fs = (Inr ((rs, t), fetched), fs1)"
      and ne: "Usable_relays rs \<noteq> []"
      and b: "build_loop load cfg ps (specs @ SpecsFromExits (exitsFromRelays (Usable_relays rs))) True fs1 =
        (Inr (specs', enabled'), fs')"
      using 2(4) mullvad by (auto split: prod.splits sum.splits if_splits)
    have "list_all (\<lambda>sp. sp_Kind sp \<noteq> KindWireGuard) specs' \<and> enabled' = relay_kinds specs' \<and>
        enabled' = (True \<or> list_ex (\<lambda>p. pv_type p = ProviderMullvad \<and> pv_enabled p) ps)"
      using 2(1) [OF _ l [symmetric] refl refl refl ne b] mullvad relays [OF ne] 2(5) by auto
    then show ?thesis using mullvad by auto
  next
    case socks
    obtain direct where d: "directSocksSpecs p = Inr direct"
      and b: "build_loop load cfg ps (specs @ direct) enabled fs = (Inr (specs', enabled'), fs')"
      using 2(4) socks pv by (auto split: sum.splits)
    show ?thesis using 2(2) [OF _ _ d b] socks pv direct_d [OF d] 2(5,6) by auto
  next
    case other
    have b: "build_loop load cfg ps specs enabled fs = (Inr (specs', enabled'), fs')"
      using 2(4) by (simp only: build_loop.simps if_not_P [OF other(1)] if_not_P [OF other(2)])
    show ?thesis using 2(3) [OF other b 2(5,6)] other by auto
  qed
qed simp

lemma add_specs_distinct:
  "add_specs sps p = Inr q \<Longrightarrow>
     distinct (map sp_ID sps) \<and> (\<forall>sp\<in>set sps. sp_ID sp |\<notin>| fmdom (p_slots p))"
proof (induction sps arbitrary: p)
  case (Cons sp sps)
  show ?case using Cons.prems Cons.IH [of "(alloc_slot sp p)\<lparr>p_slots := fmupd (sp_ID sp) (p_nextRef p) (p_slots p),
      p_order := p_order p @ [sp_ID sp]\<rparr>"] by (auto simp: alloc_slot_def split: if_splits)
qed simp

lemma NewWithSpecs_iff:
  assumes "specs \<noteq> []" and "relay_kinds specs \<longrightarrow> entries \<noteq> []"
  shows "(\<exists>p. NewWithSpecs specs entries opts = Inr p) \<longleftrightarrow> distinct (map sp_ID specs)"
proof -
  let ?p = "empty_pool (applyDefaults opts) entries"
  have "(\<exists>q. add_specs specs ?p = Inr q) \<longleftrightarrow> distinct (map sp_ID specs)"
    using add_specs_total [of specs ?p] add_specs_distinct [of specs ?p] by (auto simp: empty_pool_def)
  then show ?thesis
    using assms by (auto simp: NewWithSpecs_def relay_kinds_def split: sum.splits)
qed

text \<open>
  What the configuration is built into fits together. In WireGuard mode the slots are the tunnels of the catalogue and
  the external proxies, without entries; in relay mode there is no slot with a tunnel of its own, and there
  are relay slots exactly when the Mullvad provider is enabled. The entries come from the catalogue, and they are there
  whenever relay slots need them. So over a catalogue that is not empty the only thing that keeps the pool
  from being built is a name two slots share.
\<close>

theorem slots_fit:
  assumes "buildSlots load cfg bundle fs = (Inr (specs, entries), fs')" and "bundle \<noteq> []"
  shows "specs \<noteq> [] \<and> set entries \<subseteq> set bundle \<and>
     (if cf_Mode cfg = ModeWireGuard
      then entries = [] \<and> list_all (\<lambda>sp. sp_Kind sp \<noteq> KindRelaySocks) specs
      else list_all (\<lambda>sp. sp_Kind sp \<noteq> KindWireGuard) specs \<and>
        list_ex (\<lambda>sp. sp_Kind sp = KindRelaySocks) specs = mullvadConfigured cfg \<and>
        (entries \<noteq> []) = mullvadConfigured cfg) \<and>
     ((\<exists>p. NewWithSpecs specs entries opts = Inr p) \<longleftrightarrow> distinct (map sp_ID specs))"
proof (cases "cf_Mode cfg = ModeWireGuard")
  case True
  then obtain direct where d: "direct_all (cf_providers cfg) = Inr direct" "specs = SpecsFromBundle bundle @ direct"
    "entries = []" "specs \<noteq> []"
    using assms(1) by (auto simp: buildSlots_def split: sum.splits if_splits)
  have k: "list_all (\<lambda>sp. sp_Kind sp \<noteq> KindRelaySocks) specs"
    using direct_all_kind [OF d(1)] by (auto simp: d(2) SpecsFromBundle_def list_all_iff)
  then have "\<not> relay_kinds specs" by (auto simp: relay_kinds_def list_all_iff list_ex_iff)
  then show ?thesis using True d k NewWithSpecs_iff [of specs entries opts] by simp
next
  case False
  then obtain enabled fs1 where b: "build_loop load cfg (cf_providers cfg) [] False fs = (Inr (specs, enabled), fs1)"
    and e: "(if enabled then resolveEntries bundle (ec_Slots (cf_Entries cfg)) (ec_Auto (cf_Entries cfg)) else Inr [])
      = Inr entries" and ne: "specs \<noteq> []"
    using assms(1) by (auto simp: buildSlots_def split: sum.splits if_splits prod.splits)
  have k: "list_all (\<lambda>sp. sp_Kind sp \<noteq> KindWireGuard) specs" "enabled = relay_kinds specs"
    "enabled = mullvadConfigured cfg"
    using build_loop_kinds [OF b] by (auto simp: relay_kinds_def mullvadConfigured_def list_ex_iff)
  have "entries \<noteq> [] \<longleftrightarrow> enabled"
    using e resolveEntries_ne [OF _ assms(2)] by (auto split: if_splits)
  moreover have "set entries \<subseteq> set bundle"
    using e by (auto simp: resolveEntries_def split: if_splits sum.splits
        dest: subsetD [OF named_entries_sub] subsetD [OF auto_entries_sub])
  ultimately show ?thesis
    using False k ne NewWithSpecs_iff [of specs entries opts] by (simp add: relay_kinds_def)
qed

definition demo_loader :: relay_loader where
  "demo_loader path age fs = LoadOrFetch (Inr demo_relay_list) True 7 path age fs"

definition demo_relay_config :: config where
  "demo_relay_config = Default\<lparr>cf_providers := cf_providers Default @
     [no_provider\<lparr>pv_type := ProviderSOCKS5, pv_enabled := True, pv_id := ''ext'', pv_country := ''us'', pv_city := ''us-lax'',
        pv_sessions := 2, pv_proxyURL := Some \<lparr>u_Scheme = ''socks5'', u_User = Some (''u'', Some ''p''),
          u_Host = ''proxy:1080'', u_Path = [], u_RawQuery = [], u_Fragment = []\<rparr>\<rparr>]\<rparr>"

theorem slots_fit_witness:
  "\<exists>specs entries fs' p. buildSlots demo_loader demo_relay_config demo_bundle fmempty = (Inr (specs, entries), fs') \<and>
     map sp_ID specs = [''se-1'', ''se-3'', ''ext-session-001'', ''ext-session-002''] \<and> entries \<noteq> [] \<and>
     NewWithSpecs specs entries demo_opts = Inr p"
proof -
  let ?out = "buildSlots demo_loader demo_relay_config demo_bundle fmempty"
  have f: "is_ok (fst ?out)" "mullvadConfigured demo_relay_config" "cf_Mode demo_relay_config \<noteq> ModeWireGuard"
    "(case fst ?out of Inr (specs, entries) \<Rightarrow> map sp_ID specs | Inl _ \<Rightarrow> []) =
       [''se-1'', ''se-3'', ''ext-session-001'', ''ext-session-002'']" "demo_bundle \<noteq> []"
    by code_simp+
  obtain specs entries fs' where o: "?out = (Inr (specs, entries), fs')"
    using f(1) by (metis is_ok_iff prod.collapse)
  then have i: "map sp_ID specs = [''se-1'', ''se-3'', ''ext-session-001'', ''ext-session-002'']" using f(4) by simp
  then have "distinct (map sp_ID specs)" by simp
  then show ?thesis using slots_fit [OF o f(5), of demo_opts] f(2,3) o i by auto
qed

section \<open>Sessions of an external proxy\<close>

lemma dec_val_zeros: "dec_val (replicate k CHR ''0'' @ ds) = dec_val ds"
proof -
  have "foldl (\<lambda>v c. v * 10 + digit_val c) 0 (replicate k CHR ''0'') = 0"
    by (induction k) (simp_all add: digit_val_def)
  then show ?thesis by (simp add: dec_val_def)
qed

lemma pad3_val: "0 \<le> n \<Longrightarrow> dec_val (pad3 n) = n"
  by (simp add: pad3_def Let_def dec_val_zeros itoa_def)

lemma direct_loop_specs:
  "direct_loop p cnt is = Inr sps \<Longrightarrow>
     list_all2 (\<lambda>i sp. NewDirectSocksSpec (direct_options_of p cnt i) = Inr sp) is sps"
  by (induction "is" arbitrary: sps) (auto split: sum.splits)

lemma direct_spec_fields:
  assumes "NewDirectSocksSpec (direct_options_of p cnt i) = Inr sp"
  shows "\<exists>u. pv_proxyURL p = Some u \<and> sp_ID sp = d_ID (direct_options_of p cnt i) \<and>
     sp_socksUsername sp = (let s = d_Session (direct_options_of p cnt i); n = fst (the (u_User u))
       in if s = [] then n else n @ ''-session-'' @ s) \<and>
     sp_Rotating sp = d_Rotating (direct_options_of p cnt i) \<and> sp_SocksAddr sp = u_Host u"
  using assms
  by (auto simp: NewDirectSocksSpec_def direct_options_of_def split: option.splits prod.splits if_splits)

text \<open>
  An external proxy with several sessions becomes that many slots, each with a name and a user name of its own, so that the proxy
  keeps one address per slot and no two slots share a session; without sessions it is one
  slot that rotates and carries the user name as it is. All of them are behind the same host.
\<close>

theorem direct_sessions:
  assumes "directSocksSpecs p = Inr sps"
  shows "length sps = nat (max 1 (pv_sessions p)) \<and> distinct (map sp_ID sps) \<and> distinct (map sp_socksUsername sps) \<and>
     list_all (\<lambda>sp. sp_Kind sp = KindDirectSocks \<and> (sp_Rotating sp \<longleftrightarrow> pv_sessions p = 0) \<and>
       Some (sp_SocksAddr sp) = map_option u_Host (pv_proxyURL p)) sps"
proof -
  define cnt where "cnt = (if pv_sessions p \<le> 0 then 1 else pv_sessions p)"
  have l: "list_all2 (\<lambda>i sp. NewDirectSocksSpec (direct_options_of p cnt i) = Inr sp) [0..cnt - 1] sps"
    using assms by (simp add: directSocksSpecs_def Let_def direct_loop_specs flip: cnt_def)
  then have len: "length sps = nat cnt" by (auto dest: list_all2_lengthD)
  have nth: "NewDirectSocksSpec (direct_options_of p cnt (int k)) = Inr (sps ! k)" if "k < length sps" for k
    using list_all2_nthD [OF l] that len by simp
  have names: "sp_ID (sps ! k) = pv_id p @ ''-session-'' @ pad3 (int k + 1) \<and>
      sp_socksUsername (sps ! k) = fst (the (u_User (the (pv_proxyURL p)))) @ ''-session-'' @ ''ge'' @ pad3 (int k + 1)"
    if "k < length sps" "cnt > 1" for k
    using direct_spec_fields [OF nth [OF that(1)]] that(2) by (auto simp: direct_options_of_def Let_def)
  have apart: "sp_ID (sps ! j) \<noteq> sp_ID (sps ! k) \<and> sp_socksUsername (sps ! j) \<noteq> sp_socksUsername (sps ! k)"
    if "j < k" "k < length sps" for j k
  proof -
    have cnt: "cnt > 1" using that len by (auto simp: cnt_def split: if_splits)
    have "dec_val (pad3 (int j + 1)) \<noteq> dec_val (pad3 (int k + 1))" using that by (simp add: pad3_val)
    then have "pad3 (int j + 1) \<noteq> pad3 (int k + 1)" by metis
    then show ?thesis using names [of j] names [of k] cnt that by simp
  qed
  have dist: "distinct (map f sps)" if "\<And>j k. j < k \<Longrightarrow> k < length sps \<Longrightarrow> f (sps ! j) \<noteq> f (sps ! k)" for f :: "spec \<Rightarrow> string"
    unfolding distinct_conv_nth using that by (metis length_map linorder_neqE_nat nth_map)
  have "distinct (map sp_ID sps)" "distinct (map sp_socksUsername sps)"
    by (rule dist; use apart in blast)+
  moreover have "sp_Kind sp = KindDirectSocks \<and> (sp_Rotating sp \<longleftrightarrow> pv_sessions p = 0) \<and>
      Some (sp_SocksAddr sp) = map_option u_Host (pv_proxyURL p)" if m: "sp \<in> set sps" for sp
  proof -
    obtain k where k: "k < length sps" "sps ! k = sp" using m unfolding in_set_conv_nth by blast
    note s = nth [OF k(1), unfolded k(2)]
    show ?thesis
      using direct_kind [OF s] direct_spec_fields [OF s] by (auto simp: direct_options_of_def cnt_def)
  qed
  moreover have "length sps = nat (max 1 (pv_sessions p))" by (simp add: len cnt_def)
  ultimately show ?thesis by (simp add: list_all_iff)
qed

theorem direct_sessions_witness:
  "\<exists>sps. directSocksSpecs (last (cf_providers demo_relay_config)) = Inr sps \<and> length sps = 2 \<and>
     distinct (map sp_socksUsername sps)"
proof -
  have "is_ok (directSocksSpecs (last (cf_providers demo_relay_config)))"
    "nat (max 1 (pv_sessions (last (cf_providers demo_relay_config)))) = 2"
    by code_simp+
  then show ?thesis unfolding is_ok_iff using direct_sessions by metis
qed

end
