(* ===== verification/Exposition.thy ===== *)
theory Exposition
  imports Control
begin

text \<open>
  \<open>internal/control/metrics.go\<close>: the metrics snapshot as a page of the Prometheus text format. A number
  of type \<open>float64\<close> is printed by the argument \<open>fl\<close>, \<open>strconv.FormatFloat\<close> in the shortest form, which the bounds of the
  buckets are printed with as well (\<open>internal/pool/metrics_snapshot.go\<close>); counters are printed in decimal.
  The theorem is about a reader of this format, written after its description.
\<close>

section \<open>The page\<close>

text \<open>\<open>strings.ReplaceAll\<close> of one byte by a text.\<close>

definition subst_char :: "char \<Rightarrow> string \<Rightarrow> string \<Rightarrow> string" where
  "subst_char c r s = concat (map (\<lambda>x. if x = c then r else [x]) s)"

abbreviation (input) backslash :: char where "backslash \<equiv> CHR 0x5C"
abbreviation (input) newline :: char where "newline \<equiv> CHR 0x0A"
abbreviation (input) dquote :: char where "dquote \<equiv> CHR 0x22"

definition metric_label :: "string \<Rightarrow> string" where
  "metric_label v =
     (let v1 = subst_char backslash [backslash, backslash] v;
          v2 = subst_char newline [backslash, CHR ''n''] v1;
          v3 = subst_char dquote [backslash, dquote] v2
      in [dquote] @ v3 @ [dquote])"

definition uint_text :: "64 word \<Rightarrow> string" where
  "uint_text n = show_nat (uint n)"

text \<open>The bound of a bucket; the last one has none.\<close>

definition bound_text :: "(rat \<Rightarrow> string) \<Rightarrow> rat option \<Rightarrow> string" where
  "bound_text fl b = (case b of None \<Rightarrow> ''+Inf'' | Some x \<Rightarrow> fl x)"

definition writeMetricHeader :: "string \<Rightarrow> string \<Rightarrow> string \<Rightarrow> string" where
  "writeMetricHeader name typ help =
     ''# HELP '' @ name @ '' '' @ help @ [newline] @ ''# TYPE '' @ name @ '' '' @ typ @ [newline]"

text \<open>The labels of a sample as the format strings spell them, \<open>key=\<close> before each value.\<close>

definition label_pairs :: "(string \<times> string) list \<Rightarrow> string" where
  "label_pairs ls = join '','' (map (\<lambda>(k, v). k @ ''='' @ metric_label v) ls)"

definition sample_line :: "string \<Rightarrow> (string \<times> string) list \<Rightarrow> string \<Rightarrow> string" where
  "sample_line name ls v = name @ ''{'' @ label_pairs ls @ ''} '' @ v @ [newline]"

definition plain_line :: "string \<Rightarrow> string \<Rightarrow> string" where
  "plain_line name v = name @ '' '' @ v @ [newline]"

definition histogram_lines ::
  "(rat \<Rightarrow> string) \<Rightarrow> string \<Rightarrow> rat list \<Rightarrow> (string \<times> string) list \<Rightarrow> histogramMetric \<Rightarrow> string" where
  "histogram_lines fl name bounds ls h =
     concat (map (\<lambda>(b, n). sample_line (name @ ''_bucket'') (ls @ [(''le'', bound_text fl b)]) (uint_text n))
               (snapshotBuckets bounds h)) @
     sample_line (name @ ''_sum'') ls (fl (h_sum h)) @
     sample_line (name @ ''_count'') ls (uint_text (h_count h))"

definition writeCountryMetrics :: "string \<Rightarrow> (string \<times> 64 word) list \<Rightarrow> string" where
  "writeCountryMetrics name ms = concat (map (\<lambda>(c, n). sample_line name [(''country'', c)] (uint_text n)) ms)"

definition request_labels :: "string \<Rightarrow> string \<times> string \<times> string \<Rightarrow> (string \<times> string) list" where
  "request_labels k key = (case key of (r, c, e) \<Rightarrow> [(k, r), (''country'', c), (''entry'', e)])"

definition tunnel_labels :: "string \<times> string \<Rightarrow> (string \<times> string) list" where
  "tunnel_labels key = (case key of (role, r) \<Rightarrow> [(''role'', role), (''result'', r)])"

text \<open>The two halves of the page: what clients asked for, and what became of it.\<close>

definition writeRequestMetrics :: "(rat \<Rightarrow> string) \<Rightarrow> metricsSnapshot \<Rightarrow> string" where
  "writeRequestMetrics fl sn =
     writeMetricHeader ''global_egress_request_results_total'' ''counter''
       ''Completed proxy requests by result, selected country, and entry.'' @
     concat (map (\<lambda>(k, n). sample_line ''global_egress_request_results_total'' (request_labels ''result'' k) (uint_text n))
               (sn_Requests sn)) @
     writeMetricHeader ''global_egress_request_duration_seconds'' ''histogram''
       ''Request setup duration until upstream readiness.'' @
     concat (map (\<lambda>(k, h). histogram_lines fl ''global_egress_request_duration_seconds'' requestDurationBuckets
                             (request_labels ''result'' k) h)
               (sn_RequestDurations sn)) @
     writeMetricHeader ''global_egress_request_timeouts_total'' ''counter''
       ''Timed-out proxy requests by phase, selected country, and entry.'' @
     concat (map (\<lambda>(k, n). sample_line ''global_egress_request_timeouts_total'' (request_labels ''phase'' k) (uint_text n))
               (sn_RequestTimeouts sn))"

definition writePoolMetrics :: "metricsSnapshot \<Rightarrow> string" where
  "writePoolMetrics sn =
     writeMetricHeader ''global_egress_entry_state'' ''gauge'' ''Entry tunnels currently in each rotation state.'' @
     concat (map (\<lambda>(s, n). sample_line ''global_egress_entry_state'' [(''state'', s)] (show_nat (int n)))
               (sn_EntryStates sn)) @
     writeMetricHeader ''global_egress_unique_batches'' ''gauge'' ''Unique-IP batches currently live.'' @
     plain_line ''global_egress_unique_batches'' (show_nat (int (sn_UniqueBatches sn))) @
     writeMetricHeader ''global_egress_batch_burned_exits'' ''gauge''
       ''Exit addresses already consumed by the largest live unique-IP batch.'' @
     plain_line ''global_egress_batch_burned_exits'' (show_nat (int (sn_BatchBurnedExits sn))) @
     writeMetricHeader ''global_egress_batch_selectable_exits'' ''gauge''
       ''Measured exit addresses still selectable by that batch before it exhausts.'' @
     plain_line ''global_egress_batch_selectable_exits'' (show_nat (int (sn_BatchSelectableExits sn))) @
     writeMetricHeader ''global_egress_entry_failures_total'' ''counter'' ''Entry tunnel failures by reason.'' @
     concat (map (\<lambda>(r, n). sample_line ''global_egress_entry_failures_total'' [(''reason'', r)] (uint_text n))
               (sn_EntryFailures sn)) @
     writeMetricHeader ''global_egress_requested_country_total'' ''counter'' ''Proxy requests by requested country policy.'' @
     writeCountryMetrics ''global_egress_requested_country_total'' (sn_RequestedCountries sn) @
     writeMetricHeader ''global_egress_selected_country_total'' ''counter'' ''Proxy requests by selected exit country.'' @
     writeCountryMetrics ''global_egress_selected_country_total'' (sn_SelectedCountries sn)"

definition writeTunnelMetrics :: "(rat \<Rightarrow> string) \<Rightarrow> metricsSnapshot \<Rightarrow> string" where
  "writeTunnelMetrics fl sn =
     writeMetricHeader ''global_egress_country_fallback_total'' ''counter''
       ''Requests whose selected exit country differed from the requested country.'' @
     concat (map (\<lambda>((r, s), n). sample_line ''global_egress_country_fallback_total''
                                  [(''requested'', r), (''selected'', s)] (uint_text n))
               (sn_CountryFallbacks sn)) @
     writeMetricHeader ''global_egress_payload_bytes_total'' ''counter''
       ''Relayed payload bytes by direction, selected country, and entry.'' @
     concat (map (\<lambda>((c, e), sent, received).
                   sample_line ''global_egress_payload_bytes_total''
                     [(''direction'', ''sent''), (''country'', c), (''entry'', e)] (uint_text sent) @
                   sample_line ''global_egress_payload_bytes_total''
                     [(''direction'', ''received''), (''country'', c), (''entry'', e)] (uint_text received))
               (sn_Payloads sn)) @
     writeMetricHeader ''global_egress_tunnel_opens_total'' ''counter''
       ''WireGuard tunnel open attempts by role and result.'' @
     concat (map (\<lambda>(k, n). sample_line ''global_egress_tunnel_opens_total'' (tunnel_labels k) (uint_text n))
               (sn_TunnelOpens sn)) @
     writeMetricHeader ''global_egress_tunnel_open_duration_seconds'' ''histogram''
       ''WireGuard tunnel setup and handshake duration.'' @
     concat (map (\<lambda>(k, h). histogram_lines fl ''global_egress_tunnel_open_duration_seconds'' tunnelDurationBuckets
                             (tunnel_labels k) h)
               (sn_TunnelDurations sn))"

definition writeMetrics :: "(rat \<Rightarrow> string) \<Rightarrow> metricsSnapshot \<Rightarrow> string" where
  "writeMetrics fl sn = writeRequestMetrics fl sn @ writePoolMetrics sn @ writeTunnelMetrics fl sn"

text \<open>The handler: the type of the content, and the page for the snapshot of this moment.\<close>

definition handleMetrics :: "(rat \<Rightarrow> string) \<Rightarrow> time \<Rightarrow> pool \<Rightarrow> string \<times> string" where
  "handleMetrics fl now p =
     (''text/plain; version=0.0.4; charset=utf-8'', writeMetrics fl (Metrics_snapshot now p))"

section \<open>A reader of the format\<close>

text \<open>
  A sample is a name, its labels and the text of its value. Blank lines and comments are skipped; in a quoted
  value a backslash takes the next byte, with \<open>n\<close> for the end of a line.
\<close>

type_synonym sample = "string \<times> (string \<times> string) list \<times> string"

fun read_quoted :: "string \<Rightarrow> (string \<times> string) option" where
  "read_quoted [] = None"
| "read_quoted (c # s) =
     (if c = dquote then Some ([], s)
      else if c = backslash then
        (case s of
           [] \<Rightarrow> None
         | d # t \<Rightarrow> map_option (apfst (Cons (if d = CHR ''n'' then newline else d))) (read_quoted t))
      else map_option (apfst (Cons c)) (read_quoted s))"

lemma read_quoted_shorter: "read_quoted s = Some (v, r) \<Longrightarrow> length r < length s"
proof (induction s arbitrary: v rule: read_quoted.induct)
  case (2 c s)
  then show ?case by (cases s) (fastforce split: if_splits simp del: read_quoted.simps(1))+
qed simp

function read_labels :: "string \<Rightarrow> ((string \<times> string) list \<times> string) option" where
  "read_labels s =
     (case cut CHR ''='' s of
        None \<Rightarrow> None
      | Some (k, r) \<Rightarrow>
          (case r of
             [] \<Rightarrow> None
           | q # r1 \<Rightarrow>
               if q \<noteq> dquote then None
               else (case read_quoted r1 of
                       None \<Rightarrow> None
                     | Some (v, r2) \<Rightarrow>
                         (case r2 of
                            [] \<Rightarrow> None
                          | c # r3 \<Rightarrow>
                              if c = CHR ''}'' then Some ([(k, v)], r3)
                              else if c = CHR '','' then map_option (apfst (Cons (k, v))) (read_labels r3)
                              else None))))"
  by pat_completeness auto
termination
  by (relation "measure length") (auto dest!: cut_Some read_quoted_shorter)

declare read_labels.simps [simp del]

definition is_token :: "string \<Rightarrow> bool" where
  "is_token v \<longleftrightarrow> v \<noteq> [] \<and> list_all (\<lambda>c. \<not> is_space c) v"

definition read_sample :: "string \<Rightarrow> sample option" where
  "read_sample l =
     (let name = takeWhile (\<lambda>c. c \<noteq> CHR ''{'' \<and> c \<noteq> CHR '' '') l
      in case drop (length name) l of
           [] \<Rightarrow> None
         | c # r \<Rightarrow>
             (case (if c = CHR ''{'' then read_labels r else Some ([], CHR '' '' # r)) of
                Some (ls, sp # v) \<Rightarrow> if sp = CHR '' '' \<and> is_token v then Some (name, ls, v) else None
              | _ \<Rightarrow> None))"

fun read_lines :: "string list \<Rightarrow> sample list option" where
  "read_lines [] = Some []"
| "read_lines (l # ls) =
     (if l = [] \<or> hd l = CHR ''#'' then read_lines ls
      else (case read_sample l of
              None \<Rightarrow> None
            | Some s \<Rightarrow> map_option (Cons s) (read_lines ls)))"

definition read_page :: "string \<Rightarrow> sample list option" where
  "read_page s = read_lines (split_on newline s)"

section \<open>The samples of a snapshot\<close>

definition histogram_samples ::
  "(rat \<Rightarrow> string) \<Rightarrow> string \<Rightarrow> rat list \<Rightarrow> (string \<times> string) list \<Rightarrow> histogramMetric \<Rightarrow> sample list" where
  "histogram_samples fl name bounds ls h =
     map (\<lambda>(b, n). (name @ ''_bucket'', ls @ [(''le'', bound_text fl b)], uint_text n)) (snapshotBuckets bounds h) @
     [(name @ ''_sum'', ls, fl (h_sum h)), (name @ ''_count'', ls, uint_text (h_count h))]"

definition request_samples :: "(rat \<Rightarrow> string) \<Rightarrow> metricsSnapshot \<Rightarrow> sample list" where
  "request_samples fl sn =
     map (\<lambda>(k, n). (''global_egress_request_results_total'', request_labels ''result'' k, uint_text n)) (sn_Requests sn) @
     concat (map (\<lambda>(k, h). histogram_samples fl ''global_egress_request_duration_seconds'' requestDurationBuckets
                             (request_labels ''result'' k) h) (sn_RequestDurations sn)) @
     map (\<lambda>(k, n). (''global_egress_request_timeouts_total'', request_labels ''phase'' k, uint_text n))
       (sn_RequestTimeouts sn)"

definition pool_samples :: "metricsSnapshot \<Rightarrow> sample list" where
  "pool_samples sn =
     map (\<lambda>(s, n). (''global_egress_entry_state'', [(''state'', s)], show_nat (int n))) (sn_EntryStates sn) @
     [(''global_egress_unique_batches'', [], show_nat (int (sn_UniqueBatches sn))),
      (''global_egress_batch_burned_exits'', [], show_nat (int (sn_BatchBurnedExits sn))),
      (''global_egress_batch_selectable_exits'', [], show_nat (int (sn_BatchSelectableExits sn)))] @
     map (\<lambda>(r, n). (''global_egress_entry_failures_total'', [(''reason'', r)], uint_text n)) (sn_EntryFailures sn) @
     map (\<lambda>(c, n). (''global_egress_requested_country_total'', [(''country'', c)], uint_text n)) (sn_RequestedCountries sn) @
     map (\<lambda>(c, n). (''global_egress_selected_country_total'', [(''country'', c)], uint_text n)) (sn_SelectedCountries sn)"

definition tunnel_samples :: "(rat \<Rightarrow> string) \<Rightarrow> metricsSnapshot \<Rightarrow> sample list" where
  "tunnel_samples fl sn =
     map (\<lambda>((r, s), n). (''global_egress_country_fallback_total'', [(''requested'', r), (''selected'', s)], uint_text n))
       (sn_CountryFallbacks sn) @
     concat (map (\<lambda>((c, e), sent, received).
         [(''global_egress_payload_bytes_total'', [(''direction'', ''sent''), (''country'', c), (''entry'', e)], uint_text sent),
          (''global_egress_payload_bytes_total'', [(''direction'', ''received''), (''country'', c), (''entry'', e)],
           uint_text received)])
       (sn_Payloads sn)) @
     map (\<lambda>(k, n). (''global_egress_tunnel_opens_total'', tunnel_labels k, uint_text n)) (sn_TunnelOpens sn) @
     concat (map (\<lambda>(k, h). histogram_samples fl ''global_egress_tunnel_open_duration_seconds'' tunnelDurationBuckets
                             (tunnel_labels k) h) (sn_TunnelDurations sn))"

section \<open>Reading back\<close>

text \<open>What is read from a labelled value, whatever bytes it has.\<close>

definition escaped :: "string \<Rightarrow> string" where
  "escaped v =
     concat (map (\<lambda>c. if c = backslash then [backslash, backslash]
                      else if c = newline then [backslash, CHR ''n'']
                      else if c = dquote then [backslash, dquote] else [c]) v)"

lemma metric_label_escaped: "metric_label v = dquote # escaped v @ [dquote]"
proof -
  have "subst_char dquote [backslash, dquote]
      (subst_char newline [backslash, CHR ''n''] (subst_char backslash [backslash, backslash] v)) = escaped v"
    by (induction v) (auto simp: subst_char_def escaped_def)
  then show ?thesis by (simp add: metric_label_def)
qed

lemma read_quoted_escaped: "read_quoted (escaped v @ dquote # rest) = Some (v, rest)"
  by (induction v) (auto simp: escaped_def)

lemma escaped_one_line: "newline \<notin> set (escaped v)"
  by (auto simp: escaped_def)

definition key_ok :: "string \<Rightarrow> bool" where
  "key_ok k \<longleftrightarrow> CHR ''='' \<notin> set k \<and> newline \<notin> set k"

lemma label_pairs_Cons:
  "label_pairs ((k, v) # ls) =
     k @ CHR ''='' # metric_label v @ (if ls = [] then [] else CHR '','' # label_pairs ls)"
  by (cases ls) (simp_all add: label_pairs_def)

lemma read_label_pairs:
  "ls \<noteq> [] \<Longrightarrow> list_all (\<lambda>(k, _). key_ok k) ls \<Longrightarrow>
     read_labels (label_pairs ls @ CHR ''}'' # rest) = Some (ls, rest)"
proof (induction ls)
  case (Cons kv ls)
  obtain k v where kv: "kv = (k, v)" by fastforce
  have k: "CHR ''='' \<notin> set k" using Cons.prems by (simp add: kv key_ok_def)
  show ?case
    using Cons unfolding kv label_pairs_Cons
    by (subst read_labels.simps)
      (simp add: cut_append [OF k] metric_label_escaped read_quoted_escaped)
qed simp

lemma label_pairs_one_line:
  "list_all (\<lambda>(k, _). key_ok k) ls \<Longrightarrow> newline \<notin> set (label_pairs ls)"
proof (induction ls)
  case (Cons kv ls)
  then show ?case
    by (cases kv) (auto simp: label_pairs_Cons metric_label_escaped escaped_one_line key_ok_def)
qed (simp add: label_pairs_def)

text \<open>A part of the page that the reader takes for these samples, whatever follows it.\<close>

definition reads :: "string \<Rightarrow> sample list \<Rightarrow> bool" where
  "reads t ss \<longleftrightarrow> (\<forall>rest. read_page (t @ rest) = map_option (\<lambda>r. ss @ r) (read_page rest))"

lemma reads_Nil: "reads [] []"
  by (simp add: reads_def option.map_ident)

lemma reads_append: "reads t ss \<Longrightarrow> reads t' ss' \<Longrightarrow> reads (t @ t') (ss @ ss')"
  by (simp add: reads_def option.map_comp comp_def)

lemma reads_concat:
  assumes "\<And>x. x \<in> set xs \<Longrightarrow> reads (f x) (g x)"
  shows "reads (concat (map f xs)) (concat (map g xs))"
  using assms by (induction xs) (auto intro: reads_append reads_Nil)

lemma reads_map:
  assumes "\<And>x. x \<in> set xs \<Longrightarrow> reads (f x) [g x]"
  shows "reads (concat (map f xs)) (map g xs)"
  using reads_concat [of xs f "\<lambda>x. [g x]"] assms by simp

lemma reads_all: "reads t ss \<Longrightarrow> read_page t = Some ss"
  unfolding reads_def read_page_def by (drule spec [of _ "[]"]) simp

lemma reads_line:
  assumes "newline \<notin> set l" and "l \<noteq> []" and "hd l \<noteq> CHR ''#''" and "read_sample l = Some s"
  shows "reads (l @ [newline]) [s]"
  using assms by (simp add: reads_def read_page_def split_on_append cong: option.map_cong)

lemma reads_comment:
  assumes "newline \<notin> set l"
  shows "reads (CHR ''#'' # l @ [newline]) []"
proof -
  have "split_on newline ((CHR ''#'' # l) @ newline # rest) = (CHR ''#'' # l) # split_on newline rest" for rest
    by (rule split_on_append) (use assms in simp)
  then have "read_page ((CHR ''#'' # l @ [newline]) @ rest) = read_page rest" for rest
    unfolding read_page_def append_Cons append_assoc append_Nil
    by (simp only: read_lines.simps list.sel simp_thms if_True)
  then show ?thesis by (simp add: reads_def option.map_ident)
qed

definition name_ok :: "string \<Rightarrow> bool" where
  "name_ok n \<longleftrightarrow> n \<noteq> [] \<and> hd n \<noteq> CHR ''#'' \<and> list_all (\<lambda>c. c \<noteq> CHR ''{'' \<and> c \<noteq> CHR '' '' \<and> c \<noteq> newline) n"

lemma name_run:
  assumes "name_ok n" and "c = CHR ''{'' \<or> c = CHR '' ''"
  shows "takeWhile (\<lambda>c. c \<noteq> CHR ''{'' \<and> c \<noteq> CHR '' '') (n @ c # r) = n"
proof -
  have "takeWhile (\<lambda>c. c \<noteq> CHR ''{'' \<and> c \<noteq> CHR '' '') (n @ c # r) =
      n @ takeWhile (\<lambda>c. c \<noteq> CHR ''{'' \<and> c \<noteq> CHR '' '') (c # r)"
    by (rule takeWhile_append2) (use assms(1) in \<open>auto simp: name_ok_def list_all_iff\<close>)
  then show ?thesis using assms(2) by auto
qed

lemma space_newline: "is_space newline"
  by code_simp

lemma token_one_line: "is_token v \<Longrightarrow> newline \<notin> set v"
  using space_newline by (metis is_token_def list_all_iff)

lemma name_one_line: "name_ok n \<Longrightarrow> newline \<notin> set n"
  by (auto simp: name_ok_def list_all_iff)

lemma reads_sample:
  assumes "name_ok n" and "ls \<noteq> []" and "list_all (\<lambda>(k, _). key_ok k) ls" and "is_token v"
  shows "reads (sample_line n ls v) [(n, ls, v)]"
proof -
  let ?l = "n @ CHR ''{'' # label_pairs ls @ CHR ''}'' # CHR '' '' # v"
  have "reads (?l @ [newline]) [(n, ls, v)]"
  proof (rule reads_line)
    show "newline \<notin> set ?l"
      using label_pairs_one_line [OF assms(3)] name_one_line [OF assms(1)] token_one_line [OF assms(4)] by simp
    show "?l \<noteq> []" by simp
    show "hd ?l \<noteq> CHR ''#''" using assms(1) by (simp add: name_ok_def)
    show "read_sample ?l = Some (n, ls, v)"
      unfolding read_sample_def Let_def name_run [OF assms(1) disjI1 [OF refl]]
      by (simp add: read_label_pairs [OF assms(2,3)] assms(4))
  qed
  then show ?thesis by (simp add: sample_line_def)
qed

lemma reads_plain:
  assumes "name_ok n" and "is_token v"
  shows "reads (plain_line n v) [(n, [], v)]"
proof -
  let ?l = "n @ CHR '' '' # v"
  have "reads (?l @ [newline]) [(n, [], v)]"
  proof (rule reads_line)
    show "newline \<notin> set ?l" using name_one_line [OF assms(1)] token_one_line [OF assms(2)] by simp
    show "?l \<noteq> []" by simp
    show "hd ?l \<noteq> CHR ''#''" using assms(1) by (simp add: name_ok_def)
    show "read_sample ?l = Some (n, [], v)"
      unfolding read_sample_def Let_def name_run [OF assms(1) disjI2 [OF refl]] by (simp add: assms(2))
  qed
  then show ?thesis by (simp add: plain_line_def)
qed

lemma reads_header:
  assumes "newline \<notin> set name" and "newline \<notin> set typ" and "newline \<notin> set help"
  shows "reads (writeMetricHeader name typ help) []"
proof -
  have "reads (CHR ''#'' # ('' HELP '' @ name @ '' '' @ help) @ [newline]) []"
    "reads (CHR ''#'' # ('' TYPE '' @ name @ '' '' @ typ) @ [newline]) []"
    by (rule reads_comment, use assms in simp)+
  then have "reads ((CHR ''#'' # ('' HELP '' @ name @ '' '' @ help) @ [newline]) @
      CHR ''#'' # ('' TYPE '' @ name @ '' '' @ typ) @ [newline]) ([] @ [])"
    by (rule reads_append)
  then show ?thesis by (simp add: writeMetricHeader_def)
qed

lemma digit_not_space: "is_digit c \<Longrightarrow> \<not> is_space c"
  by (auto simp: is_digit_def is_space_def less_eq_char_def)

lemma show_nat_token: "0 \<le> n \<Longrightarrow> is_token (show_nat n)"
  using digits_show_nat [of n] digit_not_space by (auto simp: is_token_def list_all_iff)

lemma uint_token: "is_token (uint_text n)"
  by (simp add: uint_text_def show_nat_token)

lemma bound_token: "(\<And>x. is_token (fl x)) \<Longrightarrow> is_token (fl x) \<and> is_token (bound_text fl b)"
  by (cases b) (simp_all add: bound_text_def is_token_def is_space_def)

lemma request_labels_ok:
  "key_ok k \<Longrightarrow> request_labels k key \<noteq> [] \<and> list_all (\<lambda>(k, _). key_ok k) (request_labels k key)"
  by (cases key) (simp add: request_labels_def key_ok_def)

lemma tunnel_labels_ok:
  "tunnel_labels key \<noteq> [] \<and> list_all (\<lambda>(k, _). key_ok k) (tunnel_labels key)"
  by (cases key) (simp add: tunnel_labels_def key_ok_def)

lemma reads_histogram:
  assumes "name_ok n" and "ls \<noteq> [] \<and> list_all (\<lambda>(k, _). key_ok k) ls" and "\<And>x. is_token (fl x)"
  shows "reads (histogram_lines fl n bounds ls h) (histogram_samples fl n bounds ls h)"
proof -
  have n: "name_ok (n @ ''_bucket'')" "name_ok (n @ ''_sum'')" "name_ok (n @ ''_count'')"
    using assms(1) by (auto simp: name_ok_def)
  have le: "key_ok ''le''" by (simp add: key_ok_def)
  show ?thesis
    unfolding histogram_lines_def histogram_samples_def
    using assms(2) le uint_token assms(3)
    by (auto intro!: reads_append [where ss' = "[_, _]"] reads_append [where ss = "[_]" and ss' = "[_]", simplified]
        reads_map reads_sample n)
qed

lemma reads_group:
  "newline \<notin> set name \<Longrightarrow> newline \<notin> set typ \<Longrightarrow> newline \<notin> set help \<Longrightarrow> reads t ss \<Longrightarrow>
     reads t' ss' \<Longrightarrow> reads (writeMetricHeader name typ help @ t @ t') (ss @ ss')"
  using reads_append [OF reads_header reads_append] by fastforce

lemma reads_last_group:
  "newline \<notin> set name \<Longrightarrow> newline \<notin> set typ \<Longrightarrow> newline \<notin> set help \<Longrightarrow> reads t ss \<Longrightarrow>
     reads (writeMetricHeader name typ help @ t) ss"
  using reads_append [OF reads_header] by fastforce

text \<open>The names and keys of the program are plain words.\<close>

lemma words_ok:
  "list_all name_ok
     [''global_egress_request_results_total'', ''global_egress_request_duration_seconds'',
      ''global_egress_request_timeouts_total'', ''global_egress_entry_state'', ''global_egress_unique_batches'',
      ''global_egress_batch_burned_exits'', ''global_egress_batch_selectable_exits'',
      ''global_egress_entry_failures_total'', ''global_egress_requested_country_total'',
      ''global_egress_selected_country_total'', ''global_egress_country_fallback_total'',
      ''global_egress_payload_bytes_total'', ''global_egress_tunnel_opens_total'',
      ''global_egress_tunnel_open_duration_seconds'']"
  "list_all key_ok [''result'', ''phase'', ''country'', ''entry'', ''state'', ''reason'', ''requested'', ''selected'',
      ''direction'']"
  by code_simp+

lemmas words = words_ok [simplified]

text \<open>A family of samples with one label, and one with the labels of a key.\<close>

lemma reads_family:
  assumes "name_ok n" and "\<And>k. ls k \<noteq> [] \<and> list_all (\<lambda>(k, _). key_ok k) (ls k)"
    and "\<And>v. is_token (f v)"
  shows "reads (concat (map (\<lambda>(k, v). sample_line n (ls k) (f v)) xs)) (map (\<lambda>(k, v). (n, ls k, f v)) xs)"
  by (rule reads_map) (use assms in \<open>auto intro!: reads_sample\<close>)

lemma reads_histograms:
  assumes "name_ok n" and "\<And>k. ls k \<noteq> [] \<and> list_all (\<lambda>(k, _). key_ok k) (ls k)" and "\<And>x. is_token (fl x)"
  shows "reads (concat (map (\<lambda>(k, h). histogram_lines fl n bounds (ls k) h) xs))
     (concat (map (\<lambda>(k, h). histogram_samples fl n bounds (ls k) h) xs))"
  by (rule reads_concat) (use assms in \<open>auto intro!: reads_histogram\<close>)

lemma reads_requests:
  assumes "\<And>x. is_token (fl x)"
  shows "reads (writeRequestMetrics fl sn) (request_samples fl sn)"
  unfolding writeRequestMetrics_def request_samples_def
  by (intro reads_group reads_last_group reads_family reads_histograms request_labels_ok uint_token assms)
    (simp_all add: words)

lemma reads_tunnels:
  assumes "\<And>x. is_token (fl x)"
  shows "reads (writeTunnelMetrics fl sn) (tunnel_samples fl sn)"
proof -
  have fallbacks: "reads (concat (map (\<lambda>((r, s), n). sample_line ''global_egress_country_fallback_total''
        [(''requested'', r), (''selected'', s)] (uint_text n)) (sn_CountryFallbacks sn)))
      (map (\<lambda>((r, s), n). (''global_egress_country_fallback_total'', [(''requested'', r), (''selected'', s)], uint_text n))
         (sn_CountryFallbacks sn))"
    by (rule reads_map) (auto intro!: reads_sample simp: words uint_token)
  have payloads: "reads (sample_line ''global_egress_payload_bytes_total''
          [(''direction'', ''sent''), (''country'', c), (''entry'', e)] (uint_text s) @
        sample_line ''global_egress_payload_bytes_total''
          [(''direction'', ''received''), (''country'', c), (''entry'', e)] (uint_text r))
      [(''global_egress_payload_bytes_total'', [(''direction'', ''sent''), (''country'', c), (''entry'', e)], uint_text s),
       (''global_egress_payload_bytes_total'', [(''direction'', ''received''), (''country'', c), (''entry'', e)],
        uint_text r)]" for c e s r
    by (rule reads_append [where ss = "[_]" and ss' = "[_]", simplified]; rule reads_sample)
      (simp_all add: words uint_token)
  show ?thesis
    unfolding writeTunnelMetrics_def tunnel_samples_def
    by (intro reads_group reads_last_group reads_family reads_histograms tunnel_labels_ok uint_token assms
          fallbacks reads_concat)
      (auto simp: words intro!: payloads)
qed

lemma reads_pool: "reads (writePoolMetrics sn) (pool_samples sn)"
proof -
  let ?u = "show_nat (int (sn_UniqueBatches sn))" and ?b = "show_nat (int (sn_BatchBurnedExits sn))"
    and ?s = "show_nat (int (sn_BatchSelectableExits sn))"
  have counts: "pool_samples sn =
      map (\<lambda>(s, n). (''global_egress_entry_state'', [(''state'', s)], show_nat (int n))) (sn_EntryStates sn) @
      [(''global_egress_unique_batches'', [], ?u)] @ [(''global_egress_batch_burned_exits'', [], ?b)] @
      [(''global_egress_batch_selectable_exits'', [], ?s)] @
      map (\<lambda>(r, n). (''global_egress_entry_failures_total'', [(''reason'', r)], uint_text n)) (sn_EntryFailures sn) @
      map (\<lambda>(c, n). (''global_egress_requested_country_total'', [(''country'', c)], uint_text n))
        (sn_RequestedCountries sn) @
      map (\<lambda>(c, n). (''global_egress_selected_country_total'', [(''country'', c)], uint_text n))
        (sn_SelectedCountries sn)"
    by (simp add: pool_samples_def)
  show ?thesis
    unfolding writePoolMetrics_def writeCountryMetrics_def counts
    by (intro reads_group reads_last_group reads_family reads_plain uint_token show_nat_token)
      (simp_all add: words)
qed

text \<open>
  C14: the page of metrics says what the snapshot says, whatever the names in it are. A reader of the exposition format finds
  on it exactly the samples of the snapshot, in order, with their labels byte by byte and their values: no country,
  entry or result, whatever quotes, backslashes and line breaks it has, can add, hide or change a sample.
\<close>

theorem exposition_reads:
  assumes "\<And>x. is_token (fl x)"
  shows "read_page (snd (handleMetrics fl now p)) =
     (let sn = Metrics_snapshot now p in Some (request_samples fl sn @ pool_samples sn @ tunnel_samples fl sn))"
proof -
  have "reads (writeMetrics fl sn) (request_samples fl sn @ pool_samples sn @ tunnel_samples fl sn)" for sn
    unfolding writeMetrics_def by (intro reads_append reads_requests reads_pool reads_tunnels assms)
  then show ?thesis by (simp add: handleMetrics_def Let_def reads_all)
qed

text \<open>A pool that has seen a request from a country with a name that tries to end its line.\<close>

definition demo_float :: "rat \<Rightarrow> string" where
  "demo_float x = itoa \<lfloor>1000 * x\<rfloor> @ ''e-3''"

definition demo_metrics_pool :: pool where
  "demo_metrics_pool =
     ObserveRequest \<lparr>ro_Result = [dquote, CHR ''}'', newline, backslash], ro_RequestedCountry = ''se'', ro_Lease = None,
       ro_Duration = second, ro_TimeoutPhase = []\<rparr> (empty_pool demo_opts [])"

lemma demo_float_token: "is_token (demo_float x)"
proof -
  have "is_token (itoa n)" for n
    using show_nat_token [of n] show_nat_token [of "- n"] by (auto simp: itoa_def is_token_def is_space_def)
  then show ?thesis by (simp add: demo_float_def is_token_def is_space_def)
qed

theorem exposition_reads_witness:
  "read_page (snd (handleMetrics demo_float 7 demo_metrics_pool)) =
     (let sn = Metrics_snapshot 7 demo_metrics_pool
      in Some (request_samples demo_float sn @ pool_samples sn @ tunnel_samples demo_float sn)) \<and>
   (''global_egress_request_results_total'',
     [(''result'', [dquote, CHR ''}'', newline, backslash]), (''country'', ''unknown''), (''entry'', ''none'')], ''1'')
     \<in> set (request_samples demo_float (Metrics_snapshot 7 demo_metrics_pool))"
proof
  show "read_page (snd (handleMetrics demo_float 7 demo_metrics_pool)) =
     (let sn = Metrics_snapshot 7 demo_metrics_pool
      in Some (request_samples demo_float sn @ pool_samples sn @ tunnel_samples demo_float sn))"
    by (rule exposition_reads) (rule demo_float_token)
  show "(''global_egress_request_results_total'',
     [(''result'', [dquote, CHR ''}'', newline, backslash]), (''country'', ''unknown''), (''entry'', ''none'')], ''1'')
     \<in> set (request_samples demo_float (Metrics_snapshot 7 demo_metrics_pool))"
    by code_simp
qed

end
