(* ===== verification/Wireguard.thy ===== *)
theory Wireguard
  imports Http Catalog NordCatalog
begin

text \<open>
  \<open>internal/wgtunnel\<close>: keys, the configuration text a WireGuard device is given, the resolution of the peer's
  endpoint, opening a tunnel and waiting for its handshake. The device and the network stack are third-party code:
  whether a call on them succeeds is an argument, and the calls are recorded in order. The resolver of the host is
  the argument \<open>lookup\<close>. What the device makes of its configuration is a reader of the protocol's \<open>set\<close> operation.
\<close>

section \<open>Keys\<close>

datatype wg_error =
    NotBase64 | KeyLength nat | BadPrivateKey wg_error | BadPeerKey wg_error | BadPresharedKey wg_error
  | InvalidEndpoint | InvalidEndpointPort | ResolveFailed | NoEndpointAddress
  | CreateTUN | ConfigureDevice | DeviceUp | QueryDevice | NoHandshake | UnsupportedNetwork

definition wgKeyLen :: nat where
  "wgKeyLen = 32"

definition decodeBase64Key :: "string \<Rightarrow> wg_error + string" where
  "decodeBase64Key key =
     (case b64_decode key of
        None \<Rightarrow> Inl NotBase64
      | Some raw \<Rightarrow> if length raw \<noteq> wgKeyLen then Inl (KeyLength (length raw)) else Inr raw)"

definition hexDigits :: string where
  "hexDigits = ''0123456789abcdef''"

definition hex_bytes :: "string \<Rightarrow> string" where
  "hex_bytes raw = concat (map (\<lambda>b. [hexDigits ! (of_char b div 16), hexDigits ! (of_char b mod 16)]) raw)"

definition base64ToHex :: "string \<Rightarrow> wg_error + string" where
  "base64ToHex key = (case decodeBase64Key key of Inl e \<Rightarrow> Inl e | Inr raw \<Rightarrow> Inr (hex_bytes raw))"

section \<open>The configuration of a device\<close>

definition DefaultKeepalive :: duration where
  "DefaultKeepalive = 25 * second"

text \<open>\<open>netip.AddrPort.String\<close>.\<close>

definition addr_port_string :: "addr \<times> int \<Rightarrow> string" where
  "addr_port_string ap =
     (case ap of (a, port) \<Rightarrow>
        if is_4 a then addr_string (Some a) @ '':'' @ itoa port
        else ''['' @ addr_string (Some a) @ '']:'' @ itoa port)"

definition uapi_line :: "string \<Rightarrow> string \<Rightarrow> string" where
  "uapi_line k v = k @ ''='' @ v @ [CHR 0x0A]"

definition uapi_allowed :: "wg_slot \<Rightarrow> prefix list" where
  "uapi_allowed s = (if c_AllowedIPs s = [] then [Prefix (V4 0) 0, Prefix (V6 0 []) 0] else c_AllowedIPs s)"

definition buildUAPI :: "wg_slot \<Rightarrow> addr \<times> int \<Rightarrow> wg_error + string" where
  "buildUAPI s ep =
     (case base64ToHex (c_PrivateKey s) of
        Inl e \<Rightarrow> Inl (BadPrivateKey e)
      | Inr privateKey \<Rightarrow>
          (case base64ToHex (c_PeerPublicKey s) of
             Inl e \<Rightarrow> Inl (BadPeerKey e)
           | Inr peerKey \<Rightarrow>
               (let sb = uapi_line ''private_key'' privateKey @ uapi_line ''public_key'' peerKey @
                         uapi_line ''endpoint'' (addr_port_string ep) @
                         uapi_line ''persistent_keepalive_interval'' (itoa (DefaultKeepalive div second));
                    allowed = concat (map (\<lambda>p. uapi_line ''allowed_ip'' (prefix_string p)) (uapi_allowed s))
                in if c_PeerPresharedKey s = [] then Inr (sb @ allowed)
                   else (case base64ToHex (c_PeerPresharedKey s) of
                           Inl e \<Rightarrow> Inl (BadPresharedKey e)
                         | Inr psk \<Rightarrow> Inr (sb @ uapi_line ''preshared_key'' psk @ allowed)))))"

section \<open>The endpoint\<close>

text \<open>The first address that is IPv4 once unmapped, or else the first one.\<close>

definition prefer_v4 :: "addr list \<Rightarrow> addr" where
  "prefer_v4 addrs =
     (case find (\<lambda>a. is_4 (unmap a)) addrs of Some a \<Rightarrow> unmap a | None \<Rightarrow> hd addrs)"

definition resolveEndpoint :: "(string \<Rightarrow> addr list option) \<Rightarrow> string \<Rightarrow> wg_error + addr \<times> int" where
  "resolveEndpoint lookup endpoint =
     (case split_host_port endpoint of
        None \<Rightarrow> Inl InvalidEndpoint
      | Some (host, portStr) \<Rightarrow>
          (case atoi portStr of
             None \<Rightarrow> Inl InvalidEndpointPort
           | Some port \<Rightarrow>
               if port < 1 \<or> port > 65535 then Inl InvalidEndpointPort
               else
                 (case parse_addr host of
                    Some a \<Rightarrow> Inr (a, port)
                  | None \<Rightarrow>
                      (case lookup host of
                         None \<Rightarrow> Inl ResolveFailed
                       | Some addrs \<Rightarrow>
                           if addrs = [] then Inl NoEndpointAddress else Inr (prefer_v4 addrs, port)))))"

section \<open>A tunnel\<close>

text \<open>Which calls on the network stack and the device succeed, and the calls made.\<close>

record device_env =
  de_CreateTUN :: bool
  de_IpcSet :: "string \<Rightarrow> bool"
  de_Up :: bool

datatype device_call = Create "netaddr list" "netaddr list" int | NewDevice | IpcSet string | Up | CloseDevice

record tunnel =
  tn_slot :: wg_slot
  tn_closed :: bool

definition tunnel_mtu :: "wg_slot \<Rightarrow> int" where
  "tunnel_mtu s = (if c_MTU s \<le> 0 then DefaultMTU else c_MTU s)"

definition Open_tunnel ::
  "(string \<Rightarrow> addr list option) \<Rightarrow> device_env \<Rightarrow> wg_slot \<Rightarrow> (wg_error + tunnel) \<times> device_call list" where
  "Open_tunnel lookup env s =
     (case resolveEndpoint lookup (c_Endpoint s) of
        Inl e \<Rightarrow> (Inl e, [])
      | Inr ep \<Rightarrow>
          (let t1 = [Create (c_Addresses s) (c_DNS s) (tunnel_mtu s)]
           in if \<not> de_CreateTUN env then (Inl CreateTUN, t1)
              else
                let t2 = t1 @ [NewDevice]
                in case buildUAPI s ep of
                     Inl e \<Rightarrow> (Inl e, t2 @ [CloseDevice])
                   | Inr uapi \<Rightarrow>
                       (let t3 = t2 @ [IpcSet uapi]
                        in if \<not> de_IpcSet env uapi then (Inl ConfigureDevice, t3 @ [CloseDevice])
                           else if \<not> de_Up env then (Inl DeviceUp, t3 @ [Up, CloseDevice])
                           else (Inr \<lparr>tn_slot = s, tn_closed = False\<rparr>, t3 @ [Up]))))"

text \<open>\<open>Close\<close> closes the device the first time.\<close>

definition Close_tunnel :: "tunnel \<Rightarrow> tunnel \<times> device_call list" where
  "Close_tunnel t = (t\<lparr>tn_closed := True\<rparr>, if tn_closed t then [] else [CloseDevice])"

definition tunnel_DialContext :: "(string \<Rightarrow> string \<Rightarrow> 'e + 'c) \<Rightarrow> string \<Rightarrow> string \<Rightarrow> wg_error + ('e + 'c)" where
  "tunnel_DialContext dial network address =
     (if network \<in> {''tcp'', ''tcp4'', ''tcp6''} then Inr (dial network address) else Inl UnsupportedNetwork)"

section \<open>The handshake\<close>

text \<open>
  \<open>strconv.ParseInt\<close> whose error is ignored: \<open>0\<close> for a text that is no number, the nearest bound for one out of range.
\<close>

definition parse_int_or_zero :: "string \<Rightarrow> int" where
  "parse_int_or_zero s =
     (let neg = (s \<noteq> [] \<and> hd s = CHR ''-'');
          ds = (if s \<noteq> [] \<and> hd s \<in> {CHR ''-'', CHR ''+''} then tl s else s);
          v = (if neg then - dec_val ds else dec_val ds)
      in if ds = [] \<or> \<not> list_all is_digit ds then 0
         else max (- 9223372036854775808) (min 9223372036854775807 v))"

fun handshake_times :: "string list \<Rightarrow> int \<times> int \<Rightarrow> int \<times> int" where
  "handshake_times [] t = t"
| "handshake_times (line # ls) (secs, nanos) =
     (case cut CHR ''='' (trim_space line) of
        None \<Rightarrow> handshake_times ls (secs, nanos)
      | Some (key, v) \<Rightarrow>
          if key = ''last_handshake_time_sec'' then handshake_times ls (parse_int_or_zero v, nanos)
          else if key = ''last_handshake_time_nsec'' then handshake_times ls (secs, parse_int_or_zero v)
          else handshake_times ls (secs, nanos))"

text \<open>\<open>time.Unix\<close>; instants count from Go's zero instant.\<close>

definition time_Unix :: "int \<Rightarrow> int \<Rightarrow> time" where
  "time_Unix secs nanos = (62135596800 + secs) * second + nanos"

definition LastHandshake :: "string option \<Rightarrow> wg_error + time" where
  "LastHandshake dump =
     (case dump of
        None \<Rightarrow> Inl QueryDevice
      | Some s \<Rightarrow>
          (let (secs, nanos) = handshake_times (split_on CHR 0x0A s) (0, 0)
           in if secs = 0 \<and> nanos = 0 then Inr 0 else Inr (time_Unix secs nanos)))"

definition HasHandshake :: "string option \<Rightarrow> wg_error + bool" where
  "HasHandshake dump = (case LastHandshake dump of Inl e \<Rightarrow> Inl e | Inr at \<Rightarrow> Inr (at \<noteq> 0))"

text \<open>
  The loop of \<open>WaitHandshake\<close>, one element per query: what the device answers, and whether the context was done when the
  loop waited for the next tick. \<open>None\<close>: it still waits.
\<close>

fun WaitHandshake :: "(string option \<times> bool) list \<Rightarrow> wg_error option option" where
  "WaitHandshake [] = None"
| "WaitHandshake ((dump, stop) # qs) =
     (case HasHandshake dump of
        Inl e \<Rightarrow> Some (Some e)
      | Inr True \<Rightarrow> Some None
      | Inr False \<Rightarrow> if stop then Some (Some NoHandshake) else WaitHandshake qs)"

section \<open>What the device is told\<close>

text \<open>
  The device: keys are 64 hexadecimal digits, the keepalive is a number of seconds, routes add up.
  A line without \<open>=\<close>, an unknown key or a key of the wrong size is an error.
\<close>

record device_conf =
  dv_private :: string
  dv_peer :: string
  dv_endpoint :: string
  dv_keepalive :: int
  dv_psk :: string
  dv_allowed :: "string list"

definition fresh_device :: device_conf where
  "fresh_device = \<lparr>dv_private = [], dv_peer = [], dv_endpoint = [], dv_keepalive = 0, dv_psk = [], dv_allowed = []\<rparr>"

fun unhex :: "string \<Rightarrow> string option" where
  "unhex [] = Some []"
| "unhex [c] = None"
| "unhex (c # d # s) =
     (case (hex_val c, hex_val d, unhex s) of
        (Some x, Some y, Some r) \<Rightarrow> Some (char_of (nat (x * 16 + y)) # r)
      | _ \<Rightarrow> None)"

definition device_key :: "string \<Rightarrow> string option" where
  "device_key v = (case unhex v of Some raw \<Rightarrow> if length raw = 32 then Some raw else None | None \<Rightarrow> None)"

definition device_set :: "string \<Rightarrow> device_conf \<Rightarrow> device_conf option" where
  "device_set line d =
     (case cut CHR ''='' line of
        None \<Rightarrow> None
      | Some (k, v) \<Rightarrow>
          if k = ''private_key'' then map_option (\<lambda>x. d\<lparr>dv_private := x\<rparr>) (device_key v)
          else if k = ''public_key'' then map_option (\<lambda>x. d\<lparr>dv_peer := x\<rparr>) (device_key v)
          else if k = ''preshared_key'' then map_option (\<lambda>x. d\<lparr>dv_psk := x\<rparr>) (device_key v)
          else if k = ''endpoint'' then Some (d\<lparr>dv_endpoint := v\<rparr>)
          else if k = ''persistent_keepalive_interval'' then map_option (\<lambda>n. d\<lparr>dv_keepalive := n\<rparr>) (atoi v)
          else if k = ''allowed_ip'' then Some (d\<lparr>dv_allowed := dv_allowed d @ [v]\<rparr>)
          else None)"

fun device_lines :: "string list \<Rightarrow> device_conf \<Rightarrow> device_conf option" where
  "device_lines [] d = Some d"
| "device_lines (l # ls) d =
     (if l = [] then Some d else case device_set l d of None \<Rightarrow> None | Some d' \<Rightarrow> device_lines ls d')"

definition device_read :: "string \<Rightarrow> device_conf option" where
  "device_read s = device_lines (split_on CHR 0x0A s) fresh_device"

section \<open>Texts of one line\<close>

definition one_line :: "string \<Rightarrow> bool" where
  "one_line s \<longleftrightarrow> CHR 0x0A \<notin> set s"

lemma one_line_simps [simp]:
  "one_line []" "one_line (c # s) \<longleftrightarrow> c \<noteq> CHR 0x0A \<and> one_line s" "one_line (s @ t) \<longleftrightarrow> one_line s \<and> one_line t"
  by (auto simp: one_line_def)

lemma digits_one_line: "list_all is_digit s \<Longrightarrow> one_line s"
  by (auto simp: one_line_def list_all_iff is_digit_def)

lemma show_nat_one_line [simp]: "0 \<le> n \<Longrightarrow> one_line (show_nat n)"
  using digits_one_line digits_show_nat by blast

lemma itoa_one_line [simp]: "one_line (itoa n)"
  by (simp add: itoa_def)

lemma v4_one_line [simp]: "one_line (v4_string w)"
  by (simp add: v4_string_def Let_def pos_imp_zdiv_nonneg_iff)

lemma hex_char_one_line: "0 \<le> d \<Longrightarrow> d < 16 \<Longrightarrow> hex_char d \<noteq> CHR 0x0A"
proof -
  have "list_all (\<lambda>d. hex_char d \<noteq> CHR 0x0A) [0..15]" by code_simp
  then show "0 \<le> d \<Longrightarrow> d < 16 \<Longrightarrow> hex_char d \<noteq> CHR 0x0A" by (simp add: list_all_iff)
qed

lemma show_hex_one_line: "0 \<le> g \<Longrightarrow> g < 65536 \<Longrightarrow> one_line (show_hex g)"
proof -
  assume g: "0 \<le> g" "g < 65536"
  have "g < 256 \<Longrightarrow> g div 16 < 16" "g < 4096 \<Longrightarrow> g div 256 < 16" "g div 4096 < 16" using g by simp_all
  then show ?thesis using g by (auto simp: show_hex_def hex_char_one_line pos_imp_zdiv_nonneg_iff)
qed

lemma join_one_line: "one_line sep \<Longrightarrow> list_all one_line ws \<Longrightarrow> one_line (join sep ws)"
  by (induction sep ws rule: join.induct) auto

lemma v6_one_line [simp]: "one_line (v6_string w)"
proof -
  have g: "\<forall>g\<in>set (v6_groups w). one_line (show_hex g)"
    by (auto simp: v6_groups_def intro!: show_hex_one_line)
  have "list_all one_line (map show_hex gs)" if "set gs \<subseteq> set (v6_groups w)" for gs
    using g that by (auto simp: list_all_iff)
  then have "one_line (join '':'' (map show_hex gs))" if "set gs \<subseteq> set (v6_groups w)" for gs
    using that by (simp add: join_one_line)
  from this [OF order.refl] this [OF set_take_subset] this [OF set_drop_subset]
  show ?thesis by (simp add: v6_string_def Let_def split_beta)
qed

fun zone_of :: "addr \<Rightarrow> string" where
  "zone_of (V4 _) = []"
| "zone_of (V6 _ z) = z"

lemma addr_one_line [simp]: "one_line (addr_string (Some a)) \<longleftrightarrow> one_line (zone_of a)"
  by (cases a) auto

lemma addr_port_one_line: "one_line (addr_port_string (a, port)) \<longleftrightarrow> one_line (zone_of a)"
  by (simp add: addr_port_string_def)

lemma masked_one_line: "masked p = p \<Longrightarrow> one_line (prefix_string p)"
  by (cases p rule: masked.cases) auto

lemma parse_zone:
  assumes "parse_addr s = Some a" and "one_line s"
  shows "one_line (zone_of a)"
proof -
  have "one_line (zone_of a)" if p: "parse_v6 s = Some a"
  proof (cases "cut CHR ''%'' s")
    case None
    then show ?thesis using p
      by (auto simp: parse_v6_def Let_def split: if_splits option.splits list.splits)
  next
    case (Some q)
    obtain h z where q: "q = (h, z)" by fastforce
    have "one_line z" using assms(2) cut_Some [of "CHR ''%''" s h z] Some q by simp
    moreover have "zone_of a = [] \<or> zone_of a = z" using p Some q
      by (auto simp: parse_v6_def Let_def split: if_splits option.splits list.splits)
    ultimately show ?thesis by auto
  qed
  then show ?thesis using assms(1)
    by (auto simp: parse_addr_def split: list.splits if_splits)
qed

lemma host_one_line:
  assumes "split_host_port hp = Some (host, port)" and "one_line hp"
  shows "one_line host"
proof -
  obtain rp rh where c: "cut CHR '':'' (rev hp) = Some (rp, rh)"
    using assms(1) by (auto simp: split_host_port_def split: option.splits)
  have rev: "set hp = set rp \<union> {CHR '':''} \<union> set rh"
    using arg_cong [OF conjunct1 [OF cut_Some [OF c]], of set] by simp
  show ?thesis
  proof (cases "hp \<noteq> [] \<and> hd hp = CHR ''[''")
    case True
    then obtain inner after where b: "cut CHR '']'' hp = Some (inner, after)"
      and h: "host = tl inner"
      using assms(1) c by (auto simp: split_host_port_def Let_def split: option.splits if_splits)
    have "one_line inner" using cut_Some [OF b] assms(2) by auto
    then show ?thesis unfolding h by (cases inner) auto
  next
    case False
    then have "host = rev rh"
      using assms(1) c by (auto simp: split_host_port_def Let_def split: option.splits if_splits)
    then show ?thesis using rev assms(2) by (auto simp: one_line_def)
  qed
qed

section \<open>The device reads what it is told\<close>

lemma hex_digit_val: "n < 16 \<Longrightarrow> hex_val (hexDigits ! n) = Some (int n) \<and> hexDigits ! n \<noteq> CHR 0x0A"
proof -
  have "list_all (\<lambda>n. hex_val (hexDigits ! n) = Some (int n) \<and> hexDigits ! n \<noteq> CHR 0x0A) [0..<16]" by code_simp
  then show "n < 16 \<Longrightarrow> hex_val (hexDigits ! n) = Some (int n) \<and> hexDigits ! n \<noteq> CHR 0x0A"
    by (simp add: list_all_iff)
qed

lemma unhex_hex_bytes: "unhex (hex_bytes raw) = Some raw \<and> one_line (hex_bytes raw)"
proof (induction raw)
  case (Cons b raw)
  have lt: "(of_char b :: nat) div 16 < 16"
    using char_byte [of b] by (simp add: less_mult_imp_div_less)
  have "nat (int (of_char b div 16) * 16 + int (of_char b mod 16)) = of_char b"
    by (metis div_mult_mod_eq nat_int of_nat_add of_nat_mult of_nat_numeral)
  then show ?case
    using Cons hex_digit_val [OF lt] hex_digit_val [of "of_char b mod 16"] by (simp add: hex_bytes_def)
qed (simp add: hex_bytes_def)

lemma key_reaches:
  assumes "base64ToHex key = Inr h"
  shows "\<exists>raw. b64_decode key = Some raw \<and> length raw = 32 \<and> device_key h = Some raw \<and> one_line h"
  using assms unhex_hex_bytes
  by (auto simp: base64ToHex_def decodeBase64Key_def device_key_def wgKeyLen_def split: sum.splits option.splits if_splits)

definition setting_line :: "string \<times> string \<Rightarrow> string" where
  "setting_line kv = fst kv @ CHR ''='' # snd kv"

lemma uapi_line_setting: "uapi_line k v = setting_line (k, v) @ [CHR 0x0A]"
  by (simp add: uapi_line_def setting_line_def)

lemma device_read_settings:
  assumes "list_all (\<lambda>(k, v). one_line k \<and> one_line v) kvs"
  shows "device_read (concat (map (\<lambda>(k, v). uapi_line k v) kvs)) =
     device_lines (map setting_line kvs @ [[]]) fresh_device"
proof -
  have "concat (map (\<lambda>(k, v). uapi_line k v) kvs) = concat (map (\<lambda>l. l @ [CHR 0x0A]) (map setting_line kvs))"
    by (rule arg_cong [where f = concat]) (auto simp: uapi_line_setting)
  moreover have "list_all (\<lambda>l. CHR 0x0A \<notin> set l) (map setting_line kvs)"
    using assms by (auto simp: list_all_iff setting_line_def one_line_def)
  ultimately show ?thesis unfolding device_read_def by (simp only: split_line_list)
qed

lemma device_lines_setting:
  assumes "CHR ''='' \<notin> set k"
  shows "device_lines (setting_line (k, v) # ls) d =
     (case (if k = ''private_key'' then map_option (\<lambda>x. d\<lparr>dv_private := x\<rparr>) (device_key v)
          else if k = ''public_key'' then map_option (\<lambda>x. d\<lparr>dv_peer := x\<rparr>) (device_key v)
          else if k = ''preshared_key'' then map_option (\<lambda>x. d\<lparr>dv_psk := x\<rparr>) (device_key v)
          else if k = ''endpoint'' then Some (d\<lparr>dv_endpoint := v\<rparr>)
          else if k = ''persistent_keepalive_interval'' then map_option (\<lambda>n. d\<lparr>dv_keepalive := n\<rparr>) (atoi v)
          else if k = ''allowed_ip'' then Some (d\<lparr>dv_allowed := dv_allowed d @ [v]\<rparr>)
          else None) of None \<Rightarrow> None | Some d' \<Rightarrow> device_lines ls d')"
  by (simp add: setting_line_def device_set_def cut_append [OF assms])

lemma device_allowed:
  "device_lines (map (\<lambda>v. setting_line (''allowed_ip'', v)) vs @ [[]]) d = Some (d\<lparr>dv_allowed := dv_allowed d @ vs\<rparr>)"
  by (induction vs arbitrary: d) (simp_all add: device_lines_setting del: device_lines.simps(2), simp)

text \<open>What the device is to know of a slot.\<close>

definition device_told :: "wg_slot \<Rightarrow> addr \<times> int \<Rightarrow> device_conf \<Rightarrow> bool" where
  "device_told s ep d \<longleftrightarrow>
     b64_decode (c_PrivateKey s) = Some (dv_private d) \<and> b64_decode (c_PeerPublicKey s) = Some (dv_peer d) \<and>
     (if c_PeerPresharedKey s = [] then dv_psk d = [] else b64_decode (c_PeerPresharedKey s) = Some (dv_psk d)) \<and>
     dv_endpoint d = addr_port_string ep \<and> dv_keepalive d = 25 \<and> dv_allowed d = map prefix_string (uapi_allowed s)"

lemma keepalive_text: "itoa (DefaultKeepalive div second) = ''25''" "atoi ''25'' = Some 25"
  by code_simp+

lemma uapi_told:
  assumes "buildUAPI s ep = Inr u" and "one_line (zone_of (fst ep))"
    and "list_all (\<lambda>p. masked p = p) (c_AllowedIPs s)"
  shows "\<exists>d. device_read u = Some d \<and> device_told s ep d"
proof -
  obtain h1 h2 where h1: "base64ToHex (c_PrivateKey s) = Inr h1" and h2: "base64ToHex (c_PeerPublicKey s) = Inr h2"
    using assms(1) by (auto simp: buildUAPI_def split: sum.splits)
  from key_reaches [OF h1] key_reaches [OF h2] obtain r1 r2
    where r1: "b64_decode (c_PrivateKey s) = Some r1" "device_key h1 = Some r1" "one_line h1"
      and r2: "b64_decode (c_PeerPublicKey s) = Some r2" "device_key h2 = Some r2" "one_line h2" by blast
  obtain psk where u: "u = concat (map (\<lambda>(k, v). uapi_line k v)
        ([(''private_key'', h1), (''public_key'', h2), (''endpoint'', addr_port_string ep),
          (''persistent_keepalive_interval'', ''25'')] @ map (Pair ''preshared_key'') psk @
         map (\<lambda>p. (''allowed_ip'', prefix_string p)) (uapi_allowed s)))"
    and psk: "if c_PeerPresharedKey s = [] then psk = []
      else \<exists>h r. psk = [h] \<and> b64_decode (c_PeerPresharedKey s) = Some r \<and> device_key h = Some r \<and> one_line h"
  proof (cases "c_PeerPresharedKey s = []")
    case True
    then show ?thesis using that [of "[]"] assms(1) h1 h2
      by (simp add: buildUAPI_def Let_def keepalive_text comp_def)
  next
    case False
    then obtain h where h: "base64ToHex (c_PeerPresharedKey s) = Inr h"
      using assms(1) h1 h2 by (auto simp: buildUAPI_def Let_def split: sum.splits)
    show ?thesis using that [of "[h]"] assms(1) h1 h2 h False key_reaches [OF h]
      by (auto simp add: buildUAPI_def Let_def keepalive_text comp_def)
  qed
  have routes: "list_all (\<lambda>p. one_line (prefix_string p)) (uapi_allowed s)"
    using assms(3) masked_one_line by (auto simp: uapi_allowed_def list_all_iff simp del: prefix_string.simps)
  have "device_read u = device_lines (map setting_line
      ([(''private_key'', h1), (''public_key'', h2), (''endpoint'', addr_port_string ep),
        (''persistent_keepalive_interval'', ''25'')] @ map (Pair ''preshared_key'') psk @
       map (\<lambda>p. (''allowed_ip'', prefix_string p)) (uapi_allowed s)) @ [[]]) fresh_device"
    unfolding u
  proof (rule device_read_settings)
    have "one_line (addr_port_string ep)" using assms(2) addr_port_one_line by (metis prod.collapse)
    then show "list_all (\<lambda>(k, v). one_line k \<and> one_line v)
      ([(''private_key'', h1), (''public_key'', h2), (''endpoint'', addr_port_string ep),
        (''persistent_keepalive_interval'', ''25'')] @ map (Pair ''preshared_key'') psk @
       map (\<lambda>p. (''allowed_ip'', prefix_string p)) (uapi_allowed s))"
      using r1(3) r2(3) routes psk
      by (auto simp: list_all_iff simp del: prefix_string.simps split: if_splits)
  qed
  then show ?thesis
    using r1 r2 psk
    by (auto simp: device_lines_setting keepalive_text device_told_def fresh_device_def comp_def
        device_allowed [where vs = "map prefix_string _", unfolded map_map comp_def]
        simp del: device_lines.simps(2) split: if_splits)
qed

definition live_devices :: "device_call list \<Rightarrow> int" where
  "live_devices cs = int (length (filter (\<lambda>c. c = NewDevice) cs)) - int (length (filter (\<lambda>c. c = CloseDevice) cs))"

lemma endpoint_one_line:
  assumes "resolveEndpoint lookup endpoint = Inr ep" and "one_line endpoint"
    and "\<And>host addrs a. lookup host = Some addrs \<Longrightarrow> a \<in> set addrs \<Longrightarrow> one_line (zone_of a)"
  shows "one_line (zone_of (fst ep))"
proof -
  obtain host p where h: "split_host_port endpoint = Some (host, p)"
    using assms(1) by (auto simp: resolveEndpoint_def split: option.splits)
  have best: "one_line (zone_of (prefer_v4 addrs))" if "lookup host = Some addrs" "addrs \<noteq> []" for addrs
  proof (cases "find (\<lambda>a. is_4 (unmap a)) addrs")
    case None
    then show ?thesis using assms(3) [OF that(1)] that(2) by (simp add: prefer_v4_def)
  next
    case (Some a)
    then have "is_4 (unmap a)" by (auto simp: find_Some_iff)
    then show ?thesis using Some by (cases "unmap a") (simp_all add: prefer_v4_def)
  qed
  show ?thesis using assms(1) h parse_zone [OF _ host_one_line [OF h assms(2)]] best
    by (auto simp: resolveEndpoint_def split: option.splits if_splits)
qed

text \<open>
  C11: a tunnel is opened as its slot says, or not at all. For a slot of a catalogue whose endpoint is one line, and a resolver that puts no
  line break into a zone, the device of an opened tunnel has been given exactly the slot's keys, the resolved endpoint, the
  keepalive and the routes, and there is one device, which the first \<open>Close\<close> and only this one closes; on an error no
  device is left open, and the error is never about the form of the endpoint.
\<close>

theorem tunnel_configured:
  assumes "wf_conf s" and "one_line (c_Endpoint s)"
    and "\<And>host addrs a. lookup host = Some addrs \<Longrightarrow> a \<in> set addrs \<Longrightarrow> one_line (zone_of a)"
    and "Open_tunnel lookup env s = (res, calls)"
  shows "case res of
      Inl e \<Rightarrow> live_devices calls = 0 \<and> e \<noteq> InvalidEndpoint \<and> e \<noteq> InvalidEndpointPort
    | Inr t \<Rightarrow>
        tn_slot t = s \<and> live_devices calls = 1 \<and> live_devices (calls @ snd (Close_tunnel t)) = 0 \<and>
        snd (Close_tunnel (fst (Close_tunnel t))) = [] \<and>
        (\<exists>ep u d. resolveEndpoint lookup (c_Endpoint s) = Inr ep \<and> IpcSet u \<in> set calls \<and>
           device_read u = Some d \<and> device_told s ep d)"
proof (cases "resolveEndpoint lookup (c_Endpoint s)")
  case (Inl e)
  have "splitHostPort (c_Endpoint s) \<noteq> None" using assms(1) by (simp add: wf_conf_def)
  then have "e \<noteq> InvalidEndpoint \<and> e \<noteq> InvalidEndpointPort"
    using Inl by (auto simp: resolveEndpoint_def splitHostPort_def split: option.splits if_splits)
  then show ?thesis using assms(4) Inl by (auto simp: Open_tunnel_def live_devices_def)
next
  case (Inr ep)
  have routes: "list_all (\<lambda>p. masked p = p) (c_AllowedIPs s)" using assms(1) by (simp add: wf_conf_def)
  have told: "\<exists>d. device_read u = Some d \<and> device_told s ep d" if "buildUAPI s ep = Inr u" for u
    by (rule uapi_told [OF that endpoint_one_line [OF Inr assms(2,3)] routes])
  have form: "e \<noteq> InvalidEndpoint \<and> e \<noteq> InvalidEndpointPort" if "buildUAPI s ep = Inl e" for e
    using that by (auto simp: buildUAPI_def Let_def split: sum.splits if_splits)
  show ?thesis
    using assms(4) Inr told form
    by (auto simp: Open_tunnel_def live_devices_def Close_tunnel_def Let_def split: sum.splits if_splits)
qed

text \<open>A slot of a catalogue, a resolver that knows its host under three addresses, and a device that works.\<close>

definition demo_key :: string where
  "demo_key = ''an example of 32 bytes for a key''"

definition demo_conf_slot :: wg_slot where
  "demo_conf_slot =
     no_wg\<lparr>c_ID := ''se-got-wg-001'', c_Country := ''se'', c_City := ''se-got'',
       c_PrivateKey := b64_encode demo_key, c_PeerPublicKey := b64_encode (rev demo_key),
       c_Addresses := [Some (V4 0x0A400001)], c_MTU := 1420, c_Endpoint := ''vpn.example:51820'',
       c_AllowedIPs := [Prefix (V4 0) 0]\<rparr>"

definition demo_lookup :: "string \<Rightarrow> addr list option" where
  "demo_lookup host = (if host = ''vpn.example'' then Some [V6 1 [], V4 0xC6336401, V6 2 []] else None)"

definition demo_env :: device_env where
  "demo_env = \<lparr>de_CreateTUN = True, de_IpcSet = (\<lambda>_. True), de_Up = True\<rparr>"

theorem tunnel_configured_witness:
  "\<exists>t calls u d. Open_tunnel demo_lookup demo_env demo_conf_slot = (Inr t, calls) \<and> live_devices calls = 1 \<and>
     IpcSet u \<in> set calls \<and> device_read u = Some d \<and> device_told demo_conf_slot (V4 0xC6336401, 51820) d"
proof -
  obtain res calls where o: "Open_tunnel demo_lookup demo_env demo_conf_slot = (res, calls)" by fastforce
  have ep: "resolveEndpoint demo_lookup (c_Endpoint demo_conf_slot) = Inr (V4 0xC6336401, 51820)" by code_simp
  have key: "base64ToHex (b64_encode k) = Inr (hex_bytes k)" if "length k = 32" for k
    using that by (simp add: base64ToHex_def decodeBase64Key_def b64_decode_encode wgKeyLen_def)
  have len: "length demo_key = 32" by code_simp
  have "is_ok (buildUAPI demo_conf_slot (V4 0xC6336401, 51820))"
    by (simp add: buildUAPI_def demo_conf_slot_def key len no_wg_def Let_def)
  then obtain t where t: "res = Inr t"
    using o ep by (auto simp: is_ok_iff Open_tunnel_def demo_env_def Let_def)
  have w: "wf_conf demo_conf_slot" by code_simp
  have l: "one_line (c_Endpoint demo_conf_slot)" by code_simp
  have z: "one_line (zone_of a)" if "demo_lookup host = Some addrs" "a \<in> set addrs" for host addrs a
    using that by (auto simp: demo_lookup_def split: if_splits)
  have "case res of
      Inl e \<Rightarrow> live_devices calls = 0 \<and> e \<noteq> InvalidEndpoint \<and> e \<noteq> InvalidEndpointPort
    | Inr t \<Rightarrow>
        tn_slot t = demo_conf_slot \<and> live_devices calls = 1 \<and> live_devices (calls @ snd (Close_tunnel t)) = 0 \<and>
        snd (Close_tunnel (fst (Close_tunnel t))) = [] \<and>
        (\<exists>ep u d. resolveEndpoint demo_lookup (c_Endpoint demo_conf_slot) = Inr ep \<and> IpcSet u \<in> set calls \<and>
           device_read u = Some d \<and> device_told demo_conf_slot ep d)"
    by (rule tunnel_configured [OF w l _ o]) (rule z)
  then obtain u d where "live_devices calls = 1" "IpcSet u \<in> set calls"
    "device_read u = Some d" "device_told demo_conf_slot (V4 0xC6336401, 51820) d"
    unfolding t sum.case ep by blast
  then show ?thesis using o unfolding t by blast
qed

section \<open>Waiting for the handshake\<close>

lemma parse_itoa:
  assumes "0 \<le> n" and "n \<le> 9223372036854775807"
  shows "parse_int_or_zero (itoa n) = n"
  using assms hd_digit [of "show_nat n"] by (simp add: parse_int_or_zero_def itoa_def)

lemma trim_setting:
  assumes "k \<noteq> []" and "\<not> is_space (hd k)" and "0 \<le> n"
  shows "trim_space (k @ CHR ''='' # itoa n) = k @ CHR ''='' # itoa n"
proof -
  have "trim_left s = s" if "s \<noteq> []" "\<not> is_space (hd s)" for s
    using that by (cases s) (auto simp: trim_left_def)
  moreover have "\<not> is_space (last (itoa n))"
    using digits_show_nat [OF assms(3)] assms(3) show_nat_nonempty [of n]
    by (auto simp: itoa_def list_all_iff is_digit_def is_space_def less_eq_char_def dest!: bspec [OF _ last_in_set])
  moreover have "itoa n \<noteq> []" by (simp add: itoa_def)
  ultimately show ?thesis using assms(1,2) by (simp add: trim_space_def hd_rev)
qed

text \<open>
  What a device answers: it fails, or gives its settings line by line, with the time of the last handshake, \<open>0\<close> and \<open>0\<close>
  when there was none.
\<close>

datatype device_answer = Broken | Dump "string list" int int "string list"

definition other_line :: "string \<Rightarrow> bool" where
  "other_line l \<longleftrightarrow> one_line l \<and>
     (case cut CHR ''='' (trim_space l) of
        None \<Rightarrow> True
      | Some (k, _) \<Rightarrow> k \<noteq> ''last_handshake_time_sec'' \<and> k \<noteq> ''last_handshake_time_nsec'')"

fun answer_ok :: "device_answer \<Rightarrow> bool" where
  "answer_ok Broken = True"
| "answer_ok (Dump ls sec nsec ls') =
     (list_all other_line (ls @ ls') \<and> 0 \<le> sec \<and> sec \<le> 9223372036854775807 \<and> 0 \<le> nsec \<and> nsec < second)"

fun answer_text :: "device_answer \<Rightarrow> string option" where
  "answer_text Broken = None"
| "answer_text (Dump ls sec nsec ls') =
     Some (concat (map (\<lambda>l. l @ [CHR 0x0A])
       (ls @ [''last_handshake_time_sec='' @ itoa sec, ''last_handshake_time_nsec='' @ itoa nsec] @ ls')))"

lemma handshake_times_other:
  "list_all other_line ls \<Longrightarrow> handshake_times (ls @ ls') t = handshake_times ls' t"
  by (induction ls arbitrary: t) (auto simp: other_line_def split: option.splits)

lemma handshake_times_last: "handshake_times [[]] t = t"
  by (cases t) (simp add: trim_space_def trim_left_def)

lemma handshake_times_set:
  assumes "0 \<le> n" and "n \<le> 9223372036854775807"
  shows "handshake_times ((''last_handshake_time_sec='' @ itoa n) # ls) (s, m) = handshake_times ls (n, m)"
    and "handshake_times ((''last_handshake_time_nsec='' @ itoa n) # ls) (s, m) = handshake_times ls (s, n)"
  using trim_setting [of "''last_handshake_time_sec''" n] trim_setting [of "''last_handshake_time_nsec''" n] assms
  by (simp_all add: parse_itoa is_space_def)

lemma HasHandshake_answer:
  assumes "answer_ok a"
  shows "HasHandshake (answer_text a) =
     (case a of Broken \<Rightarrow> Inl QueryDevice | Dump ls sec nsec ls' \<Rightarrow> Inr (sec \<noteq> 0 \<or> nsec \<noteq> 0))"
proof (cases a)
  case (Dump ls sec nsec ls')
  let ?ls = "ls @ [''last_handshake_time_sec='' @ itoa sec, ''last_handshake_time_nsec='' @ itoa nsec] @ ls'"
  have "list_all (\<lambda>l. CHR 0x0A \<notin> set l) ?ls"
    using assms Dump by (auto simp: list_all_iff other_line_def simp flip: one_line_def)
  then have "split_on CHR 0x0A (concat (map (\<lambda>l. l @ [CHR 0x0A]) ?ls)) = ?ls @ [[]]" by (rule split_line_list)
  moreover have "handshake_times (?ls @ [[]]) (0, 0) = (sec, nsec)"
  proof -
    have "handshake_times (ls' @ [[]]) t = t" for t
      using handshake_times_other [of ls' "[[]]" t] handshake_times_last assms Dump by simp
    then show ?thesis
      using handshake_times_other [of ls] handshake_times_set assms Dump by simp
  qed
  ultimately show ?thesis using assms
    by (simp add: Dump HasHandshake_def LastHandshake_def time_Unix_def del: append.simps append_assoc)
qed (simp add: HasHandshake_def LastHandshake_def)

fun pending :: "device_answer \<times> bool \<Rightarrow> bool" where
  "pending (Dump _ sec nsec _, stop) \<longleftrightarrow> sec = 0 \<and> nsec = 0 \<and> \<not> stop"
| "pending (Broken, _) \<longleftrightarrow> False"

text \<open>
  C28: waiting for a handshake ends with the first query that settles it. While the device reports no handshake and the context is
  not done it goes on; the first answer of another kind decides: a broken device and a context that is done are errors, a
  handshake is success, even when the context is done at the same time. So a wait whose context is done at some time
  always returns.
\<close>

theorem handshake_wait:
  assumes "list_all (answer_ok \<circ> fst) qs"
  shows "WaitHandshake (map (apfst answer_text) qs) =
     (case dropWhile pending qs of
        [] \<Rightarrow> None
      | (Broken, _) # _ \<Rightarrow> Some (Some QueryDevice)
      | (Dump _ sec nsec _, _) # _ \<Rightarrow> Some (if sec = 0 \<and> nsec = 0 then Some NoHandshake else None)) \<and>
     (list_ex snd qs \<longrightarrow> WaitHandshake (map (apfst answer_text) qs) \<noteq> None)"
proof -
  have "WaitHandshake (map (apfst answer_text) qs) =
     (case dropWhile pending qs of
        [] \<Rightarrow> None
      | (Broken, _) # _ \<Rightarrow> Some (Some QueryDevice)
      | (Dump _ sec nsec _, _) # _ \<Rightarrow> Some (if sec = 0 \<and> nsec = 0 then Some NoHandshake else None))"
    using assms
  proof (induction qs)
    case (Cons q qs)
    obtain a stop where q: "q = (a, stop)" by fastforce
    have "HasHandshake (answer_text a) =
       (case a of Broken \<Rightarrow> Inl QueryDevice | Dump ls sec nsec ls' \<Rightarrow> Inr (sec \<noteq> 0 \<or> nsec \<noteq> 0))"
      using Cons.prems q by (intro HasHandshake_answer) simp
    then show ?case using Cons by (cases a) (simp_all add: q del: answer_text.simps)
  qed simp
  moreover have "dropWhile pending qs \<noteq> []" if "list_ex snd qs"
    using that by (fastforce simp: list_ex_iff elim: pending.elims(2))
  ultimately show ?thesis by (auto split: list.split prod.split device_answer.split)
qed

text \<open>The device answers twice without a handshake, the second time among other settings, then with one.\<close>

definition demo_queries :: "(device_answer \<times> bool) list" where
  "demo_queries =
     [(Dump [] 0 0 [], False), (Dump [''public_key=00'', []] 0 0 [''errno=0''], False), (Dump [] 1700000000 5 [], True)]"

theorem handshake_wait_witness:
  "WaitHandshake (map (apfst answer_text) demo_queries) = Some None"
proof -
  have "list_all (answer_ok \<circ> fst) demo_queries" by code_simp
  from handshake_wait [OF this] show ?thesis by (simp add: demo_queries_def)
qed

end
