(* ===== verification/Startup.thy ===== *)
theory Startup
  imports Serve Limits Connections Control
begin

text \<open>
  \<open>runServe\<close> of \<open>cmd/global-egress/serve.go\<close>: from a configuration to a running service, and its end. The catalogue,
  the relay list, the inventory file and the sockets are arguments. The theorems join the components: what is started from
  a configuration file is an initial state of the pool's step relation, so what holds in its reachable states holds of
  the service, with the limits of the file.
\<close>

section \<open>Starting and stopping\<close>

datatype start_error =
    StartConfig config_error | StartCatalog bundle_error | StartSlots serve_error | StartGuard guard_error
  | StartClients config_error | StartPool pool_error | StartListen string

record service =
  sv_Pool :: pool
  sv_Deps :: deps
  sv_Control :: ctl_opts
  sv_Direct :: "string list"

text \<open>What \<open>serve\<close> reads of the world: the catalogue, the relay list, the inventory file, and which addresses it can listen on.\<close>

record surroundings =
  su_Catalog :: "string \<Rightarrow> bundle_error + conf_bundle"
  su_Relays :: relay_loader
  su_Inventory :: "string \<Rightarrow> (pool_error + inventoryFile) option"
  su_Listen :: "string \<Rightarrow> bool"

definition load_catalog :: "surroundings \<Rightarrow> config \<Rightarrow> bundle_error + wg_slot list" where
  "load_catalog su cfg =
     (if cf_CatalogPath cfg = [] then Inr []
      else case su_Catalog su (cf_CatalogPath cfg) of Inl e \<Rightarrow> Inl e | Inr b \<Rightarrow> Inr (bn_Slots b))"

text \<open>The inventory is restored when there is one; an error is only logged.\<close>

definition restore :: "surroundings \<Rightarrow> config \<Rightarrow> time \<Rightarrow> pool \<Rightarrow> pool" where
  "restore su cfg now p =
     (let path = InventoryPath cfg in if path = [] then p else snd (LoadInventory (su_Inventory su path) now p))"

text \<open>The listeners in the order they are opened; an empty address is none.\<close>

fun first_refused :: "(string \<Rightarrow> bool) \<Rightarrow> string list \<Rightarrow> string option" where
  "first_refused listen [] = None"
| "first_refused listen (a # as) = (if a \<noteq> [] \<and> \<not> listen a then Some a else first_refused listen as)"

definition controlOptionsFrom :: "prefix list \<Rightarrow> string \<Rightarrow> time \<Rightarrow> config \<Rightarrow> ctl_opts" where
  "controlOptionsFrom clients version now cfg =
     \<lparr>co_Clients = clients, co_Token = ac_ControlToken (cf_Access cfg), co_Version = version, co_StartedAt = now\<rparr>"

definition serve_config ::
  "surroundings \<Rightarrow> string \<Rightarrow> time \<Rightarrow> config \<Rightarrow> relay cache_files \<Rightarrow> (start_error + service) \<times> relay cache_files" where
  "serve_config su version now cfg fs =
     (case load_catalog su cfg of
        Inl e \<Rightarrow> (Inl (StartCatalog e), fs)
      | Inr bundle \<Rightarrow>
          (case buildSlots (su_Relays su) cfg bundle fs of
             (Inl e, fs) \<Rightarrow> (Inl (StartSlots e), fs)
           | (Inr (specs, entries), fs) \<Rightarrow>
               (case new_guard (dc_DeniedCIDRs (cf_Destinations cfg)) (dc_AllowedPorts (cf_Destinations cfg)) of
                  Inl e \<Rightarrow> (Inl (StartGuard e), fs)
                | Inr guard \<Rightarrow>
                    (case AllowedClientPrefixes cfg of
                       Inl e \<Rightarrow> (Inl (StartClients e), fs)
                     | Inr clients \<Rightarrow>
                         (case NewWithSpecs specs entries (poolOptionsFrom cfg) of
                            Inl e \<Rightarrow> (Inl (StartPool e), fs)
                          | Inr p \<Rightarrow>
                              (case first_refused (su_Listen su)
                                      [ls_SOCKS5 (cf_Listen cfg), ls_HTTP (cf_Listen cfg), ls_Control (cf_Listen cfg)] of
                                 Some a \<Rightarrow> (Inl (StartListen a), fs)
                               | None \<Rightarrow>
                                   (Inr \<lparr>sv_Pool = restore su cfg now p,
                                         sv_Deps = proxyDepsFrom guard clients cfg,
                                         sv_Control = controlOptionsFrom clients version now cfg,
                                         sv_Direct = (if IPCheckURL (poolOptionsFrom cfg) = [] then []
                                                      else direct_slots specs)\<rparr>, fs)))))))"

definition runServe ::
  "(config_error + config) \<Rightarrow> surroundings \<Rightarrow> string \<Rightarrow> time \<Rightarrow> relay cache_files
     \<Rightarrow> (start_error + service) \<times> relay cache_files" where
  "runServe loaded su version now fs =
     (case loaded of Inl e \<Rightarrow> (Inl (StartConfig e), fs) | Inr cfg \<Rightarrow> serve_config su version now cfg fs)"

text \<open>Opening a few tunnels in advance, and the inventory the end of a run leaves, if there is a place for it.\<close>

definition preopen ::
  "(ref list \<Rightarrow> ref list) \<Rightarrow> (nat \<Rightarrow> open_input) \<Rightarrow> config \<Rightarrow> time \<Rightarrow> pool \<Rightarrow> nat \<times> pool" where
  "preopen shuffle inp cfg now p =
     (if pc_Preopen (cf_Pool cfg) > 0 then Warmup shuffle inp (pc_Preopen (cf_Pool cfg)) now p else (0, p))"

definition serve_stop ::
  "((netaddr, time) fmap \<Rightarrow> netaddr list) \<Rightarrow> config \<Rightarrow> time \<Rightarrow> pool \<Rightarrow> inventoryFile option \<times> pool" where
  "serve_stop ips cfg now p = (if InventoryPath cfg = [] then (None, p) else SaveInventory ips now p)"

section \<open>The limits of the file hold of the service\<close>

lemma quiet_opts: "quiet p q \<Longrightarrow> p_opts q = p_opts p"
  by (simp add: quiet_def)

lemma step_opts:
  assumes "step w w'" and inv: "conn_inv w"
  shows "p_opts (w_pool w') = p_opts (w_pool w)"
  using assms(1)
proof cases
  case (acquire pol t a rest rnd ord dr a' p)
  show ?thesis using acq_step_calm [OF acquire(5)] by (simp add: acquire(1) after_acq_def calm_def calm_heap_def)
next
  case (release l rest l' p)
  show ?thesis
    using Release_calm [of "w_now w" "w_pool w" "w_now w" l] release(3)
    by (simp add: release(1) calm_def calm_heap_def)
next
  case (other p)
  show ?thesis using pool_op_sane [OF other(2)] by (simp add: other(1) sane_def)
next
  case (reconcile ord specs res p)
  have "ids_ok (ids (w_pool w))" using inv by (simp add: conn_inv_def)
  then show ?thesis
    using reconcile_keeps(4) [OF reconcile(4,2) _ conn_inv_fresh_zero [OF inv]] by (simp add: reconcile(1))
next
  case (slot_enter ord i r ce res p)
  show ?thesis using quiet_opts [OF ensureOpen_enter_quiet [OF slot_enter(5)]] by (simp add: slot_enter(1))
next
  case (entry_enter ord i ce res p)
  show ?thesis using quiet_opts [OF ensureEntryOpen_enter_quiet [OF entry_enter(4)]] by (simp add: entry_enter(1))
next
  case (probe_enter ord ce res p)
  show ?thesis using quiet_opts [OF probeDialer_enter_quiet [OF probe_enter(3)]] by (simp add: probe_enter(1))
qed (simp_all, (rule quiet_opts, simp add: frame)+)

text \<open>The world a service starts in.\<close>

definition start_world :: "service \<Rightarrow> time \<Rightarrow> world" where
  "start_world sv now =
     \<lparr>w_pool = sv_Pool sv, w_now = now, w_acqs = {#}, w_leases = {#}, w_openers = {#}, w_commits = []\<rparr>"

lemma serve_config_Inr:
  assumes "serve_config su version now cfg fs = (Inr sv, fs')"
  obtains specs entries p guard clients where "NewWithSpecs specs entries (poolOptionsFrom cfg) = Inr p"
    "sv_Pool sv = restore su cfg now p" "AllowedClientPrefixes cfg = Inr clients"
    "new_guard (dc_DeniedCIDRs (cf_Destinations cfg)) (dc_AllowedPorts (cf_Destinations cfg)) = Inr guard"
    "sv_Deps sv = proxyDepsFrom guard clients cfg" "co_Clients (sv_Control sv) = clients"
    "co_Token (sv_Control sv) = ac_ControlToken (cf_Access cfg)"
  using assms by (auto simp: serve_config_def controlOptionsFrom_def split: sum.splits prod.splits option.splits)

lemma start_reachable:
  assumes "serve_config su version now cfg fs = (Inr sv, fs')"
  shows "reachable (start_world sv now) \<and> p_opts (sv_Pool sv) = applyDefaults (poolOptionsFrom cfg)"
proof -
  obtain specs entries p where p: "NewWithSpecs specs entries (poolOptionsFrom cfg) = Inr p"
    and sv: "sv_Pool sv = restore su cfg now p" using assms by (rule serve_config_Inr)
  let ?w = "\<lparr>w_pool = p, w_now = now, w_acqs = {#}, w_leases = {#}, w_openers = {#}, w_commits = []\<rparr>"
  have r: "reachable ?w" by (rule reachable.init [OF p])
  show ?thesis
  proof (cases "InventoryPath cfg = []")
    case True
    then show ?thesis using r sv NewWithSpecs_ok(3) [OF p] by (simp add: restore_def start_world_def)
  next
    case False
    then have q: "sv_Pool sv = snd (LoadInventory (su_Inventory su (InventoryPath cfg)) now p)"
      using sv by (simp add: restore_def Let_def)
    have "pool_op (w_now ?w) (w_pool ?w) (sv_Pool sv)" unfolding q world.simps by (rule op_load)
    then have st: "step ?w (?w\<lparr>w_pool := sv_Pool sv\<rparr>)" by (rule step.other)
    then show ?thesis
      using next_step [OF r st] step_opts [OF st reachable_conn_inv [OF r]] NewWithSpecs_ok(3) [OF p]
      by (simp add: start_world_def)
  qed
qed

lemma Load_validated:
  assumes "Load files decode parse_url path = Inr cfg"
  shows "Validate cfg = None"
  using assms by (rule Load_Inr) (rule finalize_Inr(1))

lemma run_reachable:
  assumes "step\<^sup>*\<^sup>* w0 w" and "reachable w0"
  shows "reachable w \<and> p_opts (w_pool w) = p_opts (w_pool w0)"
  using assms by (induction rule: rtranclp_induct) (auto intro: next_step simp: step_opts reachable_conn_inv)

text \<open>The limits of the file are the options of the pool; a window that is not set is ten minutes.\<close>

definition limits_of :: "config \<Rightarrow> options \<Rightarrow> bool" where
  "limits_of cfg opts \<longleftrightarrow>
     (let pc = cf_Pool cfg in
        MaxConcurrentConns opts = pc_MaxConcurrentConns pc \<and> MaxConnsPerExit opts = pc_MaxConnsPerExit pc \<and>
        MaxActive opts = pc_MaxActive pc \<and> NewTunnelBudget opts = pc_NewTunnelsPerWindow pc \<and>
        NewTunnelWindow opts = (if pc_NewTunnelWindow pc = 0 then 10 * minute else pc_NewTunnelWindow pc) \<and>
        MaxSessions opts = pc_MaxSessions pc \<and> SessionTTL opts = pc_SessionTTL pc \<and>
        MaxSessionTTL opts = pc_MaxSessionTTL pc \<and> MaxUniqueBatches opts = pc_MaxUniqueBatches pc \<and>
        BatchTTL opts = pc_BatchTTL pc \<and> MaxBatchTTL opts = pc_MaxBatchTTL pc)"

lemma limits_from_file: "Validate cfg = None \<Longrightarrow> limits_of cfg (applyDefaults (poolOptionsFrom cfg))"
  using Validate_None(3-15) [of cfg]
  by (simp add: limits_of_def applyDefaults_def poolOptionsFrom_def Let_def default_to_def)


text \<open>A disk with a configuration whose only enabled provider is external, an empty catalogue, and free sockets.\<close>

definition demo_surroundings :: surroundings where
  "demo_surroundings =
     \<lparr>su_Catalog = (\<lambda>_. Inr \<lparr>bn_Slots = [], bn_Devices = [], bn_DistinctKeys = 0\<rparr>),
      su_Relays = (\<lambda>_ _ fs. (Inl NoList, fs)), su_Inventory = (\<lambda>_. None), su_Listen = (\<lambda>_. True)\<rparr>"

definition demo_run :: "(start_error + service) \<times> relay cache_files" where
  "demo_run = runServe (demo_load ''pw'' True) demo_surroundings ''v1'' 7 fmempty"


lemma first_refused_Some: "first_refused listen xs = Some x \<Longrightarrow> x \<noteq> [] \<and> \<not> listen x \<and> x \<in> set xs"
  by (induction xs) (auto split: if_splits)

lemma slots_refused:
  assumes "buildSlots loader cfg wgs fs = (Inr (specs, entries), fs')" and "NewWithSpecs specs entries opts = Inl pe"
  shows "\<not> distinct (map sp_ID specs) \<or> relay_kinds specs \<and> entries = []"
proof -
  have "specs \<noteq> []" using assms(1) by (auto simp: buildSlots_def split: if_splits sum.splits prod.splits)
  then show ?thesis using NewWithSpecs_iff [of specs entries opts] assms(2) by auto
qed

lemma validated_parts:
  assumes "Load files decode parse_url path = Inr cfg"
  obtains clients guard where "AllowedClientPrefixes cfg = Inr clients"
    "new_guard (dc_DeniedCIDRs (cf_Destinations cfg)) (dc_AllowedPorts (cf_Destinations cfg)) = Inr guard"
proof -
  have "is_ok (AllowedClientPrefixes cfg)"
    "is_ok (new_guard (dc_DeniedCIDRs (cf_Destinations cfg)) (dc_AllowedPorts (cf_Destinations cfg)))"
    using Load_validated [OF assms] unfolding Validate_def Let_def first_problem_None by auto
  then show ?thesis using that unfolding is_ok_iff by blast
qed

text \<open>Where a start from a configuration that was checked can end.\<close>

lemma serve_config_ends:
  assumes s: "serve_config su version now cfg fs = (Inl e, fs')"
    and c: "AllowedClientPrefixes cfg = Inr clients"
      "new_guard (dc_DeniedCIDRs (cf_Destinations cfg)) (dc_AllowedPorts (cf_Destinations cfg)) = Inr guard"
  obtains be where "e = StartCatalog be" "load_catalog su cfg = Inl be"
  | wgs se where "e = StartSlots se" "load_catalog su cfg = Inr wgs" "buildSlots (su_Relays su) cfg wgs fs = (Inl se, fs')"
  | wgs specs entries pe where "e = StartPool pe" "load_catalog su cfg = Inr wgs"
      "buildSlots (su_Relays su) cfg wgs fs = (Inr (specs, entries), fs')"
      "NewWithSpecs specs entries (poolOptionsFrom cfg) = Inl pe"
  | a where "e = StartListen a" "first_refused (su_Listen su)
        [ls_SOCKS5 (cf_Listen cfg), ls_HTTP (cf_Listen cfg), ls_Control (cf_Listen cfg)] = Some a"
proof (cases "load_catalog su cfg")
  case (Inl be)
  then show thesis using s that(1) by (auto simp: serve_config_def)
next
  case b: (Inr wgs)
  obtain res fs1 where bs: "buildSlots (su_Relays su) cfg wgs fs = (res, fs1)" by fastforce
  show thesis
  proof (cases res)
    case (Inl se)
    then show thesis using s b bs that(2) by (auto simp: serve_config_def)
  next
    case r: (Inr se)
    obtain specs entries where se: "se = (specs, entries)" by fastforce
    show thesis
    proof (cases "NewWithSpecs specs entries (poolOptionsFrom cfg)")
      case (Inl pe)
      then show thesis using s b bs r se c that(3) by (auto simp: serve_config_def)
    next
      case (Inr p)
      then show thesis using s b bs r se c that(4) by (auto simp: serve_config_def split: option.splits)
    qed
  qed
qed

text \<open>
  C17: when \<open>serve\<close> does not start, the error says what is wrong, and checking the configuration has left few
  possibilities. The guard and the list of clients never fail, for they were checked; an error about the
  configuration is the one of the loader; a socket that is named is one the file asks for and that cannot be had; and the pool
  refuses only slots that share a name, or relay slots for which the catalogue, being empty, has no entry.
\<close>

theorem start_errors:
  assumes "runServe (Load files decode parse_url path) su version now fs = (Inl e, fs')"
  shows "case e of
      StartConfig ce \<Rightarrow> Load files decode parse_url path = Inl ce
    | StartGuard g \<Rightarrow> False
    | StartClients c \<Rightarrow> False
    | StartListen a \<Rightarrow>
        \<exists>cfg. Load files decode parse_url path = Inr cfg \<and> a \<noteq> [] \<and> \<not> su_Listen su a \<and>
          a \<in> {ls_SOCKS5 (cf_Listen cfg), ls_HTTP (cf_Listen cfg), ls_Control (cf_Listen cfg)}
    | StartCatalog be \<Rightarrow>
        \<exists>cfg. Load files decode parse_url path = Inr cfg \<and> cf_CatalogPath cfg \<noteq> [] \<and>
          su_Catalog su (cf_CatalogPath cfg) = Inl be
    | StartSlots se \<Rightarrow>
        \<exists>cfg wgs. Load files decode parse_url path = Inr cfg \<and> load_catalog su cfg = Inr wgs \<and>
          buildSlots (su_Relays su) cfg wgs fs = (Inl se, fs')
    | StartPool pe \<Rightarrow>
        \<exists>cfg wgs specs entries. Load files decode parse_url path = Inr cfg \<and> load_catalog su cfg = Inr wgs \<and>
          buildSlots (su_Relays su) cfg wgs fs = (Inr (specs, entries), fs') \<and>
          (\<not> distinct (map sp_ID specs) \<or> relay_kinds specs \<and> entries = [])"
proof (cases "Load files decode parse_url path")
  case (Inl ce)
  then show ?thesis using assms by (auto simp: runServe_def)
next
  case l: (Inr cfg)
  have s: "serve_config su version now cfg fs = (Inl e, fs')" using assms l by (simp add: runServe_def)
  obtain clients guard where c: "AllowedClientPrefixes cfg = Inr clients"
    "new_guard (dc_DeniedCIDRs (cf_Destinations cfg)) (dc_AllowedPorts (cf_Destinations cfg)) = Inr guard"
    by (rule validated_parts [OF l])
  from serve_config_ends [OF s c] show ?thesis
  proof cases
    case (1 be)
    then show ?thesis using l by (auto simp: load_catalog_def split: if_splits sum.splits)
  next
    case (2 wgs se)
    then show ?thesis using l by (simp del: prod.inject)
  next
    case (3 wgs specs entries pe)
    then show ?thesis using l slots_refused [OF 3(3,4)] by (simp del: prod.inject) blast
  next
    case (4 a)
    then show ?thesis using l first_refused_Some [OF 4(2)] by simp
  qed
qed

theorem start_errors_witness:
  "\<exists>fs'. runServe (demo_load ''pw'' True) (demo_surroundings\<lparr>su_Listen := \<lambda>_. False\<rparr>) ''v1'' 7 fmempty =
       (Inl (StartListen (ls_SOCKS5 (cf_Listen Default))), fs') \<and>
     ls_SOCKS5 (cf_Listen Default) \<noteq> []"
proof -
  let ?run = "runServe (demo_load ''pw'' True) (demo_surroundings\<lparr>su_Listen := \<lambda>_. False\<rparr>) ''v1'' 7 fmempty"
  have "(case fst ?run of Inl (StartListen a) \<Rightarrow> a = ls_SOCKS5 (cf_Listen Default) | _ \<Rightarrow> False)" by code_simp
  then have r: "?run = (Inl (StartListen (ls_SOCKS5 (cf_Listen Default))), snd ?run)"
    by (cases ?run) (auto split: sum.splits start_error.splits)
  from start_errors [OF r [unfolded demo_load_def]] have "ls_SOCKS5 (cf_Listen Default) \<noteq> []" by auto
  then show ?thesis using r by blast
qed

end
