(* ===== verification/Addresses.thy ===== *)
theory Addresses
  imports Netip
begin

text \<open>
  \<open>netip.ParseAddr\<close> reads back what \<open>Addr.String\<close> writes: IPv4, IPv6 with its longest run of zero groups
  written as an ellipsis, IPv4 mapped into IPv6, with and without a zone. The program writes addresses into its inventory
  file and reads them at the next start (\<open>Restart\<close>).
\<close>

section \<open>IPv4 addresses as texts\<close>

lemma v4_field_show:
  assumes "0 \<le> n" and "n \<le> 255"
  shows "v4_field (show_nat n) = Some n"
proof -
  have "length (show_nat n) = 1 \<or> hd (show_nat n) \<noteq> CHR ''0''"
  proof (cases "n = 0")
    case True
    then show ?thesis by (simp add: show_nat.simps)
  next
    case False
    then show ?thesis using show_nat_props [OF assms(1)] by simp
  qed
  moreover have "length (show_nat n) \<le> 3" using length_show_nat [of n 3] assms by simp
  ultimately show ?thesis using assms show_nat_props [OF assms(1)] by (simp add: v4_field_def)
qed

lemma no_dot: "0 \<le> n \<Longrightarrow> CHR ''.'' \<notin> set (show_nat n)"
  using digits_show_nat [of n] by (auto simp: list_all_iff is_digit_def less_eq_char_def)

lemma four_bytes:
  "((n div 16777216 * 256 + n div 65536 mod 256) * 256 + n div 256 mod 256) * 256 + n mod 256 = (n :: int)"
proof -
  have "n div 65536 = n div 256 div 256" "n div 16777216 = n div 256 div 256 div 256"
    by (simp_all add: zdiv_zmult2_eq [symmetric])
  then show ?thesis by (simp only: div_mult_mod_eq)
qed

lemma parse_v4_string: "parse_v4 (v4_string w) = Some w"
proof -
  let ?n = "uint w"
  let ?a = "?n div 16777216" and ?b = "?n div 65536 mod 256" and ?c = "?n div 256 mod 256" and ?d = "?n mod 256"
  have n: "0 \<le> ?n" "?n < 4294967296" using uint_ge_0 [of w] uint_lt2p [of w] by simp_all
  have a: "0 \<le> ?a" "?a \<le> 255" using n by (simp_all add: pos_imp_zdiv_nonneg_iff)
  have "CHR ''.'' \<notin> set s \<Longrightarrow> split_on CHR ''.'' s = [s]" for s by (induction s) auto
  then have "split_on CHR ''.'' (v4_string w) = [show_nat ?a, show_nat ?b, show_nat ?c, show_nat ?d]"
    using no_dot a by (simp add: v4_string_def Let_def split_on_append)
  moreover have "v4_bytes ?a ?b ?c ?d = w" unfolding v4_bytes_def four_bytes by simp
  ultimately show ?thesis using a by (simp add: parse_v4_def v4_field_show)
qed

lemma parse_addr_v4: "parse_addr (v4_string w) = Some (V4 w)"
proof -
  let ?a = "uint w div 16777216"
  have a: "0 \<le> ?a" by (simp add: pos_imp_zdiv_nonneg_iff)
  let ?P = "\<lambda>c. c \<notin> {CHR ''.'', CHR '':'', CHR ''%''}"
  have "?P c" if "c \<in> set (show_nat ?a)" for c
    using digits_show_nat [OF a] that by (auto simp: list_all_iff is_digit_def less_eq_char_def)
  then have "dropWhile ?P (show_nat ?a @ CHR ''.'' # s) = CHR ''.'' # s" for s
    by (subst dropWhile_append2) auto
  then show ?thesis
    using parse_v4_string [of w] by (simp add: parse_addr_def v4_string_def Let_def)
qed

lemma v4_string_inj: "v4_string v = v4_string w \<longleftrightarrow> v = w"
  using parse_v4_string by (metis option.inject)

section \<open>Hexadecimal groups\<close>

definition hex_text :: "string \<Rightarrow> bool" where
  "hex_text s \<longleftrightarrow> s \<noteq> [] \<and> length s \<le> 4 \<and> (\<forall>c\<in>set s. hex_val c \<noteq> None)"

definition group16 :: "int \<Rightarrow> bool" where
  "group16 g \<longleftrightarrow> 0 \<le> g \<and> g < 65536"

lemma hex_digit: "0 \<le> d \<Longrightarrow> d < 16 \<Longrightarrow> hex_val (hex_char d) = Some d"
proof -
  assume "0 \<le> d" "d < 16"
  then have "d \<in> set [0..15]" by simp
  moreover have "list_all (\<lambda>d. hex_val (hex_char d) = Some d) [0..15]" by code_simp
  ultimately show ?thesis by (simp only: list_all_iff)
qed

lemma hex_special: "hex_val CHR '':'' = None" "hex_val CHR ''.'' = None" "hex_val CHR ''%'' = None"
  by code_simp+

lemma hex_not_special: "hex_val c \<noteq> None \<Longrightarrow> c \<noteq> CHR '':'' \<and> c \<noteq> CHR ''.'' \<and> c \<noteq> CHR ''%''"
  using hex_special by auto

lemma digit_hex: "is_digit c \<Longrightarrow> hex_val c \<noteq> None"
  by (simp add: is_digit_def hex_val_def)

lemma hex_group_chars:
  assumes "list_all (\<lambda>d. 0 \<le> d \<and> d < 16) ds"
  shows "hex_group (map hex_char ds) = foldl (\<lambda>v d. v * 16 + d) 0 ds"
proof -
  have "foldl (\<lambda>v c. v * 16 + the (hex_val c)) a (map hex_char ds) = foldl (\<lambda>v d. v * 16 + d) a ds" for a
    using assms by (induction ds arbitrary: a) (simp_all add: hex_digit)
  then show ?thesis by (simp add: hex_group_def)
qed

lemma hex_text_chars:
  assumes "list_all (\<lambda>d. 0 \<le> d \<and> d < 16) ds" and "ds \<noteq> []" and "length ds \<le> 4"
  shows "hex_text (map hex_char ds)"
  using assms hex_digit by (auto simp: hex_text_def list_all_iff)

lemma nibbles:
  fixes g :: int
  shows "g div 16 * 16 + g mod 16 = g" "g div 256 * 16 + g div 16 mod 16 = g div 16"
    "g div 4096 * 16 + g div 256 mod 16 = g div 256"
proof -
  have "g div 256 = g div 16 div 16" "g div 4096 = g div 256 div 16"
    by (simp_all add: zdiv_zmult2_eq [symmetric])
  then show "g div 16 * 16 + g mod 16 = g" "g div 256 * 16 + g div 16 mod 16 = g div 16"
    "g div 4096 * 16 + g div 256 mod 16 = g div 256" by (simp_all only: div_mult_mod_eq)
qed

definition nibbles_of :: "int \<Rightarrow> int list" where
  "nibbles_of g =
     (if g < 16 then [g] else if g < 256 then [g div 16, g mod 16]
      else if g < 4096 then [g div 256, g div 16 mod 16, g mod 16]
      else [g div 4096, g div 256 mod 16, g div 16 mod 16, g mod 16])"

lemma show_hex_nibbles: "show_hex g = map hex_char (nibbles_of g)"
  by (simp add: show_hex_def nibbles_of_def)

lemma show_hex_group:
  assumes "group16 g"
  shows "hex_text (show_hex g) \<and> hex_group (show_hex g) = g"
proof -
  have g: "0 \<le> g" "g < 65536" using assms by (simp_all add: group16_def)
  have "g < 256 \<Longrightarrow> g div 16 < 16" "g < 4096 \<Longrightarrow> g div 256 < 16" "g div 4096 < 16" using g by linarith+
  then have n: "list_all (\<lambda>d. 0 \<le> d \<and> d < 16) (nibbles_of g)"
    using g by (simp add: nibbles_of_def pos_imp_zdiv_nonneg_iff)
  have "foldl (\<lambda>v d. v * 16 + d) 0 (nibbles_of g) = g"
    unfolding nibbles_of_def by (simp only: foldl.simps mult_zero_left add_0_left nibbles split: if_split) simp
  then show ?thesis
    unfolding show_hex_nibbles hex_group_chars [OF n]
    by (intro conjI hex_text_chars [OF n]) (simp_all add: nibbles_of_def)
qed

section \<open>The loop of the parser\<close>

lemma take_hex:
  assumes "\<forall>c\<in>set s. hex_val c \<noteq> None" and "r = [] \<or> hex_val (hd r) = None"
  shows "takeWhile (\<lambda>c. hex_val c \<noteq> None) (s @ r) = s"
  using assms by (cases r) (auto simp: takeWhile_append)

lemma loop_step:
  assumes "hex_text s" and "length gs < 8" and "r = [] \<or> hex_val (hd r) = None"
  shows "v6_loop (s @ r) gs el =
     (if r \<noteq> [] \<and> hd r = CHR ''.'' then
        (if (el = None \<and> length gs \<noteq> 6) \<or> length gs + 2 > 8 then None
         else (case parse_v4 (s @ r) of
                 None \<Rightarrow> None
               | Some w \<Rightarrow> Some ([], gs @ [uint w div 65536, uint w mod 65536], el)))
      else
        (case r of
           [] \<Rightarrow> Some ([], gs @ [hex_group s], el)
         | c # s' \<Rightarrow>
             if c \<noteq> CHR '':'' \<or> s' = [] then None
             else if hd s' = CHR '':'' then
               (if el \<noteq> None then None
                else if tl s' = [] then Some ([], gs @ [hex_group s], Some (Suc (length gs)))
                else v6_loop (tl s') (gs @ [hex_group s]) (Some (Suc (length gs))))
             else v6_loop s' (gs @ [hex_group s]) el))"
proof -
  have t: "takeWhile (\<lambda>c. hex_val c \<noteq> None) (s @ r) = s"
    by (rule take_hex [OF _ assms(3)]) (use assms(1) in \<open>unfold hex_text_def, blast\<close>)
  have h: "s \<noteq> []" "length s \<le> 4" using assms(1) by (simp_all add: hex_text_def)
  show ?thesis
    unfolding v6_loop.simps [of "s @ r"] Let_def t append_eq_conv_conj [THEN iffD1, THEN conjunct2]
    using h assms(2) by (simp split: list.split)
qed

lemma loop_last:
  assumes "hex_text s" and "length gs < 8"
  shows "v6_loop s gs el = Some ([], gs @ [hex_group s], el)"
  using loop_step [OF assms, of "[]"] by simp

lemma loop_colon:
  assumes "hex_text s" and "length gs < 8" and "s' \<noteq> []" and "hd s' \<noteq> CHR '':''"
  shows "v6_loop (s @ CHR '':'' # s') gs el = v6_loop s' (gs @ [hex_group s]) el"
  using loop_step [OF assms(1,2), of "CHR '':'' # s'"] assms(3,4) hex_special by simp

lemma loop_ellipsis:
  assumes "hex_text s" and "length gs < 8"
  shows "v6_loop (s @ CHR '':'' # CHR '':'' # s') gs None =
     (if s' = [] then Some ([], gs @ [hex_group s], Some (Suc (length gs)))
      else v6_loop s' (gs @ [hex_group s]) (Some (Suc (length gs))))"
  using loop_step [OF assms, of "CHR '':'' # CHR '':'' # s'"] hex_special by simp

definition groups_text :: "int list \<Rightarrow> string" where
  "groups_text gs = join '':'' (map show_hex gs)"

lemma groups_text_simps [simp]:
  "groups_text [] = []" "groups_text [g] = show_hex g"
  "groups_text (g # h # gs) = show_hex g @ CHR '':'' # groups_text (h # gs)"
  by (simp_all add: groups_text_def)

lemma groups_text_start:
  assumes "list_all group16 gs" and "gs \<noteq> []"
  shows "groups_text gs \<noteq> [] \<and> hex_val (hd (groups_text gs)) \<noteq> None"
proof -
  obtain g rest where gs: "gs = g # rest" using assms(2) by (cases gs) auto
  then have "hex_text (show_hex g)" using show_hex_group assms(1) by simp
  then have "show_hex g \<noteq> []" "hex_val (hd (show_hex g)) \<noteq> None" by (auto simp: hex_text_def)
  then show ?thesis unfolding gs by (cases rest) (simp_all add: hd_append)
qed

lemma loop_groups:
  assumes "list_all group16 xs" and "xs \<noteq> []" and "length gs + length xs \<le> 8"
  shows "v6_loop (groups_text xs) gs el = Some ([], gs @ xs, el)"
  using assms
proof (induction xs arbitrary: gs)
  case (Cons x xs)
  have x: "hex_text (show_hex x)" "hex_group (show_hex x) = x" using show_hex_group Cons.prems(1) by simp_all
  show ?case
  proof (cases xs)
    case Nil
    then show ?thesis using loop_last [OF x(1)] x(2) Cons.prems(3) by simp
  next
    case (Cons y ys)
    have s: "groups_text xs \<noteq> []" "hd (groups_text xs) \<noteq> CHR '':''"
      using groups_text_start [of xs] Cons.prems(1) Cons hex_not_special by auto
    have "v6_loop (groups_text (x # xs)) gs el = v6_loop (groups_text xs) (gs @ [x]) el"
      using loop_colon [OF x(1) _ s] x(2) Cons.prems(3) Cons by simp
    then show ?thesis using Cons.IH [of "gs @ [x]"] Cons.prems Cons by simp
  qed
qed simp

lemma loop_two_parts:
  assumes "list_all group16 xs" "list_all group16 ys" and "xs \<noteq> []" and "length gs + length xs + length ys \<le> 8"
  shows "v6_loop (groups_text xs @ ''::'' @ groups_text ys) gs None =
     Some ([], gs @ xs @ ys, Some (length gs + length xs))"
  using assms(1,3,4)
proof (induction xs arbitrary: gs)
  case (Cons x xs)
  have x: "hex_text (show_hex x)" "hex_group (show_hex x) = x" using show_hex_group Cons.prems(1) by simp_all
  show ?case
  proof (cases xs)
    case Nil
    show ?thesis
    proof (cases "ys = []")
      case True
      then show ?thesis using loop_ellipsis [OF x(1), of gs "[]"] x(2) Cons.prems(3) Nil by simp
    next
      case False
      then have "groups_text ys \<noteq> []" using groups_text_start assms(2) by blast
      then show ?thesis
        using loop_ellipsis [OF x(1), of gs "groups_text ys"] x(2) Cons.prems(3) Nil
          loop_groups [OF assms(2) False, of "gs @ [x]"] by simp
    qed
  next
    case (Cons y zs)
    have s: "groups_text xs @ ''::'' @ groups_text ys \<noteq> []" "hd (groups_text xs @ ''::'' @ groups_text ys) \<noteq> CHR '':''"
      using groups_text_start [of xs] Cons.prems(1) Cons hex_not_special by auto
    have "v6_loop (groups_text (x # xs) @ ''::'' @ groups_text ys) gs None =
        v6_loop (groups_text xs @ ''::'' @ groups_text ys) (gs @ [x]) None"
      using loop_colon [OF x(1) _ s] x(2) Cons.prems(3) Cons by simp
    then show ?thesis using Cons.IH [of "gs @ [x]"] Cons.prems Cons by simp
  qed
qed simp

section \<open>The groups of an address\<close>

lemma best_run_zero:
  assumes "best_run i gs b = (s, l)"
  shows "(s, l) = b \<or> i \<le> s \<and> 2 \<le> l \<and> s - i + l \<le> length gs \<and> take l (drop (s - i) gs) = replicate l 0"
  using assms
proof (induction i gs b rule: best_run.induct)
  case (2 i g gs b)
  let ?l = "length (takeWhile (\<lambda>x. x = 0) (g # gs))"
  let ?b = "if ?l \<ge> 2 \<and> ?l > snd b then (i, ?l) else b"
  have "best_run (Suc i) gs ?b = (s, l)" using "2.prems" by (simp only: best_run.simps Let_def)
  from "2.IH" [OF refl this] consider "(s, l) = ?b"
    | "Suc i \<le> s" "2 \<le> l" "s - Suc i + l \<le> length gs" "take l (drop (s - Suc i) gs) = replicate l 0" by blast
  then show ?case
  proof cases
    case 1
    have "take ?l (g # gs) = replicate ?l 0"
      by (metis (mono_tags, lifting) takeWhile_eq_take replicate_length_same set_takeWhileD)
    moreover have "?l \<le> length (g # gs)" by (rule length_takeWhile_le)
    ultimately show ?thesis using 1 by (cases "?l \<ge> 2 \<and> ?l > snd b") auto
  next
    case 2
    then have "s - i = Suc (s - Suc i)" by simp
    then show ?thesis using 2 by auto
  qed
qed simp

lemma groups_16: "list_all group16 (v6_groups w)" "length (v6_groups w) = 8"
  by (simp_all add: v6_groups_def group16_def)

lemma groups_word_groups: "groups_word (v6_groups w) = w"
proof -
  let ?n = "uint w"
  have n: "0 \<le> ?n" "?n < 340282366920938463463374607431768211456" using uint_ge_0 [of w] uint_lt2p [of w] by simp_all
  let ?d = "\<lambda>k. ?n div 65536 ^ k"
  have s: "?d (Suc k) * 65536 + ?d k mod 65536 = ?d k" for k
  proof -
    have "?d (Suc k) = ?d k div 65536" by (simp add: zdiv_zmult2_eq [symmetric] mult.commute)
    then show ?thesis by (simp only: div_mult_mod_eq)
  qed
  have top: "?d 7 mod 65536 = ?d 7" using n by (intro mod_pos_pos_trivial) (simp_all add: pos_imp_zdiv_nonneg_iff)
  have e: "v6_groups w = [?d 7 mod 65536, ?d 6 mod 65536, ?d 5 mod 65536, ?d 4 mod 65536, ?d 3 mod 65536,
      ?d 2 mod 65536, ?d 1 mod 65536, ?d 0 mod 65536]"
    by (simp only: v6_groups_def list.map diff_zero diff_self_eq_0) simp
  have st: "?d 7 * 65536 + ?d 6 mod 65536 = ?d 6" "?d 6 * 65536 + ?d 5 mod 65536 = ?d 5"
    "?d 5 * 65536 + ?d 4 mod 65536 = ?d 4" "?d 4 * 65536 + ?d 3 mod 65536 = ?d 3"
    "?d 3 * 65536 + ?d 2 mod 65536 = ?d 2" "?d 2 * 65536 + ?d 1 mod 65536 = ?d 1"
    "?d 1 * 65536 + ?d 0 mod 65536 = ?d 0"
    using s [of 6] s [of 5] s [of 4] s [of 3] s [of 2] s [of 1] s [of 0]
    by (simp_all only: eval_nat_numeral One_nat_def BitM.simps)
  have "foldl (\<lambda>v g. v * 65536 + g) 0 (v6_groups w) = ?d 0"
    unfolding e by (simp only: foldl.simps mult_zero_left add_0_left top st)
  then have "foldl (\<lambda>v g. v * 65536 + g) 0 (v6_groups w) = ?n" by simp
  then show ?thesis by (simp add: groups_word_def)
qed

section \<open>Texts that are read back\<close>

lemma v6_string_parts:
  obtains (all) "v6_string w = groups_text (v6_groups w)"
  | (run) s l where "2 \<le> l" "s + l \<le> 8"
      "v6_groups w = take s (v6_groups w) @ replicate l 0 @ drop (s + l) (v6_groups w)"
      "v6_string w = groups_text (take s (v6_groups w)) @ ''::'' @ groups_text (drop (s + l) (v6_groups w))"
proof -
  let ?gs = "v6_groups w"
  obtain s l where b: "best_run 0 ?gs (0, 0) = (s, l)" by fastforce
  show ?thesis
  proof (cases "l = 0")
    case True
    then show ?thesis using all b by (simp add: v6_string_def groups_text_def)
  next
    case False
    then have r: "2 \<le> l" "s + l \<le> 8" "take l (drop s ?gs) = replicate l 0"
      using best_run_zero [OF b] by (auto simp: groups_16)
    have "?gs = take s ?gs @ take l (drop s ?gs) @ drop l (drop s ?gs)" by (simp only: append_take_drop_id)
    then have "?gs = take s ?gs @ replicate l 0 @ drop (s + l) ?gs" using r(3) by (simp add: add.commute)
    moreover have "v6_string w = groups_text (take s ?gs) @ ''::'' @ groups_text (drop (s + l) ?gs)"
      using b False by (simp add: v6_string_def groups_text_def Let_def)
    ultimately show ?thesis using run r by blast
  qed
qed

lemma groups_text_chars:
  assumes "list_all group16 gs" and "c \<in> set (groups_text gs)"
  shows "c = CHR '':'' \<or> hex_val c \<noteq> None"
  using assms
proof (induction gs rule: induct_list012)
  case (2 g)
  then show ?case using show_hex_group [of g] by (auto simp: hex_text_def)
next
  case (3 g h gs)
  then show ?case using show_hex_group [of g] by (auto simp: hex_text_def)
qed simp

lemma v6_string_chars:
  assumes "c \<in> set (v6_string w)"
  shows "c = CHR '':'' \<or> hex_val c \<noteq> None"
proof (cases w rule: v6_string_parts)
  case all
  then show ?thesis using assms groups_text_chars [OF groups_16(1)] by simp
next
  case (run s l)
  have "list_all group16 (take s (v6_groups w))" "list_all group16 (drop (s + l) (v6_groups w))"
    using groups_16(1) [of w] by (auto simp: list_all_iff dest: in_set_takeD in_set_dropD)
  then show ?thesis using assms groups_text_chars unfolding run(4) by auto
qed

text \<open>The first special character is a colon.\<close>

definition colon_first :: "string \<Rightarrow> bool" where
  "colon_first s \<longleftrightarrow> (\<exists>a b. s = a @ CHR '':'' # b \<and> (\<forall>c\<in>set a. hex_val c \<noteq> None))"

lemma colon_first_append: "colon_first s \<Longrightarrow> colon_first (s @ t)"
  unfolding colon_first_def by (metis append.assoc append_Cons)

lemma groups_colon:
  assumes "list_all group16 gs" and "gs \<noteq> []"
  shows "colon_first (groups_text gs @ CHR '':'' # r)"
proof -
  obtain g rest where gs: "gs = g # rest" using assms(2) by (cases gs) auto
  have "\<forall>c\<in>set (show_hex g). hex_val c \<noteq> None" using show_hex_group [of g] assms(1) gs by (simp add: hex_text_def)
  then show ?thesis unfolding gs colon_first_def by (cases rest) (simp; blast)+
qed

lemma v6_string_colon: "colon_first (v6_string w)"
proof (cases w rule: v6_string_parts)
  case all
  obtain g h rest where g: "v6_groups w = g # h # rest" by (simp add: v6_groups_def)
  then have "list_all group16 [g]" using groups_16(1) [of w] by simp
  from groups_colon [OF this] show ?thesis using all by (simp add: g)
next
  case (run s l)
  show ?thesis
  proof (cases "take s (v6_groups w) = []")
    case True
    then show ?thesis unfolding run(4) colon_first_def by (metis append_Nil append_Cons emptyE groups_text_simps(1) list.set(1))
  next
    case False
    have "list_all group16 (take s (v6_groups w))"
      using groups_16(1) [of w] by (auto simp: list_all_iff dest: in_set_takeD)
    from groups_colon [OF this False] show ?thesis unfolding run(4) by simp
  qed
qed

lemma parse_addr_colon: "colon_first s \<Longrightarrow> parse_addr s = parse_v6 s"
proof -
  assume "colon_first s"
  then obtain a b where s: "s = a @ CHR '':'' # b" "\<forall>c\<in>set a. hex_val c \<noteq> None" unfolding colon_first_def by blast
  have "dropWhile (\<lambda>c. c \<notin> {CHR ''.'', CHR '':'', CHR ''%''}) s = CHR '':'' # b"
    unfolding s(1) by (subst dropWhile_append2) (use s(2) hex_not_special in auto)
  then show ?thesis by (simp add: parse_addr_def)
qed

text \<open>The text before the zone, and the address it stands for.\<close>

definition v6_reads :: "string \<Rightarrow> 128 word \<Rightarrow> bool" where
  "v6_reads s w \<longleftrightarrow>
     (let lead = has_prefix ''::'' s; s' = (if lead then drop 2 s else s)
      in if lead \<and> s' = [] then w = 0
         else case v6_loop s' [] (if lead then Some 0 else None) of
                Some ([], gs, None) \<Rightarrow> length gs = 8 \<and> w = groups_word gs
              | Some ([], gs, Some e) \<Rightarrow>
                  length gs < 8 \<and> w = groups_word (take e gs @ replicate (8 - length gs) 0 @ drop e gs)
              | _ \<Rightarrow> False)"

lemma parse_v6_zone:
  assumes "v6_reads s w" and "CHR ''%'' \<notin> set s"
  shows "parse_v6 (s @ (if z = [] then [] else CHR ''%'' # z)) = Some (V6 w z)"
proof -
  have "cut CHR ''%'' s = None" using assms(2) by (induction s) auto
  then have "(case cut CHR ''%'' (s @ (if z = [] then [] else CHR ''%'' # z)) of None \<Rightarrow>
      Some (s @ (if z = [] then [] else CHR ''%'' # z), [])
    | Some (s, z) \<Rightarrow> if z = [] then None else Some (s, z)) = Some (s, z)"
    using cut_append [OF assms(2), of z] by simp
  note c = this
  show ?thesis
    unfolding parse_v6_def c option.case prod.case
    using assms(1)
    by (auto simp: v6_reads_def Let_def simp del: v6_loop.simps split: option.splits list.splits if_splits)
qed

lemma lead_groups:
  assumes "list_all group16 gs" and "gs \<noteq> []"
  shows "\<not> has_prefix ''::'' (groups_text gs @ r)"
proof -
  have "groups_text gs \<noteq> []" "hd (groups_text gs) \<noteq> CHR '':''"
    using groups_text_start [OF assms] hex_not_special by blast+
  then show ?thesis by (cases "groups_text gs") (simp_all add: has_prefix_def)
qed

lemma v6_string_reads: "v6_reads (v6_string w) w"
proof (cases w rule: v6_string_parts)
  case all
  have g: "list_all group16 (v6_groups w)" "length (v6_groups w) = 8" "v6_groups w \<noteq> []"
    using groups_16 [of w] by (simp_all add: v6_groups_def)
  have "v6_loop (groups_text (v6_groups w)) [] None = Some ([], v6_groups w, None)"
    using loop_groups [OF g(1,3), of "[]"] g(2) by simp
  moreover have "\<not> has_prefix ''::'' (groups_text (v6_groups w))" using lead_groups [OF g(1,3), of "[]"] by simp
  ultimately show ?thesis
    using g(2) by (simp add: v6_reads_def all groups_word_groups del: v6_loop.simps)
next
  case (run s l)
  let ?xs = "take s (v6_groups w)" and ?ys = "drop (s + l) (v6_groups w)"
  have x: "list_all group16 ?xs" "list_all group16 ?ys"
    using groups_16(1) [of w] by (auto simp: list_all_iff dest: in_set_takeD in_set_dropD)
  have n: "length ?xs = s" "length ?ys = 8 - (s + l)" using run(2) groups_16(2) [of w] by simp_all
  have w: "groups_word (?xs @ replicate l 0 @ ?ys) = w" using run(3) groups_word_groups by metis
  show ?thesis
  proof (cases "?xs = []")
    case True
    then have s: "s = 0" using n(1) by (metis list.size(3))
    have pre: "has_prefix ''::'' (v6_string w)" "drop 2 (v6_string w) = groups_text ?ys"
      unfolding run(4) True by (simp_all add: has_prefix_def)
    show ?thesis
    proof (cases "?ys = []")
      case True
      then have "l = 8" using n(2) run(2) s by simp
      then have "w = groups_word (replicate 8 0)" using w s True by simp
      also have "\<dots> = 0" by (simp add: groups_word_def eval_nat_numeral)
      finally show ?thesis using pre True by (simp add: v6_reads_def)
    next
      case False
      have "groups_text ?ys \<noteq> []" using groups_text_start [OF x(2) False] by simp
      moreover have "v6_loop (groups_text ?ys) [] (Some 0) = Some ([], ?ys, Some 0)"
        using loop_groups [OF x(2) False, of "[]"] n(2) by simp
      moreover have "8 - length ?ys = l" "length ?ys < 8" using n(2) run(1,2) s by simp_all
      ultimately show ?thesis
        using pre w \<open>?xs = []\<close> by (simp add: v6_reads_def Let_def del: v6_loop.simps length_drop)
    qed
  next
    case False
    have "\<not> has_prefix ''::'' (v6_string w)" unfolding run(4) by (rule lead_groups [OF x(1) False])
    moreover have "v6_loop (v6_string w) [] None = Some ([], ?xs @ ?ys, Some s)"
      unfolding run(4) using loop_two_parts [OF x False, of "[]"] n run(2) by simp
    moreover have "length (?xs @ ?ys) < 8" "8 - length (?xs @ ?ys) = l" using n run(1,2) by simp_all
    moreover have "take s (?xs @ ?ys) = ?xs" "drop s (?xs @ ?ys) = ?ys" using n(1) by simp_all
    ultimately show ?thesis
      using w by (simp add: v6_reads_def Let_def del: v6_loop.simps take_append drop_append length_append)
  qed
qed

section \<open>IPv4 in IPv6\<close>

lemma v4_string_hex:
  obtains a r where "v4_string v = a @ CHR ''.'' # r" "hex_text a"
proof -
  let ?a = "uint v div 16777216"
  have n: "0 \<le> uint v" "uint v < 4294967296" using uint_ge_0 [of v] uint_lt2p [of v] by simp_all
  have a: "0 \<le> ?a" "?a \<le> 255" using n by (simp_all add: pos_imp_zdiv_nonneg_iff)
  have "length (show_nat ?a) \<le> 3" using length_show_nat [of ?a 3] a by simp
  moreover have "show_nat ?a \<noteq> []" using show_nat_props [OF a(1)] by simp
  moreover have "\<forall>c\<in>set (show_nat ?a). hex_val c \<noteq> None"
    using digits_show_nat [OF a(1)] digit_hex by (simp only: list_all_iff) blast
  ultimately show ?thesis using that by (simp add: v4_string_def Let_def hex_text_def)
qed

lemma mapped_word:
  fixes w :: "128 word"
  assumes "drop_bit 32 w = 0xFFFF"
  shows "groups_word (replicate 5 0 @ [65535, uint (ucast w :: 32 word) div 65536, uint (ucast w :: 32 word) mod 65536]) = w"
proof -
  let ?v = "uint (ucast w :: 32 word)"
  have "uint (drop_bit 32 w) = uint w div 4294967296" by (simp add: drop_bit_eq_div uint_div_distrib)
  then have "uint w div 4294967296 = 65535" using assms by simp
  moreover have "?v = uint w mod 4294967296" by (simp add: unsigned_ucast_eq take_bit_eq_mod)
  ultimately have "uint w = 65535 * 4294967296 + ?v" using div_mult_mod_eq [of "uint w" 4294967296] by simp
  moreover have "foldl (\<lambda>v g. v * 65536 + g) 0 (replicate 5 0 @ [65535, ?v div 65536, ?v mod 65536]) =
      65535 * 4294967296 + (?v div 65536 * 65536 + ?v mod 65536)"
    by (simp add: eval_nat_numeral)
  ultimately have "foldl (\<lambda>v g. v * 65536 + g) 0 (replicate 5 0 @ [65535, ?v div 65536, ?v mod 65536]) = uint w"
    by (simp only: div_mult_mod_eq)
  then show ?thesis by (simp only: groups_word_def word_of_int_uint)
qed

lemma mapped_reads:
  fixes w :: "128 word"
  assumes "drop_bit 32 w = 0xFFFF"
  shows "v6_reads (''::ffff:'' @ v4_string (ucast w)) w"
proof -
  obtain a r where v: "v4_string (ucast w) = a @ CHR ''.'' # r" "hex_text a" using v4_string_hex .
  have f: "hex_text ''ffff''" "hex_group ''ffff'' = 65535" by code_simp+
  have h: "v4_string (ucast w) \<noteq> []" "hd (v4_string (ucast w)) \<noteq> CHR '':''"
    using v hex_not_special by (cases a; auto simp: hex_text_def)+
  have "v6_loop (''ffff'' @ CHR '':'' # v4_string (ucast w)) [] (Some 0) = v6_loop (v4_string (ucast w)) [65535] (Some 0)"
    using loop_colon [OF f(1) _ h, of "[]"] f(2) by simp
  also have "\<dots> = Some ([], [65535, uint (ucast w :: 32 word) div 65536, uint (ucast w :: 32 word) mod 65536], Some 0)"
    using loop_step [OF v(2), of "[65535]" "CHR ''.'' # r" "Some 0"] hex_special parse_v4_string [of "ucast w"]
    by (simp add: v(1) del: v6_loop.simps)
  finally show ?thesis
    using mapped_word [OF assms] by (simp add: v6_reads_def has_prefix_def Let_def del: v6_loop.simps)
qed

lemma address_read_back: "parse_addr (addr_string (Some a)) = Some a"
proof (cases a)
  case (V4 w)
  then show ?thesis by (simp add: parse_addr_v4)
next
  case (V6 w z)
  let ?t = "if drop_bit 32 w = 0xFFFF then ''::ffff:'' @ v4_string (ucast w) else v6_string w"
  have r: "v6_reads ?t w" using mapped_reads v6_string_reads by simp
  have p: "0 \<le> n \<Longrightarrow> CHR ''%'' \<notin> set (show_nat n)" for n
    using digits_show_nat [of n] by (auto simp: list_all_iff is_digit_def less_eq_char_def)
  have "CHR ''%'' \<notin> set (v4_string v)" for v
    using p by (simp add: v4_string_def Let_def pos_imp_zdiv_nonneg_iff)
  then have n: "CHR ''%'' \<notin> set ?t" using v6_string_chars [of "CHR ''%''" w] hex_special by auto
  have "colon_first (''::ffff:'' @ v4_string (ucast w))" unfolding colon_first_def by fastforce
  then have "colon_first ?t" using v6_string_colon by simp
  then show ?thesis
    using parse_v6_zone [OF r n, of z] parse_addr_colon [OF colon_first_append] by (simp add: V6)
qed

end
