(* ===== verification/Restart.thy ===== *)
theory Restart
  imports Samples Addresses
begin

text \<open>
  What a restart of the service remembers: the inventory file that \<open>SaveInventory\<close> leaves behind is read by the next
  run's \<open>LoadInventory\<close> (\<open>internal/pool/inventory.go\<close>, called from \<open>cmd/global-egress/serve.go\<close>). The texts of the addresses are read
  back exactly (\<open>Addresses\<close>).
\<close>

lemma invalid_address: "parse_addr (addr_string None) = None"
  by code_simp

lemma addr_string_inj: "addr_string k = addr_string l \<longleftrightarrow> k = l"
  using address_read_back invalid_address by (metis option.exhaust option.inject option.distinct(1))

section \<open>Reading the slots\<close>

text \<open>What the file says of a slot.\<close>

definition saved_ip :: "inventoryFile \<Rightarrow> string \<Rightarrow> netaddr" where
  "saved_ip f i = (case fmlookup (if_Slots f) i of None \<Rightarrow> None | Some (t, _) \<Rightarrow> parse_addr t)"

text \<open>What reading the inventory leaves alone.\<close>

definition same_slots :: "pool \<Rightarrow> pool \<Rightarrow> bool" where
  "same_slots p q \<longleftrightarrow> p_slots q = p_slots p \<and> p_heap q = p_heap p"

lemma setPublicIP_restored:
  "s_publicIP (p_heap (snd (setPublicIPLocked r a at now p)) r') = (if r' = r then a else s_publicIP (p_heap p r'))"
  "s_spec (p_heap (snd (setPublicIPLocked r a at now p)) r') = s_spec (p_heap p r')"
  "p_slots (snd (setPublicIPLocked r a at now p)) = p_slots p"
  "p_nextRef (snd (setPublicIPLocked r a at now p)) = p_nextRef p"
  "p_ipCooldowns (snd (setPublicIPLocked r a at now p)) = p_ipCooldowns p"
  by (simp_all add: setPublicIPLocked_def upd_slot_def Let_def)

lemma load_slots_restored:
  assumes "load_slots f now is n p = (n', q)" and "named (p_slots p) p"
  shows "p_slots q = p_slots p \<and> p_ipCooldowns q = p_ipCooldowns p \<and>
     (\<forall>i r. fmlookup (p_slots p) i = Some r \<longrightarrow>
        s_publicIP (p_heap q r) =
          (if i \<in> set is \<and> saved_ip f i \<noteq> None then saved_ip f i else s_publicIP (p_heap p r)))"
  using assms
proof (induction "is" arbitrary: n p)
  case (Cons j js)
  show ?case
  proof (cases "saved_ip f j = None \<or> fmlookup (p_slots p) j = None")
    case True
    then have "load_slots f now (j # js) n p = load_slots f now js n p"
      by (cases "fmlookup (p_slots p) j"; cases "fmlookup (if_Slots f) j") (auto simp: saved_ip_def)
    then have l: "load_slots f now js n p = (n', q)" using Cons.prems(1) by simp
    show ?thesis using Cons.IH [OF l Cons.prems(2)] True by auto
  next
    case False
    then obtain s a c t where s: "fmlookup (p_slots p) j = Some s" and t: "fmlookup (if_Slots f) j = Some (t, c)"
      "parse_addr t = Some a"
      by (auto simp: saved_ip_def split: option.splits)
    let ?p = "snd (setPublicIPLocked s (Some a) c now p)"
    have l: "load_slots f now js (Suc n) ?p = (n', q)" using Cons.prems(1) s t by simp
    have nm: "named (p_slots ?p) ?p"
      using Cons.prems(2) by (simp add: named_def setPublicIP_restored slot_ID_def)
    have j: "i = j" if "fmlookup (p_slots p) i = Some s" for i
      using Cons.prems(2) s that unfolding named_def by metis
    have sv: "saved_ip f j = Some a" using t by (simp add: saved_ip_def)
    note ih = Cons.IH [OF l nm, unfolded setPublicIP_restored]
    have "s_publicIP (p_heap q r) =
        (if i \<in> set (j # js) \<and> saved_ip f i \<noteq> None then saved_ip f i else s_publicIP (p_heap p r))"
      if i: "fmlookup (p_slots p) i = Some r" for i r
    proof (cases "i = j")
      case True
      then show ?thesis using ih i s sv by simp
    next
      case False
      then have "r \<noteq> s" using j i by auto
      then show ?thesis using ih i False by auto
    qed
    then show ?thesis using ih by blast
  qed
qed simp

lemma load_slots_else:
  "load_slots f now is n p = (n', q) \<Longrightarrow>
     s_cooldowns (p_heap q r) = s_cooldowns (p_heap p r) \<and> s_disabledUntil (p_heap q r) = s_disabledUntil (p_heap p r)"
proof (induction f now "is" n p rule: load_slots.induct)
  case (2 f now i "is" n p)
  then show ?case
    by (auto simp: setPublicIPLocked_def upd_slot_def Let_def split: option.splits if_splits)
qed simp

section \<open>Reading the cooldowns\<close>

definition cooling_until :: "pool \<Rightarrow> string \<Rightarrow> netaddr \<Rightarrow> time" where
  "cooling_until p scope ip = fm_get 0 (fm_get fmempty (p_ipCooldowns p) scope) ip"

lemma set_cooldown:
  "cooling_until (setIPCooldownLocked t ip u p) s k =
     (if s = t \<and> k = ip \<and> t \<noteq> [] \<and> ip \<noteq> None then max (cooling_until p s k) u else cooling_until p s k)"
  "same_slots p (setIPCooldownLocked t ip u p)"
  by (auto simp: setIPCooldownLocked_def cooling_until_def Let_def same_slots_def)

lemma same_slots_measured: "same_slots p q \<Longrightarrow> hasMeasuredIPLocked ip q = hasMeasuredIPLocked ip p"
  by (simp add: same_slots_def hasMeasuredIPLocked_def slot_states_def)

lemma same_slots_trans: "same_slots p q \<Longrightarrow> same_slots q r \<Longrightarrow> same_slots p r"
  by (simp add: same_slots_def)

text \<open>An address whose saved cooldown is to be restored.\<close>

definition restores :: "(string, time) fmap \<Rightarrow> time \<Rightarrow> string list \<Rightarrow> pool \<Rightarrow> netaddr \<Rightarrow> bool" where
  "restores m now raws p k \<longleftrightarrow>
     k \<noteq> None \<and> addr_string k \<in> set raws \<and> now < fm_get 0 m (addr_string k) \<and> hasMeasuredIPLocked k p"

lemma load_cooldowns_restored:
  assumes "\<forall>raw\<in>set raws. \<exists>k. raw = addr_string k"
  shows "same_slots p (load_cooldowns scope now m raws p) \<and>
     cooling_until (load_cooldowns scope now m raws p) s k =
       (if s = scope \<and> scope \<noteq> [] \<and> restores m now raws p k
        then max (cooling_until p s k) (fm_get 0 m (addr_string k)) else cooling_until p s k)"
  using assms
proof (induction raws arbitrary: p)
  case Nil
  then show ?case by (simp add: same_slots_def restores_def)
next
  case (Cons raw raws)
  obtain l where l: "raw = addr_string l" using Cons.prems by auto
  let ?u = "fm_get 0 m raw"
  have ih: "same_slots p' (load_cooldowns scope now m raws p') \<and>
      cooling_until (load_cooldowns scope now m raws p') s k =
       (if s = scope \<and> scope \<noteq> [] \<and> restores m now raws p' k
        then max (cooling_until p' s k) (fm_get 0 m (addr_string k)) else cooling_until p' s k)" for p'
    using Cons by simp
  show ?case
  proof (cases "\<exists>a. l = Some a \<and> now < ?u \<and> hasMeasuredIPLocked l p")
    case True
    then obtain a where a: "l = Some a" "now < ?u" "hasMeasuredIPLocked (Some a) p" by auto
    let ?q = "setIPCooldownLocked scope l ?u p"
    have "load_cooldowns scope now m (raw # raws) p = load_cooldowns scope now m raws ?q"
      using a by (simp add: l address_read_back Let_def del: addr_string.simps)
    moreover have "restores m now raws ?q k = restores m now raws p k"
      using same_slots_measured [OF set_cooldown(2)] by (simp add: restores_def)
    moreover have "restores m now (raw # raws) p k \<longleftrightarrow> k = l \<or> restores m now raws p k"
      using a by (auto simp: restores_def l addr_string_inj simp del: addr_string.simps)
    ultimately show ?thesis
      using ih [of ?q] set_cooldown [where t = scope and ip = l and u = ?u and p = p] same_slots_trans a(1)
      by (auto simp: l max_def simp del: addr_string.simps)
  next
    case False
    then have "load_cooldowns scope now m (raw # raws) p = load_cooldowns scope now m raws p"
      by (cases l) (auto simp: l address_read_back invalid_address Let_def simp del: addr_string.simps)
    moreover have "restores m now (raw # raws) p k \<longleftrightarrow> restores m now raws p k"
      using False by (auto simp: restores_def l addr_string_inj simp del: addr_string.simps)
    ultimately show ?thesis using ih [of p] by simp
  qed
qed

lemma load_preferred_same:
  "same_slots p (load_preferred scope now xs p) \<and> p_ipCooldowns (load_preferred scope now xs p) = p_ipCooldowns p"
  by (induction scope now xs p rule: load_preferred.induct)
    (auto simp: same_slots_def Let_def split: option.split if_splits)

lemma load_health_restored:
  assumes "distinct scopes"
    and "\<And>scope h raw. fmlookup (if_Health f) scope = Some h \<Longrightarrow> raw |\<in>| fmdom (ih_Cooldowns h) \<Longrightarrow>
      \<exists>l. raw = addr_string l"
  shows "same_slots p (load_health f now scopes p) \<and>
     cooling_until (load_health f now scopes p) s k =
       (case fmlookup (if_Health f) s of
          None \<Rightarrow> cooling_until p s k
        | Some h \<Rightarrow>
            if s \<in> set scopes \<and> s \<noteq> [] \<and>
              restores (ih_Cooldowns h) now (sorted_list_of_fset (fmdom (ih_Cooldowns h))) p k
            then max (cooling_until p s k) (fm_get 0 (ih_Cooldowns h) (addr_string k)) else cooling_until p s k)"
  using assms(1)
proof (induction scopes arbitrary: p)
  case Nil
  then show ?case by (simp add: same_slots_def split: option.split)
next
  case (Cons scope scopes)
  show ?case
  proof (cases "fmlookup (if_Health f) scope")
    case None
    then show ?thesis using Cons by (auto split: option.split)
  next
    case (Some h)
    let ?raws = "sorted_list_of_fset (fmdom (ih_Cooldowns h))"
    define p1 where "p1 = load_preferred scope now (ih_Preferred h) p"
    define p2 where "p2 = load_cooldowns scope now (ih_Cooldowns h) ?raws p1"
    have 1: "same_slots p p1" "cooling_until p1 s k = cooling_until p s k" for s k
      using load_preferred_same [of p scope now "ih_Preferred h"] by (simp_all add: p1_def cooling_until_def)
    have raws: "\<forall>raw\<in>set ?raws. \<exists>l. raw = addr_string l" using assms(2) [OF Some] by simp
    have r: "restores m now raws q k = restores m now raws p k" if "same_slots p q" for m raws q k
      using same_slots_measured [OF that] by (simp add: restores_def)
    have 2: "same_slots p p2"
      "cooling_until p2 s k = (if s = scope \<and> scope \<noteq> [] \<and> restores (ih_Cooldowns h) now ?raws p k
        then max (cooling_until p s k) (fm_get 0 (ih_Cooldowns h) (addr_string k)) else cooling_until p s k)" for s k
      using load_cooldowns_restored [OF raws, of p1 scope now "ih_Cooldowns h"] 1 same_slots_trans r
      by (auto simp: p2_def)
    have e: "load_health f now (scope # scopes) p = load_health f now scopes p2"
      using Some by (simp add: p1_def p2_def)
    have d: "distinct scopes" "scope \<notin> set scopes" using Cons.prems by auto
    show ?thesis
      unfolding e using Cons.IH [OF d(1), of p2] 2 same_slots_trans [OF 2(1)] r [OF 2(1)] d(2) Some
      by (auto split: option.split)
  qed
qed

section \<open>Writing the file\<close>

lemma saved_cooldowns_get:
  "fmlookup (saved_cooldowns ks m) (addr_string k) = (if k \<in> set ks then Some (the (fmlookup m k)) else None)"
  "t |\<in>| fmdom (saved_cooldowns ks m) \<Longrightarrow> \<exists>k. t = addr_string k"
proof -
  let ?f = "foldl (\<lambda>acc ip. fmupd (addr_string ip) (the (fmlookup m ip)) acc)"
  have g: "fmlookup (?f acc ks) (addr_string k) =
      (if k \<in> set ks then Some (the (fmlookup m k)) else fmlookup acc (addr_string k))" for acc
    by (induction ks arbitrary: acc) (auto simp: addr_string_inj simp del: addr_string.simps)
  then show "fmlookup (saved_cooldowns ks m) (addr_string k) = (if k \<in> set ks then Some (the (fmlookup m k)) else None)"
    by (simp add: saved_cooldowns_def)
  have d: "t |\<in>| fmdom (?f acc ks) \<Longrightarrow> t |\<in>| fmdom acc \<or> (\<exists>k. t = addr_string k)" for acc
  proof (induction ks arbitrary: acc)
    case (Cons k ks)
    from Cons.prems have "t |\<in>| fmdom (?f (fmupd (addr_string k) (the (fmlookup m k)) acc) ks)" by simp
    from Cons.IH [OF this] show ?case by auto
  qed simp
  then show "t |\<in>| fmdom (saved_cooldowns ks m) \<Longrightarrow> \<exists>k. t = addr_string k"
    using d [of fmempty] by (simp add: saved_cooldowns_def)
qed

lemma expired_cooling:
  "cooling_until (expireLocked now p) s k =
     (if cooling_until p s k < now then 0 else cooling_until p s k)"
proof (cases "fmlookup (p_ipCooldowns p) s")
  case None
  then show ?thesis by (simp add: cooling_until_def expireLocked_def fm_get_def)
next
  case (Some m)
  have "fm_get fmempty (p_ipCooldowns (expireLocked now p)) s = fm_keep (\<lambda>until. \<not> until < now) m"
    using Some by (simp add: expireLocked_def fm_get_def Let_def fm_size_0_iff)
  moreover have "fm_get fmempty (p_ipCooldowns p) s = m" using Some by (simp add: fm_get_def)
  ultimately show ?thesis
    unfolding cooling_until_def by (cases "fmlookup m k") (simp_all add: fm_get_def)
qed

lemma expired_keys:
  assumes "k |\<in>| fmdom (fm_get fmempty (p_ipCooldowns (expireLocked now p)) s)"
  shows "\<exists>m. fmlookup (p_ipCooldowns p) s = Some m \<and> k |\<in>| fmdom m"
  using assms
  by (auto simp: expireLocked_def fm_get_def Let_def fmlookup_dom_iff split: option.splits if_splits)

lemma expired_heap:
  "s_publicIP (p_heap (expireLocked now p) r) = s_publicIP (p_heap p r)"
  "s_spec (p_heap (expireLocked now p) r) = s_spec (p_heap p r)"
  by (simp_all add: expireLocked_def)

lemma add_specs_fresh:
  "add_specs sps p = Inr q \<Longrightarrow> p_ipCooldowns q = p_ipCooldowns p \<and>
     ((\<forall>r. s_publicIP (p_heap p r) = None) \<longrightarrow> (\<forall>r. s_publicIP (p_heap q r) = None)) \<and>
     ((\<forall>r. s_cooldowns (p_heap p r) = fmempty \<and> s_disabledUntil (p_heap p r) = 0) \<longrightarrow>
      (\<forall>r. s_cooldowns (p_heap q r) = fmempty \<and> s_disabledUntil (p_heap q r) = 0))"
  by (induction sps p rule: add_specs.induct)
    (auto simp: alloc_slot_def new_slot_state_def split: if_splits)

lemma new_pool_fresh:
  assumes "NewWithSpecs specs entries opts = Inr q"
  shows "cooling_until q s k = 0" and "s_publicIP (p_heap q r) = None"
    and "s_cooldowns (p_heap q r) = fmempty \<and> s_disabledUntil (p_heap q r) = 0"
proof -
  obtain q0 where "add_specs specs (empty_pool (applyDefaults opts) entries) = Inr q0" "q = q0\<lparr>p_order := sort (p_order q0)\<rparr>"
    using assms by (auto simp: NewWithSpecs_def split: if_splits sum.splits)
  from add_specs_fresh [OF this(1)] this(2) show "cooling_until q s k = 0" "s_publicIP (p_heap q r) = None"
    "s_cooldowns (p_heap q r) = fmempty \<and> s_disabledUntil (p_heap q r) = 0"
    by (simp_all add: empty_pool_def new_slot_state_def cooling_until_def)
qed

section \<open>A restart\<close>

text \<open>The cooldowns of a scope that are left at a time.\<close>

definition kept_cooldowns :: "pool \<Rightarrow> time \<Rightarrow> string \<Rightarrow> (netaddr, time) fmap" where
  "kept_cooldowns p now s = fm_get fmempty (p_ipCooldowns (expireLocked now p)) s"

text \<open>The cooldowns that are left in a scope are walked in some order, each once or more.\<close>

definition walks :: "((netaddr, time) fmap \<Rightarrow> netaddr list) \<Rightarrow> time \<Rightarrow> pool \<Rightarrow> bool" where
  "walks ips now p \<longleftrightarrow> (\<forall>s. set (ips (kept_cooldowns p now s)) = fset (fmdom (kept_cooldowns p now s)))"

lemma saved_file:
  assumes "SaveInventory ips now p = (Some f, p')"
  shows "if_Slots f = fmmap_keys
      (\<lambda>i r. (addr_string (s_publicIP (p_heap (expireLocked now p) r)), s_ipCheckedAt (p_heap (expireLocked now p) r)))
      (fm_keep (\<lambda>r. known_ip (p_heap (expireLocked now p) r)) (p_slots p))"
    and "fmlookup (if_Health f) s =
      (if s |\<in>| fmdom (p_preferred (expireLocked now p)) |\<union>| fmdom (p_ipCooldowns (expireLocked now p))
       then Some \<lparr>ih_Preferred = saved_ring (fm_get [] (p_preferred (expireLocked now p)) s),
           ih_Cooldowns = saved_cooldowns (ips (kept_cooldowns p now s)) (kept_cooldowns p now s)\<rparr> else None)"
  using assms
  by (auto simp: SaveInventory_def Let_def fmlookup_of_list map_of_map_restrict restrict_map_def kept_cooldowns_def
      split: if_splits)

lemma saved_ip_file:
  assumes "SaveInventory ips now p = (Some f, p')"
  shows "saved_ip f i = (case fmlookup (p_slots p) i of
      Some r0 \<Rightarrow> if known_ip (p_heap p r0) then s_publicIP (p_heap p r0) else None | None \<Rightarrow> None)"
proof -
  have known: "known_ip (p_heap (expireLocked now p) r) = known_ip (p_heap p r)" for r
    by (simp add: known_ip_def expired_heap)
  have "parse_addr (addr_string (s_publicIP (p_heap p r))) = s_publicIP (p_heap p r)" if k: "known_ip (p_heap p r)" for r
  proof -
    obtain a where "s_publicIP (p_heap p r) = Some a" using k by (auto simp: known_ip_def)
    then show ?thesis using address_read_back by metis
  qed
  then show ?thesis
    by (simp add: saved_ip_def saved_file(1) [OF assms(1)] known expired_heap split: option.split)
qed

lemma saved_until:
  assumes "walks ips now p"
  shows "fm_get 0 (saved_cooldowns (ips (kept_cooldowns p now s)) (kept_cooldowns p now s)) (addr_string k) =
     cooling_until (expireLocked now p) s k"
proof -
  have "k \<in> set (ips (kept_cooldowns p now s)) \<longleftrightarrow> fmlookup (kept_cooldowns p now s) k \<noteq> None"
    using assms by (auto simp: walks_def fmlookup_dom_iff)
  then show ?thesis
    unfolding fm_get_def saved_cooldowns_get(1)
    by (auto simp: fm_get_def cooling_until_def kept_cooldowns_def split: option.split)
qed

text \<open>An address of the file is restored when its cooldown is still to come and a slot has it.\<close>

lemma restores_saved:
  fixes p now
  assumes "walks ips now p" and "0 \<le> later"
  defines "m \<equiv> \<lambda>s. saved_cooldowns (ips (kept_cooldowns p now s)) (kept_cooldowns p now s)"
  shows "restores (m s) later (sorted_list_of_fset (fmdom (m s))) q k \<longleftrightarrow>
      k \<noteq> None \<and> later < cooling_until (expireLocked now p) s k \<and> hasMeasuredIPLocked k q"
    and "fm_get 0 (m s) (addr_string k) = cooling_until (expireLocked now p) s k"
proof -
  show u: "fm_get 0 (m s) (addr_string k) = cooling_until (expireLocked now p) s k"
    unfolding m_def by (rule saved_until [OF assms(1)])
  have "addr_string k |\<in>| fmdom (m s)" if "later < cooling_until (expireLocked now p) s k"
    using that assms(2) unfolding u [symmetric] by (auto simp: fm_get_def intro: fmdomI split: option.splits)
  then show "restores (m s) later (sorted_list_of_fset (fmdom (m s))) q k \<longleftrightarrow>
      k \<noteq> None \<and> later < cooling_until (expireLocked now p) s k \<and> hasMeasuredIPLocked k q"
    unfolding restores_def u by auto
qed

lemma restart_cooldowns:
  assumes "SaveInventory ips now p = (Some f, p')" and "walks ips now p" and "now \<le> later" and "0 \<le> later"
    and "cooling_until p1 s k = 0"
  defines "q' \<equiv> load_health f later (sorted_list_of_fset (fmdom (if_Health f))) p1"
  shows "same_slots p1 q' \<and> cooling_until q' s k =
      (if s \<noteq> [] \<and> k \<noteq> None \<and> later < cooling_until p s k \<and> hasMeasuredIPLocked k q' then cooling_until p s k else 0)"
proof -
  have d: "distinct (sorted_list_of_fset (fmdom (if_Health f)))" by (simp add: sorted_list_of_fset.rep_eq)
  have raws: "\<exists>l. raw = addr_string l"
    if "fmlookup (if_Health f) s = Some h" "raw |\<in>| fmdom (ih_Cooldowns h)" for s h raw
    using that saved_cooldowns_get(2) by (auto simp: saved_file(2) [OF assms(1)] split: if_splits)
  have l: "same_slots p1 q' \<and> cooling_until q' s k =
       (case fmlookup (if_Health f) s of
          None \<Rightarrow> cooling_until p1 s k
        | Some h \<Rightarrow>
            if s \<in> set (sorted_list_of_fset (fmdom (if_Health f))) \<and> s \<noteq> [] \<and>
              restores (ih_Cooldowns h) later (sorted_list_of_fset (fmdom (ih_Cooldowns h))) p1 k
            then max (cooling_until p1 s k) (fm_get 0 (ih_Cooldowns h) (addr_string k)) else cooling_until p1 s k)"
    for s k
    unfolding q'_def by (rule load_health_restored [OF d]) (rule raws)
  have later: "later < cooling_until (expireLocked now p) s k \<longleftrightarrow> later < cooling_until p s k"
    "later < cooling_until p s k \<Longrightarrow> cooling_until (expireLocked now p) s k = cooling_until p s k"
    using assms(3,4) by (auto simp: expired_cooling)
  have m: "same_slots p1 q'" using l by blast
  show ?thesis
  proof (cases "s |\<in>| fmdom (p_preferred (expireLocked now p)) |\<union>| fmdom (p_ipCooldowns (expireLocked now p))")
    case True
    then have h: "fmlookup (if_Health f) s = Some \<lparr>ih_Preferred = saved_ring (fm_get [] (p_preferred (expireLocked now p)) s),
        ih_Cooldowns = saved_cooldowns (ips (kept_cooldowns p now s)) (kept_cooldowns p now s)\<rparr>"
      by (simp add: saved_file(2) [OF assms(1)])
    then have "s \<in> set (sorted_list_of_fset (fmdom (if_Health f)))" by (simp add: fmdomI)
    then show ?thesis
      using l [of s k] later assms(4,5) same_slots_measured [OF m] m
      by (auto simp: h restores_saved [OF assms(2,4)] max_def simp del: addr_string.simps)
  next
    case False
    then have "cooling_until (expireLocked now p) s k = 0"
      by (auto simp: cooling_until_def fm_get_def fmdom_notD)
    then show ?thesis using l [of s k] later assms(4,5) m False by (auto simp: saved_file(2) [OF assms(1)])
  qed
qed

lemma saves_known:
  assumes "fmlookup (p_slots p) i = Some r" and "known_ip (p_heap p r)"
  shows "SaveInventory ips now p = (Some (the (fst (SaveInventory ips now p))), expireLocked now p)"
proof -
  have "known_ip (p_heap (expireLocked now p) r)" using assms(2) by (simp add: known_ip_def expired_heap)
  then have "i |\<in>| fmdom (fm_keep (\<lambda>r. known_ip (p_heap (expireLocked now p) r)) (p_slots p))"
    using assms(1) by (auto simp: fmlookup_dom_iff)
  then show ?thesis by (auto simp: SaveInventory_def Let_def fm_size_def)
qed

text \<open>
  C9: a restart forgets no measured address and no cooldown of an address that still matters, and it forgets all other health. A pool
  built from any slots and given the file that
  the old pool saved knows for each slot the address the old pool had measured for it (unless its exit rotates), and
  nothing else; an address, IPv4 or IPv6, that was kept out of a scope until a time that is still to come, and that is
  the address of one of the slots, is kept out of it until this very time, and no other address is. The cooldowns that a slot itself was
  given by reports, for destinations or as a whole, are not in the file: after the restart no slot has any, so a slot whose
  address is unknown or rotates is offered again at once.
\<close>

theorem restart_remembers:
  assumes "SaveInventory ips now p = (Some f, p')" and "walks ips now p" and "now \<le> later" and "0 \<le> later"
    and "NewWithSpecs specs entries opts = Inr q" and "LoadInventory (Some (Inr f)) later q = (res, q')"
  shows "(\<forall>i r. fmlookup (p_slots q) i = Some r \<longrightarrow>
       s_publicIP (p_heap q' r) =
         (case fmlookup (p_slots p) i of
            Some r0 \<Rightarrow> if known_ip (p_heap p r0) then s_publicIP (p_heap p r0) else None
          | None \<Rightarrow> None)) \<and>
     (\<forall>scope ip. cooling_until q' scope ip =
       (if scope \<noteq> [] \<and> ip \<noteq> None \<and> later < cooling_until p scope ip \<and> hasMeasuredIPLocked ip q'
        then cooling_until p scope ip else 0)) \<and>
     (\<forall>r. s_cooldowns (p_heap q' r) = fmempty \<and> s_disabledUntil (p_heap q' r) = 0)"
proof -
  obtain n p1 where l: "load_slots f later (sorted_list_of_fset (fmdom (if_Slots f))) 0 q = (n, p1)"
    and q': "q' = load_health f later (sorted_list_of_fset (fmdom (if_Health f))) p1"
    using assms(6) by (auto simp: LoadInventory_def split: prod.splits)
  have "named (p_slots q) q" using NewWithSpecs_ok(1) [OF assms(5)] by (simp add: new_ok_def)
  note slots = load_slots_restored [OF l this]
  have "cooling_until p1 s k = 0" for s k
    using slots new_pool_fresh(1) [OF assms(5)] by (simp add: cooling_until_def)
  note cool = restart_cooldowns [OF assms(1-4) this, folded q']
  have "s_publicIP (p_heap q' r) = saved_ip f i" if "fmlookup (p_slots q) i = Some r" for i r
    using slots that new_pool_fresh(2) [OF assms(5)] cool
    by (cases "fmlookup (if_Slots f) i") (auto simp: saved_ip_def same_slots_def dest: fmdomI)
  moreover have "s_cooldowns (p_heap q' r) = fmempty \<and> s_disabledUntil (p_heap q' r) = 0" for r
    using cool load_slots_else [OF l, of r] new_pool_fresh(3) [OF assms(5)] by (simp add: same_slots_def)
  ultimately show ?thesis using cool saved_ip_file [OF assms(1)] by simp
qed

text \<open>A pool whose exits have the address 1.2.3.4, kept out of one scope until time 100.\<close>

definition cooled_pool :: pool where
  "cooled_pool = demo_pool
     \<lparr>p_heap := (\<lambda>r. (p_heap demo_pool r)\<lparr>s_publicIP := Some (V4 16909060)\<rparr>),
      p_ipCooldowns := fmupd ''site'' (fmupd (Some (V4 16909060)) 100 fmempty) fmempty\<rparr>"

definition cooled_ips :: "(netaddr, time) fmap \<Rightarrow> netaddr list" where
  "cooled_ips m = List.filter (\<lambda>k. k |\<in>| fmdom m) [Some (V4 16909060)]"

definition cooled_file :: inventoryFile where
  "cooled_file = the (fst (SaveInventory cooled_ips 5 cooled_pool))"

lemma cooled_cooldowns:
  "fmlookup (p_ipCooldowns cooled_pool) s = Some m \<Longrightarrow> k |\<in>| fmdom m \<Longrightarrow> k = Some (V4 16909060)"
  "s_publicIP (p_heap cooled_pool r) = Some (V4 16909060)"
  by (auto simp: cooled_pool_def split: if_splits)

lemma cooled_walks: "walks cooled_ips 5 cooled_pool"
proof -
  have "k = Some (V4 16909060)" if "k |\<in>| fmdom (kept_cooldowns cooled_pool 5 s)" for s k
    using expired_keys [of k 5 cooled_pool s] that cooled_cooldowns(1) by (auto simp: kept_cooldowns_def)
  then have "set (cooled_ips (kept_cooldowns cooled_pool 5 s)) = fset (fmdom (kept_cooldowns cooled_pool 5 s))" for s
    unfolding cooled_ips_def by (simp only: set_filter) fastforce
  then show ?thesis unfolding walks_def by blast
qed

lemma cooled_saves: "SaveInventory cooled_ips 5 cooled_pool = (Some cooled_file, expireLocked 5 cooled_pool)"
proof -
  have "fmlookup (p_slots cooled_pool) ''a'' = Some 1" "known_ip (p_heap cooled_pool 1)" by code_simp+
  from saves_known [OF this] show ?thesis by (simp add: cooled_file_def)
qed

theorem restart_remembers_witness:
  "cooling_until (snd (LoadInventory (Some (Inr cooled_file)) 10 demo_pool)) ''site'' (Some (V4 16909060)) = 100"
proof -
  let ?r = "LoadInventory (Some (Inr cooled_file)) 10 demo_pool"
  have "cooling_until (snd ?r) ''site'' (Some (V4 16909060)) =
     (if ''site'' \<noteq> [] \<and> Some (V4 16909060) \<noteq> None \<and> 10 < cooling_until cooled_pool ''site'' (Some (V4 16909060)) \<and>
       hasMeasuredIPLocked (Some (V4 16909060)) (snd ?r)
      then cooling_until cooled_pool ''site'' (Some (V4 16909060)) else 0)"
    using restart_remembers [OF cooled_saves cooled_walks _ _ demo_new, of 10 "fst ?r" "snd ?r"] by simp
  moreover have "cooling_until cooled_pool ''site'' (Some (V4 16909060)) = 100"
    by (simp add: cooling_until_def cooled_pool_def fm_get_def)
  moreover have "hasMeasuredIPLocked (Some (V4 16909060)) (snd ?r)" by code_simp
  ultimately show ?thesis by simp
qed

end
