(* ===== verification/Dialers.thy ===== *)
theory Dialers
  imports Feedback Socksdial Samples
begin

text \<open>
  How a slot is dialed: \<open>ensureDialer\<close> (\<open>internal/pool/pool.go\<close>) with the dialers it hands out, a WireGuard tunnel, the SOCKS5
  proxy of a relay behind an entry tunnel (\<open>internal/pool/entry.go\<close>), and the SOCKS5 proxy of a direct slot
  (\<open>internal/pool/direct_socks.go\<close>). The base of a direct dialer is the host's own network.
\<close>

definition dialerForDirectSocks :: "ref \<Rightarrow> pool \<Rightarrow> socks_dialer" where
  "dialerForDirectSocks r p =
     (let sp = s_spec (p_heap p r)
      in \<lparr>sd_hasBase = True, sd_ProxyAddr = sp_SocksAddr sp, sd_Timeout = HandshakeTimeout (p_opts p),
          sd_Username = sp_socksUsername sp, sd_Password = sp_socksPassword sp\<rparr>)"

text \<open>The dialer that \<open>dialerForSocksSlot\<close> puts on the tunnel of an entry: without credentials.\<close>

definition relayDialer :: "ref \<Rightarrow> pool \<Rightarrow> socks_dialer" where
  "relayDialer r p =
     \<lparr>sd_hasBase = True, sd_ProxyAddr = sp_SocksAddr (s_spec (p_heap p r)), sd_Timeout = HandshakeTimeout (p_opts p),
      sd_Username = [], sd_Password = []\<rparr>"

text \<open>A tunnel, a proxy through the tunnel of an entry, or a proxy from the host.\<close>

datatype dialer = Through nat | ViaEntry socks_dialer nat | FromHost socks_dialer

text \<open>
  \<open>opens\<close> gives the tunnel of an entry, \<open>inp\<close> the inputs of the slot's own tunnel; \<open>None\<close> is the wait for a tunnel that
  another goroutine is opening.
\<close>

definition ensureDialer ::
  "(nat \<Rightarrow> pool \<Rightarrow> (pool_error + nat) \<times> pool) \<Rightarrow> rat \<Rightarrow> open_input \<Rightarrow> ref \<Rightarrow> pool
     \<Rightarrow> (pool_error + dialer \<times> string) option \<times> pool" where
  "ensureDialer opens draw inp r p =
     (case sp_Kind (s_spec (p_heap p r)) of
        KindRelaySocks \<Rightarrow>
          (case dialerForSocksSlot opens draw (oi_now inp) r p of
             (Inl e, p) \<Rightarrow> (Some (Inl e), p)
           | (Inr (i, t, entry), p) \<Rightarrow> (Some (Inr (ViaEntry (relayDialer r p) t, entry)), p))
      | KindDirectSocks \<Rightarrow> (Some (Inr (FromHost (dialerForDirectSocks r p), [])), p)
      | KindWireGuard \<Rightarrow>
          (case ensureOpen (oi_ctxErr inp) (oi_ctxErr' inp) (oi_result inp) (oi_ord inp) (oi_now inp) r p of
             (None, p) \<Rightarrow> (None, p)
           | (Some (Inl e), p) \<Rightarrow> (Some (Inl e), p)
           | (Some (Inr t), p) \<Rightarrow> (Some (Inr (Through t, [])), p)))"

definition direct_user :: "direct_options \<Rightarrow> string \<Rightarrow> string" where
  "direct_user d username = (if d_Session d = [] then username else username @ ''-session-'' @ d_Session d)"

lemma direct_spec_dialer:
  assumes "NewDirectSocksSpec d = Inr sp" and "s_spec (p_heap p r) = sp"
  shows "\<exists>username password. d_URL d = Some (Some (username, Some password), sp_SocksAddr sp) \<and>
     dialerForDirectSocks r p = \<lparr>sd_hasBase = True, sd_ProxyAddr = sp_SocksAddr sp,
       sd_Timeout = HandshakeTimeout (p_opts p), sd_Username = direct_user d username, sd_Password = password\<rparr> \<and>
     username \<noteq> [] \<and> password \<noteq> []"
proof -
  have "\<exists>username password. d_URL d = Some (Some (username, Some password), sp_SocksAddr sp) \<and>
      sp_socksUsername sp = direct_user d username \<and> sp_socksPassword sp = password \<and> username \<noteq> [] \<and> password \<noteq> []"
    using assms(1)
    by (auto simp: NewDirectSocksSpec_def direct_user_def split: option.splits if_splits prod.splits)
  then show ?thesis by (auto simp: dialerForDirectSocks_def assms(2))
qed

text \<open>
  A direct slot is dialed with the account of its session, and a relay is dialed with none. When the dial through the slot of a
  provider succeeds, the client has offered password authentication only and has said the user name of the
  provider's URL, extended by the name of the session, and its password; the negotiation with a relay sends no credentials.
\<close>

theorem direct_dial_authenticates:
  assumes "NewDirectSocksSpec d = Inr sp" and "s_spec (p_heap p r) = sp"
    and "exchange (dialerForDirectSocks r p) host port l = (Inr (), l')"
  shows "\<exists>username password address request. d_URL d = Some (Some (username, Some password), address) \<and>
     buildConnect host port = Inr request \<and> length (direct_user d username) \<le> 255 \<and> length password \<le> 255 \<and>
     k_out l' = k_out l @ [socks_version, CHR 0x01, method_user_pass] @
       (auth_version # char_of (length (direct_user d username)) # direct_user d username @
        char_of (length password) # password) @ request"
    and "exchange (relayDialer r p) host port l = (Inr (), l'') \<Longrightarrow>
     \<exists>request. buildConnect host port = Inr request \<and>
       k_out l'' = k_out l @ [socks_version, CHR 0x01, method_no_auth] @ request"
proof -
  obtain username password where u: "d_URL d = Some (Some (username, Some password), sp_SocksAddr sp)"
    "dialerForDirectSocks r p = \<lparr>sd_hasBase = True, sd_ProxyAddr = sp_SocksAddr sp,
       sd_Timeout = HandshakeTimeout (p_opts p), sd_Username = direct_user d username, sd_Password = password\<rparr>"
    "username \<noteq> []" "password \<noteq> []"
    using direct_spec_dialer [OF assms(1,2)] by blast
  have "has_credentials (dialerForDirectSocks r p)" using u by (simp add: has_credentials_def)
  then show "\<exists>username password address request. d_URL d = Some (Some (username, Some password), address) \<and>
     buildConnect host port = Inr request \<and> length (direct_user d username) \<le> 255 \<and> length password \<le> 255 \<and>
     k_out l' = k_out l @ [socks_version, CHR 0x01, method_user_pass] @
       (auth_version # char_of (length (direct_user d username)) # direct_user d username @
        char_of (length password) # password) @ request"
    using assms(3) u unfolding exchange_iff
    by (auto simp: client_says_def auth_message_def bad_credentials_def not_less)
  assume "exchange (relayDialer r p) host port l = (Inr (), l'')"
  then show "\<exists>request. buildConnect host port = Inr request \<and>
       k_out l'' = k_out l @ [socks_version, CHR 0x01, method_no_auth] @ request"
    unfolding exchange_iff by (auto simp: client_says_def relayDialer_def has_credentials_def)
qed

end
