(* ===== verification/Sweep.thy ===== *)
theory Sweep
  imports Limits
begin

text \<open>
  \<open>Probe\<close> (\<open>internal/pool/inventory.go\<close>): a sweep over the slots that measures the address of each. One goroutine per
  target waits for the semaphore, builds a dialer, asks for its address and reports a row. The events
  of the goroutines come in any order; between two events of one goroutine any others may act.
\<close>

section \<open>One goroutine\<close>

record probe_row =
  rr_Slot :: string
  rr_Country :: string
  rr_City :: string
  rr_Endpoint :: string
  rr_PublicIP :: string
  rr_Latency :: duration
  rr_Err :: string

text \<open>The row of a target that was never probed.\<close>

definition no_row :: probe_row where
  "no_row = \<lparr>rr_Slot = [], rr_Country = [], rr_City = [], rr_Endpoint = [], rr_PublicIP = [], rr_Latency = 0,
     rr_Err = []\<rparr>"

text \<open>
  What the surroundings give a goroutine: the inputs of its tunnel and of each entry it may try (and what an
  opening it has to wait for brings), the draw of the entry order, the outcome of \<open>FetchPublicIP\<close>, and the
  times at which it starts and at which it has its result.
\<close>

record prober =
  pb_open :: open_input
  pb_entry :: "nat \<Rightarrow> open_input"
  pb_waited :: "nat \<Rightarrow> pool_error + nat"
  pb_draw :: rat
  pb_ip :: "pool_error + addr option"
  pb_started :: time
  pb_ended :: time

definition entry_opens :: "prober \<Rightarrow> nat \<Rightarrow> pool \<Rightarrow> (pool_error + nat) \<times> pool" where
  "entry_opens w k p =
     (let i = pb_entry w k
      in case ensureEntryOpen (oi_ctxErr i) (oi_ctxErr' i) (oi_result i) (oi_ord i) (oi_now i) k p of
           (Some res, p) \<Rightarrow> (res, p)
         | (None, p) \<Rightarrow> (pb_waited w k, p))"

text \<open>A goroutine that has begun waits for its own tunnel, or measures, with a tunnel to close afterwards or without.\<close>

datatype stage = OpeningTunnel | Measuring bool

definition holds_tunnel :: "stage \<Rightarrow> bool" where
  "holds_tunnel st \<longleftrightarrow> st \<noteq> Measuring False"

definition probeDialer :: "prober \<Rightarrow> ref \<Rightarrow> pool \<Rightarrow> (pool_error + stage) \<times> pool" where
  "probeDialer w r p =
     (case sp_Kind (s_spec (p_heap p r)) of
        KindRelaySocks \<Rightarrow>
          (case dialerForSocksSlot (entry_opens w) (pb_draw w) (pb_started w) r p of
             (Inl e, p) \<Rightarrow> (Inl e, p)
           | (Inr _, p) \<Rightarrow> (Inr (Measuring False), p))
      | KindDirectSocks \<Rightarrow> (Inr (Measuring False), p)
      | KindWireGuard \<Rightarrow>
          (let i = pb_open w
           in case probeDialer_enter (oi_ctxErr i) (oi_ord i) (oi_now i) p of
                (Some e, p) \<Rightarrow> (Inl e, p)
              | (None, p) \<Rightarrow>
                  (case oi_ctxErr' i of
                     Some e \<Rightarrow> (Inl e, probeDialer_abort p)
                   | None \<Rightarrow> (Inr OpeningTunnel, commitTunnelOpen (oi_now i) p))))"

text \<open>The tunnel is up, or it failed and the capacity is given back.\<close>

definition probe_opened :: "prober \<Rightarrow> pool \<Rightarrow> (pool_error + stage) \<times> pool" where
  "probe_opened w p =
     (case oi_result (pb_open w) of
        Inl e \<Rightarrow> (Inl e, releaseProbeCapacity p)
      | Inr _ \<Rightarrow> (Inr (Measuring True), p))"

definition row_of :: "prober \<Rightarrow> spec \<Rightarrow> string \<Rightarrow> string \<Rightarrow> probe_row" where
  "row_of w sp ip err =
     \<lparr>rr_Slot = sp_ID sp, rr_Country = sp_Country sp, rr_City = sp_City sp, rr_Endpoint = spec_Target sp,
      rr_PublicIP = ip, rr_Latency = pb_ended w - pb_started w, rr_Err = err\<rparr>"

definition probe_failed :: "prober \<Rightarrow> pool_error \<Rightarrow> ref \<Rightarrow> pool \<Rightarrow> probe_row \<times> pool" where
  "probe_failed w e r p =
     (row_of w (s_spec (p_heap p r)) [] (redactedError e), probe_result (Inl e) (pb_ended w) r p)"

definition probe_measured :: "prober \<Rightarrow> bool \<Rightarrow> ref \<Rightarrow> pool \<Rightarrow> probe_row \<times> pool" where
  "probe_measured w closer r p =
     (case pb_ip w of
        Inl e \<Rightarrow> probe_failed w e r (if closer then releaseProbeCapacity p else p)
      | Inr ip \<Rightarrow>
          let q = probe_result (Inr ip) (pb_ended w) r p
          in (row_of w (s_spec (p_heap p r)) (addr_string ip) [], if closer then releaseProbeCapacity q else q))"

section \<open>The sweep\<close>

record sweep =
  sw_Pool :: pool
  sw_Waiting :: "nat fset"
  sw_Running :: "(nat, stage) fmap"
  sw_Rows :: "probe_row list"

text \<open>A goroutine leaves when the context ends before it holds the semaphore, or before it is spawned.\<close>

datatype probe_event = Begins nat | Leaves nat | Opened nat | Ends nat

definition probe_limit :: "int \<Rightarrow> nat" where
  "probe_limit concurrency = (if concurrency \<le> 0 then 8 else nat concurrency)"

definition sweep_start :: "ref list \<Rightarrow> pool \<Rightarrow> sweep" where
  "sweep_start targets p =
     \<lparr>sw_Pool = p, sw_Waiting = fset_of_list [0..<length targets], sw_Running = fmempty,
      sw_Rows = replicate (length targets) no_row\<rparr>"

definition sweep_report :: "nat \<Rightarrow> probe_row \<times> pool \<Rightarrow> sweep \<Rightarrow> sweep" where
  "sweep_report i out s =
     s\<lparr>sw_Pool := snd out, sw_Running := fmdrop i (sw_Running s), sw_Rows := (sw_Rows s)[i := fst out]\<rparr>"

text \<open>What the dialer of a target brings: the next stage, or the row of a failure.\<close>

definition sweep_dialed :: "prober \<Rightarrow> ref \<Rightarrow> nat \<Rightarrow> (pool_error + stage) \<times> pool \<Rightarrow> sweep \<Rightarrow> sweep" where
  "sweep_dialed w r i out s =
     (case out of
        (Inl e, p) \<Rightarrow> sweep_report i (probe_failed w e r p) s
      | (Inr st, p) \<Rightarrow> s\<lparr>sw_Pool := p, sw_Running := fmupd i st (sw_Running s)\<rparr>)"

fun sweep_step :: "(nat \<Rightarrow> prober) \<Rightarrow> int \<Rightarrow> ref list \<Rightarrow> probe_event \<Rightarrow> sweep \<Rightarrow> sweep" where
  "sweep_step ws concurrency targets (Begins i) s =
     (if i |\<in>| sw_Waiting s \<and> fm_size (sw_Running s) < probe_limit concurrency
      then sweep_dialed (ws i) (targets ! i) i (probeDialer (ws i) (targets ! i) (sw_Pool s))
             (s\<lparr>sw_Waiting := sw_Waiting s |-| {|i|}\<rparr>)
      else s)"
| "sweep_step ws concurrency targets (Leaves i) s = s\<lparr>sw_Waiting := sw_Waiting s |-| {|i|}\<rparr>"
| "sweep_step ws concurrency targets (Opened i) s =
     (if fmlookup (sw_Running s) i = Some OpeningTunnel
      then sweep_dialed (ws i) (targets ! i) i (probe_opened (ws i) (sw_Pool s)) s else s)"
| "sweep_step ws concurrency targets (Ends i) s =
     (case fmlookup (sw_Running s) i of
        Some (Measuring closer) \<Rightarrow> sweep_report i (probe_measured (ws i) closer (targets ! i) (sw_Pool s)) s
      | _ \<Rightarrow> s)"

definition sweep_run :: "(nat \<Rightarrow> prober) \<Rightarrow> int \<Rightarrow> ref list \<Rightarrow> probe_event list \<Rightarrow> sweep \<Rightarrow> sweep" where
  "sweep_run ws concurrency targets evs s = foldl (\<lambda>s ev. sweep_step ws concurrency targets ev s) s evs"

definition Probe ::
  "(nat \<Rightarrow> prober) \<Rightarrow> probe_event list \<Rightarrow> int \<Rightarrow> probeOptions \<Rightarrow> pool \<Rightarrow> sweep" where
  "Probe ws evs concurrency opts p =
     (let targets = probe_targets opts p in sweep_run ws concurrency targets evs (sweep_start targets p))"

section \<open>Probe tunnels are given back\<close>

definition tunnel_books :: "pool \<Rightarrow> nat \<times> nat" where
  "tunnel_books p = (p_pendingTunnelOpens p, p_probeTunnels p)"

lemma tunnel_books_calm: "calm now p q \<Longrightarrow> tunnel_books q = tunnel_books p"
  by (simp add: calm_def calm_heap_def tunnel_books_def)

lemma tunnel_books_ops [simp]:
  "tunnel_books (releaseProbeCapacity p) = (p_pendingTunnelOpens p, p_probeTunnels p - 1)"
  "tunnel_books (commitTunnelOpen now p) = (p_pendingTunnelOpens p - 1, p_probeTunnels p)"
  "tunnel_books (rollbackTunnelOpen p) = (p_pendingTunnelOpens p - 1, p_probeTunnels p)"
  "tunnel_books (probe_result res now r p) = tunnel_books p"
  "tunnel_books (upd_entry i f p) = tunnel_books p"
  using tunnel_books_calm [OF probe_result_calm]
  by (simp_all add: tunnel_books_def releaseProbeCapacity_def commitTunnelOpen_def rollbackTunnelOpen_def
      pruneOpensLocked_def upd_entry_def)

lemma entry_enter_books:
  assumes "ensureEntryOpen_enter ce ord now i p = (res, q)"
  shows "tunnel_books q = (p_pendingTunnelOpens p + (if res = EnterOpening then 1 else 0), p_probeTunnels p)"
proof (cases "res = EnterOpening")
  case True
  then obtain p2 where p2: "granted ord now p p2"
    "q = upd_entry i (\<lambda>e. e\<lparr>e_opening := True\<rparr>) (p2\<lparr>p_pendingTunnelOpens := Suc (p_pendingTunnelOpens p2)\<rparr>)"
    using ensureEntryOpen_enter_cases [OF assms] by blast
  then show ?thesis using True tunnel_books_calm [OF granted_calm [OF p2(1)]] by (simp add: tunnel_books_def)
next
  case False
  then have "calm now p q" using ensureEntryOpen_enter_cases [OF assms] by blast
  then show ?thesis using False tunnel_books_calm by (simp add: tunnel_books_def)
qed

lemma entry_finish_books [simp]: "tunnel_books (ensureEntryOpen_finish res now i p) = tunnel_books p"
  by (cases res) (simp_all add: ensureEntryOpen_finish_def Let_def observeEntryOpenFailureLocked_def tunnel_books_def upd_entry_def)

lemma ensureEntryOpen_books:
  assumes "ensureEntryOpen ce ce' res ord now i p = (out, q)"
  shows "tunnel_books q = tunnel_books p"
proof -
  obtain er p1 where e: "ensureEntryOpen_enter ce ord now i p = (er, p1)" by fastforce
  note b = entry_enter_books [OF e, unfolded tunnel_books_def]
  show ?thesis
    using assms b
    by (cases er)
      (auto simp: ensureEntryOpen_def e ensureEntryOpen_abort_def tunnel_books_def [of p] split: option.splits,
       simp_all add: tunnel_books_def)
qed

lemma try_entries_books: "try_entries (entry_opens w) e is p = (out, q) \<Longrightarrow> tunnel_books q = tunnel_books p"
proof (induction "entry_opens w" e "is" p rule: try_entries.induct)
  case (2 lastErr i "is" p)
  then show ?case
    using ensureEntryOpen_books
    by (auto simp: entry_opens_def Let_def split: prod.splits sum.splits option.splits)
qed simp

definition held :: "(nat, stage) fmap \<Rightarrow> nat" where
  "held m = fm_size (fm_keep holds_tunnel m)"

lemma probeDialer_books:
  assumes "probeDialer w r p = (out, q)"
  shows "tunnel_books q = (p_pendingTunnelOpens p,
     p_probeTunnels p + (case out of Inr st \<Rightarrow> if holds_tunnel st then 1 else 0 | Inl _ \<Rightarrow> 0))"
proof (cases "sp_Kind (s_spec (p_heap p r))")
  case KindWireGuard
  then show ?thesis
    using assms probeDialer_enter_cases [of "oi_ctxErr (pb_open w)" "oi_ord (pb_open w)" "oi_now (pb_open w)" p]
    by (auto simp: probeDialer_def Let_def probeDialer_abort_def holds_tunnel_def tunnel_books_def
        releaseProbeCapacity_def rollbackTunnelOpen_def commitTunnelOpen_def pruneOpensLocked_def
        split: prod.splits option.splits dest!: tunnel_books_calm granted_calm)
next
  case KindRelaySocks
  then show ?thesis
    using assms
    by (auto simp: probeDialer_def dialerForSocksSlot_def Let_def holds_tunnel_def tunnel_books_def
        split: prod.splits sum.splits if_splits dest!: try_entries_books)
next
  case KindDirectSocks
  then show ?thesis using assms by (auto simp: probeDialer_def holds_tunnel_def tunnel_books_def)
qed

section \<open>The slots of a pool keep their names\<close>

lemma sane_ids: "sane p q \<Longrightarrow> ids q = ids p" and quiet_ids: "quiet p q \<Longrightarrow> ids q = ids p"
  by (simp_all add: sane_def quiet_def)

lemma ids_ops [simp]:
  "ids (probe_result res now r p) = ids p"
  "ids (releaseProbeCapacity p) = ids p"
  "ids (rollbackTunnelOpen p) = ids p"
  "ids (commitTunnelOpen now p) = ids p"
  using sane_ids [OF probe_result_sane]
  by (simp_all add: ids_def releaseProbeCapacity_def rollbackTunnelOpen_def commitTunnelOpen_def pruneOpensLocked_def)

lemma ensureEntryOpen_ids: "ensureEntryOpen ce ce' res ord now i p = (out, q) \<Longrightarrow> ids q = ids p"
  by (rule quiet_ids)
    (auto simp: ensureEntryOpen_def frame split: prod.splits enter.splits option.splits
      dest!: ensureEntryOpen_enter_quiet)

lemma try_entries_ids: "try_entries (entry_opens w) e is p = (out, q) \<Longrightarrow> ids q = ids p"
proof (induction "entry_opens w" e "is" p rule: try_entries.induct)
  case (2 lastErr i "is" p)
  then show ?case
    using ensureEntryOpen_ids
    by (fastforce simp: entry_opens_def Let_def split: prod.splits sum.splits option.splits)
qed simp

lemma probeDialer_ids: "probeDialer w r p = (out, q) \<Longrightarrow> ids q = ids p"
  by (auto simp: probeDialer_def probeDialer_abort_def dialerForSocksSlot_def Let_def
      split: kind.splits prod.splits option.splits sum.splits if_splits
      dest!: quiet_ids [OF probeDialer_enter_quiet] try_entries_ids)

lemma ids_name: "ids q = ids p \<Longrightarrow> sp_ID (s_spec (p_heap q r)) = sp_ID (s_spec (p_heap p r))"
  by (auto simp: ids_def slot_ID_def fun_eq_iff)

section \<open>What every event keeps\<close>

text \<open>A row that names an address: the goroutine of this target measured it, and there is no error.\<close>

definition row_true :: "prober \<Rightarrow> string \<Rightarrow> probe_row \<Rightarrow> bool" where
  "row_true w name row \<longleftrightarrow>
     row = no_row \<or>
     rr_Slot row = name \<and>
       (case pb_ip w of
          Inr ip \<Rightarrow> rr_PublicIP row = [] \<or> rr_PublicIP row = addr_string ip \<and> rr_Err row = []
        | Inl _ \<Rightarrow> rr_PublicIP row = [])"

definition rows_true :: "(nat \<Rightarrow> prober) \<Rightarrow> (nat \<Rightarrow> string) \<Rightarrow> probe_row list \<Rightarrow> bool" where
  "rows_true ws name rows \<longleftrightarrow> list_all (\<lambda>i. row_true (ws i) (name i) (rows ! i)) [0..<length rows]"

lemma rows_true_update:
  "rows_true ws name rows \<Longrightarrow> row_true (ws i) (name i) row \<Longrightarrow> rows_true ws name (rows[i := row])"
  by (cases "i < length rows") (auto simp: rows_true_def list_all_iff nth_list_update)

definition sweep_inv :: "pool \<Rightarrow> (nat \<Rightarrow> prober) \<Rightarrow> int \<Rightarrow> ref list \<Rightarrow> sweep \<Rightarrow> bool" where
  "sweep_inv p ws concurrency targets s \<longleftrightarrow>
     tunnel_books (sw_Pool s) = (p_pendingTunnelOpens p, p_probeTunnels p + held (sw_Running s)) \<and>
     ids (sw_Pool s) = ids p \<and> fm_size (sw_Running s) \<le> probe_limit concurrency \<and>
     sw_Waiting s |\<inter>| fmdom (sw_Running s) = {||} \<and> length (sw_Rows s) = length targets \<and>
     rows_true ws (\<lambda>i. sp_ID (s_spec (p_heap p (targets ! i)))) (sw_Rows s)"

lemma held_upd:
  "held (fmupd i st m) = held (fmdrop i m) + (if holds_tunnel st then 1 else 0)"
proof -
  have "fm_keep holds_tunnel (fmupd i st m) =
      (if holds_tunnel st then fmupd i st (fm_keep holds_tunnel (fmdrop i m)) else fm_keep holds_tunnel (fmdrop i m))"
    by (intro fmap_ext) (auto split: option.split)
  moreover have "i |\<notin>| fmdom (fm_keep holds_tunnel (fmdrop i m))" by (simp add: fmlookup_dom_iff)
  ultimately show ?thesis by (simp add: held_def fm_size_upd)
qed

lemma fm_size_replace: "fm_size (fmupd i v m) = Suc (fm_size (fmdrop i m))"
  using fm_size_drop [of i m] by (cases "i |\<in>| fmdom m") (simp_all add: fm_size_upd fmdrop_idle)

lemma held_drop: "held m = held (fmdrop i m) +
    (case fmlookup m i of Some st \<Rightarrow> if holds_tunnel st then 1 else 0 | None \<Rightarrow> 0)"
proof (cases "fmlookup m i")
  case None
  then have "fmdrop i m = m" by (intro fmap_ext) auto
  then show ?thesis using None by simp
next
  case (Some st)
  then have "fmupd i st m = m" by (intro fmap_ext) auto
  then show ?thesis using held_upd [of i st m] Some by simp
qed

lemma row_true_failed:
  "ids q = ids p \<Longrightarrow> row_true w (sp_ID (s_spec (p_heap p r))) (fst (probe_failed w e r q))"
  using ids_name [of q p r] by (simp add: row_true_def probe_failed_def row_of_def split: sum.split)

lemma row_true_measured:
  assumes "ids q = ids p"
  shows "row_true w (sp_ID (s_spec (p_heap p r))) (fst (probe_measured w closer r q))"
proof (cases "pb_ip w")
  case (Inl e)
  then show ?thesis using row_true_failed assms by (simp add: probe_measured_def)
next
  case (Inr ip)
  then show ?thesis using ids_name [OF assms] by (simp add: row_true_def probe_measured_def row_of_def Let_def)
qed

lemma probe_books [simp]:
  "tunnel_books (snd (probe_failed w e r p)) = tunnel_books p" "ids (snd (probe_failed w e r p)) = ids p"
  "tunnel_books (snd (probe_measured w closer r p)) =
     (if closer then (p_pendingTunnelOpens p, p_probeTunnels p - 1) else tunnel_books p)"
  "ids (snd (probe_measured w closer r p)) = ids p"
  using tunnel_books_ops(4) [of _ "pb_ended w" r p, unfolded tunnel_books_def]
  by (simp_all add: probe_failed_def probe_measured_def Let_def split: sum.split)

lemma held_empty [simp]: "held fmempty = 0"
  by (simp add: held_def fm_size_0_iff) (simp add: fmap_ext)

lemma sweep_report_inv:
  assumes "sweep_inv p ws concurrency targets s" and "i |\<notin>| sw_Waiting s"
    and "tunnel_books (snd out) = (p_pendingTunnelOpens p, p_probeTunnels p + held (fmdrop i (sw_Running s)))"
    and "ids (snd out) = ids p" and "row_true (ws i) (sp_ID (s_spec (p_heap p (targets ! i)))) (fst out)"
  shows "sweep_inv p ws concurrency targets (sweep_report i out s)"
proof -
  have "fm_size (fmdrop i (sw_Running s)) \<le> fm_size (sw_Running s)" by (rule fm_size_drop_le)
  then show ?thesis
    using assms rows_true_update [of ws "\<lambda>i. sp_ID (s_spec (p_heap p (targets ! i)))" "sw_Rows s" i "fst out"]
    by (auto simp: sweep_inv_def sweep_report_def)
qed

lemma sweep_dialed_inv:
  assumes inv: "sweep_inv p ws concurrency targets s" and w: "i |\<notin>| sw_Waiting s"
    and size: "fm_size (fmdrop i (sw_Running s)) < probe_limit concurrency"
    and d: "ids q = ids p"
      "tunnel_books q = (p_pendingTunnelOpens p, p_probeTunnels p + held (fmdrop i (sw_Running s)) +
         (case out of Inr st \<Rightarrow> if holds_tunnel st then 1 else 0 | Inl _ \<Rightarrow> 0))"
  shows "sweep_inv p ws concurrency targets (sweep_dialed (ws i) (targets ! i) i (out, q) s)"
proof (cases out)
  case (Inl e)
  have "sweep_inv p ws concurrency targets (sweep_report i (probe_failed (ws i) e (targets ! i) q) s)"
    by (rule sweep_report_inv [OF inv w]) (use Inl d row_true_failed [OF d(1)] in simp_all)
  then show ?thesis by (simp add: Inl sweep_dialed_def)
next
  case (Inr st)
  then show ?thesis
    using inv w size d by (auto simp: sweep_inv_def sweep_dialed_def held_upd fm_size_replace)
qed

lemma probe_opened_books:
  assumes "probe_opened w p = (out, q)"
  shows "ids q = ids p" "tunnel_books q =
     (p_pendingTunnelOpens p, p_probeTunnels p - 1 + (if p_probeTunnels p = 0 then 0 else
        case out of Inr st \<Rightarrow> 1 | Inl _ \<Rightarrow> 0))"
  using assms by (auto simp: probe_opened_def tunnel_books_def releaseProbeCapacity_def ids_def split: sum.splits)

lemma sweep_step_inv:
  assumes "sweep_inv p ws concurrency targets s"
  shows "sweep_inv p ws concurrency targets (sweep_step ws concurrency targets ev s)"
proof (cases ev)
  case (Begins i)
  show ?thesis
  proof (cases "i |\<in>| sw_Waiting s \<and> fm_size (sw_Running s) < probe_limit concurrency")
    case True
    let ?s = "s\<lparr>sw_Waiting := sw_Waiting s |-| {|i|}\<rparr>"
    obtain out q where o: "probeDialer (ws i) (targets ! i) (sw_Pool s) = (out, q)" by fastforce
    have "i |\<notin>| fmdom (sw_Running s)" using assms True by (auto simp: sweep_inv_def)
    then have d: "fmdrop i (sw_Running s) = sw_Running s" by (simp add: fmdrop_idle)
    have "sweep_inv p ws concurrency targets ?s" using assms by (auto simp: sweep_inv_def)
    then have "sweep_inv p ws concurrency targets (sweep_dialed (ws i) (targets ! i) i (out, q) ?s)"
      by (rule sweep_dialed_inv)
        (use assms True d probeDialer_ids [OF o] probeDialer_books [OF o] in
          \<open>simp_all add: sweep_inv_def tunnel_books_def\<close>)
    then show ?thesis using True o Begins by simp
  qed (use assms Begins in auto)
next
  case (Leaves i)
  then show ?thesis using assms by (auto simp: sweep_inv_def)
next
  case (Opened i)
  show ?thesis
  proof (cases "fmlookup (sw_Running s) i = Some OpeningTunnel")
    case True
    obtain out q where o: "probe_opened (ws i) (sw_Pool s) = (out, q)" by fastforce
    have i: "i |\<in>| fmdom (sw_Running s)" using True by (simp add: fmlookup_dom_iff)
    have h: "held (sw_Running s) = Suc (held (fmdrop i (sw_Running s)))"
      using held_drop [of "sw_Running s" i] True by (simp add: holds_tunnel_def)
    have st: "out = Inr (Measuring True) \<or> isl out" using o by (auto simp: probe_opened_def split: sum.splits)
    have "sweep_inv p ws concurrency targets (sweep_dialed (ws i) (targets ! i) i (out, q) s)"
      by (rule sweep_dialed_inv [OF assms])
        (use assms i h st fm_size_drop [OF i] probe_opened_books [OF o] in
          \<open>auto simp: sweep_inv_def tunnel_books_def holds_tunnel_def split: sum.splits\<close>)
    then show ?thesis using True o Opened by simp
  qed (use assms Opened in simp)
next
  case (Ends i)
  show ?thesis
  proof (cases "\<exists>closer. fmlookup (sw_Running s) i = Some (Measuring closer)")
    case True
    then obtain closer where c: "fmlookup (sw_Running s) i = Some (Measuring closer)" by blast
    have h: "held (sw_Running s) = held (fmdrop i (sw_Running s)) + (if closer then 1 else 0)"
      using held_drop [of "sw_Running s" i] c by (simp add: holds_tunnel_def)
    have n: "ids (sw_Pool s) = ids p" and
      b: "tunnel_books (sw_Pool s) = (p_pendingTunnelOpens p, p_probeTunnels p + held (sw_Running s))"
      using assms by (simp_all add: sweep_inv_def)
    from b have b': "p_pendingTunnelOpens (sw_Pool s) = p_pendingTunnelOpens p"
      "p_probeTunnels (sw_Pool s) = p_probeTunnels p + held (sw_Running s)"
      by (simp_all add: tunnel_books_def)
    have "sweep_inv p ws concurrency targets
        (sweep_report i (probe_measured (ws i) closer (targets ! i) (sw_Pool s)) s)"
      by (rule sweep_report_inv [OF assms])
        (use assms c h n b b' row_true_measured [OF n] in \<open>auto simp: sweep_inv_def dest: fmdomI\<close>)
    then show ?thesis using c Ends by simp
  qed (use assms Ends in \<open>auto split: option.split stage.split\<close>)
qed

lemma sweep_run_inv:
  "sweep_inv p ws concurrency targets s \<Longrightarrow> sweep_inv p ws concurrency targets (sweep_run ws concurrency targets evs s)"
  by (induction evs arbitrary: s) (simp_all add: sweep_run_def sweep_step_inv)

lemma sweep_start_inv: "sweep_inv p ws concurrency targets (sweep_start targets p)"
  by (auto simp: sweep_inv_def sweep_start_def rows_true_def list_all_iff row_true_def tunnel_books_def)


end
