(* ===== verification/Commands.thy ===== *)
theory Commands
  imports Startup Sweep NordReload
begin

text \<open>
  The commands of \<open>cmd/global-egress\<close> that are not \<open>serve\<close>: \<open>import\<close> and \<open>inspect\<close> (\<open>catalog_cmds.go\<close>),
  \<open>relays\<close> (\<open>relays_cmd.go\<close>), \<open>nordvpn\<close> (\<open>nordvpn_cmd.go\<close>), \<open>probe\<close>, \<open>healthcheck\<close> (\<open>healthcheck.go\<close>) and
  the dispatch of \<open>main.go\<close>. The flags are records, what a command prints is a value that holds the printed
  data, and files and the network are arguments.
\<close>

unbundle bit_operations_syntax

section \<open>Summaries\<close>

text \<open>Counting by a key, and the cities by size; \<open>ord\<close> is the order in which Go ranges over the map of cities.\<close>

definition tallied :: "string list \<Rightarrow> (string, nat) fmap" where
  "tallied keys = foldl (\<lambda>m k. fmupd k (Suc (fm_get 0 m k)) m) fmempty keys"

definition largest_first :: "(string \<times> nat) list \<Rightarrow> (string \<times> nat) list" where
  "largest_first counts = sort_key (\<lambda>(_, n). - int n) (sort_key fst counts)"

definition top_cities :: "string list \<Rightarrow> string list \<Rightarrow> (string \<times> nat) list" where
  "top_cities cities ord = take 10 (largest_first (map (\<lambda>c. (c, fm_get 0 (tallied cities) c)) ord))"

record summary =
  sm_Total :: nat
  sm_Countries :: nat
  sm_Cities :: nat
  sm_Top :: "(string \<times> nat) list"

definition summarise :: "string list \<Rightarrow> string list \<Rightarrow> string list \<Rightarrow> summary" where
  "summarise countries cities ord =
     \<lparr>sm_Total = length cities, sm_Countries = fm_size (tallied countries), sm_Cities = fm_size (tallied cities),
      sm_Top = top_cities cities ord\<rparr>"

section \<open>Catalogues: import and inspect\<close>

definition printBundleSummary :: "string list \<Rightarrow> conf_bundle \<Rightarrow> summary \<times> string list \<times> nat" where
  "printBundleSummary ord b =
     (summarise (map c_Country (bn_Slots b)) (map c_City (bn_Slots b)) ord, bn_Devices b, bn_DistinctKeys b)"

datatype catalog_cmd_error = FlagRequired string | CmdBundle bundle_error

text \<open>\<open>extracted\<close> is what \<open>ExtractZip\<close> wrote; \<open>dir_after\<close> lists the directory with it.\<close>

definition runImport ::
  "bool \<Rightarrow> (string \<Rightarrow> bool) \<Rightarrow> (string \<Rightarrow> entry_file list option) \<Rightarrow> ((string \<times> string) list \<Rightarrow> entry_file list option)
     \<Rightarrow> string list \<Rightarrow> string \<Rightarrow> string
     \<Rightarrow> (catalog_cmd_error + nat \<times> summary \<times> string list \<times> nat) \<times> (string \<times> string) list" where
  "runImport mkdir can_write zips dir_after ord zipPath dir =
     (if zipPath = [] then (Inl (FlagRequired ''zip''), [])
      else
        case ExtractZip mkdir can_write (zips zipPath) of
          (Inl e, extracted) \<Rightarrow> (Inl (CmdBundle e), extracted)
        | (Inr written, extracted) \<Rightarrow>
            (case LoadDir dir (dir_after extracted) of
               Inl e \<Rightarrow> (Inl (CmdBundle e), extracted)
             | Inr b \<Rightarrow> (Inr (written, printBundleSummary ord b), extracted)))"

record slotView =
  vw_ID :: string
  vw_Country :: string
  vw_City :: string
  vw_Endpoint :: string

datatype inspected = Views "slotView list" | BundleSummary "summary \<times> string list \<times> nat"

definition runInspect ::
  "(string \<Rightarrow> bundle_error + conf_bundle) \<Rightarrow> string list \<Rightarrow> string \<Rightarrow> bool \<Rightarrow> catalog_cmd_error + inspected" where
  "runInspect load ord path asJSON =
     (if path = [] then Inl (FlagRequired ''catalog'')
      else
        case load path of
          Inl e \<Rightarrow> Inl (CmdBundle e)
        | Inr b \<Rightarrow>
            Inr (if asJSON
                 then Views (map (\<lambda>s. \<lparr>vw_ID = c_ID s, vw_Country = c_Country s, vw_City = c_City s,
                                        vw_Endpoint = c_Endpoint s\<rparr>) (bn_Slots b))
                 else BundleSummary (printBundleSummary ord b)))"

section \<open>Relays\<close>

record relay_flags =
  rf_Cache :: string
  rf_Refresh :: bool
  rf_Country :: string
  rf_List :: bool

text \<open>The rows of a listing, or a summary with its source: whether it was fetched, and when.\<close>

datatype relays_out = RelayRows "(string \<times> string \<times> string \<times> string) list" | RelaySummary bool time summary

definition select_country :: "('a \<Rightarrow> string) \<Rightarrow> string \<Rightarrow> 'a list \<Rightarrow> 'a list" where
  "select_country country_of country xs =
     (if country = [] then xs else filter (\<lambda>x. equal_fold (country_of x) country) xs)"

definition runRelays ::
  "relay_loader \<Rightarrow> string list \<Rightarrow> relay_flags \<Rightarrow> relay cache_files \<Rightarrow> (list_error + relays_out) \<times> relay cache_files" where
  "runRelays load ord fl fs =
     (case load (rf_Cache fl) (if rf_Refresh fl then 0 else 24 * hour) fs of
        (Inl e, fs) \<Rightarrow> (Inl e, fs)
      | (Inr ((rs, at), fetched), fs) \<Rightarrow>
          let relays = select_country ry_Country (rf_Country fl) (Usable_relays rs)
          in (Inr (if rf_List fl
                   then RelayRows (map (\<lambda>r. (relay_SlotID r, ry_Country r, relay_City r, SocksAddr r)) relays)
                   else RelaySummary fetched at (summarise (map ry_Country relays) (map relay_City relays) ord)), fs))"

section \<open>NordVPN\<close>

datatype key_error = KeyStat | KeyMode "32 word" | KeyRead | KeyEmpty

text \<open>A file: the mode, and the content when it can be read.\<close>

type_synonym key_file = "32 word \<times> string option"

definition readPrivateKeyFile :: "key_file option \<Rightarrow> key_error + string" where
  "readPrivateKeyFile file =
     (case file of
        None \<Rightarrow> Inl KeyStat
      | Some (mode, content) \<Rightarrow>
          let perm = mode AND 0x1FF
          in if perm AND 0x3F \<noteq> 0 then Inl (KeyMode perm)
             else
               case content of
                 None \<Rightarrow> Inl KeyRead
               | Some blob \<Rightarrow> let key = trim_space blob in if key = [] then Inl KeyEmpty else Inr key)"

record nord_flags =
  nf_Cache :: string
  nf_Refresh :: bool
  nf_Key :: string
  nf_Dir :: string
  nf_Country :: string
  nf_Limit :: int

definition nord_options :: "nord_flags \<Rightarrow> load_options" where
  "nord_options fl =
     \<lparr>lo_CachePath = nf_Cache fl, lo_MaxAge = (if nf_Refresh fl then 0 else 24 * hour),
      lo_AllowStale = (\<not> nf_Refresh fl)\<rparr>"

definition lowest_load :: "int \<Rightarrow> nord_server list \<Rightarrow> nord_server list" where
  "lowest_load limit servers =
     (if limit > 0 \<and> int (length servers) > limit then take (nat limit) (sort_key nv_Load servers) else servers)"

definition select_servers :: "nord_flags \<Rightarrow> nord_server list \<Rightarrow> nord_server list" where
  "select_servers fl servers =
     lowest_load (nf_Limit fl) (select_country nv_Country (nf_Country fl) (Usable_servers servers))"

datatype nord_cmd_error =
    NordList list_error | NordNoMatch | NordKeyRequired | NordKey key_error | NordSlots nord_error
  | NordCatalogError catalog_error

datatype nord_out = ServerSummary bool time summary | CatalogWritten nat

definition runNordVPN ::
  "(list_error + nord_server list) \<Rightarrow> bool \<Rightarrow> time \<Rightarrow> (string \<Rightarrow> key_file option) \<Rightarrow> disk \<Rightarrow> string list \<Rightarrow> nord_flags
     \<Rightarrow> server_json cache_files \<Rightarrow> catalog_fs
     \<Rightarrow> (nord_cmd_error + nord_out) \<times> server_json cache_files \<times> catalog_fs" where
  "runNordVPN fetch writable now keys dk ord fl cache fs =
     (case nord_LoadOrFetch fetch writable now (nord_options fl) cache of
        (Inl e, cache) \<Rightarrow> (Inl (NordList e), cache, fs)
      | (Inr ((list, at), fetched), cache) \<Rightarrow>
          let servers = select_servers fl list
          in if servers = [] then (Inl NordNoMatch, cache, fs)
             else if nf_Dir fl = [] then
               (Inr (ServerSummary fetched at (summarise (map nv_Country servers) (map nord_City servers) ord)),
                cache, fs)
             else if nf_Key fl = [] then (Inl NordKeyRequired, cache, fs)
             else
               case readPrivateKeyFile (keys (nf_Key fl)) of
                 Inl e \<Rightarrow> (Inl (NordKey e), cache, fs)
               | Inr key \<Rightarrow>
                   (case nord_Slots key servers of
                      Inl e \<Rightarrow> (Inl (NordSlots e), cache, fs)
                    | Inr slots \<Rightarrow>
                        (case writeCatalog dk (nf_Dir fl) slots fs of
                           (Inl e, fs) \<Rightarrow> (Inl (NordCatalogError e), cache, fs)
                         | (Inr n, fs) \<Rightarrow> (Inr (CatalogWritten n), cache, fs))))"

section \<open>Healthcheck\<close>

datatype health_error =
    TokenUnreadable | TokenEmpty | BadHealthURL | ProbeInterrupted | ProbeTransport | ProbeStatus int

definition health_token :: "(string \<Rightarrow> string option) \<Rightarrow> string \<Rightarrow> health_error + string" where
  "health_token files tokenFile =
     (if tokenFile = [] then Inr []
      else
        case files tokenFile of
          None \<Rightarrow> Inl TokenUnreadable
        | Some raw \<Rightarrow> let token = trim_space raw in if token = [] then Inl TokenEmpty else Inr token)"

definition health_header :: "string \<Rightarrow> header" where
  "health_header token = (if token = [] then fmempty else fmupd ''Authorization'' [''Bearer '' @ token] fmempty)"

text \<open>
  \<open>send\<close> is the transport: the status of the answer, or that the probe failed (with the context cancelled, or
  otherwise). It is given the header; \<open>net/http\<close> sends no header value with control characters.
\<close>

definition runHealthcheck ::
  "(string \<Rightarrow> string option) \<Rightarrow> bool \<Rightarrow> (header \<Rightarrow> bool + int) \<Rightarrow> string \<Rightarrow> health_error option" where
  "runHealthcheck files url_ok send tokenFile =
     (case health_token files tokenFile of
        Inl e \<Rightarrow> Some e
      | Inr token \<Rightarrow>
          if \<not> url_ok then Some BadHealthURL
          else if \<not> validHeaderValue (concat (fm_get [] (health_header token) ''Authorization'')) then Some ProbeTransport
          else
            case send (health_header token) of
              Inl cancelled \<Rightarrow> Some (if cancelled then ProbeInterrupted else ProbeTransport)
            | Inr status \<Rightarrow> if status \<noteq> 200 then Some (ProbeStatus status) else None)"

section \<open>Probe\<close>

datatype probe_cmd_error =
  CatalogRequired | ProbeBundle bundle_error | BadLogLevel | ProbeSlots serve_error | ProbePool pool_error | SlotsFile

record probe_flags =
  bf_Catalog :: string
  bf_State :: string
  bf_URL :: string
  bf_Concurrency :: int
  bf_Limit :: int
  bf_Country :: string
  bf_City :: string
  bf_Mode :: string
  bf_Entries :: string
  bf_RelayCache :: string
  bf_Slots :: string
  bf_SlotsFile :: "string option option"
  bf_HandshakeTimeout :: duration
  bf_LogLevel :: string

definition probe_pool_options :: "probe_flags \<Rightarrow> options" where
  "probe_pool_options fl =
     \<lparr>MaxActive = 0, MaxConnsPerExit = 0, MaxConcurrentConns = 0, SessionTTL = 0, MaxSessionTTL = 0,
      MaxSessions = 0, BatchTTL = 0, MaxBatchTTL = 0, MaxUniqueBatches = 0, Cooldown = 0, PreferredTTL = 0,
      PreferredMax = 0, IdleTimeout = 0, HandshakeTimeout = bf_HandshakeTimeout fl, DialAttempts = 0,
      FailureBackoff = 0, NewTunnelBudget = 0, NewTunnelWindow = 0, EntryExploreRate = 0,
      DisableEntryExploration = False, IPCheckURL = bf_URL fl, IPCheckTimeout = 0, IPRefreshInterval = 0,
      IPCheckConcurrency = bf_Concurrency fl\<rparr>"

record probe_counts =
  pc_Probed :: nat
  pc_Reachable :: nat
  pc_Failed :: nat
  pc_Unique :: nat
  pc_Shared :: nat

definition reached :: "probe_row \<Rightarrow> bool" where
  "reached row \<longleftrightarrow> \<not> (rr_Err row \<noteq> [] \<or> rr_PublicIP row = [])"

definition count_rows :: "probe_row list \<Rightarrow> probe_counts" where
  "count_rows rows =
     (let ok = filter reached rows;
          perIP = tallied (map rr_PublicIP ok)
      in \<lparr>pc_Probed = length rows, pc_Reachable = length ok, pc_Failed = length rows - length ok,
          pc_Unique = fm_size perIP, pc_Shared = fm_size (fm_keep (\<lambda>n. n > 1) perIP)\<rparr>)"

text \<open>
  \<open>load_inv\<close> is what reading the inventory file gives, \<open>walk\<close> the order in which it is saved. The outcome is
  the counts and the file that is written, if a state file is named.
\<close>

definition runProbe ::
  "(string \<Rightarrow> bundle_error + conf_bundle) \<Rightarrow> relay_loader \<Rightarrow> (string \<Rightarrow> (pool_error + inventoryFile) option)
     \<Rightarrow> ((netaddr, time) fmap \<Rightarrow> netaddr list) \<Rightarrow> (nat \<Rightarrow> prober) \<Rightarrow> probe_event list \<Rightarrow> time \<Rightarrow> time
     \<Rightarrow> probe_flags \<Rightarrow> relay cache_files
     \<Rightarrow> (probe_cmd_error + probe_counts \<times> inventoryFile option) \<times> relay cache_files" where
  "runProbe load relays load_inv walk ws evs now later fl fs =
     (if bf_Catalog fl = [] then (Inl CatalogRequired, fs)
      else
        case load (bf_Catalog fl) of
          Inl e \<Rightarrow> (Inl (ProbeBundle e), fs)
        | Inr b \<Rightarrow>
            if to_lower (bf_LogLevel fl) \<notin> {[], ''debug'', ''info'', ''warn'', ''error''} then (Inl BadLogLevel, fs)
            else
              case probeSlots relays (bf_Mode fl) (bn_Slots b) (bf_Entries fl) (bf_RelayCache fl) fs of
                (Inl e, fs) \<Rightarrow> (Inl (ProbeSlots e), fs)
              | (Inr (specs, entries), fs) \<Rightarrow>
                  (case NewWithSpecs specs entries (probe_pool_options fl) of
                     Inl e \<Rightarrow> (Inl (ProbePool e), fs)
                   | Inr p \<Rightarrow>
                       (case collectSlotIDs (bf_Slots fl) (bf_SlotsFile fl) of
                          None \<Rightarrow> (Inl SlotsFile, fs)
                        | Some selected \<Rightarrow>
                            let p = (if bf_State fl \<noteq> [] then snd (LoadInventory (load_inv (bf_State fl)) now p) else p);
                                s = Probe ws evs (bf_Concurrency fl)
                                      \<lparr>po_Limit = bf_Limit fl, po_Country = bf_Country fl, po_City = bf_City fl,
                                       po_Slots = selected\<rparr> p
                            in (Inr (count_rows (sw_Rows s),
                                     if bf_State fl \<noteq> [] then fst (SaveInventory walk later (sw_Pool s)) else None),
                                fs))))"

section \<open>Dispatch\<close>

record build_info =
  bi_Main :: string
  bi_Settings :: "(string \<times> string) list"

text \<open>The last setting of a name counts.\<close>

fun build_settings :: "(string \<times> string) list \<Rightarrow> string \<times> string \<Rightarrow> string \<times> string" where
  "build_settings [] acc = acc"
| "build_settings ((k, v) # kvs) (revision, dirty) =
     build_settings kvs
       (if k = ''vcs.revision'' then (if length v > 12 then take 12 v else v, dirty)
        else if k = ''vcs.modified'' then (revision, if v = ''true'' then ''-dirty'' else dirty)
        else (revision, dirty))"

definition buildVersion :: "string \<Rightarrow> build_info option \<Rightarrow> string" where
  "buildVersion version info =
     (if version \<noteq> [] then version
      else
        case info of
          None \<Rightarrow> ''dev''
        | Some i \<Rightarrow>
            if bi_Main i \<noteq> [] \<and> bi_Main i \<noteq> ''(devel)'' then bi_Main i
            else
              let (revision, dirty) = build_settings (bi_Settings i) ([], [])
              in if revision = [] then ''dev'' else revision @ dirty)"

text \<open>How a command ends: it succeeds, its context was cancelled, or it fails.\<close>

datatype ending = Succeeds | Cancelled | Fails

text \<open>The status of the process; \<open>run\<close> are the commands above and \<open>serve\<close>.\<close>

definition main_status :: "(string \<Rightarrow> string list \<Rightarrow> ending) \<Rightarrow> string list \<Rightarrow> int" where
  "main_status run argv =
     (case argv of
        prog # cmd # args \<Rightarrow>
          if cmd \<in> {''import'', ''inspect'', ''relays'', ''nordvpn'', ''probe'', ''serve'', ''healthcheck''}
          then (case run cmd args of Succeeds \<Rightarrow> 0 | Cancelled \<Rightarrow> 0 | Fails \<Rightarrow> 1)
          else if cmd \<in> {''version'', ''--version'', ''-v'', ''help'', ''--help'', ''-h''} then 0 else 2
      | _ \<Rightarrow> 2)"

definition health_ending :: "health_error option \<Rightarrow> ending" where
  "health_ending res =
     (case res of None \<Rightarrow> Succeeds | Some ProbeInterrupted \<Rightarrow> Cancelled | Some _ \<Rightarrow> Fails)"

section \<open>What the summaries show\<close>

lemma sorted_take_drop:
  assumes "sorted (map f xs)" and "x \<in> set (take n xs)" and "y \<in> set (drop n xs)"
  shows "f x \<le> f y"
proof -
  have "sorted (map f (take n xs) @ map f (drop n xs))" using assms(1) by (simp flip: map_append)
  then show ?thesis using assms(2,3) by (simp add: sorted_append)
qed

lemma tally_get: "fm_get 0 (tallied keys) k = count_list keys k"
proof -
  have "fm_get 0 (foldl (\<lambda>m k. fmupd k (Suc (fm_get 0 m k)) m) m keys) k = fm_get 0 m k + count_list keys k" for m
    by (induction keys arbitrary: m) (auto simp: fm_get_def)
  from this [of fmempty] show ?thesis by (simp add: tallied_def fm_get_def)
qed

lemma tally_dom: "fset (fmdom (tallied keys)) = set keys"
proof -
  have "fset (fmdom (foldl (\<lambda>m k. fmupd k (Suc (fm_get 0 m k)) m) m keys)) = fset (fmdom m) \<union> set keys" for m
    by (induction keys arbitrary: m) auto
  from this [of fmempty] show ?thesis by (simp add: tallied_def)
qed

lemma tally_size: "fm_size (tallied keys) = card (set keys)"
  by (simp add: fm_size_def fcard.rep_eq tally_dom)

text \<open>The comparison of the listing: by size, largest first, and cities of one size by name.\<close>

lemma largest_first_mset: "mset (largest_first counts) = mset counts"
  by (simp add: largest_first_def)

lemma largest_first_sorted: "sorted (map (\<lambda>(c, n). - int n) (largest_first counts))"
  by (simp add: largest_first_def case_prod_beta')

text \<open>The order in which the map is walked does not show.\<close>

lemma largest_first_walk:
  assumes "mset xs = mset ys" and "distinct (map fst xs)"
  shows "largest_first xs = largest_first ys"
proof -
  have "sort_key fst xs = sort_key fst ys"
  proof (rule properties_for_sort_key)
    show "mset (sort_key fst ys) = mset xs" by (simp add: assms(1))
    show "sorted (map fst (sort_key fst ys))" by simp
    have "set xs = set ys" using assms(1) by (rule mset_eq_setD)
    have i: "inj_on fst (set xs)" using assms(2) by (simp add: distinct_map)
    have d: "distinct xs" using assms(2) by (simp add: distinct_map)
    then have d': "distinct ys" using assms(1) by (metis mset_eq_imp_distinct_iff)
    have one: "filter (\<lambda>x. fst k = fst x) zs = [k]" if "k \<in> set zs" "inj_on fst (set zs)" "distinct zs" for k zs
      using that
    proof (induction zs)
      case (Cons z zs)
      show ?case
      proof (cases "z = k")
        case True
        then have "\<forall>x\<in>set zs. fst k \<noteq> fst x" using Cons.prems by (auto simp: inj_on_def)
        then show ?thesis using True by (simp add: filter_empty_conv)
      next
        case False
        then have "fst k \<noteq> fst z" using Cons.prems by (auto simp: inj_on_def)
        then show ?thesis using False Cons by (simp add: inj_on_def)
      qed
    qed simp
    show "filter (\<lambda>x. fst k = fst x) (sort_key fst ys) = filter (\<lambda>x. fst k = fst x) xs" if "k \<in> set (sort_key fst ys)" for k
      using that i d d' \<open>set xs = set ys\<close> by (simp add: filter_sort one)
  qed
  then show ?thesis by (simp add: largest_first_def)
qed

text \<open>
  The listing of the largest cities is what it says, whatever the order of the map: each city comes with the
  number of its slots, no city that is left out has more slots than one that is shown, and ten are shown if there are ten.
\<close>

theorem top_cities_shown:
  assumes "distinct ord" and "set ord = set cities"
  shows "(\<forall>c n. (c, n) \<in> set (top_cities cities ord) \<longrightarrow> c \<in> set cities \<and> n = count_list cities c) \<and>
     (\<forall>c n c'. (c, n) \<in> set (top_cities cities ord) \<longrightarrow> c' \<in> set cities \<longrightarrow>
        c' \<notin> fst ` set (top_cities cities ord) \<longrightarrow> count_list cities c' \<le> n) \<and>
     length (top_cities cities ord) = min 10 (card (set cities)) \<and>
     (\<forall>ord'. mset ord' = mset ord \<longrightarrow> top_cities cities ord' = top_cities cities ord)"
proof -
  let ?top = "\<lambda>ord. map (\<lambda>c. (c, count_list cities c)) ord"
  let ?l = "largest_first (?top ord)"
  have t: "top_cities cities ord = take 10 (largest_first (?top ord))" for ord
    by (simp add: top_cities_def tally_get)
  have set_l: "set ?l = (\<lambda>c. (c, count_list cities c)) ` set cities"
    using largest_first_mset [of "?top ord"] assms(2) by (metis image_set set_mset_mset)
  have "length ?l = length ord" using largest_first_mset [of "?top ord"] by (metis length_map size_mset)
  then have len: "length ?l = card (set cities)" using assms by (metis distinct_card)
  have "count_list cities c' \<le> n" if "(c, n) \<in> set (take 10 ?l)" "c' \<in> set cities" "c' \<notin> fst ` set (take 10 ?l)" for c n c'
  proof -
    have "(c', count_list cities c') \<in> set ?l" using that(2) set_l by auto
    moreover have "(c', count_list cities c') \<notin> set (take 10 ?l)" using that(3) by (metis fst_conv image_eqI)
    ultimately have "(c', count_list cities c') \<in> set (drop 10 ?l)" by (metis Un_iff append_take_drop_id set_append)
    from sorted_take_drop [OF largest_first_sorted that(1) this] show ?thesis by simp
  qed
  moreover have "top_cities cities ord' = top_cities cities ord" if "mset ord' = mset ord" for ord'
  proof -
    have "distinct ord'" using that assms(1) mset_eq_imp_distinct_iff by blast
    then have "distinct (map fst (?top ord'))" by (simp add: comp_def)
    moreover have "mset (?top ord') = mset (?top ord)" using that by (simp add: mset_map)
    ultimately show ?thesis using largest_first_walk by (simp only: t)
  qed
  moreover have "c \<in> set cities \<and> n = count_list cities c" if "(c, n) \<in> set (take 10 ?l)" for c n
    using in_set_takeD [OF that] set_l by auto
  moreover have "length (take 10 ?l) = min 10 (card (set cities))" by (simp add: len min.commute)
  ultimately show ?thesis unfolding t [of ord] by blast
qed

text \<open>The figures of a probe run add up.\<close>

lemma count_rows_figures:
  "pc_Reachable (count_rows rows) + pc_Failed (count_rows rows) = pc_Probed (count_rows rows)"
  "pc_Unique (count_rows rows) = card (rr_PublicIP ` {row \<in> set rows. reached row})"
  "pc_Shared (count_rows rows) \<le> pc_Unique (count_rows rows)"
proof -
  show "pc_Reachable (count_rows rows) + pc_Failed (count_rows rows) = pc_Probed (count_rows rows)"
    using length_filter_le [of reached rows] by (simp add: count_rows_def Let_def)
  show "pc_Unique (count_rows rows) = card (rr_PublicIP ` {row \<in> set rows. reached row})"
    by (simp add: count_rows_def Let_def tally_size)
  show "pc_Shared (count_rows rows) \<le> pc_Unique (count_rows rows)"
    by (simp add: count_rows_def Let_def fm_size_keep_le)
qed

section \<open>The servers of a catalogue\<close>

text \<open>The servers that match, and what a choice of them has to be.\<close>

definition matching_servers :: "nord_flags \<Rightarrow> nord_server list \<Rightarrow> nord_server list" where
  "matching_servers fl servers = select_country nv_Country (nf_Country fl) (Usable_servers servers)"

definition well_chosen :: "nord_flags \<Rightarrow> nord_server list \<Rightarrow> nord_server list \<Rightarrow> bool" where
  "well_chosen fl servers ss \<longleftrightarrow>
     (\<forall>s\<in>set ss. s \<in> set servers \<and> server_usable s \<and> (nf_Country fl = [] \<or> equal_fold (nv_Country s) (nf_Country fl))) \<and>
     length ss = (if nf_Limit fl > 0 then min (nat (nf_Limit fl)) (length (matching_servers fl servers))
                      else length (matching_servers fl servers)) \<and>
     (\<exists>rest. mset (ss @ rest) = mset (matching_servers fl servers) \<and>
        (\<forall>s\<in>set ss. \<forall>t\<in>set rest. nv_Load s \<le> nv_Load t))"

lemma set_matching:
  "set (matching_servers fl servers) =
     {s \<in> set servers. server_usable s \<and> (nf_Country fl = [] \<or> equal_fold (nv_Country s) (nf_Country fl))}"
  by (auto simp: matching_servers_def select_country_def Usable_servers_def)

lemma lowest_load_split:
  "\<exists>rest. mset (lowest_load limit xs @ rest) = mset xs \<and>
     (\<forall>s\<in>set (lowest_load limit xs). \<forall>t\<in>set rest. nv_Load s \<le> nv_Load t)"
proof (cases "limit > 0 \<and> int (length xs) > limit")
  case True
  let ?ys = "sort_key nv_Load xs"
  have "mset (take (nat limit) ?ys @ drop (nat limit) ?ys) = mset xs" by simp
  then show ?thesis
    using True sorted_take_drop [OF sorted_sort_key, of _ "nat limit" nv_Load xs]
    by (intro exI [of _ "drop (nat limit) ?ys"]) (auto simp: lowest_load_def simp del: append_take_drop_id)
next
  case False
  then show ?thesis by (intro exI [of _ "[]"]) (auto simp: lowest_load_def)
qed

lemma select_servers_well_chosen: "well_chosen fl servers (select_servers fl servers)"
proof -
  let ?c = "matching_servers fl servers"
  have s: "select_servers fl servers = lowest_load (nf_Limit fl) ?c"
    by (simp add: select_servers_def matching_servers_def)
  obtain rest where r: "mset (lowest_load (nf_Limit fl) ?c @ rest) = mset ?c"
    "\<forall>s\<in>set (lowest_load (nf_Limit fl) ?c). \<forall>t\<in>set rest. nv_Load s \<le> nv_Load t"
    using lowest_load_split by blast
  have "set (lowest_load (nf_Limit fl) ?c @ rest) = set ?c" using r(1) by (metis set_mset_mset)
  then have "set (lowest_load (nf_Limit fl) ?c) \<subseteq> set ?c" by auto
  then show ?thesis
    unfolding well_chosen_def s using r set_matching [of fl servers] by (auto simp: lowest_load_def)
qed

lemma usable_again:
  assumes "\<forall>s\<in>set servers. server_usable s"
  shows "length (Usable_servers servers) = length servers" "set (Usable_servers servers) = set servers"
  using assms by (simp_all add: Usable_servers_def)

lemma nord_refreshed:
  assumes "nord_LoadOrFetch fetch writable now (nord_options fl) cache = (Inr ((list, at), fetched), cache')"
    and "nf_Refresh fl"
  shows "fetched \<and> fetch = Inr list \<and> at = now"
  using assms by (auto simp: nord_LoadOrFetch_def nord_options_def Let_def split: sum.splits if_splits)

lemma key_file_private:
  assumes "readPrivateKeyFile file = Inr key"
  shows "\<exists>mode blob. file = Some (mode, Some blob) \<and> mode AND 0x3F = 0 \<and> key = trim_space blob \<and> key \<noteq> []"
proof -
  obtain mode blob where f: "file = Some (mode, Some blob)" "(mode AND 0x1FF) AND 0x3F = 0" "key = trim_space blob" "key \<noteq> []"
    using assms by (auto simp: readPrivateKeyFile_def Let_def split: option.splits if_splits prod.splits)
  have "(mode AND 0x1FF) AND 0x3F = mode AND (0x1FF AND 0x3F)" by (simp only: and.assoc)
  then show ?thesis using f by simp
qed

lemma catalog_command:
  assumes "runNordVPN fetch writable now keys dk ord fl cache fs = (Inr (CatalogWritten n), cache', fs')"
  obtains list at fetched key slots where
    "fst (nord_LoadOrFetch fetch writable now (nord_options fl) cache) = Inr ((list, at), fetched)"
    "readPrivateKeyFile (keys (nf_Key fl)) = Inr key"
    "nord_Slots key (select_servers fl list) = Inr slots" "select_servers fl list \<noteq> []"
    "writeCatalog dk (nf_Dir fl) slots fs = (Inr n, fs')"
  using assms by (auto simp: runNordVPN_def Let_def split: sum.splits prod.splits if_splits)

lemma quiet_command:
  assumes "runNordVPN fetch writable now keys dk ord fl cache fs = (res, cache', fs')"
    and "\<not> (\<exists>n. res = Inr (CatalogWritten n))" "\<not> (\<exists>ce. res = Inl (NordCatalogError ce))"
  shows "fs' = fs"
  using assms by (auto simp: runNordVPN_def Let_def split: sum.splits prod.splits if_splits)

lemma nord_cache_kept:
  assumes "runNordVPN fetch writable now keys dk ord fl cache fs = (res, cache', fs')"
  shows "cache' = snd (nord_LoadOrFetch fetch writable now (nord_options fl) cache)"
  using assms by (auto simp: runNordVPN_def Let_def split: sum.splits prod.splits if_splits)

lemma catalog_failed:
  assumes "runNordVPN fetch writable now keys dk ord fl cache fs = (Inl (NordCatalogError ce), cache', fs')"
  obtains slots where "writeCatalog dk (nf_Dir fl) slots fs = (Inl ce, fs')"
  using assms by (auto simp: runNordVPN_def Let_def split: sum.splits prod.splits if_splits)


definition demo_nord_flags :: nord_flags where
  "demo_nord_flags = \<lparr>nf_Cache = [], nf_Refresh = True, nf_Key = ''/k'', nf_Dir = ''/c'', nf_Country = ''US'', nf_Limit = 1\<rparr>"

definition demo_nord_run ::
  "(nord_cmd_error + nord_out) \<times> server_json cache_files \<times> catalog_fs" where
  "demo_nord_run = runNordVPN (Inr demo_servers) True 7 (\<lambda>_. Some (384, Some ''key='')) demo_disk []
     demo_nord_flags fmempty fmempty"


section \<open>The health of the control API\<close>

text \<open>The control server as it is seen by a probe from some address: the status of its answer to \<open>GET /healthz\<close>.\<close>

definition health_request :: "string \<Rightarrow> header \<Rightarrow> ctl_request" where
  "health_request remote h =
     \<lparr>cq_Remote = remote, cq_Method = ''GET'', cq_Path = ''/healthz'', cq_Segments = Some [''healthz''], cq_Query = [],
      cq_Header = h, cq_Report = None, cq_Prefer = None\<rparr>"

definition control_send :: "ctl_opts \<Rightarrow> time \<Rightarrow> string \<Rightarrow> pool \<Rightarrow> header \<Rightarrow> bool + int" where
  "control_send opts now remote p h = Inr (fst (fst (ctl_ServeHTTP opts now (health_request remote h) p)))"

lemma trim_left_trim: "trim_left s = [] \<or> \<not> is_space (hd (trim_left s))"
  unfolding trim_left_def using hd_dropWhile by blast

lemma trim_left_suffix: "\<exists>t. s = t @ trim_left s"
  by (rule exI [of _ "takeWhile is_space s"]) (simp add: trim_left_def)

lemma trim_space_idem: "trim_space (trim_space s) = trim_space s"
proof (cases "trim_space s = []")
  case False
  let ?l = "trim_left s" and ?r = "trim_left (rev (trim_left s))"
  have r: "?r \<noteq> []" using False by (simp add: trim_space_def)
  obtain t where t: "rev ?l = t @ ?r" using trim_left_suffix by blast
  then have l: "?l = rev ?r @ rev t" by (metis rev_append rev_rev_ident)
  have "hd (rev ?r @ rev t) = hd (rev ?r)" using r by (simp add: hd_append)
  then have h: "hd ?l = hd (rev ?r)" using trans [OF arg_cong [OF l, of hd]] by blast
  have "trim_left [] = []" by (simp add: trim_left_def)
  then have "?l \<noteq> []" using r by auto
  then have "\<not> is_space (hd (rev ?r))" using trim_left_trim [of s] h by simp
  moreover have "\<not> is_space (last (rev ?r))" using trim_left_trim [of "rev ?l"] r by (simp add: last_rev)
  ultimately show ?thesis using False trim_space_id by (simp add: trim_space_def)
next
  case True
  have "trim_space [] = []" by (simp add: trim_space_def trim_left_def)
  then show ?thesis using True by (simp only:)
qed

lemma bearer_token:
  assumes "token \<noteq> []" and "trim_space token = token"
  shows "tokenOK opts (health_request remote (health_header token)) \<longleftrightarrow> co_Token opts = token"
proof -
  have k: "canonical_key ''Authorization'' = ''Authorization''" by code_simp
  have "cut CHR '' '' (''Bearer'' @ CHR '' '' # token) = Some (''Bearer'', token)" by (rule cut_append) simp
  then have "cut CHR '' '' (''Bearer '' @ token) = Some (''Bearer'', token)" by simp
  then show ?thesis
    using assms by (auto simp: tokenOK_def health_request_def health_header_def header_get_def k equal_fold_def)
qed

lemma loopback_allowed:
  assumes "loopbackClient remote"
  shows "ctl_checkClient opts remote = None"
  using assms by (auto simp: ctl_checkClient_def loopbackClient_def Let_def split: option.splits)

lemma health_status:
  assumes "loopbackClient remote"
  shows "control_send opts now remote p h =
     Inr (if co_Token opts \<noteq> [] \<and> \<not> tokenOK opts (health_request remote h) then 401 else 200)"
proof -
  have m: "mux_route ''GET'' (Some [''healthz'']) = Inr RHealth" by (simp add: mux_route_def)
  have g: "\<not> requiresMutationAuth (health_request remote h)"
    by (simp add: requiresMutationAuth_def health_request_def)
  show ?thesis
    using m g loopback_allowed [OF assms]
    by (auto simp: control_send_def ctl_ServeHTTP_def ctl_gate_def ctl_handle_def health_request_def)
qed

lemma health_sent:
  assumes "loopbackClient remote" and "health_token files tokenFile = Inr token"
  shows "runHealthcheck files True (\<lambda>h. case link of None \<Rightarrow> control_send opts now remote p h | Some c \<Rightarrow> Inl c) tokenFile =
     (if \<not> validHeaderValue token then Some ProbeTransport
      else case link of
             Some c \<Rightarrow> Some (if c then ProbeInterrupted else ProbeTransport)
           | None \<Rightarrow> if co_Token opts \<noteq> [] \<and> co_Token opts \<noteq> token then Some (ProbeStatus 401) else None)"
proof (cases "tokenFile = []")
  case True
  have "\<not> tokenOK opts (health_request remote fmempty)"
    by (simp add: tokenOK_def health_request_def header_get_def)
  moreover have "validHeaderValue []" by (simp add: validHeaderValue_def)
  moreover have "token = []" using assms(2) True by (simp add: health_token_def)
  ultimately show ?thesis
    using assms health_status [OF assms(1), of opts now p fmempty]
    by (simp add: runHealthcheck_def health_header_def fm_get_def split: option.splits)
next
  case False
  then obtain raw where raw: "token = trim_space raw" "token \<noteq> []"
    using assms(2) by (auto simp: health_token_def Let_def split: option.splits if_splits)
  have v: "validHeaderValue (''Bearer '' @ token) \<longleftrightarrow> validHeaderValue token"
    by (simp add: validHeaderValue_def less_eq_char_def)
  have b: "tokenOK opts (health_request remote (health_header token)) \<longleftrightarrow> co_Token opts = token"
    by (rule bearer_token) (use raw trim_space_idem in simp_all)
  have h: "concat (fm_get [] (health_header token) ''Authorization'') = ''Bearer '' @ token"
    using raw by (simp add: health_header_def fm_get_def)
  show ?thesis
    using v b h assms(2) by (simp add: runHealthcheck_def health_status [OF assms(1)] split: option.splits)
qed



end
